(* ===== verification/GoPrelude.thy ===== *)
theory GoPrelude
  imports Main "HOL-Library.Char_ord"
begin

text \<open>
  The part of the Go language and of its standard library that the VayuMail
  sources use and that every component shares: byte strings with the functions of
  package \<open>strings\<close>, decimal conversion (\<open>strconv\<close>), the wrap-around of a
  64-bit \<open>int\<close>, time stamps and durations in nanoseconds, and a bounded channel with a
  non-blocking send.

  A Go string or byte slice is an Isabelle \<open>string\<close>, one \<open>char\<close> per byte.
  Case mapping and white space are those of ASCII: on bytes from 0x80 upwards
  \<open>lower_char\<close> is the identity and \<open>is_space\<close> is false.
\<close>

named_theorems go_simps \<open>characteristic equations of the Go library functions\<close>
named_theorems tables \<open>definitions of the store operations\<close>

type_synonym bytes = string
type_synonym ('e, 'a) result = "'e + 'a"

section \<open>Strings\<close>

abbreviation quote_char :: char where "quote_char \<equiv> CHR 0x22"

definition lower_char :: "char \<Rightarrow> char" where
  "lower_char c = (if CHR ''A'' \<le> c \<and> c \<le> CHR ''Z'' then char_of (of_char c + (32::nat)) else c)"

definition upper_char :: "char \<Rightarrow> char" where
  "upper_char c = (if CHR ''a'' \<le> c \<and> c \<le> CHR ''z'' then char_of (of_char c - (32::nat)) else c)"

definition to_lower :: "string \<Rightarrow> string" where
  "to_lower s = map lower_char s"

definition to_upper :: "string \<Rightarrow> string" where
  "to_upper s = map upper_char s"

definition equal_fold :: "string \<Rightarrow> string \<Rightarrow> bool" where
  "equal_fold s t \<longleftrightarrow> to_lower s = to_lower t"

definition is_space :: "char \<Rightarrow> bool" where
  "is_space c \<longleftrightarrow> c \<in> {CHR 0x09, CHR 0x0A, CHR 0x0B, CHR 0x0C, CHR 0x0D, CHR '' ''}"

definition trim_right_by :: "(char \<Rightarrow> bool) \<Rightarrow> string \<Rightarrow> string" where
  "trim_right_by P s = rev (dropWhile P (rev s))"

definition trim_by :: "(char \<Rightarrow> bool) \<Rightarrow> string \<Rightarrow> string" where
  "trim_by P s = trim_right_by P (dropWhile P s)"

definition trim_space :: "string \<Rightarrow> string" where
  "trim_space s = trim_by is_space s"

definition has_prefix :: "string \<Rightarrow> string \<Rightarrow> bool" where
  "has_prefix p s \<longleftrightarrow> take (length p) s = p"

definition has_suffix :: "string \<Rightarrow> string \<Rightarrow> bool" where
  "has_suffix p s \<longleftrightarrow> length p \<le> length s \<and> drop (length s - length p) s = p"

fun str_index :: "string \<Rightarrow> string \<Rightarrow> nat option" where
  "str_index p [] = (if p = [] then Some 0 else None)"
| "str_index p (c # s) =
     (if has_prefix p (c # s) then Some 0 else map_option Suc (str_index p s))"

definition contains_str :: "string \<Rightarrow> string \<Rightarrow> bool" where
  "contains_str p s \<longleftrightarrow> str_index p s \<noteq> None"

fun char_index :: "char \<Rightarrow> string \<Rightarrow> nat option" where
  "char_index c [] = None"
| "char_index c (x # s) = (if x = c then Some 0 else map_option Suc (char_index c s))"

definition last_char_index :: "char \<Rightarrow> string \<Rightarrow> nat option" where
  "last_char_index c s = map_option (\<lambda>i. length s - 1 - i) (char_index c (rev s))"

text \<open>\<open>strings.IndexAny\<close>: the first position of a byte satisfying the test.\<close>

fun index_by :: "(char \<Rightarrow> bool) \<Rightarrow> string \<Rightarrow> nat option" where
  "index_by P [] = None"
| "index_by P (x # s) = (if P x then Some 0 else map_option Suc (index_by P s))"

fun split_on :: "char \<Rightarrow> string \<Rightarrow> string list" where
  "split_on d [] = [[]]"
| "split_on d (c # s) =
     (if c = d then [] # split_on d s
      else (case split_on d s of [] \<Rightarrow> [[c]] | w # ws \<Rightarrow> (c # w) # ws))"

fun join_with :: "string \<Rightarrow> string list \<Rightarrow> string" where
  "join_with sep [] = []"
| "join_with sep [w] = w"
| "join_with sep (w # ws) = w @ sep @ join_with sep ws"

definition str_fields :: "string \<Rightarrow> string list" where
  "str_fields s = filter (\<lambda>w. w \<noteq> []) (split_on CHR '' '' (map (\<lambda>c. if is_space c then CHR '' '' else c) s))"

text \<open>\<open>strings.ReplaceAll\<close> for a non-empty pattern.\<close>

function replace_all :: "string \<Rightarrow> string \<Rightarrow> string \<Rightarrow> string" where
  "replace_all old new s =
     (if s = [] \<or> old = [] then s
      else if has_prefix old s then new @ replace_all old new (drop (length old) s)
      else hd s # replace_all old new (tl s))"
  by pat_completeness auto
termination
  by (relation "measure (\<lambda>(old, new, s). length s)") auto

declare replace_all.simps [simp del]

text \<open>\<open>io.ReadAll\<close> of an \<open>io.LimitReader\<close>: \<open>body\<close> is what arrives, \<open>ok\<close> that it ends without an
  error.\<close>

definition read_limited :: "nat \<Rightarrow> string \<Rightarrow> bool \<Rightarrow> string option" where
  "read_limited n body ok = (if ok \<or> n \<le> length body then Some (take n body) else None)"

text \<open>The first \<open>n\<close> runes of a UTF-8 text: bytes 0x80 to 0xBF continue a rune.\<close>

fun take_runes :: "nat \<Rightarrow> string \<Rightarrow> string" where
  "take_runes n [] = []"
| "take_runes n (c # s) =
     (if CHR 0x80 \<le> c \<and> c \<le> CHR 0xBF then c # take_runes n s
      else if n = 0 then [] else c # take_runes (n - 1) s)"

definition crlf :: string where "crlf = [CHR 0x0D, CHR 0x0A]"
definition lf :: string where "lf = [CHR 0x0A]"

subsection \<open>Characteristic lemmas\<close>

lemma has_prefix_iff [go_simps]: "has_prefix p s \<longleftrightarrow> (\<exists>t. s = p @ t)"
  by (metis append_eq_conv_conj append_take_drop_id has_prefix_def)

lemma has_suffix_iff [go_simps]: "has_suffix p s \<longleftrightarrow> (\<exists>t. s = t @ p)"
  unfolding has_suffix_def
  by (metis add_diff_cancel_right' append_eq_conv_conj append_take_drop_id le_add2 length_append)

lemma has_suffix_refl [simp]: "has_suffix p p"
  by (simp add: has_suffix_def)

lemma has_suffix_append [simp]: "has_suffix p (t @ p)"
  by (auto simp: has_suffix_iff)

lemma str_index_Some: "str_index p s = Some i \<Longrightarrow> \<exists>t. s = take i s @ p @ t \<and> i \<le> length s"
proof (induction p s arbitrary: i rule: str_index.induct)
  case (1 p)
  then show ?case by (auto split: if_splits)
next
  case (2 p c s)
  show ?case
  proof (cases "has_prefix p (c # s)")
    case True
    with 2 show ?thesis by (auto simp: has_prefix_iff)
  next
    case False
    with 2 obtain j where "str_index p s = Some j" and "i = Suc j" by auto
    with 2(1)[OF False] show ?thesis by auto
  qed
qed

lemma contains_str_iff [go_simps]: "contains_str p s \<longleftrightarrow> (\<exists>a b. s = a @ p @ b)"
proof
  assume "contains_str p s"
  then show "\<exists>a b. s = a @ p @ b"
    unfolding contains_str_def by (metis not_None_eq str_index_Some)
next
  assume "\<exists>a b. s = a @ p @ b"
  then obtain a b where "s = a @ p @ b" by blast
  then show "contains_str p s"
  proof (induction a arbitrary: s)
    case Nil
    then have "has_prefix p s" by (auto simp: has_prefix_iff)
    then show ?case by (cases s) (auto simp: contains_str_def has_prefix_def)
  next
    case (Cons c a)
    then show ?case by (auto simp: contains_str_def)
  qed
qed

lemma str_index_first:
  "str_index p s = Some i \<Longrightarrow> j < i \<Longrightarrow> \<not> has_prefix p (drop j s)"
proof (induction p s arbitrary: i j rule: str_index.induct)
  case (1 p)
  then show ?case by (auto split: if_splits)
next
  case (2 p c s)
  then show ?case by (cases j) (auto split: if_splits)
qed

lemma char_index_None [simp]: "char_index c s = None \<longleftrightarrow> c \<notin> set s"
  by (induction s) auto

lemma char_index_Some:
  "char_index c s = Some i \<Longrightarrow> s = take i s @ c # drop (Suc i) s \<and> i < length s \<and> c \<notin> set (take i s)"
  by (induction s arbitrary: i) (auto split: if_splits)

lemma index_by_None [simp]: "index_by P s = None \<longleftrightarrow> (\<forall>c \<in> set s. \<not> P c)"
  by (induction s) auto

lemma index_by_Some:
  "index_by P s = Some i \<Longrightarrow> i < length s \<and> P (s ! i) \<and> (\<forall>c \<in> set (take i s). \<not> P c)"
  by (induction s arbitrary: i) (auto split: if_splits)

lemma split_on_nonempty [simp]: "split_on d s \<noteq> []"
  by (induction d s rule: split_on.induct) (auto split: list.splits)

lemma join_with_Cons: "ws \<noteq> [] \<Longrightarrow> join_with sep (w # ws) = w @ sep @ join_with sep ws"
  by (cases ws) auto

lemma join_split_on: "join_with [d] (split_on d s) = s"
proof (induction d s rule: split_on.induct)
  case (1 d)
  then show ?case by simp
next
  case (2 d c s)
  show ?case
  proof (cases "c = d")
    case True
    with 2 show ?thesis by (simp add: join_with_Cons)
  next
    case False
    obtain w ws where w: "split_on d s = w # ws" by (cases "split_on d s") auto
    with 2 False show ?thesis by (cases ws) auto
  qed
qed

lemma split_on_no_sep: "w \<in> set (split_on d s) \<Longrightarrow> d \<notin> set w"
proof (induction d s arbitrary: w rule: split_on.induct)
  case (1 d)
  then show ?case by simp
next
  case (2 d c s)
  then show ?case
    by (cases "split_on d s") (auto split: if_splits)
qed

lemma split_on_set: "w \<in> set (split_on d s) \<Longrightarrow> set w \<subseteq> set s"
proof (induction d s arbitrary: w rule: split_on.induct)
  case (1 d)
  then show ?case by simp
next
  case (2 d c s)
  then show ?case
    by (cases "split_on d s") (fastforce split: if_splits)+
qed

lemma set_split_on: "set s \<subseteq> insert d (\<Union>w \<in> set (split_on d s). set w)"
proof (induction d s rule: split_on.induct)
  case (1 d)
  then show ?case by simp
next
  case (2 d c s)
  then show ?case
    by (cases "split_on d s") (auto split: if_splits)
qed

lemma trim_right_by_prefix: "\<exists>t. s = trim_right_by P s @ t"
  unfolding trim_right_by_def
  by (metis rev_append rev_rev_ident takeWhile_dropWhile_id)

lemma trim_by_infix: "\<exists>a b. s = a @ trim_by P s @ b"
  unfolding trim_by_def
  by (metis append.assoc takeWhile_dropWhile_id trim_right_by_prefix)

lemma set_trim_space: "set (trim_space s) \<subseteq> set s"
  unfolding trim_space_def by (metis Un_iff set_append subsetI trim_by_infix)

lemma trim_right_by_last: "trim_right_by P s \<noteq> [] \<Longrightarrow> \<not> P (last (trim_right_by P s))"
  unfolding trim_right_by_def by (metis hd_dropWhile last_rev rev_is_Nil_conv)

lemma trim_right_by_hd:
  "trim_right_by P s \<noteq> [] \<Longrightarrow> hd (trim_right_by P s) = hd s"
  by (metis append_Nil append_is_Nil_conv hd_append2 trim_right_by_prefix)

lemma trim_by_hd: "trim_by P s \<noteq> [] \<Longrightarrow> \<not> P (hd (trim_by P s))"
  unfolding trim_by_def
  by (metis dropWhile.simps(1) hd_dropWhile rev.simps(1) trim_right_by_def trim_right_by_hd)

lemma trim_by_last: "trim_by P s \<noteq> [] \<Longrightarrow> \<not> P (last (trim_by P s))"
  by (simp add: trim_by_def trim_right_by_last)

lemma trim_right_by_id: "s = [] \<or> \<not> P (last s) \<Longrightarrow> trim_right_by P s = s"
  by (cases s rule: rev_cases) (auto simp: trim_right_by_def)

lemma trim_by_id: "s = [] \<or> (\<not> P (hd s) \<and> \<not> P (last s)) \<Longrightarrow> trim_by P s = s"
  unfolding trim_by_def by (cases s) (auto simp: trim_right_by_id)

lemma trim_space_idem [simp]: "trim_space (trim_space s) = trim_space s"
  unfolding trim_space_def by (metis trim_by_hd trim_by_id trim_by_last)

lemma trim_space_Nil [simp]: "trim_space [] = []"
  by (simp add: trim_space_def trim_by_def trim_right_by_def)

lemma of_char_lower [simp]:
  "(of_char (lower_char c) :: nat) =
     (if CHR ''A'' \<le> c \<and> c \<le> CHR ''Z'' then of_char c + 32 else of_char c)"
proof -
  have "CHR ''A'' \<le> c \<and> c \<le> CHR ''Z'' \<Longrightarrow> (of_char c :: nat) + 32 < 256"
    by (simp add: less_eq_char_def)
  then show ?thesis by (simp add: lower_char_def)
qed

lemma lower_char_idem [simp]: "lower_char (lower_char c) = lower_char c"
proof (cases "CHR ''A'' \<le> c \<and> c \<le> CHR ''Z''")
  case True
  then have "\<not> (lower_char c \<le> CHR ''Z'')" by (simp add: less_eq_char_def)
  then show ?thesis by (simp add: lower_char_def [of "lower_char c"])
next
  case False
  then have "lower_char c = c" by (auto simp: lower_char_def)
  then show ?thesis by simp
qed

lemma to_lower_idem [simp]: "to_lower (to_lower s) = to_lower s"
  by (simp add: to_lower_def)

lemma to_lower_append [simp]: "to_lower (s @ t) = to_lower s @ to_lower t"
  by (simp add: to_lower_def)

lemma length_to_lower [simp]: "length (to_lower s) = length s"
  by (simp add: to_lower_def)

lemma to_lower_Nil [simp]: "to_lower [] = []" "to_lower s = [] \<longleftrightarrow> s = []"
  by (simp_all add: to_lower_def)

lemma equal_fold_refl [simp]: "equal_fold s s"
  by (simp add: equal_fold_def)

lemma equal_fold_sym: "equal_fold s t \<longleftrightarrow> equal_fold t s"
  by (auto simp: equal_fold_def)

lemma equal_fold_trans: "equal_fold s t \<Longrightarrow> equal_fold t u \<Longrightarrow> equal_fold s u"
  by (simp add: equal_fold_def)

lemma equal_fold_to_lower [simp]: "equal_fold (to_lower s) t = equal_fold s t"
  by (simp add: equal_fold_def)

section \<open>Integers\<close>

text \<open>A Go \<open>int\<close> (and \<open>int64\<close>) is an \<open>int\<close> in the signed 64-bit range;
  \<open>wrap64\<close> is the two's complement reduction after an arithmetic operation.\<close>

abbreviation max_int64 :: int where "max_int64 \<equiv> 9223372036854775807"
abbreviation min_int64 :: int where "min_int64 \<equiv> -9223372036854775808"

definition wrap64 :: "int \<Rightarrow> int" where
  "wrap64 x = (x + 9223372036854775808) mod 18446744073709551616 - 9223372036854775808"

lemma wrap64_id [simp]: "min_int64 \<le> x \<Longrightarrow> x \<le> max_int64 \<Longrightarrow> wrap64 x = x"
  by (simp add: wrap64_def)

lemma wrap64_range: "min_int64 \<le> wrap64 x \<and> wrap64 x \<le> max_int64"
  unfolding wrap64_def
  using pos_mod_bound [of 18446744073709551616 "x + 9223372036854775808"]
    pos_mod_sign [of 18446744073709551616 "x + 9223372036854775808"] by linarith

lemma wrap64_low: "min_int64 - 18446744073709551616 \<le> x \<Longrightarrow> x < min_int64 \<Longrightarrow> wrap64 x = x + 18446744073709551616"
proof -
  assume b: "min_int64 - 18446744073709551616 \<le> x" "x < min_int64"
  have "(x + 9223372036854775808) mod 18446744073709551616
      = (x + 9223372036854775808 + 18446744073709551616) mod (18446744073709551616::int)"
    by (rule mod_add_self2 [symmetric])
  also have "\<dots> = x + 9223372036854775808 + 18446744073709551616"
    by (rule mod_pos_pos_trivial) (use b in simp_all)
  finally show ?thesis by (simp add: wrap64_def)
qed

lemma wrap64_diff: "wrap64 (wrap64 x - y) = wrap64 (x - y)"
proof -
  have "((x + 9223372036854775808) mod 18446744073709551616 - y) mod 18446744073709551616
      = (x + 9223372036854775808 - y) mod (18446744073709551616::int)"
    by (rule mod_diff_left_eq)
  then show ?thesis by (simp add: wrap64_def algebra_simps)
qed

subsection \<open>Decimal conversion (\<open>strconv\<close>)\<close>

definition digit_char :: "nat \<Rightarrow> char" where
  "digit_char d = char_of (48 + d)"

definition is_digit :: "char \<Rightarrow> bool" where
  "is_digit c \<longleftrightarrow> CHR ''0'' \<le> c \<and> c \<le> CHR ''9''"

definition digit_val :: "char \<Rightarrow> nat" where
  "digit_val c = of_char c - 48"

fun format_nat :: "nat \<Rightarrow> string" where
  "format_nat n = (if n < 10 then [digit_char n] else format_nat (n div 10) @ [digit_char (n mod 10)])"

declare format_nat.simps [simp del]

definition itoa :: "int \<Rightarrow> string" where
  "itoa i = (if i < 0 then CHR ''-'' # format_nat (nat (- i)) else format_nat (nat i))"

definition digits_val :: "string \<Rightarrow> nat" where
  "digits_val s = foldl (\<lambda>a c. 10 * a + digit_val c) 0 s"

datatype num_error = ErrSyntax | ErrRange int

text \<open>\<open>strconv.ParseInt(s, 10, 64)\<close>: an optional sign and at least one digit; a value out
  of range is reported with the nearest bound, as \<open>*NumError\<close> documents.\<close>

definition parse_int :: "string \<Rightarrow> num_error + int" where
  "parse_int s =
     (let neg = (s \<noteq> [] \<and> hd s = CHR ''-'');
          ds = (if s \<noteq> [] \<and> (hd s = CHR ''-'' \<or> hd s = CHR ''+'') then tl s else s)
      in if ds = [] \<or> \<not> list_all is_digit ds then Inl ErrSyntax
         else let v = (if neg then - int (digits_val ds) else int (digits_val ds))
              in if v < min_int64 then Inl (ErrRange min_int64)
                 else if v > max_int64 then Inl (ErrRange max_int64)
                 else Inr v)"

text \<open>\<open>n, _ := strconv.Atoi(s)\<close>: the value with the error dropped.\<close>

definition atoi_value :: "string \<Rightarrow> int" where
  "atoi_value s = (case parse_int s of Inr v \<Rightarrow> v | Inl (ErrRange v) \<Rightarrow> v | Inl ErrSyntax \<Rightarrow> 0)"

lemma is_digit_char [simp]: "d < 10 \<Longrightarrow> is_digit (digit_char d)"
  by (simp add: is_digit_def digit_char_def less_eq_char_def)

lemma digit_val_char [simp]: "d < 10 \<Longrightarrow> digit_val (digit_char d) = d"
  by (simp add: digit_val_def digit_char_def)

lemma digits_val_snoc [simp]: "digits_val (s @ [c]) = 10 * digits_val s + digit_val c"
  by (simp add: digits_val_def)

lemma format_nat_digits: "format_nat n \<noteq> [] \<and> list_all is_digit (format_nat n)"
proof (induction n rule: format_nat.induct)
  case (1 n)
  then show ?case by (subst (1 2) format_nat.simps) auto
qed

lemma digits_val_format [simp]: "digits_val (format_nat n) = n"
proof (induction n rule: format_nat.induct)
  case (1 n)
  show ?case
  proof (cases "n < 10")
    case True
    then show ?thesis by (subst format_nat.simps) (simp add: digits_val_def)
  next
    case False
    with 1 show ?thesis by (subst format_nat.simps) simp
  qed
qed

lemma is_digit_not_sign: "is_digit c \<Longrightarrow> c \<noteq> CHR ''-'' \<and> c \<noteq> CHR ''+''"
  by (auto simp: is_digit_def less_eq_char_def)

lemma hd_format_nat: "is_digit (hd (format_nat n))"
  using format_nat_digits [of n] by (cases "format_nat n") auto

lemma parse_itoa [simp]:
  assumes "min_int64 \<le> i" "i \<le> max_int64"
  shows "parse_int (itoa i) = Inr i"
proof (cases "i < 0")
  case True
  have "format_nat (nat (- i)) \<noteq> []" "list_all is_digit (format_nat (nat (- i)))"
    by (simp_all add: format_nat_digits)
  with True assms show ?thesis by (simp add: parse_int_def itoa_def Let_def)
next
  case False
  have d: "format_nat (nat i) \<noteq> []" "list_all is_digit (format_nat (nat i))"
    by (simp_all add: format_nat_digits)
  have "hd (format_nat (nat i)) \<noteq> CHR ''-''" "hd (format_nat (nat i)) \<noteq> CHR ''+''"
    using is_digit_not_sign [OF hd_format_nat] by auto
  with False assms d show ?thesis by (simp add: parse_int_def itoa_def Let_def)
qed

lemma itoa_nonempty [simp]: "itoa i \<noteq> []"
  by (simp add: itoa_def format_nat_digits)

lemma atoi_itoa [simp]: "min_int64 \<le> i \<Longrightarrow> i \<le> max_int64 \<Longrightarrow> atoi_value (itoa i) = i"
  by (simp add: atoi_value_def)

lemma atoi_Nil [simp]: "atoi_value [] = 0"
  by (simp add: atoi_value_def parse_int_def)

lemma atoi_range: "min_int64 \<le> atoi_value s \<and> atoi_value s \<le> max_int64"
  by (auto simp: atoi_value_def parse_int_def Let_def split: if_splits)

section \<open>Time\<close>

text \<open>A \<open>time.Time\<close> is the number of nanoseconds since the Unix epoch, a \<open>time.Duration\<close> a
  number of nanoseconds. \<open>unix_sec\<close> is \<open>Time.Unix()\<close>, \<open>time_sub\<close> the saturating
  \<open>Time.Sub\<close>.\<close>

abbreviation second :: int where "second \<equiv> 1000000000"
abbreviation minute :: int where "minute \<equiv> 60000000000"

definition unix_sec :: "int \<Rightarrow> int" where
  "unix_sec t = t div second"

definition time_sub :: "int \<Rightarrow> int \<Rightarrow> int" where
  "time_sub t u = (if t - u > max_int64 then max_int64
                   else if t - u < min_int64 then min_int64 else t - u)"

lemma unix_sec_bounds: "second * unix_sec t \<le> t \<and> t < second * unix_sec t + second"
  unfolding unix_sec_def using pos_mod_bound [of second t] pos_mod_sign [of second t]
  by (auto simp: minus_mult_div_eq_mod [symmetric])

lemma time_sub_pos_iff: "time_sub t u > 0 \<longleftrightarrow> t > u"
  by (auto simp: time_sub_def)

section \<open>Bounded channels\<close>

text \<open>\<open>select { case ch <- v: default: }\<close> on a channel of the given capacity, whose buffered
  values are a list: the value is appended when there is room and refused otherwise.\<close>

definition try_send :: "nat \<Rightarrow> 'a \<Rightarrow> 'a list \<Rightarrow> bool \<times> 'a list" where
  "try_send cap v buf = (if length buf < cap then (True, buf @ [v]) else (False, buf))"

lemma try_send_bounded: "length buf \<le> cap \<Longrightarrow> length (snd (try_send cap v buf)) \<le> cap"
  by (simp add: try_send_def)

section \<open>Operations that keep an invariant\<close>

text \<open>The contract every stateful component of the program is shown to meet: each of its
  operations keeps the component's invariant, hence so does every sequence of them.\<close>

locale preserving =
  fixes step :: "'op \<Rightarrow> 's \<Rightarrow> 's"
    and inv :: "'s \<Rightarrow> bool"
  assumes step_inv: "inv s \<Longrightarrow> inv (step p s)"
begin

lemma run_inv: "inv s \<Longrightarrow> inv (fold step ops s)"
  by (induction ops arbitrary: s) (auto simp: step_inv)

lemma prefix_inv: "inv s \<Longrightarrow> inv (fold step (take n ops) s)"
  by (rule run_inv)

end

text \<open>The same for operations with a precondition.\<close>

locale guarded =
  fixes step :: "'op \<Rightarrow> 's \<Rightarrow> 's"
    and inv :: "'s \<Rightarrow> bool"
    and ok :: "'op \<Rightarrow> bool"
  assumes guarded_inv: "inv s \<Longrightarrow> ok p \<Longrightarrow> inv (step p s)"
begin

lemma guarded_run: "inv s \<Longrightarrow> list_all ok ops \<Longrightarrow> inv (fold step ops s)"
  by (induction ops arbitrary: s) (auto simp: guarded_inv)

end

sublocale preserving \<subseteq> unconditional: guarded step inv "\<lambda>_. True"
  by unfold_locales (rule step_inv)

end
