(* ===== verification/Url.thy ===== *)
theory Url
  imports GoPrelude
begin

text \<open>
  \<open>url.Parse\<close> of the Go library (package \<open>net/url\<close>), as the setup code verifier and the
  HTML sanitizer use it: which texts parse, and the scheme, the presence of user information and
  the host of the result, with the methods \<open>Hostname\<close> and \<open>Port\<close>.

  The host between square brackets is an IP literal; whether one is well formed and which
  host text it gives is the argument \<open>lit\<close> of these functions.
\<close>

record url =
  u_Scheme :: string
  u_User :: bool
  u_Host :: string
  u_Path :: string

definition char_range :: "char \<Rightarrow> char \<Rightarrow> char \<Rightarrow> bool" where
  [simp]: "char_range lo hi c \<longleftrightarrow> lo \<le> c \<and> c \<le> hi"

definition is_letter :: "char \<Rightarrow> bool" where
  "is_letter c \<longleftrightarrow> list_ex (\<lambda>(lo, hi). char_range lo hi c) [(CHR ''a'', CHR ''z''), (CHR ''A'', CHR ''Z'')]"

definition is_alnum :: "char \<Rightarrow> bool" where
  "is_alnum c \<longleftrightarrow> is_letter c \<or> is_digit c"

definition is_ctl :: "char \<Rightarrow> bool" where
  "is_ctl c \<longleftrightarrow> c < CHR '' '' \<or> c = CHR 0x7F"

definition is_hex :: "char \<Rightarrow> bool" where
  "is_hex c \<longleftrightarrow> is_digit c \<or> char_range CHR ''a'' CHR ''f'' c \<or> char_range CHR ''A'' CHR ''F'' c"

definition unhex :: "char \<Rightarrow> nat" where
  "unhex c = (if is_digit c then digit_val c
              else if CHR ''a'' \<le> c then of_char c - 97 + 10 else of_char c - 65 + 10)"

definition scheme_char :: "char \<Rightarrow> bool" where
  "scheme_char c \<longleftrightarrow> is_alnum c \<or> c \<in> {CHR ''+'', CHR ''-'', CHR ''.''}"

text \<open>\<open>getScheme\<close>: an error is \<open>None\<close>, no scheme is the empty string.\<close>

definition get_scheme :: "string \<Rightarrow> (string \<times> string) option" where
  "get_scheme s =
     (let sch = takeWhile scheme_char s; rest = dropWhile scheme_char s
      in if rest = [] \<or> hd rest \<noteq> CHR '':'' then Some ([], s)
         else if sch = [] then None
         else if is_letter (hd sch) then Some (sch, tl rest)
         else Some ([], s))"

text \<open>\<open>strings.Cut\<close> at a byte.\<close>

definition cut_at :: "char \<Rightarrow> string \<Rightarrow> string \<times> string" where
  "cut_at c s = (case char_index c s of None \<Rightarrow> (s, []) | Some i \<Rightarrow> (take i s, drop (Suc i) s))"

text \<open>\<open>unescape\<close>, the percent escapes of a path, a fragment or the user information.\<close>

fun unescape :: "string \<Rightarrow> string option" where
  "unescape [] = Some []"
| "unescape (c # s) =
     (if c = CHR ''%'' then
        (case s of
           h # l # r \<Rightarrow> (if is_hex h \<and> is_hex l
                         then map_option (Cons (char_of (16 * unhex h + unhex l))) (unescape r) else None)
         | _ \<Rightarrow> None)
      else map_option (Cons c) (unescape s))"

definition host_char :: "char \<Rightarrow> bool" where
  "host_char c \<longleftrightarrow> is_alnum c \<or> CHR 0x80 \<le> c
     \<or> c \<in> set ''!$&()*+,;=:[]<>-_.~'' \<or> c = CHR 0x27 \<or> c = quote_char"

text \<open>The same for a host: only escapes of bytes from 0x80 on and of the percent sign, and only
  the bytes a host may carry.\<close>

fun unescape_host :: "string \<Rightarrow> string option" where
  "unescape_host [] = Some []"
| "unescape_host (c # s) =
     (if c = CHR ''%'' then
        (case s of
           h # l # r \<Rightarrow> (if is_hex h \<and> is_hex l \<and> (8 \<le> unhex h \<or> h = CHR ''2'' \<and> l = CHR ''5'')
                         then map_option (Cons (char_of (16 * unhex h + unhex l))) (unescape_host r) else None)
         | _ \<Rightarrow> None)
      else if host_char c then map_option (Cons c) (unescape_host s) else None)"

definition valid_optional_port :: "string \<Rightarrow> bool" where
  "valid_optional_port p \<longleftrightarrow> p = [] \<or> hd p = CHR '':'' \<and> list_all is_digit (tl p)"

definition parse_host :: "(string \<Rightarrow> string option) \<Rightarrow> string \<Rightarrow> string option" where
  "parse_host lit h =
     (if CHR ''['' \<in> set h then lit h
      else if (case last_char_index CHR '':'' h of
                 Some i \<Rightarrow> valid_optional_port (drop i h) | None \<Rightarrow> True)
      then unescape_host h else None)"

definition userinfo_char :: "char \<Rightarrow> bool" where
  "userinfo_char c \<longleftrightarrow> is_alnum c \<or> c \<in> set ''-._:~!$&()*+,;=%@'' \<or> c = CHR 0x27"

definition parse_authority :: "(string \<Rightarrow> string option) \<Rightarrow> string \<Rightarrow> (bool \<times> string) option" where
  "parse_authority lit a =
     (case last_char_index CHR ''@'' a of
        None \<Rightarrow> map_option (Pair False) (parse_host lit a)
      | Some i \<Rightarrow>
          (case parse_host lit (drop (Suc i) a) of
             None \<Rightarrow> None
           | Some h \<Rightarrow>
               (let (name, password) = cut_at CHR '':'' (take i a)
                in if \<not> list_all userinfo_char (take i a) \<or> unescape name = None \<or> unescape password = None
                   then None else Some (True, h))))"

definition url_parse_nofrag :: "(string \<Rightarrow> string option) \<Rightarrow> string \<Rightarrow> url option" where
  "url_parse_nofrag lit s =
     (if list_ex is_ctl s then None
      else if s = ''*'' then Some \<lparr>u_Scheme = [], u_User = False, u_Host = [], u_Path = ''*''\<rparr>
      else case get_scheme s of
        None \<Rightarrow> None
      | Some (sch, r) \<Rightarrow>
          (let sch = to_lower sch; rest = fst (cut_at CHR ''?'' r)
           in if \<not> has_prefix ''/'' rest \<and> sch \<noteq> []
              then Some \<lparr>u_Scheme = sch, u_User = False, u_Host = [], u_Path = []\<rparr>
              else if \<not> has_prefix ''/'' rest \<and> CHR '':'' \<in> set (fst (cut_at CHR ''/'' rest)) then None
              else if has_prefix ''//'' rest \<and> (sch \<noteq> [] \<or> \<not> has_prefix ''///'' rest) then
                (let auth = takeWhile (\<lambda>c. c \<noteq> CHR ''/'') (drop 2 rest);
                     path = dropWhile (\<lambda>c. c \<noteq> CHR ''/'') (drop 2 rest)
                 in case (parse_authority lit auth, unescape path) of
                      (Some (user, host), Some p) \<Rightarrow>
                        Some \<lparr>u_Scheme = sch, u_User = user, u_Host = host, u_Path = p\<rparr>
                    | _ \<Rightarrow> None)
              else map_option (\<lambda>p. \<lparr>u_Scheme = sch, u_User = False, u_Host = [], u_Path = p\<rparr>) (unescape rest)))"

definition url_parse :: "(string \<Rightarrow> string option) \<Rightarrow> string \<Rightarrow> url option" where
  "url_parse lit s =
     (let (u, frag) = cut_at CHR ''#'' s
      in case url_parse_nofrag lit u of
           None \<Rightarrow> None
         | Some r \<Rightarrow> (if unescape frag = None then None else Some r))"

text \<open>\<open>splitHostPort\<close> behind \<open>Hostname\<close> and \<open>Port\<close>.\<close>

definition split_host_port :: "string \<Rightarrow> string \<times> string" where
  "split_host_port hp =
     (let (h, p) = (case last_char_index CHR '':'' hp of
                      Some i \<Rightarrow> if valid_optional_port (drop i hp) then (take i hp, drop (Suc i) hp) else (hp, [])
                    | None \<Rightarrow> (hp, []))
      in (if has_prefix ''['' h \<and> has_suffix '']'' h \<and> 2 \<le> length h then butlast (tl h) else h, p))"

definition hostname :: "url \<Rightarrow> string" where
  "hostname u = fst (split_host_port (u_Host u))"

definition port :: "url \<Rightarrow> string" where
  "port u = snd (split_host_port (u_Host u))"

section \<open>Texts of parsed URLs\<close>

lemma cut_at_split: "cut_at c s = (a, b) \<Longrightarrow> (s = a \<and> b = [] \<and> c \<notin> set a) \<or> (s = a @ c # b \<and> c \<notin> set a)"
  by (auto simp: cut_at_def split: option.splits dest: char_index_Some)

lemma last_char_index_Some:
  assumes "last_char_index c s = Some i"
  shows "s = take i s @ c # drop (Suc i) s \<and> i < length s \<and> c \<notin> set (drop (Suc i) s)"
proof -
  obtain j where j: "char_index c (rev s) = Some j" and i: "i = length s - 1 - j"
    using assms by (auto simp: last_char_index_def)
  from char_index_Some [OF j] have
    s: "rev s = take j (rev s) @ c # drop (Suc j) (rev s)" and l: "j < length s" and n: "c \<notin> set (take j (rev s))"
    by auto
  have "s = rev (drop (Suc j) (rev s)) @ c # rev (take j (rev s))"
    using arg_cong [OF s, of rev] by simp
  moreover have "rev (drop (Suc j) (rev s)) = take i s" "rev (take j (rev s)) = drop (Suc i) s"
    using l i by (simp_all add: rev_drop rev_take Suc_diff_Suc)
  moreover have "c \<notin> set (rev (take j (rev s)))" using n by simp
  moreover have "i < length s" using l i by simp
  ultimately show ?thesis by simp
qed

lemma last_char_index_None [simp]: "last_char_index c s = None \<longleftrightarrow> c \<notin> set s"
  by (simp add: last_char_index_def)

lemma unhex_lt: "is_hex c \<Longrightarrow> unhex c < 16"
  by (auto simp: is_hex_def unhex_def is_digit_def digit_val_def less_eq_char_def)

lemma escape_not_ascii:
  assumes "is_hex h" "is_hex l" "8 \<le> unhex h"
  shows "CHR 0x80 \<le> (char_of (16 * unhex h + unhex l) :: char)"
proof -
  have "16 * unhex h + unhex l < 256" "128 \<le> 16 * unhex h + unhex l"
    using assms unhex_lt [of h] unhex_lt [of l] by linarith+
  then show ?thesis by (simp add: less_eq_char_def)
qed

lemma escape_percent: "char_of (16 * unhex CHR ''2'' + unhex CHR ''5'') = CHR ''%''"
  by code_simp

lemma unescape_host_Cons_Some:
  assumes "unescape_host (c # s) = Some h"
  obtains t where "c \<noteq> CHR ''%''" "host_char c" "unescape_host s = Some t" "h = c # t"
  | d t where "h = d # t" "d = CHR ''%'' \<or> CHR 0x80 \<le> d"
proof (cases "c = CHR ''%''")
  case True
  then obtain a l r t where "is_hex a" "is_hex l" "8 \<le> unhex a \<or> a = CHR ''2'' \<and> l = CHR ''5''"
    "h = char_of (16 * unhex a + unhex l) # t"
    using assms by (simp split: list.splits if_splits) blast
  then have "char_of (16 * unhex a + unhex l) = CHR ''%'' \<or> CHR 0x80 \<le> (char_of (16 * unhex a + unhex l) :: char)"
    using escape_not_ascii escape_percent by metis
  with that(2) \<open>h = _\<close> show ?thesis by blast
next
  case False
  then show ?thesis using assms that(1) by (auto split: if_splits)
qed

text \<open>A host of plain ASCII without a percent sign was written as such in the URL.\<close>

lemma unescape_host_ascii:
  "unescape_host s = Some h \<Longrightarrow> list_all (\<lambda>c. c \<noteq> CHR ''%'' \<and> \<not> CHR 0x80 \<le> c) h \<Longrightarrow> h = s"
proof (induction s arbitrary: h)
  case (Cons c s)
  from Cons(2) show ?case
    by (cases rule: unescape_host_Cons_Some) (use Cons in auto)
qed simp

lemma cut_at_fst:
  obtains t where "s = fst (cut_at c s) @ t" "t = [] \<or> hd t = c" "c \<notin> set (fst (cut_at c s))"
  using cut_at_split [of c s "fst (cut_at c s)" "snd (cut_at c s)"] by (metis append_Nil2 list.sel(1) prod.collapse)

lemma get_scheme_Some:
  "get_scheme s = Some (sch, r) \<Longrightarrow> sch \<noteq> [] \<Longrightarrow> s = sch @ '':'' @ r"
proof -
  assume g: "get_scheme s = Some (sch, r)" and n: "sch \<noteq> []"
  define rest where "rest = dropWhile scheme_char s"
  have "s = takeWhile scheme_char s @ rest" by (simp add: rest_def)
  moreover have "rest \<noteq> []" "hd rest = CHR '':''" "sch = takeWhile scheme_char s" "r = tl rest"
    using g n by (auto simp: get_scheme_def Let_def rest_def [symmetric] split: if_splits)
  ultimately show ?thesis by (cases rest) auto
qed

text \<open>A URL with a scheme and a host names its authority verbatim: after the scheme and two slashes,
  up to the next slash, question mark, hash or the end.\<close>

lemma url_parse_authority:
  assumes "url_parse lit s = Some u" "u_Scheme u \<noteq> []" "u_Host u \<noteq> []"
  obtains sch auth rest where "s = sch @ ''://'' @ auth @ rest" "to_lower sch = u_Scheme u"
    "set auth \<inter> set ''/?#'' = {}" "rest = [] \<or> hd rest \<in> set ''/?#''"
    "parse_authority lit auth = Some (u_User u, u_Host u)"
proof -
  define w where "w = fst (cut_at CHR ''#'' s)"
  obtain t1 where t1: "s = w @ t1" "t1 = [] \<or> hd t1 = CHR ''#''" "CHR ''#'' \<notin> set w"
    unfolding w_def by (rule cut_at_fst)
  have nf: "url_parse_nofrag lit w = Some u"
    using assms(1) by (auto simp: url_parse_def w_def Let_def split: prod.splits option.splits if_splits)
  obtain sch r where gs: "get_scheme w = Some (sch, r)"
    using nf assms(3) by (auto simp: url_parse_nofrag_def split: if_splits option.splits)
  define q where "q = fst (cut_at CHR ''?'' r)"
  obtain t2 where t2: "r = q @ t2" "t2 = [] \<or> hd t2 = CHR ''?''" "CHR ''?'' \<notin> set q"
    unfolding q_def by (rule cut_at_fst)
  define auth where "auth = takeWhile (\<lambda>c. c \<noteq> CHR ''/'') (drop 2 q)"
  define path where "path = dropWhile (\<lambda>c. c \<noteq> CHR ''/'') (drop 2 q)"
  have sl: "has_prefix ''//'' q" and ls: "to_lower sch = u_Scheme u"
    and pa: "parse_authority lit auth = Some (u_User u, u_Host u)"
    using nf gs assms(2,3)
    by (auto simp: url_parse_nofrag_def Let_def q_def [symmetric] auth_def path_def
        split: if_splits option.splits)
  have "sch \<noteq> []" using ls assms(2) by auto
  then have w: "w = sch @ '':'' @ r" by (rule get_scheme_Some [OF gs])
  have q: "q = ''//'' @ auth @ path"
    using sl by (auto simp: has_prefix_iff auth_def path_def)
  have p: "path = [] \<or> hd path = CHR ''/''"
    unfolding path_def using hd_dropWhile [of "\<lambda>c. c \<noteq> CHR ''/''" "drop 2 q"] by auto
  have "s = sch @ ''://'' @ auth @ (path @ t2 @ t1)" using t1 t2 w q by simp
  moreover have "path @ t2 @ t1 = [] \<or> hd (path @ t2 @ t1) \<in> set ''/?#''"
    using t1(2) t2(2) p by (cases path; cases t2; cases t1) auto
  moreover have "set auth \<inter> set ''/?#'' = {}"
  proof -
    have "CHR ''/'' \<notin> set auth" unfolding auth_def by (auto dest: set_takeWhileD)
    moreover have "CHR ''?'' \<notin> set auth" "CHR ''#'' \<notin> set auth"
      using t1(3) t2 w q by auto
    ultimately show ?thesis by auto
  qed
  ultimately show thesis using that ls pa by blast
qed

text \<open>The plain host of such a URL, with an optional port, is its whole authority.\<close>

lemma split_host_port_join:
  assumes "split_host_port a = (h, p)" "CHR ''['' \<notin> set a"
  obtains "a = h" "p = []" | "a = h @ '':'' @ p" "list_all is_digit p"
proof (cases "last_char_index CHR '':'' a")
  case None
  have "\<not> has_prefix ''['' a" using assms(2) by (auto simp: has_prefix_iff)
  then have "a = h" "p = []" using None assms(1) unfolding split_host_port_def None by simp_all
  then show ?thesis by (rule that(1))
next
  case (Some i)
  have br: "\<not> (has_prefix ''['' x \<and> Q)" if "set x \<subseteq> set a" for x Q
    using assms(2) that by (auto simp: has_prefix_iff)
  have a: "a = take i a @ CHR '':'' # drop (Suc i) a" and "i < length a"
    using last_char_index_Some [OF Some] by auto
  have d: "drop i a = CHR '':'' # drop (Suc i) a"
    using \<open>i < length a\<close> a by (metis Cons_nth_drop_Suc nth_append_length length_take min.absorb4)
  show ?thesis
  proof (cases "valid_optional_port (drop i a)")
    case True
    then have "h = take i a" "p = drop (Suc i) a" "list_all is_digit p"
      using assms(1) Some br [of "take i a"] d
      by (auto simp: split_host_port_def Let_def set_take_subset valid_optional_port_def)
    then show ?thesis using that(2) a by simp
  next
    case False
    then show ?thesis using that(1) assms(1) Some br [of a]
      by (auto simp: split_host_port_def Let_def)
  qed
qed

lemma unescape_host_set:
  "unescape_host s = Some h \<Longrightarrow> set h \<subseteq> set s \<union> {c. c = CHR ''%'' \<or> CHR 0x80 \<le> c}"
proof (induction s arbitrary: h rule: unescape_host.induct)
  case 1
  then show ?case by simp
next
  case (2 c s)
  show ?case
  proof (cases "c = CHR ''%''")
    case True
    then obtain a l r t where s: "s = a # l # r" and hex: "is_hex a" "is_hex l" "8 \<le> unhex a \<or> a = CHR ''2'' \<and> l = CHR ''5''"
      and h: "h = char_of (16 * unhex a + unhex l) # t" and t: "unescape_host r = Some t"
      using 2(3) by (simp split: list.splits if_splits) blast
    have "set t \<subseteq> set r \<union> {c. c = CHR ''%'' \<or> CHR 0x80 \<le> c}"
      using 2(1) [OF True s refl _ t] hex s by simp
    moreover have "char_of (16 * unhex a + unhex l) = CHR ''%'' \<or> CHR 0x80 \<le> (char_of (16 * unhex a + unhex l) :: char)"
      using hex escape_not_ascii escape_percent by metis
    ultimately show ?thesis using s h by auto
  next
    case False
    then show ?thesis using 2 by (auto split: if_splits)
  qed
qed

end
