(* ===== verification/Base64.thy ===== *)
theory Base64
  imports GoPrelude
begin

text \<open>
  \<open>base64.StdEncoding\<close> of the Go library, as the sealed keystore and the app lock use it: the
  padded encoding, and the decoder, which skips CR and LF and leaves unused trailing bits
  unchecked. \<open>base64.RawURLEncoding\<close>, which setup codes use, is the unpadded variant over
  the alphabet with minus and underscore.
\<close>

definition b64_alphabet :: string where
  "b64_alphabet = ''ABCDEFGHIJKLMNOPQRSTUVWXYZabcdefghijklmnopqrstuvwxyz0123456789+/''"

definition b64_char :: "nat \<Rightarrow> char" where
  "b64_char n = b64_alphabet ! n"

definition b64_val :: "char \<Rightarrow> nat option" where
  "b64_val c = char_index c b64_alphabet"

fun b64_encode :: "bytes \<Rightarrow> string" where
  "b64_encode [] = []"
| "b64_encode [a] =
     (let x = of_char a :: nat
      in [b64_char (x div 4), b64_char (x mod 4 * 16), CHR ''='', CHR ''=''])"
| "b64_encode [a, b] =
     (let x = of_char a :: nat; y = of_char b :: nat
      in [b64_char (x div 4), b64_char (x mod 4 * 16 + y div 16), b64_char (y mod 16 * 4), CHR ''=''])"
| "b64_encode (a # b # c # r) =
     (let x = of_char a :: nat; y = of_char b :: nat; z = of_char c :: nat
      in [b64_char (x div 4), b64_char (x mod 4 * 16 + y div 16),
          b64_char (y mod 16 * 4 + z div 64), b64_char (z mod 64)] @ b64_encode r)"

fun b64_decode_quads :: "string \<Rightarrow> bytes option" where
  "b64_decode_quads [] = Some []"
| "b64_decode_quads (p # q # r # s # rest) =
     (case (b64_val p, b64_val q) of
        (Some a, Some b) \<Rightarrow>
          if r = CHR ''='' then
            (if s = CHR ''='' \<and> rest = [] then Some [char_of (a * 4 + b div 16)] else None)
          else (case b64_val r of
            None \<Rightarrow> None
          | Some c \<Rightarrow>
              if s = CHR ''='' then
                (if rest = [] then Some [char_of (a * 4 + b div 16), char_of (b mod 16 * 16 + c div 4)]
                 else None)
              else (case b64_val s of
                None \<Rightarrow> None
              | Some d \<Rightarrow>
                  map_option (\<lambda>t. char_of (a * 4 + b div 16) # char_of (b mod 16 * 16 + c div 4)
                                  # char_of (c mod 4 * 64 + d) # t) (b64_decode_quads rest)))
      | _ \<Rightarrow> None)"
| "b64_decode_quads _ = None"

definition b64_decode :: "string \<Rightarrow> bytes option" where
  "b64_decode s = b64_decode_quads (filter (\<lambda>c. c \<noteq> CHR 0x0D \<and> c \<noteq> CHR 0x0A) s)"

lemma char_index_nth: "distinct xs \<Longrightarrow> n < length xs \<Longrightarrow> char_index (xs ! n) xs = Some n"
proof (induction xs arbitrary: n)
  case (Cons x xs)
  then show ?case by (cases n) auto
qed simp

lemma b64_alphabet_facts: "distinct b64_alphabet" "length b64_alphabet = 64"
  "list_all (\<lambda>c. c \<noteq> CHR ''='' \<and> c \<noteq> CHR 0x0D \<and> c \<noteq> CHR 0x0A) b64_alphabet"
  by (simp_all add: b64_alphabet_def)

lemma b64_val_char [simp]: "n < 64 \<Longrightarrow> b64_val (b64_char n) = Some n"
  by (simp add: b64_val_def b64_char_def char_index_nth b64_alphabet_facts)

lemma b64_char_plain [simp]:
  "n < 64 \<Longrightarrow> b64_char n \<noteq> CHR ''=''" "n < 64 \<Longrightarrow> b64_char n \<noteq> CHR 0x0D"
  "n < 64 \<Longrightarrow> b64_char n \<noteq> CHR 0x0A"
  using b64_alphabet_facts by (auto simp: b64_char_def list_all_length)

lemma of_char_lt [simp]: "(of_char c :: nat) < 256"
  by simp

text \<open>The four sextets of three bytes, and how they recombine.\<close>

lemma b64_bounds:
  fixes x y z :: nat
  assumes "x < 256" "y < 256" "z < 256"
  shows "x div 4 < 64" "x mod 4 * 16 < 64" "x mod 4 * 16 + y div 16 < 64" "y mod 16 * 4 < 64"
    "y mod 16 * 4 + z div 64 < 64" "z mod 64 < 64"
proof -
  have "x mod 4 \<le> 3" "y mod 16 \<le> 15" by (simp_all add: mod_less_eq_dividend less_Suc_eq_le [symmetric])
  moreover have "y div 16 \<le> 15" "z div 64 \<le> 3" "x div 4 \<le> 63" using assms by linarith+
  ultimately show "x div 4 < 64" "x mod 4 * 16 < 64" "x mod 4 * 16 + y div 16 < 64" "y mod 16 * 4 < 64"
    "y mod 16 * 4 + z div 64 < 64" by linarith+
  show "z mod 64 < 64" by simp
qed

lemma char_reduce:
  "(of_char b :: nat) div 16 div 16 = 0" "(of_char b :: nat) div 16 mod 16 = of_char b div 16"
  "(of_char b :: nat) div 64 div 4 = 0" "(of_char b :: nat) div 64 mod 4 = of_char b div 64"
proof -
  have "(of_char b :: nat) div 16 < 16" "(of_char b :: nat) div 64 < 4"
    using of_char_lt [of b] by linarith+
  then show "(of_char b :: nat) div 16 div 16 = 0" "(of_char b :: nat) div 16 mod 16 = of_char b div 16"
    "(of_char b :: nat) div 64 div 4 = 0" "(of_char b :: nat) div 64 mod 4 = of_char b div 64"
    by simp_all
qed

lemmas char_bounds = b64_bounds [OF of_char_lt of_char_lt of_char_lt]

lemma b64_plain:
  "filter (\<lambda>c. c \<noteq> CHR 0x0D \<and> c \<noteq> CHR 0x0A) (b64_encode bs) = b64_encode bs"
  by (induction bs rule: b64_encode.induct) (simp_all add: Let_def char_bounds)

lemma b64_quads_round_trip: "b64_decode_quads (b64_encode bs) = Some bs"
  by (induction bs rule: b64_encode.induct) (simp_all add: Let_def char_bounds char_reduce)

lemma b64_round_trip [simp]: "b64_decode (b64_encode bs) = Some bs"
  by (simp add: b64_decode_def b64_plain b64_quads_round_trip)

lemma b64_encode_inj: "b64_encode a = b64_encode b \<longleftrightarrow> a = b"
  by (metis b64_round_trip option.inject)

lemma b64_char_space [simp]: "n < 64 \<Longrightarrow> \<not> is_space (b64_char n)"
proof -
  have "list_all (\<lambda>c. \<not> is_space c) b64_alphabet" by (simp add: b64_alphabet_def is_space_def)
  then show "n < 64 \<Longrightarrow> \<not> is_space (b64_char n)"
    by (simp add: b64_char_def list_all_length b64_alphabet_facts)
qed

lemma b64_no_space: "list_all (\<lambda>c. \<not> is_space c) (b64_encode bs)"
proof -
  have "\<not> is_space (CHR ''='')" by (simp add: is_space_def)
  then show ?thesis by (induction bs rule: b64_encode.induct) (simp_all add: Let_def char_bounds)
qed

lemma trim_space_b64 [simp]: "trim_space (b64_encode bs) = b64_encode bs"
  unfolding trim_space_def
  by (rule trim_by_id) (metis b64_no_space hd_in_set last_in_set list_all_iff)

section \<open>RawURLEncoding\<close>

definition b64u_alphabet :: string where
  "b64u_alphabet = ''ABCDEFGHIJKLMNOPQRSTUVWXYZabcdefghijklmnopqrstuvwxyz0123456789-_''"

definition b64u_char :: "nat \<Rightarrow> char" where
  "b64u_char n = b64u_alphabet ! n"

definition b64u_val :: "char \<Rightarrow> nat option" where
  "b64u_val c = char_index c b64u_alphabet"

fun b64u_encode :: "bytes \<Rightarrow> string" where
  "b64u_encode [] = []"
| "b64u_encode [a] =
     (let x = of_char a :: nat in [b64u_char (x div 4), b64u_char (x mod 4 * 16)])"
| "b64u_encode [a, b] =
     (let x = of_char a :: nat; y = of_char b :: nat
      in [b64u_char (x div 4), b64u_char (x mod 4 * 16 + y div 16), b64u_char (y mod 16 * 4)])"
| "b64u_encode (a # b # c # r) =
     (let x = of_char a :: nat; y = of_char b :: nat; z = of_char c :: nat
      in [b64u_char (x div 4), b64u_char (x mod 4 * 16 + y div 16),
          b64u_char (y mod 16 * 4 + z div 64), b64u_char (z mod 64)] @ b64u_encode r)"

fun b64u_decode_quads :: "string \<Rightarrow> bytes option" where
  "b64u_decode_quads [] = Some []"
| "b64u_decode_quads [p] = None"
| "b64u_decode_quads [p, q] =
     (case (b64u_val p, b64u_val q) of
        (Some a, Some b) \<Rightarrow> Some [char_of (a * 4 + b div 16)]
      | _ \<Rightarrow> None)"
| "b64u_decode_quads [p, q, r] =
     (case (b64u_val p, b64u_val q, b64u_val r) of
        (Some a, Some b, Some c) \<Rightarrow> Some [char_of (a * 4 + b div 16), char_of (b mod 16 * 16 + c div 4)]
      | _ \<Rightarrow> None)"
| "b64u_decode_quads (p # q # r # s # rest) =
     (case (b64u_val p, b64u_val q, b64u_val r, b64u_val s) of
        (Some a, Some b, Some c, Some d) \<Rightarrow>
          map_option (\<lambda>t. char_of (a * 4 + b div 16) # char_of (b mod 16 * 16 + c div 4)
                          # char_of (c mod 4 * 64 + d) # t) (b64u_decode_quads rest)
      | _ \<Rightarrow> None)"

definition b64u_decode :: "string \<Rightarrow> bytes option" where
  "b64u_decode s = b64u_decode_quads (filter (\<lambda>c. c \<noteq> CHR 0x0D \<and> c \<noteq> CHR 0x0A) s)"

lemma b64u_alphabet_facts: "distinct b64u_alphabet" "length b64u_alphabet = 64"
  "list_all (\<lambda>c. c \<noteq> CHR 0x0D \<and> c \<noteq> CHR 0x0A \<and> \<not> is_space c) b64u_alphabet"
  by (simp_all add: b64u_alphabet_def is_space_def)

lemma b64u_val_char [simp]: "n < 64 \<Longrightarrow> b64u_val (b64u_char n) = Some n"
  by (simp add: b64u_val_def b64u_char_def char_index_nth b64u_alphabet_facts)

lemma b64u_char_plain [simp]:
  "n < 64 \<Longrightarrow> b64u_char n \<noteq> CHR 0x0D" "n < 64 \<Longrightarrow> b64u_char n \<noteq> CHR 0x0A"
  "n < 64 \<Longrightarrow> \<not> is_space (b64u_char n)"
  using b64u_alphabet_facts by (auto simp: b64u_char_def list_all_length)

lemma b64u_plain:
  "filter (\<lambda>c. c \<noteq> CHR 0x0D \<and> c \<noteq> CHR 0x0A) (b64u_encode bs) = b64u_encode bs"
  by (induction bs rule: b64u_encode.induct) (simp_all add: Let_def char_bounds)

lemma b64u_no_space: "list_all (\<lambda>c. \<not> is_space c) (b64u_encode bs)"
  by (induction bs rule: b64u_encode.induct) (simp_all add: Let_def char_bounds)

lemma b64u_quads_round_trip: "b64u_decode_quads (b64u_encode bs) = Some bs"
  by (induction bs rule: b64u_encode.induct) (simp_all add: Let_def char_bounds char_reduce)

lemma b64u_round_trip [simp]: "b64u_decode (b64u_encode bs) = Some bs"
  by (simp add: b64u_decode_def b64u_plain b64u_quads_round_trip)

lemma trim_space_b64u [simp]: "trim_space (b64u_encode bs) = b64u_encode bs"
  unfolding trim_space_def
  by (rule trim_by_id) (metis b64u_no_space hd_in_set last_in_set list_all_iff)

end
