(* ===== verification/Account.thy ===== *)
theory Account
  imports Url Base64 "HOL-Library.List_Lexorder"
begin

text \<open>
  Package \<open>internal/mail/account\<close>: the account configuration and its TLS pin, the guard on mail
  host names, setup codes (\<open>ParseAndVerify\<close>, \<open>ExchangeToken\<close>), autoconfiguration, the
  choice of the talk relay, device registration and the private key download.

  Every network operation is a function of the record \<open>ext\<close>, which holds the code outside
  the package: the network (one reply per request), the JSON codec, Ed25519 verification, SHA-256 and the
  parser of IP literals in URLs. An operation returns the requests it sent, in order, and its
  result. \<open>json.Marshal\<close> of a map of strings and integers cannot fail, so its error branches do not
  appear; it writes the keys in sorted order, which \<open>marshal_map\<close> does before the codec
  encodes the object.
\<close>

section \<open>Configuration\<close>

record config =
  c_DisplayName :: string
  c_EmailAddress :: string
  c_IMAPHost :: string
  c_IMAPPort :: int
  c_IMAPTLS :: string
  c_SMTPHost :: string
  c_SMTPPort :: int
  c_SMTPTLS :: string
  c_Username :: string
  c_KeystoreAlias :: string
  c_PinnedSPKI :: string
  c_AuthMech :: string

definition tls_valid :: "string \<Rightarrow> bool" where
  "tls_valid m \<longleftrightarrow> m = ''tls'' \<or> m = ''starttls''"

definition valid_port :: "int \<Rightarrow> bool" where
  "valid_port p \<longleftrightarrow> p \<ge> 1 \<and> p \<le> 65535"

datatype config_error = Missing_email | Missing_imap_host | Missing_smtp_host | Missing_username
  | Missing_alias | Bad_imap_port int | Bad_smtp_port int | Bad_imap_tls string | Bad_smtp_tls string

definition config_validate :: "config \<Rightarrow> config_error option" where
  "config_validate c =
     (if c_EmailAddress c = [] then Some Missing_email
      else if c_IMAPHost c = [] then Some Missing_imap_host
      else if c_SMTPHost c = [] then Some Missing_smtp_host
      else if c_Username c = [] then Some Missing_username
      else if c_KeystoreAlias c = [] then Some Missing_alias
      else if \<not> valid_port (c_IMAPPort c) then Some (Bad_imap_port (c_IMAPPort c))
      else if \<not> valid_port (c_SMTPPort c) then Some (Bad_smtp_port (c_SMTPPort c))
      else if \<not> tls_valid (c_IMAPTLS c) then Some (Bad_imap_tls (c_IMAPTLS c))
      else if \<not> tls_valid (c_SMTPTLS c) then Some (Bad_smtp_tls (c_SMTPTLS c))
      else None)"

definition imap_addr :: "config \<Rightarrow> string" where
  "imap_addr c = c_IMAPHost c @ '':'' @ itoa (c_IMAPPort c)"

definition smtp_addr :: "config \<Rightarrow> string" where
  "smtp_addr c = c_SMTPHost c @ '':'' @ itoa (c_SMTPPort c)"

section \<open>The guard on host names\<close>

text \<open>One label of \<open>mailHostRe\<close>: one letter or digit, or up to 63 bytes that start and end with one.\<close>

definition host_label :: "string \<Rightarrow> bool" where
  "host_label l \<longleftrightarrow> l \<noteq> [] \<and> length l \<le> 63 \<and> is_alnum (hd l) \<and> is_alnum (last l)
     \<and> list_all (\<lambda>c. is_alnum c \<or> c = CHR ''-'') l"

definition mail_host_re :: "string \<Rightarrow> bool" where
  "mail_host_re s \<longleftrightarrow> 2 \<le> length (split_on CHR ''.'' s) \<and> list_all host_label (split_on CHR ''.'' s)"

text \<open>\<open>net.ParseIP\<close> on a text without a colon: four decimal fields, none above 255, none with a
  leading zero. (An IPv6 text has a colon, which \<open>mailHostRe\<close> refuses as well.)\<close>

definition ipv4_field :: "string \<Rightarrow> bool" where
  "ipv4_field f \<longleftrightarrow> f \<noteq> [] \<and> list_all is_digit f \<and> digits_val f \<le> 255 \<and> (length f > 1 \<longrightarrow> hd f \<noteq> CHR ''0'')"

definition parse_ip :: "string \<Rightarrow> bool" where
  "parse_ip s \<longleftrightarrow> length (split_on CHR ''.'' s) = 4 \<and> list_all ipv4_field (split_on CHR ''.'' s)"

definition public_mail_domain :: "string \<Rightarrow> bool" where
  "public_mail_domain d \<longleftrightarrow>
     \<not> (d = [] \<or> length d > 253 \<or> equal_fold d ''localhost'') \<and> \<not> parse_ip d \<and> mail_host_re d"

definition domain_of :: "string \<Rightarrow> string" where
  "domain_of email = (case last_char_index CHR ''@'' email of
     Some i \<Rightarrow> to_lower (drop (Suc i) email) | None \<Rightarrow> [])"

definition host_in_domain :: "string \<Rightarrow> string \<Rightarrow> bool" where
  "host_in_domain host base =
     (let h = to_lower (trim_space host); b = to_lower (trim_space base)
      in h \<noteq> [] \<and> b \<noteq> [] \<and> (h = b \<or> has_suffix (CHR ''.'' # b) h))"

section \<open>The outside world\<close>

datatype jval = JStr string | JInt int

record request =
  rq_method :: string
  rq_url :: string
  rq_accept :: string
  rq_body :: string
  rq_follow :: bool

text \<open>A reply: the status, the bytes of the body that arrive, and whether reading ended without an error.\<close>

datatype reply = No_reply | Reply int string bool

record provision_payload =
  p_V :: int
  p_Server :: string
  p_IMAPPort :: int
  p_IMAPTLS :: string
  p_SMTPPort :: int
  p_SMTPTLS :: string
  p_Username :: string
  p_DisplayName :: string
  p_Token :: string
  p_TokenEndpoint :: string
  p_ServerPubkey :: string
  p_ExpiresAt :: int
  p_Sig :: string

record credentials =
  cr_IMAPPassword :: string
  cr_SMTPPassword :: string
  cr_OAuthToken :: string
  cr_TokenType :: string
  cr_ExpiresIn :: int

record autoconfig_endpoint =
  e_Host :: string
  e_Port :: int
  e_TLS :: string

record autoconfig_doc =
  d_Schema :: string
  d_Domain :: string
  d_DisplayName :: string
  d_IMAP :: autoconfig_endpoint
  d_POP3 :: autoconfig_endpoint
  d_SMTP :: autoconfig_endpoint
  d_UsernameIsEmail :: bool
  d_Auth :: string
  d_WKD :: bool
  d_Talk :: string

record device_grant =
  g_DeviceID :: string
  g_DevicePassword :: string
  g_Status :: string

record ext =
  x_net :: "request \<Rightarrow> reply"
  x_lit :: "string \<Rightarrow> string option"
  x_object :: "(string \<times> jval) list \<Rightarrow> string"
  x_payload :: "string \<Rightarrow> provision_payload option"
  x_creds :: "string \<Rightarrow> credentials option"
  x_doc :: "string \<Rightarrow> autoconfig_doc option"
  x_register :: "string \<Rightarrow> device_grant option"
  x_status :: "string \<Rightarrow> string option"
  x_reason :: "string \<Rightarrow> (string \<times> string) option"
  x_privkey :: "string \<Rightarrow> string option"
  x_verify :: "bytes \<Rightarrow> bytes \<Rightarrow> bytes \<Rightarrow> bool"
  x_sha256 :: "bytes \<Rightarrow> bytes"

definition marshal_map :: "ext \<Rightarrow> (string \<times> jval) list \<Rightarrow> string" where
  "marshal_map x m = x_object x (sort_key fst m)"

text \<open>\<open>http.NewRequestWithContext\<close> refuses a URL that does not parse; \<open>client.Do\<close> with a
  \<open>CheckRedirect\<close> of \<open>ErrUseLastResponse\<close> sends one request and returns its answer, a redirect
  included.\<close>

definition send_request :: "ext \<Rightarrow> request \<Rightarrow> request list \<times> (reply option)" where
  "send_request x rq =
     (if url_parse (x_lit x) (rq_url rq) = None then ([], None) else ([rq], Some (x_net x rq)))"


section \<open>Setup codes\<close>

datatype prov_error = ErrUnknownVersion int | ErrExpired | ErrInvalidSignature | ErrInsecureTransport
  | ErrInvalidPort int | ErrMalformedPayload | ErrTokenExpired | ErrTokenInvalid | ErrNetwork | ErrBuildRequest

definition allow_plain_transport :: bool where
  "allow_plain_transport = False"

definition canonical_fields :: "provision_payload \<Rightarrow> (string \<times> jval) list" where
  "canonical_fields p =
     [(''v'', JInt (p_V p)), (''server'', JStr (p_Server p)), (''imap_port'', JInt (p_IMAPPort p)),
      (''imap_tls'', JStr (p_IMAPTLS p)), (''smtp_port'', JInt (p_SMTPPort p)), (''smtp_tls'', JStr (p_SMTPTLS p)),
      (''username'', JStr (p_Username p)), (''display_name'', JStr (p_DisplayName p)), (''token'', JStr (p_Token p)),
      (''token_endpoint'', JStr (p_TokenEndpoint p)), (''server_pubkey'', JStr (p_ServerPubkey p)),
      (''expires_at'', JInt (p_ExpiresAt p))]"

definition canonical_json :: "ext \<Rightarrow> provision_payload \<Rightarrow> string" where
  "canonical_json x p = marshal_map x (canonical_fields p)"

definition validate_token_endpoint :: "(string \<Rightarrow> string option) \<Rightarrow> string \<Rightarrow> string \<Rightarrow> prov_error option" where
  "validate_token_endpoint lit raw mdom =
     (case url_parse lit raw of
        None \<Rightarrow> Some ErrMalformedPayload
      | Some u \<Rightarrow>
          if u_Scheme u \<noteq> ''https'' then Some ErrInsecureTransport
          else if u_User u then Some ErrMalformedPayload
          else if port u \<noteq> [] \<and> port u \<noteq> ''443'' then Some ErrMalformedPayload
          else if \<not> public_mail_domain (hostname u) then Some ErrMalformedPayload
          else if \<not> host_in_domain (hostname u) mdom then Some ErrMalformedPayload
          else None)"

definition verify_signature :: "ext \<Rightarrow> provision_payload \<Rightarrow> bool" where
  "verify_signature x p =
     (case b64u_decode (p_ServerPubkey p) of
        None \<Rightarrow> False
      | Some pub \<Rightarrow> length pub = 32 \<and>
          (case b64u_decode (p_Sig p) of
             None \<Rightarrow> False
           | Some sig \<Rightarrow> length sig = 64 \<and> x_verify x pub (canonical_json x p) sig))"

definition transport_ok :: "string \<Rightarrow> bool" where
  "transport_ok m \<longleftrightarrow> tls_valid m \<or> m = ''plain'' \<and> allow_plain_transport"

definition parse_and_verify :: "ext \<Rightarrow> bytes \<Rightarrow> int \<Rightarrow> (prov_error, provision_payload) result" where
  "parse_and_verify x raw now =
     (case b64u_decode (trim_space raw) of
        None \<Rightarrow> Inl ErrMalformedPayload
      | Some js \<Rightarrow>
          (case x_payload x js of
             None \<Rightarrow> Inl ErrMalformedPayload
           | Some p \<Rightarrow>
               if p_V p \<noteq> 1 then Inl (ErrUnknownVersion (p_V p))
               else if unix_sec now \<ge> p_ExpiresAt p then Inl ErrExpired
               else if \<not> verify_signature x p then Inl ErrInvalidSignature
               else if \<not> list_all transport_ok [p_IMAPTLS p, p_SMTPTLS p] then Inl ErrInsecureTransport
               else if \<not> valid_port (p_IMAPPort p) then Inl (ErrInvalidPort (p_IMAPPort p))
               else if \<not> valid_port (p_SMTPPort p) then Inl (ErrInvalidPort (p_SMTPPort p))
               else (let mdom = domain_of (p_Username p)
                     in if mdom = [] \<or> \<not> public_mail_domain mdom then Inl ErrMalformedPayload
                        else if \<not> public_mail_domain (p_Server p) \<or> \<not> host_in_domain (p_Server p) mdom
                        then Inl ErrMalformedPayload
                        else case validate_token_endpoint (x_lit x) (p_TokenEndpoint p) mdom of
                               Some e \<Rightarrow> Inl e
                             | None \<Rightarrow> Inr p)))"

definition payload_config :: "provision_payload \<Rightarrow> string \<Rightarrow> config" where
  "payload_config p alias =
     \<lparr>c_DisplayName = p_DisplayName p, c_EmailAddress = p_Username p,
      c_IMAPHost = p_Server p, c_IMAPPort = p_IMAPPort p, c_IMAPTLS = p_IMAPTLS p,
      c_SMTPHost = p_Server p, c_SMTPPort = p_SMTPPort p, c_SMTPTLS = p_SMTPTLS p,
      c_Username = p_Username p, c_KeystoreAlias = alias, c_PinnedSPKI = [], c_AuthMech = []\<rparr>"

definition exchange_reply :: "ext \<Rightarrow> reply \<Rightarrow> (prov_error, credentials) result" where
  "exchange_reply x r =
     (case r of
        No_reply \<Rightarrow> Inl ErrNetwork
      | Reply status body ok \<Rightarrow>
          if status = 410 \<or> status = 401 then Inl ErrTokenExpired
          else if 400 \<le> status \<and> status < 500 then Inl ErrTokenInvalid
          else if status \<noteq> 200 then Inl ErrNetwork
          else case read_limited 65536 body ok of
            None \<Rightarrow> Inl ErrNetwork
          | Some b \<Rightarrow>
              (case x_creds x b of
                 None \<Rightarrow> Inl ErrTokenInvalid
               | Some c \<Rightarrow> if cr_IMAPPassword c = [] \<and> cr_OAuthToken c = [] then Inl ErrTokenInvalid else Inr c))"

definition exchange_token :: "ext \<Rightarrow> provision_payload \<Rightarrow> request list \<times> (prov_error, credentials) result" where
  "exchange_token x p =
     (case validate_token_endpoint (x_lit x) (p_TokenEndpoint p) (domain_of (p_Username p)) of
        Some e \<Rightarrow> ([], Inl e)
      | None \<Rightarrow>
          (let rq = \<lparr>rq_method = ''POST'', rq_url = p_TokenEndpoint p, rq_accept = [],
                     rq_body = marshal_map x [(''token'', JStr (p_Token p)), (''username'', JStr (p_Username p))],
                     rq_follow = False\<rparr>
           in case send_request x rq of
                (log, None) \<Rightarrow> (log, Inl ErrBuildRequest)
              | (log, Some r) \<Rightarrow> (log, exchange_reply x r)))"

section \<open>Autoconfiguration\<close>

datatype account_error = Invalid_address | Refused_domain | Bad_request | Unreachable | Http_status int
  | Read_failed | Bad_json | Bad_schema string | Bad_tls string | Missing_host | Bad_port | Bad_auth string
  | Bad_domain | ErrNoDeviceEndpoint | ErrDeviceCredentials | ErrDeviceLimit string | ErrDevice string
  | ErrNoPrivateKey

definition autoconfig_schema :: string where
  "autoconfig_schema = ''vayumail-autoconfig/1''"

definition autoconfig_urls :: "string \<Rightarrow> string list" where
  "autoconfig_urls domain =
     [''https://'' @ domain @ ''/.well-known/vayumail/autoconfig.json'',
      ''https://autoconfig.'' @ domain @ ''/.well-known/vayumail/autoconfig.json'']"

definition decode_doc :: "ext \<Rightarrow> reply \<Rightarrow> (account_error, autoconfig_doc) result" where
  "decode_doc x r =
     (case r of
        No_reply \<Rightarrow> Inl Unreachable
      | Reply status body ok \<Rightarrow>
          if status \<noteq> 200 then Inl (Http_status status)
          else case read_limited 65536 body ok of
            None \<Rightarrow> Inl Read_failed
          | Some b \<Rightarrow>
              (case x_doc x b of
                 None \<Rightarrow> Inl Bad_json
               | Some d \<Rightarrow> if d_Schema d \<noteq> autoconfig_schema then Inl (Bad_schema (d_Schema d)) else Inr d))"

definition fetch_autoconfig :: "ext \<Rightarrow> string \<Rightarrow> request list \<times> (account_error, autoconfig_doc) result" where
  "fetch_autoconfig x u =
     (case send_request x \<lparr>rq_method = ''GET'', rq_url = u, rq_accept = ''application/json'', rq_body = [], rq_follow = False\<rparr> of
        (log, None) \<Rightarrow> (log, Inl Bad_request)
      | (log, Some r) \<Rightarrow> (log, decode_doc x r))"

definition auth_mech_from_wire :: "string \<Rightarrow> string option" where
  "auth_mech_from_wire s =
     (let t = to_lower (trim_space s)
      in if t = [] \<or> t = ''password'' then Some []
         else if t = ''oauthbearer'' then Some ''oauthbearer''
         else if t = ''xoauth2'' then Some ''xoauth2'' else None)"

definition tls_mode_from_wire :: "string \<Rightarrow> string option" where
  "tls_mode_from_wire s =
     (let t = to_lower (trim_space s)
      in if t = ''tls'' then Some ''tls'' else if t = ''starttls'' then Some ''starttls'' else None)"

definition doc_to_config :: "autoconfig_doc \<Rightarrow> string \<Rightarrow> (account_error, config) result" where
  "doc_to_config d email =
     (case tls_mode_from_wire (e_TLS (d_IMAP d)) of
        None \<Rightarrow> Inl (Bad_tls (e_TLS (d_IMAP d)))
      | Some itls \<Rightarrow>
          (case tls_mode_from_wire (e_TLS (d_SMTP d)) of
             None \<Rightarrow> Inl (Bad_tls (e_TLS (d_SMTP d)))
           | Some stls \<Rightarrow>
               if e_Host (d_IMAP d) = [] \<or> e_Host (d_SMTP d) = [] then Inl Missing_host
               else if \<not> valid_port (e_Port (d_IMAP d)) \<or> \<not> valid_port (e_Port (d_SMTP d)) then Inl Bad_port
               else case auth_mech_from_wire (d_Auth d) of
                 None \<Rightarrow> Inl (Bad_auth (d_Auth d))
               | Some mech \<Rightarrow>
                   Inr \<lparr>c_DisplayName = (if trim_space (d_DisplayName d) = [] then email else trim_space (d_DisplayName d)),
                        c_EmailAddress = email,
                        c_IMAPHost = e_Host (d_IMAP d), c_IMAPPort = e_Port (d_IMAP d), c_IMAPTLS = itls,
                        c_SMTPHost = e_Host (d_SMTP d), c_SMTPPort = e_Port (d_SMTP d), c_SMTPTLS = stls,
                        c_Username = email, c_KeystoreAlias = [], c_PinnedSPKI = [], c_AuthMech = mech\<rparr>))"

fun try_autoconfig :: "ext \<Rightarrow> string \<Rightarrow> string list \<Rightarrow> account_error \<Rightarrow> request list \<times> (account_error, config) result" where
  "try_autoconfig x email [] last_err = ([], Inl last_err)"
| "try_autoconfig x email (u # us) last_err =
     (case fetch_autoconfig x u of
        (log, Inl e) \<Rightarrow> (let (log', r) = try_autoconfig x email us e in (log @ log', r))
      | (log, Inr d) \<Rightarrow> (log, doc_to_config d email))"

text \<open>The address check and the domain that \<open>DiscoverAutoconfig\<close> and \<open>ResolveTalkHost\<close> share.\<close>

definition address_domain :: "string \<Rightarrow> string option" where
  "address_domain email =
     (case last_char_index CHR ''@'' email of
        None \<Rightarrow> None
      | Some i \<Rightarrow> if i = 0 \<or> i = length email - 1 then None
                  else Some (to_lower (trim_space (drop (Suc i) email))))"

definition discover_autoconfig :: "ext \<Rightarrow> string \<Rightarrow> request list \<times> (account_error, config) result" where
  "discover_autoconfig x email =
     (case address_domain email of
        None \<Rightarrow> ([], Inl Invalid_address)
      | Some domain \<Rightarrow>
          if \<not> public_mail_domain domain then ([], Inl Refused_domain)
          else try_autoconfig x email (autoconfig_urls domain) Bad_request)"

section \<open>The talk relay\<close>

definition talk_host_for :: "string \<Rightarrow> string \<Rightarrow> string" where
  "talk_host_for advertised domain =
     (let h = to_lower (trim_space advertised)
      in if h = [] \<or> \<not> public_mail_domain h then []
         else if h = domain \<or> has_suffix (CHR ''.'' # domain) h then h else [])"

fun advertised_from :: "ext \<Rightarrow> string \<Rightarrow> string list \<Rightarrow> request list \<times> string" where
  "advertised_from x domain [] = ([], [])"
| "advertised_from x domain (u # us) =
     (case fetch_autoconfig x u of
        (log, Inl e) \<Rightarrow> (let (log', h) = advertised_from x domain us in (log @ log', h))
      | (log, Inr d) \<Rightarrow> (log, talk_host_for (d_Talk d) domain))"

definition advertised_talk_host :: "ext \<Rightarrow> string \<Rightarrow> request list \<times> string" where
  "advertised_talk_host x domain = advertised_from x domain (autoconfig_urls domain)"

definition probe_talk_relay :: "ext \<Rightarrow> string \<Rightarrow> request list \<times> bool" where
  "probe_talk_relay x host =
     (if \<not> public_mail_domain host then ([], False)
      else case send_request x \<lparr>rq_method = ''GET'', rq_url = ''https://'' @ host @ ''/api/v1/talk/stream'',
                  rq_accept = ''text/event-stream'', rq_body = [], rq_follow = False\<rparr> of
             (log, Some (Reply status body ok)) \<Rightarrow> (log, status = 401)
           | (log, _) \<Rightarrow> (log, False))"

fun first_live :: "ext \<Rightarrow> string list \<Rightarrow> string \<Rightarrow> request list \<times> string" where
  "first_live x [] domain = ([], domain)"
| "first_live x (h # hs) domain =
     (let (log, live) = probe_talk_relay x h
      in if live then (log, h)
         else let (log', r) = first_live x hs domain in (log @ log', r))"

definition talk_candidates :: "string \<Rightarrow> string \<Rightarrow> string list" where
  "talk_candidates adv domain =
     (let cs = (if adv \<noteq> [] \<and> adv \<noteq> domain then [adv] else []); conv = ''talk.'' @ domain
      in if conv \<noteq> domain \<and> conv \<notin> set cs then cs @ [conv] else cs)"

definition resolve_talk_host :: "ext \<Rightarrow> string \<Rightarrow> request list \<times> string" where
  "resolve_talk_host x email =
     (case address_domain email of
        None \<Rightarrow> ([], [])
      | Some domain \<Rightarrow>
          if \<not> public_mail_domain domain then ([], [])
          else (let (log, adv) = advertised_talk_host x domain;
                    (log', h) = first_live x (talk_candidates adv domain) domain
                in (log @ log', h)))"

section \<open>Device approval and the private key\<close>

definition server_reason :: "ext \<Rightarrow> int \<Rightarrow> string \<Rightarrow> string" where
  "server_reason x status body =
     (case x_reason x (take 65536 body) of
        Some (err, msg) \<Rightarrow>
          if msg \<noteq> [] then msg else if err \<noteq> [] then err else ''server returned '' @ itoa status
      | None \<Rightarrow> ''server returned '' @ itoa status)"

definition classify_device_status :: "ext \<Rightarrow> int \<Rightarrow> string \<Rightarrow> account_error option" where
  "classify_device_status x status body =
     (if status = 404 \<or> status = 405 then Some ErrNoDeviceEndpoint
      else if status = 401 then Some ErrDeviceCredentials
      else if status = 409 then Some (ErrDeviceLimit (server_reason x status body))
      else if status \<noteq> 200
      then Some (ErrDevice (''server returned '' @ itoa status @ '': '' @ server_reason x status body))
      else None)"

definition post_device_json :: "ext \<Rightarrow> string \<Rightarrow> string \<Rightarrow> (string \<times> jval) list \<Rightarrow> (string \<Rightarrow> 'a option)
    \<Rightarrow> request list \<times> (account_error, 'a) result" where
  "post_device_json x domain endpoint payload dec =
     (if \<not> public_mail_domain domain then ([], Inl (ErrDevice ''bad domain''))
      else case send_request x \<lparr>rq_method = ''POST'', rq_url = ''https://'' @ domain @ ''/api/v1/members/'' @ endpoint,
                  rq_accept = ''application/json'', rq_body = marshal_map x payload, rq_follow = False\<rparr> of
             (log, None) \<Rightarrow> (log, Inl Bad_request)
           | (log, Some No_reply) \<Rightarrow> (log, Inl (ErrDevice ''unreachable''))
           | (log, Some (Reply status body ok)) \<Rightarrow>
               (log, case classify_device_status x status body of
                       Some e \<Rightarrow> Inl e
                     | None \<Rightarrow> (case dec (take 65536 body) of
                                  None \<Rightarrow> Inl ErrNoDeviceEndpoint
                                | Some v \<Rightarrow> Inr v)))"

definition register_device :: "ext \<Rightarrow> string \<Rightarrow> string \<Rightarrow> string \<Rightarrow> string
    \<Rightarrow> request list \<times> (account_error, device_grant) result" where
  "register_device x email password device_name platform =
     (case post_device_json x (domain_of email) ''vayumail-device-register''
             [(''email'', JStr email), (''password'', JStr password),
              (''device_name'', JStr device_name), (''platform'', JStr platform)] (x_register x) of
        (log, Inl e) \<Rightarrow> (log, Inl e)
      | (log, Inr g) \<Rightarrow>
          (log, if g_DeviceID g = [] \<or> g_DevicePassword g = []
                   \<or> (g_Status g \<noteq> ''pending'' \<and> g_Status g \<noteq> ''approved'')
                then Inl ErrNoDeviceEndpoint else Inr g))"

definition device_status :: "ext \<Rightarrow> string \<Rightarrow> string \<Rightarrow> string \<Rightarrow> request list \<times> (account_error, string) result" where
  "device_status x email device_id device_password =
     (case post_device_json x (domain_of email) ''vayumail-device-status''
             [(''email'', JStr email), (''device_id'', JStr device_id),
              (''device_password'', JStr device_password)] (x_status x) of
        (log, Inl e) \<Rightarrow> (log, Inl e)
      | (log, Inr s) \<Rightarrow>
          (log, if s = ''pending'' \<or> s = ''approved'' \<or> s = ''blocked'' then Inr s
                else Inl (ErrDevice (''unknown status '' @ s))))"

definition fetch_private_key :: "ext \<Rightarrow> string \<Rightarrow> string \<Rightarrow> request list \<times> (account_error, string) result" where
  "fetch_private_key x email password =
     (if \<not> public_mail_domain (domain_of email) then ([], Inl ErrNoPrivateKey)
      else case send_request x \<lparr>rq_method = ''POST'',
                  rq_url = ''https://'' @ domain_of email @ ''/api/v1/members/vayumail-privkey'',
                  rq_accept = ''application/json'',
                  rq_body = marshal_map x [(''email'', JStr email), (''password'', JStr password)],
                  rq_follow = False\<rparr> of
             (log, None) \<Rightarrow> (log, Inl Bad_request)
           | (log, Some No_reply) \<Rightarrow> (log, Inl ErrNoPrivateKey)
           | (log, Some (Reply status body ok)) \<Rightarrow>
               (log, if status \<noteq> 200 then Inl ErrNoPrivateKey
                     else case x_privkey x (take 262144 body) of
                            None \<Rightarrow> Inl ErrNoPrivateKey
                          | Some key \<Rightarrow> if contains_str ''BEGIN PGP PRIVATE KEY BLOCK'' key then Inr key
                                        else Inl ErrNoPrivateKey))"

section \<open>TLS pins and token authentication\<close>

definition spki_hash :: "ext \<Rightarrow> bytes \<Rightarrow> string" where
  "spki_hash x spki = b64_encode (x_sha256 x spki)"

definition match_pin :: "ext \<Rightarrow> string \<Rightarrow> bytes list list \<Rightarrow> bool" where
  "match_pin x pin ccs = list_ex (list_ex (\<lambda>spki. spki_hash x spki = pin)) ccs"

text \<open>The handshake under \<open>TLSConfig\<close>: the WebPKI verdict; without a pin nothing more; with one,
  \<open>VerifyPeerCertificate\<close>, which a resumed session skips, and \<open>VerifyConnection\<close>, which runs
  always.\<close>

definition tls_handshake :: "ext \<Rightarrow> config \<Rightarrow> bool \<Rightarrow> bool \<Rightarrow> bytes list list \<Rightarrow> bool" where
  "tls_handshake x c webpki resumed ccs =
     (webpki \<and> (c_PinnedSPKI c = [] \<or>
        ((resumed \<or> match_pin x (c_PinnedSPKI c) ccs) \<and> match_pin x (c_PinnedSPKI c) ccs)))"

definition is_token_auth :: "string \<Rightarrow> bool" where
  "is_token_auth mech \<longleftrightarrow> mech = ''oauthbearer'' \<or> mech = ''xoauth2''"

datatype sasl_client = OAuthBearer string string string int | XOAuth2 string string

definition new_sasl_client :: "string \<Rightarrow> string \<Rightarrow> string \<Rightarrow> string \<Rightarrow> int \<Rightarrow> sasl_client option" where
  "new_sasl_client mech username token host p =
     (if mech = ''oauthbearer'' then Some (OAuthBearer username token host p)
      else if mech = ''xoauth2'' then Some (XOAuth2 username token) else None)"

definition xoauth2_start :: "string \<Rightarrow> string \<Rightarrow> string \<times> bytes" where
  "xoauth2_start username token =
     (''XOAUTH2'', ''user='' @ username @ [CHR 0x01] @ ''auth=Bearer '' @ token @ [CHR 0x01, CHR 0x01])"

end
