(* ===== verification/AccountLaws.thy ===== *)
theory AccountLaws
  imports Account
begin

text \<open>
  Laws of the account package: where its network operations send credentials, what a verified setup
  code guarantees, and that the drafts it hands to the setup flow are valid configurations.
\<close>

section \<open>Host names\<close>

definition host_byte :: "char \<Rightarrow> bool" where
  "host_byte c \<longleftrightarrow> is_alnum c \<or> c = CHR ''-'' \<or> c = CHR ''.''"

lemma mail_host_re_bytes: "mail_host_re s \<Longrightarrow> list_all host_byte s"
  using set_split_on [of s "CHR ''.''"]
  by (fastforce simp: mail_host_re_def host_label_def host_byte_def list_all_iff)

lemma public_bytes: "public_mail_domain s \<Longrightarrow> list_all host_byte s"
  by (simp add: public_mail_domain_def mail_host_re_bytes)

lemma host_byte_plain:
  "host_byte c \<Longrightarrow> \<not> is_space c \<and> c \<noteq> CHR ''%'' \<and> \<not> CHR 0x80 \<le> c \<and> c \<notin> set ''/?#:[]@''"
  by (auto simp: host_byte_def is_alnum_def is_letter_def is_digit_def is_space_def less_eq_char_def)

lemma trim_space_host [simp]: "list_all host_byte s \<Longrightarrow> trim_space s = s"
  unfolding trim_space_def
  by (rule trim_by_id) (metis host_byte_plain hd_in_set last_in_set list_all_iff)

lemma public_nonempty: "public_mail_domain d \<Longrightarrow> d \<noteq> []"
  by (simp add: public_mail_domain_def)

lemma public_in_domain:
  assumes "public_mail_domain d"
  shows "host_in_domain d d" and "host_in_domain (p @ CHR ''.'' # d) d \<or> \<not> list_all host_byte p"
proof -
  have d: "list_all host_byte d" "d \<noteq> []" using assms by (simp_all add: public_bytes public_nonempty)
  then show "host_in_domain d d" by (simp add: host_in_domain_def)
  have "to_lower (p @ CHR ''.'' # d) = to_lower p @ CHR ''.'' # to_lower d"
    by (simp add: to_lower_def lower_char_def)
  moreover have "list_all host_byte (p @ CHR ''.'' # d)" if "list_all host_byte p"
    using d that by (simp add: host_byte_def)
  ultimately show "host_in_domain (p @ CHR ''.'' # d) d \<or> \<not> list_all host_byte p"
    using d by (auto simp: host_in_domain_def)
qed

lemma split_on_prefix:
  "CHR ''.'' \<notin> set p \<Longrightarrow> split_on CHR ''.'' (p @ CHR ''.'' # d) = p # split_on CHR ''.'' d"
  by (induction p) auto

lemma subdomain_host:
  assumes "public_mail_domain d" "host_label p" "\<not> list_all is_digit p"
  shows "mail_host_re (p @ CHR ''.'' # d)" "\<not> parse_ip (p @ CHR ''.'' # d)" "host_in_domain (p @ CHR ''.'' # d) d"
proof -
  have "CHR ''.'' \<notin> set p"
    using assms(2) by (auto simp: host_label_def list_all_iff is_alnum_def is_letter_def is_digit_def less_eq_char_def)
  note s = split_on_prefix [OF this, of d]
  show "mail_host_re (p @ CHR ''.'' # d)" using assms(1,2) s by (simp add: mail_host_re_def public_mail_domain_def)
  show "\<not> parse_ip (p @ CHR ''.'' # d)" using assms(3) s by (simp add: parse_ip_def ipv4_field_def)
  have "list_all host_byte p" using assms(2) by (auto simp: host_label_def host_byte_def list_all_iff)
  then show "host_in_domain (p @ CHR ''.'' # d) d" using public_in_domain(2) [OF assms(1)] by blast
qed

section \<open>Where requests go\<close>

text \<open>A request that stays with the mailbox's domain: https, to a host of that domain that is not an IP
  address, on the default port or 443, without user information, redirects refused.\<close>

definition vetted :: "string \<Rightarrow> request \<Rightarrow> bool" where
  "vetted base rq \<longleftrightarrow> \<not> rq_follow rq \<and>
     (\<exists>sch host p rest. rq_url rq = sch @ ''://'' @ host @ p @ rest \<and> to_lower sch = ''https''
        \<and> mail_host_re host \<and> \<not> parse_ip host \<and> host_in_domain host base
        \<and> p \<in> {[], '':'', '':443''} \<and> (rest = [] \<or> hd rest \<in> set ''/?#''))"

definition ipv6_literals :: "(string \<Rightarrow> string option) \<Rightarrow> bool" where
  "ipv6_literals lit \<longleftrightarrow> (\<forall>h n. lit h = Some n \<longrightarrow> CHR '':'' \<in> set (fst (split_host_port n)))"

lemma https_lower: "to_lower ''https'' = ''https''"
  by code_simp

lemma vettedI:
  assumes "rq_url rq = ''https://'' @ host @ rest" "\<not> rq_follow rq" "mail_host_re host" "\<not> parse_ip host"
    "host_in_domain host base" "rest = [] \<or> hd rest \<in> set ''/?#''"
  shows "vetted base rq"
proof -
  have "rq_url rq = ''https'' @ ''://'' @ host @ [] @ rest" using assms(1) by simp
  then show ?thesis using assms https_lower unfolding vetted_def by blast
qed

lemma endpoint_text:
  assumes ok: "validate_token_endpoint lit raw base = None" and lit: "ipv6_literals lit"
  obtains sch host p rest where "raw = sch @ ''://'' @ host @ p @ rest" "to_lower sch = ''https''"
    "public_mail_domain host" "host_in_domain host base" "p \<in> {[], '':'', '':443''}"
    "rest = [] \<or> hd rest \<in> set ''/?#''"
proof -
  obtain u where u: "url_parse lit raw = Some u" and sch: "u_Scheme u = ''https''" and usr: "\<not> u_User u"
    and pt: "port u = [] \<or> port u = ''443''" and pub: "public_mail_domain (hostname u)"
    and dm: "host_in_domain (hostname u) base"
    using ok by (auto simp: validate_token_endpoint_def split: option.splits if_splits)
  have "u_Host u \<noteq> []"
  proof
    assume "u_Host u = []"
    then have "hostname u = []"
      by (simp add: hostname_def split_host_port_def last_char_index_def has_prefix_def)
    then show False using pub by (simp add: public_mail_domain_def)
  qed
  then obtain s auth rest where raw: "raw = s @ ''://'' @ auth @ rest" "to_lower s = ''https''"
    "rest = [] \<or> hd rest \<in> set ''/?#''" and auth: "parse_authority lit auth = Some (u_User u, u_Host u)"
    using url_parse_authority [OF u] sch by (metis list.distinct(1))
  have "parse_host lit auth = Some (u_Host u)"
    using auth usr by (auto simp: parse_authority_def split: option.splits prod.splits if_splits)
  moreover have "CHR '':'' \<notin> set (hostname u)"
    using public_bytes [OF pub] host_byte_plain by (force simp: list_all_iff)
  ultimately have br: "CHR ''['' \<notin> set auth" and un: "unescape_host auth = Some (u_Host u)"
    using lit by (auto simp: parse_host_def ipv6_literals_def hostname_def split: if_splits)
  then have "CHR ''['' \<notin> set (u_Host u)" using unescape_host_set [OF un] by (auto simp: less_eq_char_def)
  then have join: "u_Host u = hostname u \<and> port u = [] \<or> u_Host u = hostname u @ '':'' @ port u"
    by (metis hostname_def port_def prod.collapse split_host_port_join)
  have "list_all (\<lambda>c. c \<noteq> CHR ''%'' \<and> \<not> CHR 0x80 \<le> c) (hostname u)"
    using public_bytes [OF pub] host_byte_plain by (simp add: list_all_iff)
  moreover have "list_all (\<lambda>c. c \<noteq> CHR ''%'' \<and> \<not> CHR 0x80 \<le> c) ('':'' @ port u)"
    using pt by (auto simp: less_eq_char_def)
  ultimately have "list_all (\<lambda>c. c \<noteq> CHR ''%'' \<and> \<not> CHR 0x80 \<le> c) (u_Host u)"
    using join list_all_append by metis
  then have "u_Host u = auth" by (rule unescape_host_ascii [OF un])
  then have "raw = s @ ''://'' @ hostname u @ (if u_Host u = hostname u then [] else '':'' @ port u) @ rest"
    using raw(1) join by auto
  moreover have "(if u_Host u = hostname u then [] else '':'' @ port u) \<in> {[], '':'', '':443''}"
    using pt by auto
  ultimately show thesis using raw(2,3) pub dm by (intro that) simp_all
qed

lemma public_host: "public_mail_domain h \<Longrightarrow> mail_host_re h \<and> \<not> parse_ip h"
  by (simp add: public_mail_domain_def)

lemma send_request_log: "set (fst (send_request x rq)) \<subseteq> {rq}"
  by (simp add: send_request_def)

lemma vetted_own:
  assumes "public_mail_domain d" "rq_url rq = ''https://'' @ d @ CHR ''/'' # path" "\<not> rq_follow rq"
  shows "vetted d rq"
  using assms public_in_domain(1) [OF assms(1)] public_host [OF assms(1)] by (intro vettedI) auto

lemma exchange_token_vetted:
  assumes "ipv6_literals (x_lit x)" "rq \<in> set (fst (exchange_token x p))"
  shows "vetted (domain_of (p_Username p)) rq"
proof -
  have ok: "validate_token_endpoint (x_lit x) (p_TokenEndpoint p) (domain_of (p_Username p)) = None"
    and rq: "rq_url rq = p_TokenEndpoint p" "\<not> rq_follow rq"
    using assms(2) by (auto simp: exchange_token_def send_request_def Let_def split: option.splits if_splits)
  show ?thesis
  proof (rule endpoint_text [OF ok assms(1)])
    fix sch host pt rest
    assume a: "p_TokenEndpoint p = sch @ ''://'' @ host @ pt @ rest" "to_lower sch = ''https''"
      "public_mail_domain host" "host_in_domain host (domain_of (p_Username p))"
      "pt \<in> {[], '':'', '':443''}" "rest = [] \<or> hd rest \<in> set ''/?#''"
    have "rq_url rq = sch @ ''://'' @ host @ pt @ rest" using a(1) rq(1) by simp
    then show ?thesis unfolding vetted_def using a rq(2) public_host [OF a(3)] by blast
  qed
qed

lemma autoconfig_label: "host_label ''autoconfig''" "\<not> list_all is_digit ''autoconfig''"
  by (code_simp, code_simp)

lemma fetch_autoconfig_url:
  "rq \<in> set (fst (fetch_autoconfig x u)) \<Longrightarrow> rq_url rq = u \<and> \<not> rq_follow rq"
  by (auto simp: fetch_autoconfig_def send_request_def split: option.splits if_splits)

lemma autoconfig_urls_vetted:
  assumes "public_mail_domain d" "rq_url rq \<in> set (autoconfig_urls d)" "\<not> rq_follow rq"
  shows "vetted d rq"
proof -
  consider "rq_url rq = ''https://'' @ d @ ''/.well-known/vayumail/autoconfig.json''"
    | "rq_url rq = ''https://'' @ (''autoconfig'' @ CHR ''.'' # d) @ ''/.well-known/vayumail/autoconfig.json''"
    using assms(2) by (auto simp: autoconfig_urls_def)
  then show ?thesis
  proof cases
    case 1
    then show ?thesis using assms vetted_own by simp
  next
    case 2
    then show ?thesis using assms(3) subdomain_host [OF assms(1) autoconfig_label] by (intro vettedI) auto
  qed
qed

lemma try_autoconfig_urls:
  "rq \<in> set (fst (try_autoconfig x email us e)) \<Longrightarrow> rq_url rq \<in> set us \<and> \<not> rq_follow rq"
proof (induction us arbitrary: e)
  case (Cons u us)
  obtain log r where f: "fetch_autoconfig x u = (log, r)" by force
  then have "rq \<in> set log \<or> (\<exists>e'. rq \<in> set (fst (try_autoconfig x email us e')))"
    using Cons(2) by (auto split: sum.splits prod.splits simp: Let_def) (metis fst_conv)
  then show ?case using Cons(1) fetch_autoconfig_url [of rq x u] f by auto
qed simp

lemma advertised_from_urls:
  "rq \<in> set (fst (advertised_from x d us)) \<Longrightarrow> rq_url rq \<in> set us \<and> \<not> rq_follow rq"
proof (induction us)
  case (Cons u us)
  obtain log r where f: "fetch_autoconfig x u = (log, r)" by force
  then have "rq \<in> set log \<or> rq \<in> set (fst (advertised_from x d us))"
    using Cons(2) by (auto split: sum.splits prod.splits simp: Let_def)
  then show ?case using Cons(1) fetch_autoconfig_url [of rq x u] f by auto
qed simp

lemma discover_vetted:
  "rq \<in> set (fst (discover_autoconfig x email)) \<Longrightarrow> \<exists>d. address_domain email = Some d \<and> vetted d rq"
  by (auto simp: discover_autoconfig_def split: option.splits if_splits
      dest!: try_autoconfig_urls intro: autoconfig_urls_vetted)

text \<open>A host that the relay choice may return or probe: the mail domain or one below it.\<close>

definition talk_host :: "string \<Rightarrow> string \<Rightarrow> bool" where
  "talk_host d h \<longleftrightarrow> h = d \<or> has_suffix (CHR ''.'' # d) h"

lemma talk_host_for_in: "talk_host_for adv d \<noteq> [] \<Longrightarrow> talk_host d (talk_host_for adv d)"
  by (auto simp: talk_host_for_def talk_host_def Let_def split: if_splits)

lemma advertised_from_in: "snd (advertised_from x d us) \<noteq> [] \<Longrightarrow> talk_host d (snd (advertised_from x d us))"
  by (induction us) (auto split: sum.splits prod.splits simp: Let_def talk_host_for_in)

lemma talk_candidates_in:
  assumes "adv \<noteq> [] \<Longrightarrow> talk_host d adv" "h \<in> set (talk_candidates adv d)"
  shows "talk_host d h"
proof -
  have "has_suffix (CHR ''.'' # d) (''talk'' @ (CHR ''.'' # d))" by (rule has_suffix_append)
  then show ?thesis using assms by (auto simp: talk_candidates_def talk_host_def Let_def split: if_splits)
qed

lemma first_live_in: "snd (first_live x hs d) \<in> insert d (set hs)"
  by (induction hs) (auto simp: Let_def split: prod.splits)

lemma talk_host_in_domain:
  assumes "public_mail_domain d" "public_mail_domain h" "talk_host d h"
  shows "host_in_domain h d"
proof -
  have "trim_space h = h" "trim_space d = d" using assms public_bytes by auto
  moreover have "has_suffix (CHR ''.'' # to_lower d) (to_lower h)" if "has_suffix (CHR ''.'' # d) h"
  proof -
    from that obtain t where "h = t @ CHR ''.'' # d" by (auto simp: has_suffix_iff)
    then have "to_lower h = to_lower t @ CHR ''.'' # to_lower d" by (simp add: to_lower_def lower_char_def)
    then show ?thesis by simp
  qed
  ultimately show ?thesis using assms public_nonempty by (auto simp: host_in_domain_def talk_host_def)
qed

lemma probe_vetted:
  assumes "public_mail_domain d" "talk_host d h" "rq \<in> set (fst (probe_talk_relay x h))"
  shows "vetted d rq"
proof -
  have h: "public_mail_domain h" and u: "rq_url rq = ''https://'' @ h @ ''/api/v1/talk/stream''" "\<not> rq_follow rq"
    using assms(3) by (auto simp: probe_talk_relay_def send_request_def split: if_splits option.splits reply.splits)
  then show ?thesis
    using talk_host_in_domain [OF assms(1) h assms(2)] public_host by (intro vettedI) auto
qed

lemma first_live_vetted:
  assumes "public_mail_domain d" "\<forall>h \<in> set hs. talk_host d h" "rq \<in> set (fst (first_live x hs d))"
  shows "vetted d rq"
  using assms(2,3)
proof (induction hs)
  case (Cons h hs)
  then have "rq \<in> set (fst (probe_talk_relay x h)) \<or> rq \<in> set (fst (first_live x hs d))"
    by (auto simp: Let_def split: prod.splits if_splits)
  then show ?case using Cons probe_vetted [OF assms(1)] by auto
qed simp

lemma resolve_talk_vetted:
  assumes "rq \<in> set (fst (resolve_talk_host x email))"
  shows "\<exists>d. address_domain email = Some d \<and> vetted d rq"
proof -
  obtain d where d: "address_domain email = Some d" "public_mail_domain d"
    using assms by (auto simp: resolve_talk_host_def split: option.splits if_splits)
  define adv where "adv = snd (advertised_talk_host x d)"
  have "rq \<in> set (fst (advertised_talk_host x d)) \<or> rq \<in> set (fst (first_live x (talk_candidates adv d) d))"
    using assms d by (auto simp: resolve_talk_host_def adv_def Let_def split: prod.splits)
  moreover have "talk_host d h" if "h \<in> set (talk_candidates adv d)" for h
    using talk_candidates_in [OF _ that] advertised_from_in by (auto simp: adv_def advertised_talk_host_def)
  ultimately have "vetted d rq"
    using d(2) first_live_vetted advertised_from_urls autoconfig_urls_vetted
    unfolding advertised_talk_host_def by metis
  with d show ?thesis by blast
qed

lemma post_device_vetted:
  assumes "rq \<in> set (fst (post_device_json x d endpoint payload dec))"
  shows "vetted d rq"
proof -
  have "public_mail_domain d" "rq_url rq = ''https://'' @ d @ ''/api/v1/members/'' @ endpoint" "\<not> rq_follow rq"
    using assms by (auto simp: post_device_json_def send_request_def split: if_splits option.splits reply.splits)
  then show ?thesis by (intro vetted_own) auto
qed

lemma register_device_log:
  "fst (register_device x email pw name pf) = fst (post_device_json x (domain_of email) ''vayumail-device-register''
     [(''email'', JStr email), (''password'', JStr pw), (''device_name'', JStr name), (''platform'', JStr pf)] (x_register x))"
  by (simp add: register_device_def split: prod.splits sum.splits)

lemma device_status_log:
  "fst (device_status x email i pw) = fst (post_device_json x (domain_of email) ''vayumail-device-status''
     [(''email'', JStr email), (''device_id'', JStr i), (''device_password'', JStr pw)] (x_status x))"
  by (simp add: device_status_def split: prod.splits sum.splits)

lemma fetch_private_key_vetted:
  assumes "rq \<in> set (fst (fetch_private_key x email pw))"
  shows "vetted (domain_of email) rq"
proof -
  have "public_mail_domain (domain_of email)" "\<not> rq_follow rq"
    "rq_url rq = ''https://'' @ domain_of email @ ''/api/v1/members/vayumail-privkey''"
    using assms by (auto simp: fetch_private_key_def send_request_def split: if_splits option.splits reply.splits)
  then show ?thesis by (intro vetted_own) auto
qed

section \<open>Properties\<close>

text \<open>The network operations of the package, and the mailbox domain each one works for.\<close>

datatype account_call = Discover string | Resolve_talk string | Register string string string string
  | Status string string string | Private_key string string | Exchange provision_payload

fun call_log :: "ext \<Rightarrow> account_call \<Rightarrow> request list" where
  "call_log x (Discover email) = fst (discover_autoconfig x email)"
| "call_log x (Resolve_talk email) = fst (resolve_talk_host x email)"
| "call_log x (Register email pw name pf) = fst (register_device x email pw name pf)"
| "call_log x (Status email i pw) = fst (device_status x email i pw)"
| "call_log x (Private_key email pw) = fst (fetch_private_key x email pw)"
| "call_log x (Exchange p) = fst (exchange_token x p)"

fun call_domain :: "account_call \<Rightarrow> string option" where
  "call_domain (Discover email) = address_domain email"
| "call_domain (Resolve_talk email) = address_domain email"
| "call_domain (Register email pw name pf) = Some (domain_of email)"
| "call_domain (Status email i pw) = Some (domain_of email)"
| "call_domain (Private_key email pw) = Some (domain_of email)"
| "call_domain (Exchange p) = Some (domain_of (p_Username p))"

text \<open>C16. Credentials stay in the mailbox's domain: whatever servers answer, every request of every
  network operation goes over https to a host name of that domain, on the default port or 443, with no user
  information in the URL, and does not follow redirects. IP literals in URLs are IPv6 addresses.\<close>

theorem requests_stay_in_domain:
  assumes "ipv6_literals (x_lit x)" "rq \<in> set (call_log x c)"
  shows "\<exists>d. call_domain c = Some d \<and> vetted d rq"
proof (cases c)
  case (Discover e)
  then show ?thesis using assms discover_vetted by auto
next
  case (Resolve_talk e)
  then show ?thesis using assms resolve_talk_vetted by auto
next
  case (Register a b c d)
  then show ?thesis using assms post_device_vetted by (auto simp: register_device_log)
next
  case (Status a b c)
  then show ?thesis using assms post_device_vetted by (auto simp: device_status_log)
next
  case (Private_key a b)
  then show ?thesis using assms fetch_private_key_vetted by auto
next
  case (Exchange p)
  then show ?thesis using assms exchange_token_vetted by auto
qed

text \<open>A sample world: no IP literals, a JSON codec by fixed texts, a server that answers 401 to
  everything and a signature scheme that accepts one key.\<close>

definition sample_payload :: provision_payload where
  "sample_payload = \<lparr>p_V = 1, p_Server = ''mail.example.org'', p_IMAPPort = 993, p_IMAPTLS = ''tls'',
     p_SMTPPort = 587, p_SMTPTLS = ''starttls'', p_Username = ''ada@example.org'', p_DisplayName = ''ada'',
     p_Token = ''t0'', p_TokenEndpoint = ''https://example.org/provision'',
     p_ServerPubkey = b64u_encode (replicate 32 CHR ''k''), p_ExpiresAt = 1000, p_Sig = b64u_encode (replicate 64 CHR ''s'')\<rparr>"

definition sample_ext :: ext where
  "sample_ext = \<lparr>x_net = (\<lambda>rq. Reply 401 [] True), x_lit = (\<lambda>h. None), x_object = (\<lambda>m. concat (map fst m)),
     x_payload = (\<lambda>s. if s = ''{}'' then Some sample_payload else None), x_creds = (\<lambda>s. None),
     x_doc = (\<lambda>s. None), x_register = (\<lambda>s. None), x_status = (\<lambda>s. None), x_reason = (\<lambda>s. None),
     x_privkey = (\<lambda>s. None), x_verify = (\<lambda>k msg sig. k = replicate 32 CHR ''k''), x_sha256 = (\<lambda>s. s)\<rparr>"

lemma sample_lit: "ipv6_literals (x_lit sample_ext)"
  by (simp add: sample_ext_def ipv6_literals_def)

definition sample_request :: request where
  "sample_request = \<lparr>rq_method = ''POST'', rq_url = ''https://example.org/api/v1/members/vayumail-privkey'',
     rq_accept = ''application/json'', rq_body = ''emailpassword'', rq_follow = False\<rparr>"

lemma sample_private_key: "call_log sample_ext (Private_key ''ada@example.org'' ''pw'') = [sample_request]"
  by code_simp

theorem requests_stay_in_domain_witness: "vetted ''example.org'' sample_request"
proof -
  have "\<exists>d. call_domain (Private_key ''ada@example.org'' ''pw'') = Some d \<and> vetted d sample_request"
    by (rule requests_stay_in_domain [OF sample_lit]) (subst sample_private_key, simp)
  moreover have "domain_of ''ada@example.org'' = ''example.org''" by code_simp
  ultimately show ?thesis by simp
qed

text \<open>C28. What a verified setup code guarantees: the signature holds over the payload's canonical form, the
  code has not expired, both transports are TLS, the ports are in range, the mail server lies in the
  mailbox's domain, and the account configuration it gives passes \<open>Validate\<close> under any key
  alias.\<close>

theorem verified_code_guarantees:
  assumes "parse_and_verify x raw now = Inr p" "alias \<noteq> []"
  shows "verify_signature x p \<and> unix_sec now < p_ExpiresAt p
    \<and> config_validate (payload_config p alias) = None
    \<and> public_mail_domain (p_Server p) \<and> host_in_domain (p_Server p) (domain_of (p_Username p))"
proof -
  have p: "verify_signature x p" "unix_sec now < p_ExpiresAt p" "tls_valid (p_IMAPTLS p)" "tls_valid (p_SMTPTLS p)"
    "valid_port (p_IMAPPort p)" "valid_port (p_SMTPPort p)" "domain_of (p_Username p) \<noteq> []"
    "public_mail_domain (p_Server p)" "host_in_domain (p_Server p) (domain_of (p_Username p))"
    using assms(1) by (auto simp: parse_and_verify_def Let_def transport_ok_def allow_plain_transport_def
        split: option.splits if_splits)
  moreover have "p_Username p \<noteq> []" using p(7) by (auto simp: domain_of_def last_char_index_def)
  ultimately show ?thesis
    using assms(2) public_nonempty [OF p(8)] by (simp add: config_validate_def payload_config_def)
qed

lemma sample_code: "parse_and_verify sample_ext (b64u_encode ''{}'') 0 = Inr sample_payload"
  by code_simp

theorem verified_code_guarantees_witness:
  "config_validate (payload_config sample_payload ''k'') = None"
  using verified_code_guarantees [OF sample_code, of "''k''"] by simp

text \<open>The talk relay is never outside the mail domain: the host chosen for a mailbox is none, the domain
  itself, or a public host below it that answered the probe with 401.\<close>

theorem talk_relay_confined:
  "snd (resolve_talk_host x email) = []
   \<or> (\<exists>d. address_domain email = Some d \<and> public_mail_domain d
        \<and> (snd (resolve_talk_host x email) = d
           \<or> has_suffix (CHR ''.'' # d) (snd (resolve_talk_host x email))
             \<and> snd (probe_talk_relay x (snd (resolve_talk_host x email)))))"
proof -
  have live: "snd (first_live x hs d) = d \<or> snd (first_live x hs d) \<in> set hs \<and> snd (probe_talk_relay x (snd (first_live x hs d)))"
    for hs d by (induction hs) (auto simp: Let_def split: prod.splits)
  show ?thesis
  proof (cases "\<exists>d. address_domain email = Some d \<and> public_mail_domain d")
    case False
    then show ?thesis by (auto simp: resolve_talk_host_def split: option.splits)
  next
    case True
    then obtain d where d: "address_domain email = Some d" "public_mail_domain d" by blast
    define adv where "adv = snd (advertised_talk_host x d)"
    have r: "snd (resolve_talk_host x email) = snd (first_live x (talk_candidates adv d) d)"
      using d by (simp add: resolve_talk_host_def adv_def Let_def split: prod.splits)
    have "talk_host d h" if "h \<in> set (talk_candidates adv d)" for h
      using talk_candidates_in [OF _ that] advertised_from_in by (auto simp: adv_def advertised_talk_host_def)
    then show ?thesis using live [of "talk_candidates adv d" d] d r unfolding talk_host_def by metis
  qed
qed

lemma tls_mode_valid: "tls_mode_from_wire s = Some m \<Longrightarrow> tls_valid m"
  by (auto simp: tls_mode_from_wire_def tls_valid_def Let_def split: if_splits)

lemma auth_mech_known: "auth_mech_from_wire s = Some m \<Longrightarrow> m \<in> {[], ''oauthbearer'', ''xoauth2''}"
  by (auto simp: auth_mech_from_wire_def Let_def split: if_splits)

lemma doc_config_fields:
  assumes "doc_to_config d email = Inr cfg"
  shows "c_EmailAddress cfg = email \<and> c_Username cfg = email \<and> c_IMAPHost cfg \<noteq> [] \<and> c_SMTPHost cfg \<noteq> []
    \<and> valid_port (c_IMAPPort cfg) \<and> valid_port (c_SMTPPort cfg) \<and> tls_valid (c_IMAPTLS cfg) \<and> tls_valid (c_SMTPTLS cfg)
    \<and> c_AuthMech cfg \<in> {[], ''oauthbearer'', ''xoauth2''}"
proof -
  obtain it st me where "tls_mode_from_wire (e_TLS (d_IMAP d)) = Some it"
    "tls_mode_from_wire (e_TLS (d_SMTP d)) = Some st" "auth_mech_from_wire (d_Auth d) = Some me"
    using assms unfolding doc_to_config_def by (simp split: option.splits if_splits)
  note m = this tls_mode_valid [OF this(1)] tls_mode_valid [OF this(2)] auth_mech_known [OF this(3)]
  show ?thesis using assms m(4,5,6) unfolding doc_to_config_def m(1,2,3) by (simp split: if_splits) auto
qed

text \<open>Autoconfiguration yields usable drafts only: a discovered configuration with a key alias filled in
  passes \<open>Validate\<close>, its user name is the address and its mechanism is a supported one.\<close>

theorem discovered_config_valid:
  assumes "snd (discover_autoconfig x email) = Inr cfg" "alias \<noteq> []"
  shows "config_validate (cfg\<lparr>c_KeystoreAlias := alias\<rparr>) = None \<and> c_Username cfg = email
    \<and> c_AuthMech cfg \<in> {[], ''oauthbearer'', ''xoauth2''}"
proof -
  have from_doc: "snd (try_autoconfig x email us e) = Inr cfg \<Longrightarrow> \<exists>d. doc_to_config d email = Inr cfg" for us e
    by (induction us arbitrary: e) (auto split: prod.splits sum.splits simp: Let_def, metis snd_conv)
  have "email \<noteq> []" using assms(1)
    by (auto simp: discover_autoconfig_def address_domain_def last_char_index_def)
  moreover obtain d where "doc_to_config d email = Inr cfg"
    using assms(1) from_doc by (auto simp: discover_autoconfig_def split: option.splits if_splits)
  ultimately show ?thesis
    using assms(2) doc_config_fields [of d email cfg] by (simp add: config_validate_def)
qed

definition sample_doc :: autoconfig_doc where
  "sample_doc = \<lparr>d_Schema = autoconfig_schema, d_Domain = ''example.org'', d_DisplayName = [],
     d_IMAP = \<lparr>e_Host = ''imap.example.org'', e_Port = 993, e_TLS = ''TLS''\<rparr>,
     d_POP3 = \<lparr>e_Host = [], e_Port = 0, e_TLS = []\<rparr>,
     d_SMTP = \<lparr>e_Host = ''smtp.example.org'', e_Port = 587, e_TLS = ''starttls''\<rparr>,
     d_UsernameIsEmail = True, d_Auth = ''password'', d_WKD = False, d_Talk = []\<rparr>"

definition doc_ext :: ext where
  "doc_ext = sample_ext\<lparr>x_net := (\<lambda>rq. Reply 200 ''{}'' True), x_doc := (\<lambda>s. Some sample_doc)\<rparr>"

definition sample_config :: config where
  "sample_config = \<lparr>c_DisplayName = ''ada@example.org'', c_EmailAddress = ''ada@example.org'',
     c_IMAPHost = ''imap.example.org'', c_IMAPPort = 993, c_IMAPTLS = ''tls'',
     c_SMTPHost = ''smtp.example.org'', c_SMTPPort = 587, c_SMTPTLS = ''starttls'',
     c_Username = ''ada@example.org'', c_KeystoreAlias = [], c_PinnedSPKI = [], c_AuthMech = []\<rparr>"

lemma doc_ext_reply: "decode_doc doc_ext (Reply 200 ''{}'' True) = Inr sample_doc"
  by (simp add: decode_doc_def read_limited_def doc_ext_def sample_doc_def)

lemma doc_ext_url: "url_parse (\<lambda>h. None) ''https://example.org/.well-known/vayumail/autoconfig.json'' \<noteq> None"
  by code_simp

lemma doc_ext_fetch:
  "snd (fetch_autoconfig doc_ext ''https://example.org/.well-known/vayumail/autoconfig.json'') = Inr sample_doc"
proof -
  have "x_lit doc_ext = (\<lambda>h. None)" "x_net doc_ext rq = Reply 200 ''{}'' True" for rq
    by (simp_all add: doc_ext_def sample_ext_def)
  then show ?thesis using doc_ext_url doc_ext_reply
    by (auto simp: fetch_autoconfig_def send_request_def split: option.splits)
qed

lemma sample_domain: "address_domain ''ada@example.org'' = Some ''example.org''" "public_mail_domain ''example.org''"
  by (code_simp, code_simp)

lemma sample_doc_config: "doc_to_config sample_doc ''ada@example.org'' = Inr sample_config"
  by code_simp

lemma sample_discovery: "snd (discover_autoconfig doc_ext ''ada@example.org'') = Inr sample_config"
  using doc_ext_fetch
  by (auto simp: discover_autoconfig_def sample_domain autoconfig_urls_def sample_doc_config split: prod.splits sum.splits)

theorem discovered_config_valid_witness: "config_validate (sample_config\<lparr>c_KeystoreAlias := ''k''\<rparr>) = None"
  using discovered_config_valid [OF sample_discovery, of "''k''"] by simp

text \<open>A pinned account connects only to the pinned key, on a resumed session as on a full handshake:
  some certificate of a verified chain hashes to the pin.\<close>

theorem pin_on_every_handshake:
  assumes "tls_handshake x c webpki resumed ccs" "c_PinnedSPKI c \<noteq> []"
  shows "webpki \<and> (\<exists>chain \<in> set ccs. \<exists>spki \<in> set chain. b64_encode (x_sha256 x spki) = c_PinnedSPKI c)"
  using assms by (auto simp: tls_handshake_def match_pin_def spki_hash_def list_ex_iff)

theorem pin_on_every_handshake_witness:
  "\<exists>chain \<in> set [[''abc'', ''xyz'']]. \<exists>spki \<in> set chain. b64_encode (x_sha256 sample_ext spki) = b64_encode ''xyz''"
proof -
  have "tls_handshake sample_ext (sample_config\<lparr>c_PinnedSPKI := b64_encode ''xyz''\<rparr>) True True [[''abc'', ''xyz'']]"
    by code_simp
  from pin_on_every_handshake [OF this] show ?thesis by simp
qed

text \<open>The host guard, which is meant to keep discovery off loopback hosts, lets two spellings of them
  through: the short IPv4 form 127.1 and names below localhost.\<close>

theorem loopback_names_accepted:
  "public_mail_domain ''127.1'' \<and> public_mail_domain ''mail.localhost'' \<and> \<not> public_mail_domain ''127.0.0.1''
   \<and> \<not> public_mail_domain ''localhost''"
  by code_simp

end
