(* ===== verification/Provision.thy ===== *)
theory Provision
  imports AccountLaws
begin

text \<open>
  The provisioning service (\<open>cmd/vayumail-provision\<close>): setup codes for authorized
  requests and the exchange of one-time tokens for mail passwords, together with what the app's
  \<open>ParseAndVerify\<close> makes of its codes.

  The random source (24 bytes per token, or an error), the clock and the Ed25519 signature are
  arguments; the mutex makes each access to the token map one step, and the requests of the
  service are a sequence of handler runs.
\<close>

section \<open>The service\<close>

record service_config =
  v_Server :: string
  v_IMAPPort :: int
  v_SMTPPort :: int
  v_TTL :: int
  v_Users :: "string \<rightharpoonup> string"
  v_AdminToken :: string

record pending_token =
  pt_email :: string
  pt_expires :: int

record service =
  s_cfg :: service_config
  s_pubB64 :: string
  s_tokens :: "string \<rightharpoonup> pending_token"

definition new_service :: "service_config \<Rightarrow> bytes \<Rightarrow> service" where
  "new_service cfg pub = \<lparr>s_cfg = cfg, s_pubB64 = b64u_encode pub, s_tokens = Map.empty\<rparr>"

definition prune_expired :: "int \<Rightarrow> service \<Rightarrow> service" where
  "prune_expired now s = s\<lparr>s_tokens := (\<lambda>t. case s_tokens s t of
     Some pt \<Rightarrow> if now > pt_expires pt then None else Some pt | None \<Rightarrow> None)\<rparr>"

definition random_token :: "bytes option \<Rightarrow> string option" where
  "random_token raw = map_option b64u_encode raw"

definition expiry :: "service \<Rightarrow> int \<Rightarrow> int" where
  "expiry s now = now + wrap64 (v_TTL (s_cfg s) * second)"

text \<open>The fields of the signed object, and the same with the signature.\<close>

definition payload_fields :: "service \<Rightarrow> string \<Rightarrow> string \<Rightarrow> string \<Rightarrow> int \<Rightarrow> (string \<times> jval) list" where
  "payload_fields s email endpoint token expires =
     [(''v'', JInt 1), (''server'', JStr (v_Server (s_cfg s))), (''imap_port'', JInt (v_IMAPPort (s_cfg s))),
      (''imap_tls'', JStr ''tls''), (''smtp_port'', JInt (v_SMTPPort (s_cfg s))), (''smtp_tls'', JStr ''starttls''),
      (''username'', JStr email), (''display_name'', JStr (hd (split_on CHR ''@'' email))), (''token'', JStr token),
      (''token_endpoint'', JStr endpoint), (''server_pubkey'', JStr (s_pubB64 s)),
      (''expires_at'', JInt (unix_sec expires))]"

definition build_payload :: "ext \<Rightarrow> (bytes \<Rightarrow> bytes) \<Rightarrow> service \<Rightarrow> string \<Rightarrow> string \<Rightarrow> bytes option \<Rightarrow> int \<Rightarrow> int
    \<Rightarrow> service \<times> string option" where
  "build_payload x sign s email endpoint raw now prune_now =
     (case random_token raw of
        None \<Rightarrow> (s, None)
      | Some token \<Rightarrow>
          (let expires = expiry s now;
               s1 = prune_expired prune_now s;
               s2 = s1\<lparr>s_tokens := (s_tokens s1)(token \<mapsto> \<lparr>pt_email = email, pt_expires = expires\<rparr>)\<rparr>;
               fs = payload_fields s email endpoint token expires;
               sig = b64u_encode (sign (marshal_map x fs))
           in (s2, Some (b64u_encode (marshal_map x (fs @ [(''sig'', JStr sig)]))))))"

record code_request =
  q_user :: string
  q_admin :: string
  q_authorization :: string
  q_tls :: bool
  q_host :: string

definition authorized :: "service \<Rightarrow> code_request \<Rightarrow> bool" where
  "authorized s r =
     (let want = v_AdminToken (s_cfg s);
          got = (if q_authorization r = [] then q_admin r
                 else if has_prefix ''Bearer '' (q_authorization r) then drop 7 (q_authorization r)
                 else [])
      in want \<noteq> [] \<and> got \<noteq> [] \<and> got = want)"

datatype response = Http_error int | Text string | Passwords string string

definition payload_for :: "ext \<Rightarrow> (bytes \<Rightarrow> bytes) \<Rightarrow> service \<Rightarrow> code_request \<Rightarrow> bytes option \<Rightarrow> int \<Rightarrow> int
    \<Rightarrow> service \<times> (int, string) result" where
  "payload_for x sign s r raw now prune_now =
     (if \<not> authorized s r then (s, Inl 401)
      else if v_Users (s_cfg s) (to_lower (q_user r)) = None then (s, Inl 404)
      else case build_payload x sign s (to_lower (q_user r))
                  ((if q_tls r then ''https'' else ''http'') @ ''://'' @ q_host r @ ''/provision'') raw now prune_now of
             (s', None) \<Rightarrow> (s', Inl 500)
           | (s', Some p) \<Rightarrow> (s', Inr p))"

definition handle_setup_code :: "ext \<Rightarrow> (bytes \<Rightarrow> bytes) \<Rightarrow> service \<Rightarrow> code_request \<Rightarrow> bytes option \<Rightarrow> int \<Rightarrow> int
    \<Rightarrow> service \<times> response" where
  "handle_setup_code x sign s r raw now prune_now =
     (case payload_for x sign s r raw now prune_now of
        (s', Inl code) \<Rightarrow> (s', Http_error code)
      | (s', Inr p) \<Rightarrow> (s', Text (p @ lf)))"

text \<open>The exchange; the body is the decoded request, or nothing when it is not JSON. The user table
  answers the empty string for an absent name, as a Go map does.\<close>

definition handle_exchange :: "service \<Rightarrow> (string \<times> string) option \<Rightarrow> int \<Rightarrow> service \<times> response" where
  "handle_exchange s body now =
     (case body of
        None \<Rightarrow> (s, Http_error 400)
      | Some (token, username) \<Rightarrow>
          (let s1 = prune_expired now s
           in case s_tokens s1 token of
                None \<Rightarrow> (s1, Http_error 410)
              | Some pt \<Rightarrow>
                  (let s2 = s1\<lparr>s_tokens := (s_tokens s1)(token := None)\<rparr>
                   in if now > pt_expires pt \<or> \<not> equal_fold (pt_email pt) username then (s2, Http_error 410)
                      else (let pw = (case v_Users (s_cfg s2) (pt_email pt) of Some w \<Rightarrow> w | None \<Rightarrow> [])
                            in (s2, Passwords pw pw)))))"

section \<open>The user file\<close>

fun load_user_lines :: "nat \<Rightarrow> string list \<Rightarrow> (string \<times> string) list \<Rightarrow> (nat, (string \<times> string) list) result" where
  "load_user_lines i [] users = Inr users"
| "load_user_lines i (l # ls) users =
     (let line = trim_space l
      in if line = [] \<or> has_prefix ''#'' line then load_user_lines (Suc i) ls users
         else case char_index CHR '':'' line of
           None \<Rightarrow> Inl (Suc i)
         | Some k \<Rightarrow>
             (let email = take k line; password = drop (Suc k) line
              in if email = [] \<or> password = [] then Inl (Suc i)
                 else load_user_lines (Suc i) ls ((to_lower email, password) # users)))"

text \<open>The table, newest entry first, so that a repeated address keeps its last password; line 0 stands for
  the error of an empty table.\<close>

definition load_users :: "string \<Rightarrow> (nat, string \<rightharpoonup> string) result" where
  "load_users raw =
     (case load_user_lines 0 (split_on CHR 0x0A raw) [] of
        Inl n \<Rightarrow> Inl n
      | Inr users \<Rightarrow> if users = [] then Inl 0 else Inr (map_of users))"

section \<open>Runs of the service\<close>

datatype pv_op = Code code_request "bytes option" int int | Redeem "(string \<times> string) option" int

fun pv_step :: "ext \<Rightarrow> (bytes \<Rightarrow> bytes) \<Rightarrow> service \<Rightarrow> pv_op \<Rightarrow> service \<times> response" where
  "pv_step x sign s (Code r raw now prune_now) = handle_setup_code x sign s r raw now prune_now"
| "pv_step x sign s (Redeem body now) = handle_exchange s body now"

fun pv_run :: "ext \<Rightarrow> (bytes \<Rightarrow> bytes) \<Rightarrow> service \<Rightarrow> pv_op list \<Rightarrow> service \<times> response list" where
  "pv_run x sign s [] = (s, [])"
| "pv_run x sign s (op # ops) =
     (let (s1, r) = pv_step x sign s op; (s2, rs) = pv_run x sign s1 ops in (s2, r # rs))"

lemma pv_run_append:
  "pv_run x sign s (as @ bs) =
     (let (s1, r1) = pv_run x sign s as; (s2, r2) = pv_run x sign s1 bs in (s2, r1 @ r2))"
  by (induction as arbitrary: s) (simp_all add: Let_def case_prod_beta)

lemma pv_run_length: "length (snd (pv_run x sign s ops)) = length ops"
  by (induction ops arbitrary: s) (simp_all add: Let_def case_prod_beta)

lemma pv_step_cfg: "s_cfg (fst (pv_step x sign s op)) = s_cfg s"
proof (cases op)
  case (Code r raw now pn)
  then show ?thesis
    by (simp add: handle_setup_code_def payload_for_def build_payload_def prune_expired_def Let_def
        split: prod.splits sum.splits option.splits)
next
  case (Redeem body now)
  then show ?thesis
    by (simp add: handle_exchange_def prune_expired_def Let_def split: prod.splits option.splits)
qed

text \<open>A step that puts a token into the table, and one that takes a token for passwords.\<close>

definition mints :: "service_config \<Rightarrow> pv_op \<Rightarrow> response \<Rightarrow> string \<Rightarrow> pending_token \<Rightarrow> bool" where
  "mints cfg op rsp t pt \<longleftrightarrow>
     (\<exists>r raw now pn p. op = Code r (Some raw) now pn \<and> rsp = Text p \<and> t = b64u_encode raw
        \<and> authorized \<lparr>s_cfg = cfg, s_pubB64 = [], s_tokens = Map.empty\<rparr> r
        \<and> v_Users cfg (to_lower (q_user r)) \<noteq> None
        \<and> pt = \<lparr>pt_email = to_lower (q_user r), pt_expires = now + wrap64 (v_TTL cfg * second)\<rparr>)"

fun redeems :: "pv_op \<Rightarrow> response \<Rightarrow> string \<Rightarrow> bool" where
  "redeems (Redeem (Some (t', u)) now) (Passwords p q) t = (t = t')"
| "redeems _ _ _ = False"

lemma pv_step_tokens:
  assumes "s_tokens (fst (pv_step x sign s op)) t = Some pt"
  shows "(s_tokens s t = Some pt \<and> \<not> redeems op (snd (pv_step x sign s op)) t)
    \<or> mints (s_cfg s) op (snd (pv_step x sign s op)) t pt"
proof (cases op)
  case (Code r raw now pn)
  then show ?thesis using assms
    by (auto simp: handle_setup_code_def payload_for_def build_payload_def prune_expired_def random_token_def
        mints_def authorized_def expiry_def Let_def split: prod.splits sum.splits option.splits if_splits)
next
  case (Redeem body now)
  then show ?thesis using assms
    by (auto simp: handle_exchange_def prune_expired_def Let_def split: prod.splits option.splits if_splits)
qed

definition token_history :: "service_config \<Rightarrow> pv_op list \<Rightarrow> response list \<Rightarrow> service \<Rightarrow> bool" where
  "token_history cfg ops rs s \<longleftrightarrow> s_cfg s = cfg \<and>
     (\<forall>t pt. s_tokens s t = Some pt \<longrightarrow>
        (\<exists>i < length ops. mints cfg (ops ! i) (rs ! i) t pt
           \<and> (\<forall>k. i < k \<and> k < length ops \<longrightarrow> \<not> redeems (ops ! k) (rs ! k) t)))"

lemma token_history_step:
  assumes h: "token_history cfg ops rs s" and len: "length rs = length ops"
    and st: "pv_step x sign s op = (s', r)"
  shows "token_history cfg (ops @ [op]) (rs @ [r]) s'"
proof -
  have cfg: "s_cfg s = cfg" "s_cfg s' = cfg" using h st pv_step_cfg [of x sign s op] by (auto simp: token_history_def)
  {
    fix t pt assume "s_tokens s' t = Some pt"
    then consider "s_tokens s t = Some pt" "\<not> redeems op r t" | "mints cfg op r t pt"
      using pv_step_tokens [of x sign s op t pt] st cfg by auto
    then have "\<exists>i < length (ops @ [op]). mints cfg ((ops @ [op]) ! i) ((rs @ [r]) ! i) t pt
        \<and> (\<forall>k. i < k \<and> k < length (ops @ [op]) \<longrightarrow> \<not> redeems ((ops @ [op]) ! k) ((rs @ [r]) ! k) t)"
    proof cases
      case 1
      then obtain i where "i < length ops" "mints cfg (ops ! i) (rs ! i) t pt"
        "\<forall>k. i < k \<and> k < length ops \<longrightarrow> \<not> redeems (ops ! k) (rs ! k) t"
        using h unfolding token_history_def by blast
      then show ?thesis using 1 len by (intro exI [of _ i]) (auto simp: nth_append less_Suc_eq)
    next
      case 2
      then show ?thesis using len by (intro exI [of _ "length ops"]) (auto simp: nth_append)
    qed
  }
  then show ?thesis using cfg by (simp add: token_history_def)
qed

lemma token_history_run:
  "token_history cfg ops (snd (pv_run x sign (new_service cfg pub) ops)) (fst (pv_run x sign (new_service cfg pub) ops))"
proof (induction ops rule: rev_induct)
  case Nil
  then show ?case by (simp add: token_history_def new_service_def)
next
  case (snoc op ops)
  then show ?case
    using token_history_step [OF snoc pv_run_length]
    by (simp add: pv_run_append Let_def case_prod_beta)
qed

lemma pv_run_nth:
  assumes "j < length ops"
  shows "snd (pv_run x sign s ops) ! j = snd (pv_step x sign (fst (pv_run x sign s (take j ops))) (ops ! j))"
    and "snd (pv_run x sign s (take j ops)) = take j (snd (pv_run x sign s ops))"
proof -
  have ops: "ops = take j ops @ [ops ! j] @ drop (Suc j) ops" using assms by (simp add: id_take_nth_drop)
  have l: "length (snd (pv_run x sign s (take j ops))) = j" using assms by (simp add: pv_run_length)
  show "snd (pv_run x sign s ops) ! j = snd (pv_step x sign (fst (pv_run x sign s (take j ops))) (ops ! j))"
    by (subst ops, subst pv_run_append) (use l in \<open>simp add: Let_def nth_append case_prod_beta\<close>)
  show "snd (pv_run x sign s (take j ops)) = take j (snd (pv_run x sign s ops))"
    by (subst (2) ops, subst pv_run_append) (use l in \<open>simp add: Let_def case_prod_beta\<close>)
qed

lemma exchange_passwords:
  assumes "snd (handle_exchange s (Some (t, u)) now) = Passwords pw pw'"
  obtains pt where "s_tokens s t = Some pt" "now \<le> pt_expires pt" "equal_fold (pt_email pt) u" "pw' = pw"
    "pw = (case v_Users (s_cfg s) (pt_email pt) of Some w \<Rightarrow> w | None \<Rightarrow> [])"
proof (cases "s_tokens s t")
  case None
  then show ?thesis using assms by (simp add: handle_exchange_def prune_expired_def)
next
  case (Some pt)
  then have "\<not> now > pt_expires pt"
    using assms by (auto simp: handle_exchange_def prune_expired_def)
  moreover from this Some have "equal_fold (pt_email pt) u"
    using assms by (simp add: handle_exchange_def prune_expired_def Let_def split: if_splits)
  moreover define w where "w = (case v_Users (s_cfg s) (pt_email pt) of Some w \<Rightarrow> w | None \<Rightarrow> [])"
  moreover from calculation Some have "snd (handle_exchange s (Some (t, u)) now) = Passwords w w"
    by (simp add: handle_exchange_def prune_expired_def Let_def)
  ultimately show ?thesis using assms Some that [of pt] by simp
qed

section \<open>Properties\<close>

text \<open>C17. Passwords leave the service only against a code an authorized request asked for, once: in
  every run from an empty token table, an exchange that hands out passwords was preceded by an authorized code
  request that minted its token for a known user with the same address, whose validity has not passed, and no
  exchange in between took that token; the password is that user's.\<close>

theorem redemption_needs_authorized_code:
  assumes run: "pv_run x sign (new_service cfg pub) ops = (s, rs)"
    and j: "j < length ops" "ops ! j = Redeem (Some (t, u)) now" "rs ! j = Passwords pw pw'"
  shows "pw' = pw \<and> (\<exists>i < j. \<exists>pt. mints cfg (ops ! i) (rs ! i) t pt
      \<and> v_Users cfg (pt_email pt) = Some pw \<and> equal_fold (pt_email pt) u \<and> now \<le> pt_expires pt
      \<and> (\<forall>k. i < k \<and> k < j \<longrightarrow> \<not> redeems (ops ! k) (rs ! k) t))"
proof -
  define sj where "sj = fst (pv_run x sign (new_service cfg pub) (take j ops))"
  have rs: "rs = snd (pv_run x sign (new_service cfg pub) ops)" using run by simp
  have hist: "token_history cfg (take j ops) (take j rs) sj"
    using token_history_run [of cfg "take j ops" x sign pub] pv_run_nth(2) [OF j(1)] by (simp add: sj_def rs)
  then have c: "s_cfg sj = cfg" by (simp add: token_history_def)
  have "snd (handle_exchange sj (Some (t, u)) now) = Passwords pw pw'"
    using pv_run_nth(1) [OF j(1), of x sign "new_service cfg pub"] j(2,3) by (simp add: rs sj_def)
  then obtain pt where pt: "s_tokens sj t = Some pt" "now \<le> pt_expires pt" "equal_fold (pt_email pt) u" "pw' = pw"
    "pw = (case v_Users cfg (pt_email pt) of Some w \<Rightarrow> w | None \<Rightarrow> [])"
    using c by (elim exchange_passwords) simp
  from pt(1) hist obtain i where i: "i < length (take j ops)" "mints cfg (take j ops ! i) (take j rs ! i) t pt"
    "\<forall>k. i < k \<and> k < length (take j ops) \<longrightarrow> \<not> redeems (take j ops ! k) (take j rs ! k) t"
    unfolding token_history_def by blast
  have "v_Users cfg (pt_email pt) \<noteq> None" using i(2) by (auto simp: mints_def)
  then have "v_Users cfg (pt_email pt) = Some pw" using pt(5) by auto
  moreover have "i < j" "mints cfg (ops ! i) (rs ! i) t pt"
    "\<forall>k. i < k \<and> k < j \<longrightarrow> \<not> redeems (ops ! k) (rs ! k) t"
    using i j(1) by simp_all
  ultimately show ?thesis using pt(2,3,4) by blast
qed

definition sample_cfg :: service_config where
  "sample_cfg = \<lparr>v_Server = ''mail.example.org'', v_IMAPPort = 993, v_SMTPPort = 587, v_TTL = 900,
     v_Users = [''ada@example.org'' \<mapsto> ''pw''], v_AdminToken = ''adm''\<rparr>"

definition sample_code_request :: code_request where
  "sample_code_request = \<lparr>q_user = ''Ada@example.org'', q_admin = [], q_authorization = ''Bearer adm'',
     q_tls = True, q_host = ''example.org''\<rparr>"

definition sample_ops :: "pv_op list" where
  "sample_ops = [Code sample_code_request (Some ''r'') 0 0, Redeem (Some (b64u_encode ''r'', ''ada@example.org'')) 5]"

definition sample_sign :: "bytes \<Rightarrow> bytes" where
  "sample_sign msg = replicate 64 CHR ''s''"

lemma sample_lower: "to_lower ''Ada@example.org'' = ''ada@example.org''"
  by code_simp

lemma sample_ops_run:
  "\<exists>t. snd (pv_run sample_ext sample_sign (new_service sample_cfg ''k'') sample_ops) = [Text t, Passwords ''pw'' ''pw'']"
  unfolding sample_ops_def
  by (simp add: Let_def handle_setup_code_def payload_for_def build_payload_def handle_exchange_def authorized_def
      sample_code_request_def sample_cfg_def new_service_def prune_expired_def random_token_def expiry_def
      has_prefix_def sample_lower split: prod.splits)

theorem redemption_needs_authorized_code_witness:
  "\<exists>r rs. snd (pv_run sample_ext sample_sign (new_service sample_cfg ''k'') sample_ops) = r # rs
     \<and> (\<exists>pt. mints sample_cfg (sample_ops ! 0) r (b64u_encode ''r'') pt \<and> v_Users sample_cfg (pt_email pt) = Some ''pw'')"
proof -
  obtain t where t: "snd (pv_run sample_ext sample_sign (new_service sample_cfg ''k'') sample_ops) = [Text t, Passwords ''pw'' ''pw'']"
    using sample_ops_run by blast
  then have run: "pv_run sample_ext sample_sign (new_service sample_cfg ''k'') sample_ops =
      (fst (pv_run sample_ext sample_sign (new_service sample_cfg ''k'') sample_ops), [Text t, Passwords ''pw'' ''pw''])"
    by (metis prod.collapse)
  show ?thesis
    using redemption_needs_authorized_code [OF run, of 1 "b64u_encode ''r''" "''ada@example.org''" 5 "''pw''" "''pw''"] t
    by (auto simp: sample_ops_def)
qed

text \<open>A request without the admin credential learns nothing: it gets 401 whatever user it names,
  and no token is minted; with an empty configured credential every request is refused so.\<close>

theorem unauthorized_code_request:
  assumes "\<not> authorized s r \<or> v_AdminToken (s_cfg s) = []"
  shows "handle_setup_code x sign s r raw now pn = (s, Http_error 401)"
proof -
  have "\<not> authorized s r" using assms by (auto simp: authorized_def Let_def)
  then show ?thesis by (simp add: handle_setup_code_def payload_for_def)
qed

theorem unauthorized_code_request_witness:
  "handle_setup_code sample_ext sample_sign (new_service sample_cfg ''k'') (sample_code_request\<lparr>q_authorization := ''Basic adm''\<rparr>)
     None 0 0 = (new_service sample_cfg ''k'', Http_error 401)"
proof -
  have "\<not> authorized (new_service sample_cfg ''k'') (sample_code_request\<lparr>q_authorization := ''Basic adm''\<rparr>)"
    by (simp add: authorized_def new_service_def sample_cfg_def sample_code_request_def has_prefix_def)
  then show ?thesis by (intro unauthorized_code_request disjI1)
qed

section \<open>Service and app together\<close>

text \<open>The payload a code carries, as the app reads it.\<close>

definition service_payload :: "ext \<Rightarrow> (bytes \<Rightarrow> bytes) \<Rightarrow> service \<Rightarrow> string \<Rightarrow> string \<Rightarrow> string \<Rightarrow> int \<Rightarrow> provision_payload" where
  "service_payload x sign s email endpoint token expires =
     \<lparr>p_V = 1, p_Server = v_Server (s_cfg s), p_IMAPPort = v_IMAPPort (s_cfg s), p_IMAPTLS = ''tls'',
      p_SMTPPort = v_SMTPPort (s_cfg s), p_SMTPTLS = ''starttls'', p_Username = email,
      p_DisplayName = hd (split_on CHR ''@'' email), p_Token = token, p_TokenEndpoint = endpoint,
      p_ServerPubkey = s_pubB64 s, p_ExpiresAt = unix_sec expires,
      p_Sig = b64u_encode (sign (marshal_map x (payload_fields s email endpoint token expires)))\<rparr>"

text \<open>The JSON codec reads back the object it wrote for a payload, signature included.\<close>

definition reads_back :: "ext \<Rightarrow> provision_payload \<Rightarrow> bool" where
  "reads_back x p \<longleftrightarrow> x_payload x (marshal_map x (canonical_fields p @ [(''sig'', JStr (p_Sig p))])) = Some p"

definition signs :: "ext \<Rightarrow> bytes \<Rightarrow> (bytes \<Rightarrow> bytes) \<Rightarrow> bool" where
  "signs x pub sign \<longleftrightarrow> length pub = 32 \<and> (\<forall>m. length (sign m) = 64 \<and> x_verify x pub m (sign m))"

lemma service_payload_fields:
  "canonical_fields (service_payload x sign s email endpoint token expires) = payload_fields s email endpoint token expires"
  by (simp add: canonical_fields_def payload_fields_def service_payload_def)

lemma service_payload_signed:
  assumes "signs x pub sign" "s_pubB64 s = b64u_encode pub"
  shows "verify_signature x (service_payload x sign s email endpoint token expires)"
proof -
  have "canonical_json x (service_payload x sign s email endpoint token expires)
      = marshal_map x (payload_fields s email endpoint token expires)"
    by (simp add: canonical_json_def service_payload_fields)
  then show ?thesis using assms by (simp add: verify_signature_def service_payload_def signs_def)
qed

lemma trim_space_lf: "trim_space (b64u_encode bs @ lf) = b64u_encode bs"
proof -
  have t: "dropWhile is_space w = w" if "list_all (\<lambda>c. \<not> is_space c) w" for w
    using that by (cases w) auto
  have "is_space CHR 0x0A" by (simp add: is_space_def)
  then have "dropWhile is_space (b64u_encode bs @ lf) = (if b64u_encode bs = [] then [] else b64u_encode bs @ lf)"
    using b64u_no_space [of bs] by (cases "b64u_encode bs") (simp_all add: lf_def)
  moreover have "rev (dropWhile is_space (rev (b64u_encode bs @ lf))) = b64u_encode bs"
    using \<open>is_space CHR 0x0A\<close> t [of "rev (b64u_encode bs)"] b64u_no_space [of bs]
    by (simp add: lf_def list_all_rev)
  ultimately show ?thesis by (auto simp: trim_space_def trim_by_def trim_right_by_def)
qed

text \<open>A service that is set up for a mailbox: the ports are in range, the mail server lies in the
  mailbox's domain and the service answers under a host of that domain on https.\<close>

definition serves_mailbox :: "ext \<Rightarrow> service \<Rightarrow> code_request \<Rightarrow> bool" where
  "serves_mailbox x s r \<longleftrightarrow>
     (let mdom = domain_of (to_lower (q_user r))
      in valid_port (v_IMAPPort (s_cfg s)) \<and> valid_port (v_SMTPPort (s_cfg s)) \<and> public_mail_domain mdom
         \<and> public_mail_domain (v_Server (s_cfg s)) \<and> host_in_domain (v_Server (s_cfg s)) mdom \<and> q_tls r
         \<and> validate_token_endpoint (x_lit x) (''https://'' @ q_host r @ ''/provision'') mdom = None)"

text \<open>C26. Onboarding works end to end: for a service set up for the mailbox, the text an authorized code
  request returns is accepted by the app's verifier until it expires, and redeeming the token and user name
  found in it within the validity yields the user's password. The signature scheme verifies what it signed and the
  JSON codec reads back what it wrote.\<close>

theorem setup_code_round_trip:
  fixes x sign s r raw now
  defines "q \<equiv> service_payload x sign s (to_lower (q_user r)) (''https://'' @ q_host r @ ''/provision'') (b64u_encode raw) (expiry s now)"
  assumes "authorized s r" "v_Users (s_cfg s) (to_lower (q_user r)) = Some pw" "serves_mailbox x s r"
    and "signs x pub sign" "s_pubB64 s = b64u_encode pub" "reads_back x q"
    and "unix_sec app_now < unix_sec (expiry s now)" "redeem_now \<le> expiry s now"
  shows "\<exists>s' code. handle_setup_code x sign s r (Some raw) now pn = (s', Text code)
    \<and> parse_and_verify x code app_now = Inr q
    \<and> snd (handle_exchange s' (Some (p_Token q, p_Username q)) redeem_now) = Passwords pw pw"
proof -
  define ep where "ep = ''https://'' @ q_host r @ ''/provision''"
  define s1 where "s1 = prune_expired pn s"
  define s' where "s' = s1\<lparr>s_tokens := (s_tokens s1)(b64u_encode raw \<mapsto> \<lparr>pt_email = to_lower (q_user r), pt_expires = expiry s now\<rparr>)\<rparr>"
  define js where "js = marshal_map x (canonical_fields q @ [(''sig'', JStr (p_Sig q))])"
  have q: "p_Sig q = b64u_encode (sign (marshal_map x (payload_fields s (to_lower (q_user r)) ep (b64u_encode raw) (expiry s now))))"
    "canonical_fields q = payload_fields s (to_lower (q_user r)) ep (b64u_encode raw) (expiry s now)"
    "p_Token q = b64u_encode raw" "p_Username q = to_lower (q_user r)"
    unfolding q_def ep_def by (simp_all only: service_payload_fields) (simp_all add: service_payload_def)
  have "q_tls r" using assms(4) by (simp add: serves_mailbox_def Let_def)
  then have "handle_setup_code x sign s r (Some raw) now pn = (s', Text (b64u_encode js @ lf))"
    using assms(2,3) q
    by (simp add: handle_setup_code_def payload_for_def build_payload_def random_token_def Let_def s'_def s1_def js_def ep_def)
  moreover have "parse_and_verify x (b64u_encode js @ lf) app_now = Inr q"
  proof -
    have "x_payload x js = Some q" using assms(7) by (simp add: reads_back_def js_def)
    moreover have "verify_signature x q" unfolding q_def using assms(5,6) by (rule service_payload_signed)
    moreover have "p_V q = 1" "\<not> unix_sec app_now \<ge> p_ExpiresAt q" "p_IMAPTLS q = ''tls''" "p_SMTPTLS q = ''starttls''"
      "valid_port (p_IMAPPort q)" "valid_port (p_SMTPPort q)" "public_mail_domain (domain_of (p_Username q))"
      "public_mail_domain (p_Server q)" "host_in_domain (p_Server q) (domain_of (p_Username q))"
      "validate_token_endpoint (x_lit x) (p_TokenEndpoint q) (domain_of (p_Username q)) = None"
      using assms(4,8) by (auto simp: q_def service_payload_def serves_mailbox_def Let_def)
    moreover from this(7) have "domain_of (p_Username q) \<noteq> []" by (rule public_nonempty)
    ultimately show ?thesis
      by (simp add: parse_and_verify_def trim_space_lf transport_ok_def tls_valid_def Let_def)
  qed
  moreover have "snd (handle_exchange s' (Some (p_Token q, p_Username q)) redeem_now) = Passwords pw pw"
    using assms(3,9) q by (simp add: handle_exchange_def s'_def s1_def prune_expired_def Let_def equal_fold_def)
  ultimately show ?thesis by blast
qed

definition trip_service :: service where
  "trip_service = new_service sample_cfg (replicate 32 CHR ''k'')"

definition trip_payload :: provision_payload where
  "trip_payload = service_payload sample_ext sample_sign trip_service ''ada@example.org''
     ''https://example.org/provision'' (b64u_encode ''r'') 900000000000"

definition trip_ext :: ext where
  "trip_ext = sample_ext\<lparr>x_payload := (\<lambda>s. Some trip_payload)\<rparr>"

lemma trip_serves: "serves_mailbox trip_ext trip_service sample_code_request"
  by code_simp

lemma trip_authorized: "authorized trip_service sample_code_request"
  by code_simp

lemma trip_payload_eq:
  "service_payload trip_ext sample_sign trip_service ''ada@example.org''
     ''https://example.org/provision'' (b64u_encode ''r'') 900000000000 = trip_payload"
  by (simp add: trip_payload_def service_payload_def sample_sign_def)

theorem setup_code_round_trip_witness:
  "\<exists>s' code. handle_setup_code trip_ext sample_sign trip_service sample_code_request (Some ''r'') 0 0 = (s', Text code)
    \<and> parse_and_verify trip_ext code 10000000000 = Inr trip_payload
    \<and> snd (handle_exchange s' (Some (b64u_encode ''r'', ''ada@example.org'')) 10000000000) = Passwords ''pw'' ''pw''"
proof -
  have e: "expiry trip_service 0 = 900000000000"
    by (simp add: expiry_def trip_service_def new_service_def sample_cfg_def)
  have q: "service_payload trip_ext sample_sign trip_service (to_lower (q_user sample_code_request))
      (''https://'' @ q_host sample_code_request @ ''/provision'') (b64u_encode ''r'') (expiry trip_service 0) = trip_payload"
    using trip_payload_eq by (simp add: e sample_code_request_def sample_lower)
  have "p_Token trip_payload = b64u_encode ''r''" "p_Username trip_payload = ''ada@example.org''"
    by (simp_all add: trip_payload_def service_payload_def)
  moreover have "v_Users (s_cfg trip_service) (to_lower (q_user sample_code_request)) = Some ''pw''"
    by (simp add: trip_service_def new_service_def sample_cfg_def sample_code_request_def sample_lower)
  moreover have "signs trip_ext (replicate 32 CHR ''k'') sample_sign"
    by (simp add: signs_def sample_sign_def trip_ext_def sample_ext_def)
  moreover have "s_pubB64 trip_service = b64u_encode (replicate 32 CHR ''k'')"
    by (simp add: trip_service_def new_service_def)
  moreover have "reads_back trip_ext trip_payload" by (simp add: reads_back_def trip_ext_def)
  ultimately show ?thesis
    using setup_code_round_trip [OF trip_authorized _ trip_serves, of "''pw''" "replicate 32 CHR ''k''" sample_sign
        "''r''" 0 10000000000 10000000000 0]
    unfolding q by (simp add: e unix_sec_def)
qed

end
