(* ===== verification/Wkd.thy ===== *)
theory Wkd
  imports GoPrelude "HOL-Library.Word"
begin

text \<open>
  The path component of a Web Key Directory lookup (\<open>WKDHash\<close>, \<open>sha1Bytes\<close> and \<open>zbase32\<close> of
  src/internal/mail/pgp/wkd.go), with the SHA-1 of the Go library written out. The encoder keeps its bits in a
  64-bit \<open>int\<close> that is shifted for every byte and overflows after eight of them; it is shown to compute the
  regrouping of the input bits all the same.
\<close>

unbundle bit_operations_syntax

section \<open>SHA-1\<close>

definition byte_word :: "char \<Rightarrow> 32 word" where
  "byte_word c = of_char c"

definition be_word :: "bytes \<Rightarrow> 32 word" where
  "be_word bs = foldl (\<lambda>w c. push_bit 8 w OR byte_word c) 0 bs"

definition be_bytes :: "nat \<Rightarrow> int \<Rightarrow> bytes" where
  "be_bytes k n = map (\<lambda>i. char_of (n div 256 ^ i)) (rev [0..<k])"

definition sha1_pad :: "bytes \<Rightarrow> bytes" where
  "sha1_pad m = m @ CHR 0x80 # replicate ((119 - length m mod 64) mod 64) CHR 0x00 @ be_bytes 8 (8 * int (length m))"

fun word_blocks :: "bytes \<Rightarrow> 32 word list" where
  "word_blocks (a # b # c # d # bs) = be_word [a, b, c, d] # word_blocks bs"
| "word_blocks _ = []"

definition rotl :: "nat \<Rightarrow> 32 word \<Rightarrow> 32 word" where
  "rotl n w = push_bit n w OR drop_bit (32 - n) w"

text \<open>The message schedule, kept as a window of the last sixteen words.\<close>

fun sha1_round :: "nat \<Rightarrow> 32 word list \<Rightarrow> 32 word \<times> 32 word \<times> 32 word \<times> 32 word \<times> 32 word
    \<Rightarrow> 32 word \<times> 32 word \<times> 32 word \<times> 32 word \<times> 32 word" where
  "sha1_round i ws (a, b, c, d, e) =
     (let (f, k) = (if i < 20 then ((b AND c) OR (NOT b AND d), 0x5A827999)
                    else if i < 40 then (b XOR c XOR d, 0x6ED9EBA1)
                    else if i < 60 then (((b OR c) AND d) OR (b AND c), 0x8F1BBCDC)
                    else (b XOR c XOR d, 0xCA62C1D6))
      in (rotl 5 a + f + e + hd ws + k, a, rotl 30 b, c, d))"

fun sha1_rounds :: "nat \<Rightarrow> nat \<Rightarrow> 32 word list \<Rightarrow> 32 word \<times> 32 word \<times> 32 word \<times> 32 word \<times> 32 word
    \<Rightarrow> 32 word \<times> 32 word \<times> 32 word \<times> 32 word \<times> 32 word" where
  "sha1_rounds 0 i ws st = st"
| "sha1_rounds (Suc n) i ws st =
     sha1_rounds n (Suc i) (tl ws @ [rotl 1 (ws ! 13 XOR ws ! 8 XOR ws ! 2 XOR ws ! 0)]) (sha1_round i ws st)"

definition sha1_block :: "32 word \<times> 32 word \<times> 32 word \<times> 32 word \<times> 32 word \<Rightarrow> 32 word list
    \<Rightarrow> 32 word \<times> 32 word \<times> 32 word \<times> 32 word \<times> 32 word" where
  "sha1_block h ws =
     (let (h0, h1, h2, h3, h4) = h; (a, b, c, d, e) = sha1_rounds 80 0 ws h
      in (h0 + a, h1 + b, h2 + c, h3 + d, h4 + e))"

function sha1_blocks :: "32 word \<times> 32 word \<times> 32 word \<times> 32 word \<times> 32 word \<Rightarrow> 32 word list
    \<Rightarrow> 32 word \<times> 32 word \<times> 32 word \<times> 32 word \<times> 32 word" where
  "sha1_blocks h ws = (if ws = [] then h else sha1_blocks (sha1_block h (take 16 ws)) (drop 16 ws))"
  by pat_completeness auto
termination
  by (relation "measure (length \<circ> snd)") auto

declare sha1_blocks.simps [simp del]

definition sha1_bytes :: "string \<Rightarrow> bytes" where
  "sha1_bytes s =
     (let (h0, h1, h2, h3, h4) =
        sha1_blocks (0x67452301, 0xEFCDAB89, 0x98BADCFE, 0x10325476, 0xC3D2E1F0) (word_blocks (sha1_pad s))
      in concat (map (be_bytes 4 \<circ> uint) [h0, h1, h2, h3, h4]))"

section \<open>z-base-32\<close>

definition zbase32_alphabet :: string where
  "zbase32_alphabet = ''ybndrfg8ejkmcpqxot1uwisza345h769''"

text \<open>The inner loop: Go's \<open>>>\<close> on an \<open>int\<close> is arithmetic.\<close>

function zb_drain :: "64 word \<Rightarrow> nat \<Rightarrow> string \<times> nat" where
  "zb_drain buffer bits =
     (if bits \<ge> 5
      then (let (out, left) = zb_drain buffer (bits - 5)
            in (zbase32_alphabet ! unat (signed_drop_bit (bits - 5) buffer AND 31) # out, left))
      else ([], bits))"
  by pat_completeness auto
termination by (relation "measure snd") auto

declare zb_drain.simps [simp del]

fun zb_loop :: "bytes \<Rightarrow> 64 word \<Rightarrow> nat \<Rightarrow> string" where
  "zb_loop [] buffer bits =
     (if bits > 0 then [zbase32_alphabet ! unat (push_bit (5 - bits) buffer AND 31)] else [])"
| "zb_loop (b # data) buffer bits =
     (let buffer = push_bit 8 buffer OR of_char b; (out, left) = zb_drain buffer (bits + 8)
      in out @ zb_loop data buffer left)"

definition zbase32 :: "bytes \<Rightarrow> string" where
  "zbase32 data = zb_loop data 0 0"

definition wkd_hash :: "string \<Rightarrow> string" where
  "wkd_hash localPart = zbase32 (sha1_bytes (to_lower localPart))"

section \<open>The encoding as a regrouping of bits\<close>

definition byte_bits :: "char \<Rightarrow> bool list" where
  "byte_bits c = map (bit (of_char c :: nat)) (rev [0..<8])"

fun chunks5 :: "bool list \<Rightarrow> bool list list" where
  "chunks5 [] = []"
| "chunks5 (a # b # c # d # e # bs) = [a, b, c, d, e] # chunks5 bs"
| "chunks5 bs = [take 5 (bs @ replicate 5 False)]"

definition bits_val :: "bool list \<Rightarrow> nat" where
  "bits_val bs = horner_sum of_bool 2 (rev bs)"

definition zb_char :: "bool list \<Rightarrow> char" where
  "zb_char bs = zbase32_alphabet ! bits_val bs"

definition zbase32_reference :: "bytes \<Rightarrow> string" where
  "zbase32_reference data = map zb_char (chunks5 (concat (map byte_bits data)))"

text \<open>The low bits of the buffer are the bits not yet written, the oldest highest.\<close>

definition holds_bits :: "64 word \<Rightarrow> bool list \<Rightarrow> bool" where
  "holds_bits buffer p \<longleftrightarrow> (\<forall>i < length p. bit buffer i = p ! (length p - 1 - i))"

lemma byte_bits_length [simp]: "length (byte_bits c) = 8"
  by (simp add: byte_bits_def)

lemma byte_bits_nth: "i < 8 \<Longrightarrow> byte_bits c ! i = bit (of_char c :: nat) (7 - i)"
  by (simp add: byte_bits_def rev_nth)

lemma chunks5_short: "p \<noteq> [] \<Longrightarrow> length p < 5 \<Longrightarrow> chunks5 p = [p @ replicate (5 - length p) False]"
  by (cases p rule: chunks5.cases) simp_all

lemma chunks5_long: "length c = 5 \<Longrightarrow> chunks5 (c @ bs) = c # chunks5 bs"
  by (cases c rule: chunks5.cases) auto

lemma bit_of_char_word: "bit (of_char c :: 64 word) i \<longleftrightarrow> bit (of_char c :: nat) i"
  unfolding of_char_def bit_horner_sum_bit_iff by auto

lemma unat_and31: "unat (w AND (31 :: 64 word)) = bits_val (map (bit w) (rev [0..<5]))"
proof -
  have "w AND 31 = take_bit 5 w" by (simp add: take_bit_eq_mask mask_eq_exp_minus_1)
  then have "unat (w AND 31) = take_bit 5 (unat w)" by (simp add: unsigned_take_bit_eq)
  also have "\<dots> = horner_sum of_bool 2 (map (bit (unat w)) [0..<5])" by (simp add: horner_sum_bit_eq_take_bit)
  also have "\<dots> = bits_val (map (bit w) (rev [0..<5]))"
  proof -
    have "bit (unat w) = bit w" by (simp add: fun_eq_iff bit_unsigned_iff)
    then show ?thesis by (simp only: bits_val_def rev_map rev_rev_ident)
  qed
  finally show ?thesis .
qed

lemma drained_char:
  assumes "holds_bits buffer (c @ q)" and "length c = 5" and "length q \<le> 7"
  shows "zbase32_alphabet ! unat (signed_drop_bit (length q) buffer AND 31) = zb_char c"
proof -
  have "map (bit (signed_drop_bit (length q) buffer)) (rev [0..<5]) = c"
    using assms by (intro nth_equalityI) (auto simp: rev_nth bit_signed_drop_bit_iff holds_bits_def nth_append)
  then show ?thesis by (simp add: unat_and31 zb_char_def)
qed

lemma flushed_char:
  assumes "holds_bits buffer p" and "p \<noteq> []" and "length p < 5"
  shows "zbase32_alphabet ! unat (push_bit (5 - length p) buffer AND 31) = zb_char (p @ replicate (5 - length p) False)"
proof -
  have "map (bit (push_bit (5 - length p) buffer)) (rev [0..<5]) = p @ replicate (5 - length p) False"
    using assms by (intro nth_equalityI) (auto simp: rev_nth bit_push_bit_iff holds_bits_def nth_append)
  then show ?thesis by (simp add: unat_and31 zb_char_def)
qed

lemma holds_suffix: "holds_bits buffer (p @ q) \<Longrightarrow> holds_bits buffer q"
  by (auto simp: holds_bits_def nth_append)

lemma drain_chunks:
  assumes "holds_bits buffer p" and "length p \<le> 12"
  shows "\<exists>out q. zb_drain buffer (length p) = (out, length q) \<and> holds_bits buffer q \<and> length q < 5
    \<and> (\<forall>bs. map zb_char (chunks5 (p @ bs)) = out @ map zb_char (chunks5 (q @ bs)))"
  using assms
proof (induction p rule: length_induct)
  case (1 p)
  show ?case
  proof (cases "length p \<ge> 5")
    case False
    then show ?thesis using 1(2) by (auto simp: zb_drain.simps [of buffer "length p"])
  next
    case True
    define c r where "c = take 5 p" and "r = drop 5 p"
    have p: "p = c @ r" "length c = 5" "length r \<le> 7" using True 1(3) by (auto simp: c_def r_def)
    obtain out q where q: "zb_drain buffer (length r) = (out, length q)" "holds_bits buffer q" "length q < 5"
      "\<forall>bs. map zb_char (chunks5 (r @ bs)) = out @ map zb_char (chunks5 (q @ bs))"
      using 1(1) [rule_format, of r] holds_suffix 1(2) p by fastforce
    have "zb_drain buffer (length p) = (zb_char c # out, length q)"
      using drained_char [of buffer c r] 1(2) p q(1) by (simp add: zb_drain.simps [of buffer "5 + _"])
    then show ?thesis using q p chunks5_long [of c] by auto
  qed
qed

lemma next_byte_bits:
  assumes "holds_bits buffer p" and "length p < 5"
  shows "holds_bits (push_bit 8 buffer OR of_char b) (p @ byte_bits b)"
proof -
  have high: "8 \<le> i \<Longrightarrow> \<not> bit (of_char b :: nat) i" for i
    unfolding of_char_def bit_horner_sum_bit_iff by auto
  show ?thesis using assms
    by (auto simp: holds_bits_def bit_or_iff bit_push_bit_iff bit_of_char_word nth_append byte_bits_nth not_less high)
qed

lemma zb_loop_chunks:
  "holds_bits buffer p \<Longrightarrow> length p < 5
    \<Longrightarrow> zb_loop data buffer (length p) = map zb_char (chunks5 (p @ concat (map byte_bits data)))"
proof (induction data arbitrary: buffer p)
  case Nil
  then show ?case using flushed_char [of buffer p] by (simp add: chunks5_short)
next
  case (Cons b data)
  let ?buffer = "push_bit 8 buffer OR of_char b"
  obtain out q where q: "zb_drain ?buffer (length (p @ byte_bits b)) = (out, length q)" "holds_bits ?buffer q" "length q < 5"
    "\<forall>bs. map zb_char (chunks5 ((p @ byte_bits b) @ bs)) = out @ map zb_char (chunks5 (q @ bs))"
    using drain_chunks [OF next_byte_bits [OF Cons.prems], of b] Cons.prems(2) by auto
  then show ?case using Cons.IH [OF q(2,3)] by simp
qed

lemma zbase32_bits: "zbase32 data = zbase32_reference data"
  unfolding zbase32_def zbase32_reference_def using zb_loop_chunks [of 0 "[]" data] by (simp add: holds_bits_def)

lemma chunks5_take: "5 \<le> length p \<Longrightarrow> chunks5 p = take 5 p # chunks5 (drop 5 p)"
  using chunks5_long [of "take 5 p" "drop 5 p"] by simp

lemma chunks5_inj: "length p = length q \<Longrightarrow> chunks5 p = chunks5 q \<Longrightarrow> p = q"
proof (induction p arbitrary: q rule: length_induct)
  case (1 p)
  show ?case
  proof (cases "length p \<ge> 5")
    case True
    have e: "take 5 p # chunks5 (drop 5 p) = take 5 q # chunks5 (drop 5 q)"
      using True 1(2,3) chunks5_take [of p] chunks5_take [of q] by simp
    then have "take 5 p = take 5 q" "chunks5 (drop 5 p) = chunks5 (drop 5 q)" by blast+
    moreover have "drop 5 p = drop 5 q"
      by (rule 1(1) [rule_format, OF _ _ calculation(2)]) (use True 1(2) in simp_all)
    ultimately show ?thesis using append_take_drop_id by metis
  next
    case False
    show ?thesis
    proof (cases "p = []")
      case True
      then show ?thesis using 1(2) by simp
    next
      case nonempty: False
      then have "[p @ replicate (5 - length p) False] = [q @ replicate (5 - length q) False]"
        using False 1(2,3) chunks5_short [of p] chunks5_short [of q] by fastforce
      then show ?thesis using 1(2) by simp
    qed
  qed
qed

lemma chunks5_length: "c \<in> set (chunks5 p) \<Longrightarrow> length c = 5"
  by (induction p rule: chunks5.induct) auto

lemma bits_val_inj: "length p = 5 \<Longrightarrow> length q = 5 \<Longrightarrow> bits_val p = bits_val q \<Longrightarrow> p = q"
proof -
  assume l: "length p = 5" "length q = 5" and e: "bits_val p = bits_val q"
  have "rev p ! i = rev q ! i" if "i < 5" for i
    using arg_cong [OF e, of "\<lambda>n. bit n i"] l that by (simp only: bits_val_def bit_horner_sum_bit_iff) simp
  then have "rev p = rev q" using l by (intro nth_equalityI) simp_all
  then show ?thesis by simp
qed

lemma bits_val_less: "length p = 5 \<Longrightarrow> bits_val p < 32"
  using horner_sum_of_bool_2_less [where ?'a = nat, of "rev p"] by (simp add: bits_val_def)

lemma alphabet_distinct: "distinct zbase32_alphabet" "length zbase32_alphabet = 32"
  by (simp_all add: zbase32_alphabet_def)

lemma zb_char_inj: "length p = 5 \<Longrightarrow> length q = 5 \<Longrightarrow> zb_char p = zb_char q \<Longrightarrow> p = q"
  using bits_val_less [of p] bits_val_less [of q] bits_val_inj [of p q] alphabet_distinct
  by (simp add: zb_char_def nth_eq_iff_index_eq)

lemma byte_bits_inj: "byte_bits a = byte_bits b \<Longrightarrow> a = b"
proof -
  have val: "(of_char c :: nat) = horner_sum of_bool 2 (rev (byte_bits c))" for c
    by (simp only: byte_bits_def rev_map rev_rev_ident horner_sum_bit_eq_take_bit) (simp add: take_bit_eq_mod)
  assume "byte_bits a = byte_bits b"
  then have "(of_char a :: nat) = of_char b" by (simp only: val)
  then show ?thesis by simp
qed

lemma concat_bits_length: "length (concat (map byte_bits data)) = 8 * length data"
  by (induction data) simp_all

lemma concat_bits_inj: "length a = length b \<Longrightarrow> concat (map byte_bits a) = concat (map byte_bits b) \<Longrightarrow> a = b"
  by (induction a b rule: list_induct2) (auto dest: byte_bits_inj)

lemma zbase32_injective: "length a = length b \<Longrightarrow> zbase32 a = zbase32 b \<Longrightarrow> a = b"
proof -
  assume l: "length a = length b" and e: "zbase32 a = zbase32 b"
  have same: "map zb_char p = map zb_char q \<Longrightarrow> (\<And>c. c \<in> set p \<union> set q \<Longrightarrow> length c = 5) \<Longrightarrow> p = q" for p q
    by (induction p q rule: list_induct2') (auto dest: zb_char_inj)
  have "chunks5 (concat (map byte_bits a)) = chunks5 (concat (map byte_bits b))"
    using e by (intro same) (auto simp: zbase32_bits zbase32_reference_def dest: chunks5_length)
  then show ?thesis using l by (intro concat_bits_inj chunks5_inj) (simp_all add: concat_bits_length)
qed

lemma chunks5_count: "length (chunks5 p) = (length p + 4) div 5"
  by (induction p rule: chunks5.induct) auto

text \<open>C21. The encoder computes the regrouping of the input bits into groups of five although its
  buffer wraps around, its output has the length of that regrouping, and no two inputs of one length encode to
  the same text.\<close>

theorem zbase32_exact:
  "zbase32 data = zbase32_reference data \<and> length (zbase32 data) = (8 * length data + 4) div 5
    \<and> (\<forall>other. length other = length data \<and> zbase32 other = zbase32 data \<longrightarrow> other = data)"
  using zbase32_injective by (auto simp: zbase32_bits zbase32_reference_def chunks5_count concat_bits_length)

theorem zbase32_exact_witness:
  "zbase32 (replicate 20 CHR 0xFF) = zbase32_reference (replicate 20 CHR 0xFF)
    \<and> length (zbase32 (replicate 20 CHR 0xFF)) = 32 \<and> zbase32 (replicate 20 CHR 0xFE) \<noteq> zbase32 (replicate 20 CHR 0xFF)"
proof -
  have "zbase32 (replicate 20 CHR 0xFE) = zbase32 (replicate 20 CHR 0xFF) \<Longrightarrow> replicate 20 CHR 0xFE = replicate 20 CHR 0xFF"
    using zbase32_exact [of "replicate 20 CHR 0xFF"] by (simp only: length_replicate)
  then show ?thesis using zbase32_exact [of "replicate 20 CHR 0xFF"] by auto
qed

end
