(* ===== verification/Pgp.thy ===== *)
theory Pgp
  imports AccountLaws Wkd
begin

text \<open>
  The OpenPGP layer, src/internal/mail/pgp: the keyring and its trust table (keyring.go), decryption with the
  verdict on the sender (decrypt.go), encryption and signing (encrypt.go), key generation (generate.go), Web Key
  Directory lookups (wkd.go) and the key directory (keydir.go).

  The OpenPGP library is the record \<open>pgp_ext\<close>: reading and writing key blocks, reading a message with a list of
  keys, encrypting and signing. An entity is what the code reads of one: the fingerprint of the primary key, the
  addresses of its identities in the order in which Go's map iteration yields them, and whether it carries a
  private key. Requests and replies are those of \<open>Account\<close>.
\<close>

section \<open>Keys\<close>

record entity =
  en_Fingerprint :: bytes
  en_Emails :: "string list"
  en_Private :: bool
  en_Key :: bytes

record message_details =
  md_IsSigned :: bool
  md_SignatureError :: "bool option"
  md_SignedBy :: "bytes option"
  md_Body :: "bytes option"

text \<open>\<open>md_SignatureError\<close> is whether the issuer is unknown, when verification failed.\<close>

record pgp_ext =
  pg_armored_ring :: "bytes \<Rightarrow> entity list option"
  pg_ring :: "bytes \<Rightarrow> entity list option"
  pg_dearmor :: "bytes \<Rightarrow> bytes option"
  pg_read_message :: "bytes \<Rightarrow> entity list \<Rightarrow> message_details option"
  pg_encrypt :: "entity list \<Rightarrow> entity option \<Rightarrow> bytes \<Rightarrow> bytes option"
  pg_detach_sign :: "entity \<Rightarrow> bytes \<Rightarrow> bytes option"
  pg_check_detached :: "entity list \<Rightarrow> bytes \<Rightarrow> bytes \<Rightarrow> bool \<times> bool"
  pg_public_block :: "entity \<Rightarrow> bytes option"
  pg_private_block :: "entity \<Rightarrow> bytes option"
  pg_new_entity :: "string \<Rightarrow> string \<Rightarrow> entity option"

datatype pgp_error = ErrNoKey | ErrImport | ErrExport | ErrNoRecipients | ErrRecipient string | ErrSigner
  | ErrEncrypt | ErrSign | ErrReadMessage | ErrDecryptBody | ErrVerify | ErrGenerate
  | ErrWkdAddress | ErrWkdLookup | ErrBuildReq | ErrNetErr | ErrStatus int | ErrRead | ErrParseKey | ErrEmptyKeyring
  | ErrWrongUserId | ErrDirURL | ErrDirJSON

record keyring =
  kr_entities :: "entity list"
  kr_trust :: "string \<rightharpoonup> int"

definition hex_bytes :: "bytes \<Rightarrow> string" where
  "hex_bytes bs = concat (map (\<lambda>c. [''0123456789abcdef'' ! (of_char c div 16), ''0123456789abcdef'' ! (of_char c mod 16)]) bs)"

definition fingerprint_of :: "entity \<Rightarrow> string" where
  "fingerprint_of e = to_lower (hex_bytes (en_Fingerprint e))"

definition new_keyring :: keyring where
  "new_keyring = \<lparr>kr_entities = [], kr_trust = Map.empty\<rparr>"

definition trust_unknown :: int where "trust_unknown = 0"

text \<open>The loop that \<open>ImportArmored\<close> and \<open>ImportEntities\<close> share.\<close>

fun import_entities :: "entity list \<Rightarrow> keyring \<Rightarrow> string list \<times> keyring" where
  "import_entities [] k = ([], k)"
| "import_entities (e # es) k =
     (let fp = fingerprint_of e;
          k1 = k\<lparr>kr_entities := kr_entities k @ [e],
                 kr_trust := (case kr_trust k fp of Some _ \<Rightarrow> kr_trust k | None \<Rightarrow> (kr_trust k)(fp \<mapsto> trust_unknown))\<rparr>;
          (fps, k2) = import_entities es k1
      in (fp # fps, k2))"

definition import_armored :: "pgp_ext \<Rightarrow> bytes \<Rightarrow> keyring \<Rightarrow> (pgp_error + string list) \<times> keyring" where
  "import_armored px armored k =
     (case pg_armored_ring px armored of
        None \<Rightarrow> (Inl ErrImport, k)
      | Some es \<Rightarrow> (let (fps, k') = import_entities es k in (Inr fps, k')))"

definition by_fingerprint :: "string \<Rightarrow> keyring \<Rightarrow> entity option" where
  "by_fingerprint fp k = find (\<lambda>e. fingerprint_of e = to_lower fp) (kr_entities k)"

definition export_public_armored :: "pgp_ext \<Rightarrow> string \<Rightarrow> keyring \<Rightarrow> pgp_error + bytes" where
  "export_public_armored px fp k =
     (case by_fingerprint fp k of
        None \<Rightarrow> Inl ErrNoKey
      | Some e \<Rightarrow> (case pg_public_block px e of None \<Rightarrow> Inl ErrExport | Some b \<Rightarrow> Inr b))"

definition set_trust :: "string \<Rightarrow> int \<Rightarrow> keyring \<Rightarrow> (pgp_error + unit) \<times> keyring" where
  "set_trust fp level k =
     (if kr_trust k (to_lower fp) = None then (Inl ErrNoKey, k)
      else (Inr (), k\<lparr>kr_trust := (kr_trust k)(to_lower fp \<mapsto> level)\<rparr>))"

definition trust :: "string \<Rightarrow> keyring \<Rightarrow> int" where
  "trust fp k = (case kr_trust k (to_lower fp) of Some l \<Rightarrow> l | None \<Rightarrow> 0)"

definition entity_by_email :: "string \<Rightarrow> keyring \<Rightarrow> pgp_error + entity" where
  "entity_by_email email k =
     (case find (\<lambda>e. list_ex (\<lambda>addr. equal_fold addr email) (en_Emails e)) (kr_entities k) of
        Some e \<Rightarrow> Inr e
      | None \<Rightarrow> Inl ErrNoKey)"

definition signing_entity :: "string \<Rightarrow> keyring \<Rightarrow> pgp_error + entity" where
  "signing_entity email k =
     (case entity_by_email email k of
        Inl err \<Rightarrow> Inl err
      | Inr e \<Rightarrow> if en_Private e then Inr e else Inl ErrNoKey)"

definition fingerprint_for_email :: "string \<Rightarrow> keyring \<Rightarrow> pgp_error + string" where
  "fingerprint_for_email email k =
     (case entity_by_email email k of Inl err \<Rightarrow> Inl err | Inr e \<Rightarrow> Inr (fingerprint_of e))"

definition email_for_fingerprint :: "string \<Rightarrow> keyring \<Rightarrow> pgp_error + string" where
  "email_for_fingerprint fp k =
     (case by_fingerprint fp k of
        None \<Rightarrow> Inl ErrNoKey
      | Some e \<Rightarrow> (case find (\<lambda>addr. addr \<noteq> []) (en_Emails e) of Some addr \<Rightarrow> Inr addr | None \<Rightarrow> Inl ErrNoKey))"

definition has_key_for :: "string list \<Rightarrow> keyring \<Rightarrow> bool" where
  "has_key_for emails k \<longleftrightarrow> emails \<noteq> [] \<and> list_all (\<lambda>e. \<not> isl (entity_by_email e k)) emails"

section \<open>Encrypting and signing\<close>

fun recipients_of :: "string list \<Rightarrow> keyring \<Rightarrow> pgp_error + entity list" where
  "recipients_of [] k = Inr []"
| "recipients_of (email # emails) k =
     (case entity_by_email email k of
        Inl _ \<Rightarrow> Inl (ErrRecipient email)
      | Inr e \<Rightarrow> (case recipients_of emails k of Inl err \<Rightarrow> Inl err | Inr es \<Rightarrow> Inr (e # es)))"

definition encrypt :: "pgp_ext \<Rightarrow> bytes \<Rightarrow> string list \<Rightarrow> string \<Rightarrow> keyring \<Rightarrow> pgp_error + bytes" where
  "encrypt px plaintext emails signer k =
     (if emails = [] then Inl ErrNoRecipients
      else case recipients_of emails k of
        Inl err \<Rightarrow> Inl err
      | Inr es \<Rightarrow>
          (case (if signer = [] then Inr None
                 else case signing_entity signer k of Inl _ \<Rightarrow> Inl ErrSigner | Inr e \<Rightarrow> Inr (Some e)) of
             Inl err \<Rightarrow> Inl err
           | Inr s \<Rightarrow> (case pg_encrypt px es s plaintext of None \<Rightarrow> Inl ErrEncrypt | Some c \<Rightarrow> Inr c)))"

definition sign :: "pgp_ext \<Rightarrow> bytes \<Rightarrow> string \<Rightarrow> keyring \<Rightarrow> pgp_error + bytes" where
  "sign px message signer k =
     (case signing_entity signer k of
        Inl err \<Rightarrow> Inl err
      | Inr e \<Rightarrow> (case pg_detach_sign px e message of None \<Rightarrow> Inl ErrSign | Some s \<Rightarrow> Inr s))"

definition generate_pgp_key :: "pgp_ext \<Rightarrow> string \<Rightarrow> string \<Rightarrow> pgp_error + bytes \<times> bytes" where
  "generate_pgp_key px name email =
     (if email = [] then Inl ErrGenerate
      else case pg_new_entity px name email of
        None \<Rightarrow> Inl ErrGenerate
      | Some e \<Rightarrow>
          (case pg_private_block px e of
             None \<Rightarrow> Inl ErrExport
           | Some priv \<Rightarrow> (case pg_public_block px e of None \<Rightarrow> Inl ErrExport | Some pub \<Rightarrow> Inr (pub, priv))))"

section \<open>Decrypting\<close>

datatype signature_status = SigNone | SigValid | SigInvalid | SigUnknownKey

record decrypt_result =
  r_Plaintext :: bytes
  r_Signature :: signature_status
  r_SignedByFingerprint :: string
  r_SenderVerified :: bool

definition blank_char :: "char \<Rightarrow> bool" where
  "blank_char c \<longleftrightarrow> c \<in> {CHR '' '', CHR 0x09, quote_char}"

definition angle_address :: "string \<Rightarrow> string" where
  "angle_address s =
     (case last_char_index CHR ''<'' s of
        None \<Rightarrow> s
      | Some i \<Rightarrow>
          (case char_index CHR ''>'' (drop i s) of
             Some j \<Rightarrow> if j > 0 then take (j - 1) (drop (Suc i) s) else s
           | None \<Rightarrow> s))"

definition normalize_address :: "string \<Rightarrow> string" where
  "normalize_address s =
     (let s = trim_space s
      in if s = [] then []
         else (let s = to_lower (trim_space (angle_address s))
               in case char_index CHR ''@'' s of
                    None \<Rightarrow> []
                  | Some p \<Rightarrow> if p = 0 \<or> p = length s - 1 \<or> list_ex blank_char s then [] else s))"

definition signer_matches_email :: "string \<Rightarrow> string \<Rightarrow> keyring \<Rightarrow> bool" where
  "signer_matches_email fp claimed k =
     (let addr = normalize_address claimed
      in if addr = [] \<or> fp = [] then False
         else case by_fingerprint fp k of
           None \<Rightarrow> False
         | Some e \<Rightarrow> list_ex (\<lambda>a. equal_fold (trim_space a) addr) (en_Emails e))"

definition decrypt_from :: "pgp_ext \<Rightarrow> bytes \<Rightarrow> string \<Rightarrow> keyring \<Rightarrow> pgp_error + decrypt_result" where
  "decrypt_from px ciphertext sender k =
     (let reader = (case pg_dearmor px ciphertext of Some b \<Rightarrow> b | None \<Rightarrow> ciphertext)
      in case pg_read_message px reader (kr_entities k) of
           None \<Rightarrow> Inl ErrReadMessage
         | Some md \<Rightarrow>
             (case md_Body md of
                None \<Rightarrow> Inl ErrDecryptBody
              | Some plaintext \<Rightarrow>
                  (let res = \<lparr>r_Plaintext = plaintext, r_Signature = SigNone, r_SignedByFingerprint = [], r_SenderVerified = False\<rparr>
                   in Inr (if \<not> md_IsSigned md then res
                           else case (md_SignatureError md, md_SignedBy md) of
                             (Some unknown, signer) \<Rightarrow>
                               res\<lparr>r_Signature := (if unknown \<or> signer = None then SigUnknownKey else SigInvalid)\<rparr>
                           | (None, Some fp) \<Rightarrow>
                               res\<lparr>r_Signature := SigValid, r_SignedByFingerprint := hex_bytes fp,
                                   r_SenderVerified := signer_matches_email (hex_bytes fp) sender k\<rparr>
                           | (None, None) \<Rightarrow> res\<lparr>r_Signature := SigUnknownKey\<rparr>))))"

definition decrypt :: "pgp_ext \<Rightarrow> bytes \<Rightarrow> keyring \<Rightarrow> pgp_error + decrypt_result" where
  "decrypt px ciphertext k = decrypt_from px ciphertext [] k"

definition verify_detached :: "pgp_ext \<Rightarrow> bytes \<Rightarrow> bytes \<Rightarrow> keyring \<Rightarrow> signature_status \<times> pgp_error option" where
  "verify_detached px message sig k =
     (case pg_check_detached px (kr_entities k) message sig of
        (True, _) \<Rightarrow> (SigValid, None)
      | (False, signer) \<Rightarrow> (if signer then SigInvalid else SigUnknownKey, Some ErrVerify))"

section \<open>Web Key Directory\<close>

definition entities_have_email :: "entity list \<Rightarrow> string \<Rightarrow> bool" where
  "entities_have_email es want =
     (let want = to_lower (trim_space want)
      in list_ex (\<lambda>e. list_ex (\<lambda>a. to_lower a = want) (en_Emails e)) es)"

text \<open>A \<open>GET\<close> with the default client, which follows redirects.\<close>

definition get_request :: "string \<Rightarrow> string \<Rightarrow> request" where
  "get_request url accept = \<lparr>rq_method = ''GET'', rq_url = url, rq_accept = accept, rq_body = [], rq_follow = True\<rparr>"

definition fetch_bytes :: "ext \<Rightarrow> string \<Rightarrow> string \<Rightarrow> request list \<times> (pgp_error + bytes)" where
  "fetch_bytes x url accept =
     (case send_request x (get_request url accept) of
        (log, None) \<Rightarrow> (log, Inl ErrBuildReq)
      | (log, Some No_reply) \<Rightarrow> (log, Inl ErrNetErr)
      | (log, Some (Reply status body ok)) \<Rightarrow>
          (log, if status \<noteq> 200 then Inl (ErrStatus status)
                else case read_limited 1048576 body ok of None \<Rightarrow> Inl ErrRead | Some raw \<Rightarrow> Inr raw))"

definition fetch_wkd :: "ext \<Rightarrow> pgp_ext \<Rightarrow> string \<Rightarrow> request list \<times> (pgp_error + entity list)" where
  "fetch_wkd x px url =
     (case fetch_bytes x url [] of
        (log, Inl e) \<Rightarrow> (log, Inl e)
      | (log, Inr raw) \<Rightarrow>
          (log, case pg_ring px raw of
                  None \<Rightarrow> Inl ErrParseKey
                | Some es \<Rightarrow> if es = [] then Inl ErrEmptyKeyring else Inr es))"

fun try_wkd :: "ext \<Rightarrow> pgp_ext \<Rightarrow> string \<Rightarrow> string list \<Rightarrow> request list \<times> (pgp_error + entity list)" where
  "try_wkd x px email [] = ([], Inl ErrWkdLookup)"
| "try_wkd x px email (u # us) =
     (case fetch_wkd x px u of
        (log, Inr es) \<Rightarrow>
          if entities_have_email es email then (log, Inr es)
          else (let (log', r) = try_wkd x px email us in (log @ log', r))
      | (log, Inl _) \<Rightarrow> (let (log', r) = try_wkd x px email us in (log @ log', r)))"

definition wkd_urls :: "string \<Rightarrow> string \<Rightarrow> string list" where
  "wkd_urls loc dmn =
     [''https://openpgpkey.'' @ dmn @ ''/.well-known/openpgpkey/'' @ dmn @ ''/hu/'' @ wkd_hash loc @ ''?l='' @ loc,
      ''https://'' @ dmn @ ''/.well-known/openpgpkey/hu/'' @ wkd_hash loc @ ''?l='' @ loc]"

definition discover_wkd :: "ext \<Rightarrow> pgp_ext \<Rightarrow> string \<Rightarrow> request list \<times> (pgp_error + entity list)" where
  "discover_wkd x px email =
     (case last_char_index CHR ''@'' email of
        None \<Rightarrow> ([], Inl ErrWkdAddress)
      | Some i \<Rightarrow>
          if i = 0 \<or> i = length email - 1 then ([], Inl ErrWkdAddress)
          else try_wkd x px email (wkd_urls (to_lower (take i email)) (to_lower (drop (Suc i) email))))"

section \<open>Key directory\<close>

text \<open>\<open>render\<close> is the text of the parsed URL with the query parameter \<open>email\<close> set, when one is given
  (\<open>URL.Query\<close>, \<open>Values.Set\<close>, \<open>Values.Encode\<close> and \<open>URL.String\<close>).\<close>

definition build_directory_url :: "(string \<Rightarrow> string option) \<Rightarrow> (url \<Rightarrow> string \<Rightarrow> string option \<Rightarrow> string) \<Rightarrow> string \<Rightarrow> string
    \<Rightarrow> pgp_error + string" where
  "build_directory_url lit render base email =
     (case url_parse lit (trim_space base) of
        None \<Rightarrow> Inl ErrDirURL
      | Some u \<Rightarrow>
          if u_Scheme u \<noteq> ''https'' then Inl ErrDirURL
          else if u_Host u = [] then Inl ErrDirURL
          else Inr (render u (trim_space base) (if email = [] then None else Some email)))"

definition parse_key_ring :: "pgp_ext \<Rightarrow> bytes \<Rightarrow> pgp_error + entity list" where
  "parse_key_ring px raw =
     (case (if contains_str ''-----BEGIN PGP'' raw then pg_armored_ring px raw else pg_ring px raw) of
        None \<Rightarrow> Inl ErrParseKey
      | Some es \<Rightarrow> if es = [] then Inl ErrEmptyKeyring else Inr es)"

definition directory_accept :: string where
  "directory_accept = ''application/pgp-keys, application/json''"

definition discover_key_directory :: "ext \<Rightarrow> (url \<Rightarrow> string \<Rightarrow> string option \<Rightarrow> string) \<Rightarrow> pgp_ext \<Rightarrow> string \<Rightarrow> string
    \<Rightarrow> request list \<times> (pgp_error + entity list)" where
  "discover_key_directory x render px base email =
     (case build_directory_url (x_lit x) render base email of
        Inl e \<Rightarrow> ([], Inl e)
      | Inr u \<Rightarrow>
          (case fetch_bytes x u directory_accept of
             (log, Inl e) \<Rightarrow> (log, Inl e)
           | (log, Inr raw) \<Rightarrow> (log, parse_key_ring px raw)))"

definition fetch_key_directory :: "ext \<Rightarrow> (url \<Rightarrow> string \<Rightarrow> string option \<Rightarrow> string) \<Rightarrow> (bytes \<Rightarrow> (string \<times> string) list option)
    \<Rightarrow> string \<Rightarrow> request list \<times> (pgp_error + (string \<times> string) list)" where
  "fetch_key_directory x render json base =
     (case build_directory_url (x_lit x) render base [] of
        Inl e \<Rightarrow> ([], Inl e)
      | Inr u \<Rightarrow>
          (case fetch_bytes x u directory_accept of
             (log, Inl e) \<Rightarrow> (log, Inl e)
           | (log, Inr raw) \<Rightarrow> (log, case json raw of None \<Rightarrow> Inl ErrDirJSON | Some keys \<Rightarrow> Inr keys)))"

section \<open>Well-formed request URLs\<close>

definition url_byte :: "char \<Rightarrow> bool" where
  "url_byte c \<longleftrightarrow> \<not> is_ctl c \<and> c \<noteq> CHR ''%'' \<and> c \<noteq> CHR ''#''"

lemma unescape_plain: "CHR ''%'' \<notin> set s \<Longrightarrow> unescape s = Some s"
  by (induction s) auto

lemma unescape_host_plain: "list_all (\<lambda>c. host_char c \<and> c \<noteq> CHR ''%'') s \<Longrightarrow> unescape_host s = Some s"
  by (induction s) auto

lemma cut_at_Cons: "cut_at c (x # s) = (if x = c then ([], s) else (x # fst (cut_at c s), snd (cut_at c s)))"
  by (cases "char_index c s") (auto simp: cut_at_def simp del: char_index_None)

lemma cut_at_append: "c \<notin> set s \<Longrightarrow> cut_at c (s @ t) = (s @ fst (cut_at c t), snd (cut_at c t))"
  by (induction s) (auto simp: cut_at_Cons)

lemma cut_at_none: "c \<notin> set s \<Longrightarrow> cut_at c s = (s, [])"
  using cut_at_append [of c s "[]"] by (simp add: cut_at_def)

lemma cut_at_fst_set: "set (fst (cut_at c s)) \<subseteq> set s"
  by (rule cut_at_fst [of s c]) (metis Un_upper1 set_append)

lemma get_scheme_https: "get_scheme (''https://'' @ t) = Some (''https'', ''//'' @ t)"
proof -
  have "takeWhile scheme_char (''https://'' @ t) = ''https''" "dropWhile scheme_char (''https://'' @ t) = ''://'' @ t"
    by (simp_all add: scheme_char_def is_alnum_def is_letter_def is_digit_def less_eq_char_def)
  then show ?thesis by (simp add: get_scheme_def is_letter_def less_eq_char_def)
qed

lemma host_byte_url: "host_byte c \<Longrightarrow> url_byte c \<and> host_char c \<and> c \<notin> set ''?/@[:%''"
  by (auto simp: host_byte_def url_byte_def host_char_def is_alnum_def is_letter_def is_digit_def is_ctl_def
      less_eq_char_def less_char_def)

lemma url_parse_parts:
  assumes "CHR ''#'' \<notin> set s" "\<not> list_ex is_ctl s" "s \<noteq> ''*''" "get_scheme s = Some (sch, r)" "to_lower sch \<noteq> []"
    and "fst (cut_at CHR ''?'' r) = ''//'' @ d @ CHR ''/'' # p" "CHR ''/'' \<notin> set d"
    and "parse_authority lit d = Some (user, host)" "unescape (CHR ''/'' # p) = Some path"
  shows "url_parse lit s = Some \<lparr>u_Scheme = to_lower sch, u_User = user, u_Host = host, u_Path = path\<rparr>"
proof -
  have "takeWhile (\<lambda>c. c \<noteq> CHR ''/'') (d @ CHR ''/'' # p) = d" "dropWhile (\<lambda>c. c \<noteq> CHR ''/'') (d @ CHR ''/'' # p) = CHR ''/'' # p"
    using assms(7) by (induction d) auto
  then show ?thesis using assms by (auto simp: url_parse_def url_parse_nofrag_def cut_at_none has_prefix_def Let_def)
qed

lemma host_url_parses:
  assumes "list_all host_byte d" and "list_all url_byte path"
  shows "url_parse lit (''https://'' @ d @ CHR ''/'' # path) \<noteq> None"
proof -
  let ?s = "''https://'' @ d @ CHR ''/'' # path"
  have d: "\<forall>c \<in> set d. url_byte c \<and> host_char c \<and> c \<notin> set ''?/@[:%''" using assms(1) host_byte_url by (auto simp: list_all_iff)
  have "list_all url_byte ''https://''" by (simp add: url_byte_def is_ctl_def less_char_def)
  then have "list_all url_byte ?s" using d assms(2) by (auto simp: list_all_iff url_byte_def is_ctl_def less_char_def)
  then have plain: "CHR ''#'' \<notin> set ?s" "\<not> list_ex is_ctl ?s" by (auto simp: url_byte_def list_all_iff list_ex_iff)
  have "CHR ''?'' \<notin> set (''//'' @ d @ ''/'')" using d by auto
  then have cut: "fst (cut_at CHR ''?'' (''//'' @ d @ CHR ''/'' # path)) = ''//'' @ d @ CHR ''/'' # fst (cut_at CHR ''?'' path)"
    using cut_at_append [of "CHR ''?''" "''//'' @ d @ ''/''" path] by simp
  have none: "last_char_index CHR ''@'' d = None" "last_char_index CHR '':'' d = None" "CHR ''['' \<notin> set d" "CHR ''/'' \<notin> set d"
    using d by (auto simp: last_char_index_None)
  have "unescape_host d = Some d" using d by (intro unescape_host_plain) (auto simp: list_all_iff)
  then have auth: "parse_authority lit d = Some (False, d)"
    using none by (simp add: parse_authority_def parse_host_def del: last_char_index_None)
  have "CHR ''%'' \<notin> set (CHR ''/'' # fst (cut_at CHR ''?'' path))"
    using assms(2) cut_at_fst_set [of "CHR ''?''" path] by (auto simp: list_all_iff url_byte_def)
  from url_parse_parts [OF plain _ get_scheme_https _ cut none(4) auth unescape_plain [OF this]]
  show ?thesis by (simp add: https_lower)
qed

lemma zb_chunk_char: "length c = 5 \<Longrightarrow> zb_char c \<in> set zbase32_alphabet"
  using bits_val_less [of c] alphabet_distinct(2) by (simp add: zb_char_def)

lemma zbase32_chars: "set (zbase32 data) \<subseteq> set zbase32_alphabet"
  by (auto simp: zbase32_bits zbase32_reference_def dest!: chunks5_length intro: zb_chunk_char)

lemma wkd_hash_url: "list_all url_byte (wkd_hash loc)"
proof -
  have "list_all url_byte zbase32_alphabet" by (simp add: zbase32_alphabet_def url_byte_def is_ctl_def less_char_def)
  then show ?thesis using zbase32_chars [of "sha1_bytes (to_lower loc)"] by (auto simp: wkd_hash_def list_all_iff)
qed

section \<open>Properties of the keyring\<close>

lemma import_entities_eq:
  "kr_entities (snd (import_entities es k)) = kr_entities k @ es \<and> fst (import_entities es k) = map fingerprint_of es"
  by (induction es arbitrary: k) (auto simp: Let_def split_beta)

lemma import_entities_simps [simp]:
  "kr_entities (snd (import_entities es k)) = kr_entities k @ es" "fst (import_entities es k) = map fingerprint_of es"
  by (simp_all add: import_entities_eq)

lemma import_entities_trust:
  "kr_trust (snd (import_entities es k)) fp =
     (case kr_trust k fp of Some l \<Rightarrow> Some l
      | None \<Rightarrow> if fp \<in> fingerprint_of ` set es then Some trust_unknown else None)"
  by (induction es arbitrary: k) (auto simp: Let_def split_beta split: option.splits)

lemma find_append: "find P (xs @ ys) = (case find P xs of Some x \<Rightarrow> Some x | None \<Rightarrow> find P ys)"
  by (induction xs) auto

lemma entity_by_email_append:
  "kr_entities k' = kr_entities k @ es \<Longrightarrow> entity_by_email email k = Inr e \<Longrightarrow> entity_by_email email k' = Inr e"
  by (auto simp: entity_by_email_def find_append split: option.splits)

lemma by_fingerprint_append:
  "kr_entities k' = kr_entities k @ es \<Longrightarrow> by_fingerprint fp k = Some e \<Longrightarrow> by_fingerprint fp k' = Some e"
  by (simp add: by_fingerprint_def find_append)

lemma find_props: "find P xs = Some x \<Longrightarrow> x \<in> set xs \<and> P x"
  by (induction xs) (auto split: if_splits)

text \<open>The key that encrypts for an address is the first one ever imported for it: a key imported later, a rotated
  one or one the user has just verified, is never used for that address, and the trust levels already recorded stay.\<close>

theorem first_key_wins:
  assumes "entity_by_email email k = Inr old"
    and "import_armored px armored k = (Inr fps, k')"
  shows "entity_by_email email k' = Inr old
    \<and> encrypt px plaintext [email] [] k' = (case pg_encrypt px [old] None plaintext of None \<Rightarrow> Inl ErrEncrypt | Some c \<Rightarrow> Inr c)
    \<and> kr_trust k \<subseteq>\<^sub>m kr_trust k'"
proof -
  from assms(2) obtain es where k': "k' = snd (import_entities es k)"
    by (auto simp: import_armored_def Let_def split_beta split: option.splits)
  then have e: "entity_by_email email k' = Inr old" using entity_by_email_append [OF _ assms(1)] by simp
  have "kr_trust k \<subseteq>\<^sub>m kr_trust k'" by (auto simp: map_le_def k' import_entities_trust dom_def)
  then show ?thesis using e by (simp add: encrypt_def)
qed

text \<open>A message counts as coming from its claimed sender only if its signature verified with a key of the keyring
  that has an identity for the address in the sender header.\<close>

theorem sender_verified_sound:
  assumes "decrypt_from px ciphertext sender k = Inr res" and "r_SenderVerified res"
  shows "r_Signature res = SigValid \<and> normalize_address sender \<noteq> []
    \<and> (\<exists>e \<in> set (kr_entities k). fingerprint_of e = to_lower (r_SignedByFingerprint res)
        \<and> (\<exists>a \<in> set (en_Emails e). equal_fold (trim_space a) (normalize_address sender)))"
proof -
  from assms obtain fp where fp: "r_Signature res = SigValid" "r_SignedByFingerprint res = hex_bytes fp"
    "signer_matches_email (hex_bytes fp) sender k"
    by (auto simp: decrypt_from_def Let_def split: option.splits if_splits)
  then obtain e where "by_fingerprint (hex_bytes fp) k = Some e" "normalize_address sender \<noteq> []"
    "list_ex (\<lambda>a. equal_fold (trim_space a) (normalize_address sender)) (en_Emails e)"
    by (auto simp: signer_matches_email_def Let_def split: option.splits if_splits)
  then show ?thesis using fp by (auto simp: by_fingerprint_def list_ex_iff dest!: find_props)
qed

definition bare_address :: "string \<Rightarrow> bool" where
  "bare_address a \<longleftrightarrow> (case char_index CHR ''@'' a of None \<Rightarrow> False | Some p \<Rightarrow> p \<noteq> 0 \<and> p \<noteq> length a - 1)
     \<and> list_all (\<lambda>c. \<not> blank_char c \<and> \<not> is_space c \<and> c \<noteq> CHR ''<'' \<and> c \<noteq> CHR ''>'') a"

lemma char_index_map: "(\<And>x. x \<in> set s \<Longrightarrow> (f x = c) = (x = c)) \<Longrightarrow> char_index c (map f s) = char_index c s"
  by (induction s) auto

lemma lower_char_at: "lower_char x = CHR ''@'' \<longleftrightarrow> x = CHR ''@''"
proof
  assume "lower_char x = CHR ''@''"
  then have "(of_char (lower_char x) :: nat) = 64" by simp
  then have "(of_char x :: nat) = of_char CHR ''@''" by (auto split: if_splits simp: less_eq_char_def)
  then show "x = CHR ''@''" by (simp only: of_char_eq_iff)
qed (simp add: lower_char_def)

lemma lower_char_blank: "blank_char (lower_char c) = blank_char c"
proof (cases "CHR ''A'' \<le> c \<and> c \<le> CHR ''Z''")
  case True
  then have "97 \<le> (of_char (lower_char c) :: nat)" "65 \<le> (of_char c :: nat)" by (auto simp: less_eq_char_def)
  then show ?thesis by (auto simp: blank_char_def simp del: of_char_lower)
qed (auto simp: lower_char_def)

lemma last_char_index_append: "c \<notin> set t \<Longrightarrow> last_char_index c (s @ c # t) = Some (length s)"
proof -
  assume "c \<notin> set t"
  then have "char_index c (rev t @ c # rev s) = Some (length t)"
    by (induction t rule: rev_induct) auto
  then show ?thesis by (simp add: last_char_index_def)
qed

lemma angle_address_bracket:
  "list_all (\<lambda>c. c \<noteq> CHR ''<'' \<and> c \<noteq> CHR ''>'') a \<Longrightarrow> angle_address (name @ ''<'' @ a @ ''>'') = a"
proof -
  assume a: "list_all (\<lambda>c. c \<noteq> CHR ''<'' \<and> c \<noteq> CHR ''>'') a"
  then have "char_index CHR ''>'' (a @ ''>'') = Some (length a)" by (induction a) auto
  moreover have "last_char_index CHR ''<'' (name @ CHR ''<'' # a @ ''>'') = Some (length name)"
    using a by (intro last_char_index_append) (auto simp: list_all_iff)
  ultimately show ?thesis by (simp add: angle_address_def)
qed

lemma trim_space_bracket: "\<exists>name'. trim_space (name @ ''<'' @ a @ ''>'') = name' @ ''<'' @ a @ ''>''"
proof -
  have left: "dropWhile is_space (name @ CHR ''<'' # t) = dropWhile is_space name @ CHR ''<'' # t" for t
    by (induction name) (auto simp: is_space_def)
  have "trim_right_by is_space (n @ ''<'' @ a @ ''>'') = n @ ''<'' @ a @ ''>''" for n
    by (intro trim_right_by_id) (simp add: is_space_def)
  then show ?thesis using left [of "a @ ''>''"] by (auto simp: trim_space_def trim_by_def)
qed

text \<open>Whatever the display name of a sender header is, the address between its angle brackets is the one a
  signature is checked against.\<close>

theorem display_name_ignored:
  assumes "bare_address a"
  shows "normalize_address (name @ ''<'' @ a @ ''>'') = to_lower a"
proof -
  have chars: "list_all (\<lambda>c. c \<noteq> CHR ''<'' \<and> c \<noteq> CHR ''>'') a" "\<not> list_ex blank_char a" "\<forall>c \<in> set a. \<not> is_space c"
    using assms by (auto simp: bare_address_def list_all_iff list_ex_iff)
  obtain name' where trim: "trim_space (name @ ''<'' @ a @ ''>'') = name' @ ''<'' @ a @ ''>''"
    using trim_space_bracket by blast
  have "trim_space a = a" using chars(3) unfolding trim_space_def by (intro trim_by_id) (cases a; auto)
  moreover have "char_index CHR ''@'' (to_lower a) = char_index CHR ''@'' a"
    unfolding to_lower_def by (intro char_index_map lower_char_at)
  moreover have "CHR ''@'' \<in> set a" using assms char_index_None [of "CHR ''@''" a]
    by (auto simp: bare_address_def simp del: char_index_None split: option.splits)
  moreover have "\<not> list_ex blank_char (to_lower a)" using chars(2) by (auto simp: to_lower_def list_ex_iff lower_char_blank)
  ultimately show ?thesis using assms angle_address_bracket [OF chars(1), of name'] trim
    by (auto simp: normalize_address_def Let_def bare_address_def split: option.splits)
qed

section \<open>Properties of Web Key Directory lookups\<close>

lemma try_wkd_result:
  "snd (try_wkd x px email us) = Inr es \<Longrightarrow> entities_have_email es email \<and> es \<noteq> []"
  by (induction x px email us rule: try_wkd.induct) (auto simp: fetch_wkd_def Let_def split: prod.splits sum.splits if_splits option.splits)

lemma fetch_wkd_log: "set (fst (fetch_wkd x px u)) \<subseteq> {get_request u []}"
  by (auto simp: fetch_wkd_def fetch_bytes_def send_request_def split: prod.splits sum.splits if_splits reply.splits option.splits)

lemma try_wkd_log: "set (fst (try_wkd x px email us)) \<subseteq> (\<lambda>u. get_request u []) ` set us"
proof (induction x px email us rule: try_wkd.induct)
  case (2 x px email u us)
  then show ?case using fetch_wkd_log [of x px u] by (auto simp: Let_def split: prod.splits sum.splits if_splits) blast+
qed simp

text \<open>A lookup that succeeds returns keys of which one carries the address asked for, and asks only the two
  well-known places of the address's domain, over https.\<close>

theorem wkd_lookup_sound:
  assumes "discover_wkd x px email = (log, Inr es)"
  shows "(\<exists>e \<in> set es. \<exists>a \<in> set (en_Emails e). to_lower a = to_lower (trim_space email))
    \<and> (\<exists>loc dmn. email = loc @ ''@'' @ dmn \<and> CHR ''@'' \<notin> set dmn
        \<and> (\<forall>rq \<in> set log. rq_method rq = ''GET'' \<and> rq_url rq \<in> set (wkd_urls (to_lower loc) (to_lower dmn))))"
proof -
  from assms obtain i where i: "last_char_index CHR ''@'' email = Some i"
    and r: "try_wkd x px email (wkd_urls (to_lower (take i email)) (to_lower (drop (Suc i) email))) = (log, Inr es)"
    by (auto simp: discover_wkd_def split: option.splits if_splits)
  have "entities_have_email es email" using try_wkd_result r by (metis snd_conv)
  then have "\<exists>e \<in> set es. \<exists>a \<in> set (en_Emails e). to_lower a = to_lower (trim_space email)"
    by (auto simp: entities_have_email_def list_ex_iff)
  moreover have "email = take i email @ ''@'' @ drop (Suc i) email \<and> CHR ''@'' \<notin> set (drop (Suc i) email)"
    using last_char_index_Some [OF i] by auto
  moreover have "\<forall>rq \<in> set log. rq_method rq = ''GET'' \<and> rq_url rq \<in> set (wkd_urls (to_lower (take i email)) (to_lower (drop (Suc i) email)))"
    using try_wkd_log [of x px email "wkd_urls (to_lower (take i email)) (to_lower (drop (Suc i) email))"] r
    by (auto simp: get_request_def)
  ultimately show ?thesis by blast
qed


section \<open>Examples\<close>

definition sample_key :: "string \<Rightarrow> string \<Rightarrow> entity" where
  "sample_key k email = \<lparr>en_Fingerprint = k, en_Emails = [email], en_Private = True, en_Key = k\<rparr>"

text \<open>A library whose key blocks are the letters of their keys and whose messages are signed by key \<open>A\<close>.\<close>

definition toy_pgp :: pgp_ext where
  "toy_pgp = \<lparr>pg_armored_ring = (\<lambda>b. Some [sample_key b ''alice@example.org'']),
     pg_ring = (\<lambda>b. Some [sample_key b ''alice@example.org'']),
     pg_dearmor = (\<lambda>_. None),
     pg_read_message = (\<lambda>b _. Some \<lparr>md_IsSigned = True, md_SignatureError = None, md_SignedBy = Some ''A'', md_Body = Some b\<rparr>),
     pg_encrypt = (\<lambda>es _ p. Some (concat (map en_Key es) @ p)),
     pg_detach_sign = (\<lambda>_ _. None), pg_check_detached = (\<lambda>_ _ _. (False, False)),
     pg_public_block = (\<lambda>e. Some (en_Key e)), pg_private_block = (\<lambda>_. None), pg_new_entity = (\<lambda>_ _. None)\<rparr>"

definition toy_ring :: keyring where
  "toy_ring = snd (import_entities [sample_key ''A'' ''alice@example.org''] new_keyring)"

definition toy_net :: ext where
  "toy_net = \<lparr>x_net = (\<lambda>_. Reply 200 ''B'' True), x_lit = (\<lambda>_. None), x_object = (\<lambda>_. []), x_payload = (\<lambda>_. None),
     x_creds = (\<lambda>_. None), x_doc = (\<lambda>_. None), x_register = (\<lambda>_. None), x_status = (\<lambda>_. None), x_reason = (\<lambda>_. None),
     x_privkey = (\<lambda>_. None), x_verify = (\<lambda>_ _ _. False), x_sha256 = (\<lambda>_. [])\<rparr>"

lemmas toy_pgp_defs = toy_pgp_def toy_ring_def sample_key_def new_keyring_def

lemma toy_alice: "entity_by_email ''alice@example.org'' toy_ring = Inr (sample_key ''A'' ''alice@example.org'')"
  by (simp add: toy_pgp_defs entity_by_email_def Let_def)

theorem first_key_wins_witness:
  "encrypt toy_pgp ''hi'' [''alice@example.org''] [] (snd (import_armored toy_pgp ''B'' toy_ring)) = Inr ''Ahi''"
proof -
  have "import_armored toy_pgp ''B'' toy_ring = (Inr [fingerprint_of (sample_key ''B'' ''alice@example.org'')], snd (import_armored toy_pgp ''B'' toy_ring))"
    by (simp add: import_armored_def toy_pgp_def Let_def split_beta)
  from first_key_wins [OF toy_alice this] show ?thesis by (simp add: toy_pgp_def sample_key_def)
qed

theorem sender_verified_sound_witness:
  "\<exists>e \<in> set (kr_entities toy_ring). fingerprint_of e = ''41''"
proof -
  define res where "res = \<lparr>r_Plaintext = ''hi'', r_Signature = SigValid, r_SignedByFingerprint = ''41'', r_SenderVerified = True\<rparr>"
  have "decrypt_from toy_pgp ''hi'' ''Alice <Alice@example.org>'' toy_ring = Inr res" unfolding res_def by code_simp
  from sender_verified_sound [OF this] show ?thesis by (auto simp: res_def to_lower_def lower_char_def)
qed

theorem display_name_ignored_witness:
  "normalize_address (''boss@bank.example '' @ ''<'' @ ''Eve@example.org'' @ ''>'') = ''eve@example.org''"
proof -
  have "bare_address ''Eve@example.org''" and eve: "to_lower ''Eve@example.org'' = ''eve@example.org''" by code_simp+
  from display_name_ignored [OF this(1), of "''boss@bank.example ''"] show ?thesis unfolding eve .
qed

lemma toy_wkd:
  assumes "pg_ring px ''B'' = Some es" and "entities_have_email es ''alice@example.org''"
  shows "\<exists>log. discover_wkd toy_net px ''alice@example.org'' = (log, Inr es)"
proof -
  let ?email = "''alice@example.org''"
  have split: "last_char_index CHR ''@'' ?email = Some 5" "to_lower (take 5 ?email) = ''alice''" "to_lower (drop 6 ?email) = ''example.org''"
    by code_simp+
  have "list_all host_byte ''openpgpkey.example.org''" "list_all url_byte ''.well-known/openpgpkey/example.org/hu/''"
    "list_all url_byte ''?l=alice''" by code_simp+
  then obtain u v where urls: "wkd_urls ''alice'' ''example.org'' = [u, v]" and "url_parse (x_lit toy_net) u \<noteq> None"
    using host_url_parses [of "''openpgpkey.example.org''"
        "''.well-known/openpgpkey/example.org/hu/'' @ wkd_hash ''alice'' @ ''?l=alice''" "x_lit toy_net"] wkd_hash_url [of "''alice''"]
    unfolding wkd_urls_def by force
  moreover have "es \<noteq> []" using assms(2) by (auto simp: entities_have_email_def)
  ultimately have "fetch_wkd toy_net px u = ([get_request u []], Inr es)"
    using assms(1) by (auto simp: fetch_wkd_def fetch_bytes_def send_request_def get_request_def toy_net_def read_limited_def)
  then show ?thesis
    using assms(2) by (simp add: discover_wkd_def split urls del: take_Cons_numeral drop_Cons_numeral)
qed

theorem wkd_lookup_sound_witness:
  "\<exists>e \<in> set [sample_key ''B'' ''alice@example.org'']. \<exists>a \<in> set (en_Emails e). to_lower a = to_lower (trim_space ''alice@example.org'')"
proof -
  let ?es = "[sample_key ''B'' ''alice@example.org'']"
  have "entities_have_email ?es ''alice@example.org''" by code_simp
  then obtain log where "discover_wkd toy_net toy_pgp ''alice@example.org'' = (log, Inr ?es)"
    using toy_wkd [of toy_pgp ?es] by (auto simp: toy_pgp_def)
  from wkd_lookup_sound [OF this] show ?thesis by blast
qed

end
