(* ===== verification/Effects.thy ===== *)
theory Effects
  imports GoPrelude
begin

text \<open>
  Sequencing of Go functions that return an error beside their value and act on a world: the
  \<open>if err != nil { return err }\<close> of the sources is \<open>seqE\<close>. \<open>keeps\<close> states that an action preserves an
  invariant of the world whatever it returns; its rules are collected in \<open>keeps\<close>, so that an
  invariant of a composed handler is proved by its structure.
\<close>

named_theorems keeps_intros \<open>invariants of composed actions\<close>

type_synonym ('w, 'e, 'a) action = "'w \<Rightarrow> ('e + 'a) \<times> 'w"

definition retE :: "'a \<Rightarrow> ('w, 'e, 'a) action" where
  "retE a w = (Inr a, w)"

definition failE :: "'e \<Rightarrow> ('w, 'e, 'a) action" where
  "failE e w = (Inl e, w)"

definition seqE :: "('w, 'e, 'a) action \<Rightarrow> ('a \<Rightarrow> ('w, 'e, 'b) action) \<Rightarrow> ('w, 'e, 'b) action" where
  "seqE m f w = (case m w of (Inl e, w') \<Rightarrow> (Inl e, w') | (Inr a, w') \<Rightarrow> f a w')"

text \<open>An action whose error the code looks at, or ignores.\<close>

definition tryE :: "('w, 'e, 'a) action \<Rightarrow> ('e + 'a \<Rightarrow> ('w, 'e, 'b) action) \<Rightarrow> ('w, 'e, 'b) action" where
  "tryE m f w = (let (r, w') = m w in f r w')"

text \<open>A change of the world that cannot fail.\<close>

definition modifyE :: "('w \<Rightarrow> 'w) \<Rightarrow> ('w, 'e, unit) action" where
  "modifyE g w = (Inr (), g w)"

definition readE :: "('w \<Rightarrow> 'a) \<Rightarrow> ('w, 'e, 'a) action" where
  "readE g w = (Inr (g w), w)"

definition whenE :: "bool \<Rightarrow> 'e \<Rightarrow> ('w, 'e, unit) action" where
  "whenE b e = (if b then failE e else retE ())"

fun forE :: "'x list \<Rightarrow> ('x \<Rightarrow> ('w, 'e, unit) action) \<Rightarrow> ('w, 'e, unit) action" where
  "forE [] f = retE ()"
| "forE (x # xs) f = seqE (f x) (\<lambda>_. forE xs f)"

definition keeps :: "('w \<Rightarrow> bool) \<Rightarrow> ('w, 'e, 'a) action \<Rightarrow> bool" where
  "keeps I m \<longleftrightarrow> (\<forall>w. I w \<longrightarrow> I (snd (m w)))"

lemma keepsD: "keeps I m \<Longrightarrow> I w \<Longrightarrow> I (snd (m w))"
  by (simp add: keeps_def)

lemma keepsI: "(\<And>w. I w \<Longrightarrow> I (snd (m w))) \<Longrightarrow> keeps I m"
  by (simp add: keeps_def)

lemma keeps_retE [keeps_intros]: "keeps I (retE a)"
  by (simp add: keeps_def retE_def)

lemma keeps_failE [keeps_intros]: "keeps I (failE e)"
  by (simp add: keeps_def failE_def)

lemma keeps_readE [keeps_intros]: "keeps I (readE g)"
  by (simp add: keeps_def readE_def)

lemma keeps_seqE [keeps_intros]: "keeps I m \<Longrightarrow> (\<And>a. keeps I (f a)) \<Longrightarrow> keeps I (seqE m f)"
  by (force simp: keeps_def seqE_def split: prod.splits sum.splits)

lemma keeps_tryE [keeps_intros]: "keeps I m \<Longrightarrow> (\<And>r. keeps I (f r)) \<Longrightarrow> keeps I (tryE m f)"
  by (force simp: keeps_def tryE_def Let_def split: prod.splits)

lemma keeps_whenE [keeps_intros]: "keeps I (whenE b e)"
  by (simp add: whenE_def keeps_retE keeps_failE)

lemma keeps_forE [keeps_intros]: "(\<And>x. keeps I (f x)) \<Longrightarrow> keeps I (forE xs f)"
  by (induction xs) (simp_all add: keeps_retE keeps_seqE)

lemma keeps_if [keeps_intros]: "(b \<Longrightarrow> keeps I m) \<Longrightarrow> (\<not> b \<Longrightarrow> keeps I n) \<Longrightarrow> keeps I (if b then m else n)"
  by simp

lemma keeps_option [keeps_intros]:
  "keeps I m \<Longrightarrow> (\<And>a. keeps I (f a)) \<Longrightarrow> keeps I (case x of None \<Rightarrow> m | Some a \<Rightarrow> f a)"
  by (cases x) auto

lemma keeps_sum [keeps_intros]:
  "(\<And>e. keeps I (g e)) \<Longrightarrow> (\<And>a. keeps I (f a)) \<Longrightarrow> keeps I (case x of Inl e \<Rightarrow> g e | Inr a \<Rightarrow> f a)"
  by (cases x) auto

lemma keeps_let [keeps_intros]: "(\<And>x. x = v \<Longrightarrow> keeps I (f x)) \<Longrightarrow> keeps I (let x = v in f x)"
  by simp

lemma keeps_prod [keeps_intros]: "(\<And>a b. keeps I (f a b)) \<Longrightarrow> keeps I (case p of (a, b) \<Rightarrow> f a b)"
  by (cases p) simp

lemma keeps_modifyE: "(\<And>w. I w \<Longrightarrow> I (g w)) \<Longrightarrow> keeps I (modifyE g)"
  by (simp add: keeps_def modifyE_def)

lemma seqE_Inr: "seqE m f w = (Inr b, w'') \<longleftrightarrow> (\<exists>a w'. m w = (Inr a, w') \<and> f a w' = (Inr b, w''))"
  by (auto simp: seqE_def split: prod.splits sum.splits)

end
