(* ===== verification/MasterKey.thy ===== *)
theory MasterKey
  imports GoPrelude
begin

text \<open>
  The creation of the master key of package \<open>internal/crypto\<close>: \<open>FileKeyProvider.MasterKey\<close>
  (\<open>sealed.go\<close>) and \<open>publishExcl\<close> (\<open>masterkey_publish.go\<close>).

  The call is cut at its accesses to the shared key file into phases (\<open>mk_phase\<close>); run to the
  end by one caller they are the whole call (\<open>master_key\<close>). Providers in different
  goroutines or processes share only the file, so their concurrent behaviour is the interleaving
  of their phases (\<open>mk_step\<close>). Each file operation may fail (\<open>mk_iofail\<close>), the random source may
  fail or give any bytes (\<open>mk_rand\<close>), and the file system may refuse hard links (\<open>mk_nolink\<close>).
\<close>

datatype ks_error =
    ErrKeyNotFound
  | ErrNoPlatformKeystore
  | ErrMasterKeyCorrupt
  | ErrReadMasterKey
  | ErrGenerateKey
  | ErrWriteMasterKey
  | ErrSyncMasterKey
  | ErrNonce
  | ErrCorruptEntry
  | ErrUnseal
  | ErrWriteStore

record mk_state =
  mk_key :: bytes
  mk_file :: "bytes option"
  mk_nolink :: bool
  mk_rand :: "bytes option list"
  mk_iofail :: "bool list"

text \<open>One operating system call: does it fail?\<close>

definition io :: "'a mk_state_scheme \<Rightarrow> bool \<times> 'a mk_state_scheme" where
  "io s = (mk_iofail s \<noteq> [] \<and> hd (mk_iofail s), s\<lparr>mk_iofail := tl (mk_iofail s)\<rparr>)"

text \<open>\<open>n\<close> calls in a row, stopping at the first that fails.\<close>

fun io_seq :: "nat \<Rightarrow> 'a mk_state_scheme \<Rightarrow> bool \<times> 'a mk_state_scheme" where
  "io_seq 0 s = (False, s)"
| "io_seq (Suc n) s = (case io s of (True, s') \<Rightarrow> (True, s') | (False, s') \<Rightarrow> io_seq n s')"

text \<open>\<open>rand.Read\<close> into a buffer of \<open>n\<close> bytes.\<close>

definition rand_read :: "nat \<Rightarrow> 'a mk_state_scheme \<Rightarrow> bytes option \<times> 'a mk_state_scheme" where
  "rand_read n s =
     (case mk_rand s of
        [] \<Rightarrow> (Some (replicate n CHR 0x00), s)
      | None # rs \<Rightarrow> (None, s\<lparr>mk_rand := rs\<rparr>)
      | Some bs # rs \<Rightarrow> (Some (take n (bs @ replicate n CHR 0x00)), s\<lparr>mk_rand := rs\<rparr>))"

datatype mk_pc =
    Start
  | Prepare
  | Link bytes
  | ExclOpen bytes
  | ExclWrite bytes
  | ExclSync bytes
  | Done "ks_error + bytes"

text \<open>Adopting the published key: read the file and check its length.\<close>

definition adopt :: "ks_error \<Rightarrow> 'a mk_state_scheme \<Rightarrow> mk_pc \<times> 'a mk_state_scheme" where
  "adopt err s =
     (case io s of (f, s) \<Rightarrow>
        (case mk_file s of
           None \<Rightarrow> (Done (Inl err), s)
         | Some existing \<Rightarrow>
             if f then (Done (Inl err), s)
             else if length existing \<noteq> 32 then (Done (Inl ErrMasterKeyCorrupt), s)
             else (Done (Inr existing), s\<lparr>mk_key := existing\<rparr>)))"

text \<open>\<open>_ = os.Remove(p.Path)\<close>: a failing removal is ignored. A refused write is taken to have
  left the file empty; any content shorter than a key is treated the same by every reader.\<close>

definition remove_key :: "'a mk_state_scheme \<Rightarrow> 'a mk_state_scheme" where
  "remove_key s = (case io s of (f, s) \<Rightarrow> if f then s else s\<lparr>mk_file := None\<rparr>)"

fun mk_phase :: "mk_pc \<Rightarrow> 'a mk_state_scheme \<Rightarrow> mk_pc \<times> 'a mk_state_scheme" where
  "mk_phase Start s =
     (if length (mk_key s) = 32 then (Done (Inr (mk_key s)), s)
      else (case io s of (f, s) \<Rightarrow>
        if f then (Done (Inl ErrReadMasterKey), s)
        else (case mk_file s of
                Some key \<Rightarrow>
                  if length key \<noteq> 32 then (Done (Inl ErrMasterKeyCorrupt), s)
                  else (Done (Inr key), s\<lparr>mk_key := key\<rparr>)
              | None \<Rightarrow> (Prepare, s))))"
| "mk_phase Prepare s =
     (case rand_read 32 s of
        (None, s) \<Rightarrow> (Done (Inl ErrGenerateKey), s)
      | (Some key, s) \<Rightarrow>
          \<comment> \<open>MkdirAll, CreateTemp, Chmod, Write, Sync, Close\<close>
          (case io_seq 6 s of
             (True, s) \<Rightarrow> (Done (Inl ErrWriteMasterKey), s)
           | (False, s) \<Rightarrow> (Link key, s)))"
| "mk_phase (Link key) s =
     (if mk_nolink s then (ExclOpen key, s)
      else (case io s of (f, s) \<Rightarrow>
        if f \<or> mk_file s \<noteq> None then adopt ErrWriteMasterKey s
        else (Done (Inr key), s\<lparr>mk_file := Some key, mk_key := key\<rparr>)))"
| "mk_phase (ExclOpen key) s =
     (case io s of (f, s) \<Rightarrow>
        if f then (Done (Inl ErrWriteMasterKey), s)
        else if mk_file s \<noteq> None then adopt ErrReadMasterKey s
        else (ExclWrite key, s\<lparr>mk_file := Some []\<rparr>))"
| "mk_phase (ExclWrite key) s =
     (case io s of (f, s) \<Rightarrow>
        if f then (Done (Inl ErrWriteMasterKey), remove_key s)
        else (ExclSync key, s\<lparr>mk_file := Some key\<rparr>))"
| "mk_phase (ExclSync key) s =
     (case io s of (f, s) \<Rightarrow>
        if f then (Done (Inl ErrSyncMasterKey), remove_key s)
        else (case io s of (f, s) \<Rightarrow>
          if f then (Done (Inl ErrWriteMasterKey), s)
          else (Done (Inr key), s\<lparr>mk_key := key\<rparr>)))"
| "mk_phase (Done r) s = (Done r, s)"

text \<open>The whole call: at most six phases.\<close>

fun mk_run :: "nat \<Rightarrow> mk_pc \<Rightarrow> 'a mk_state_scheme \<Rightarrow> mk_pc \<times> 'a mk_state_scheme" where
  "mk_run 0 pc s = (pc, s)"
| "mk_run (Suc n) pc s = (case mk_phase pc s of (pc', s') \<Rightarrow> mk_run n pc' s')"

definition master_key :: "'a mk_state_scheme \<Rightarrow> (ks_error + bytes) \<times> 'a mk_state_scheme" where
  "master_key s =
     (case mk_run 6 Start s of (Done r, s') \<Rightarrow> (r, s') | (_, s') \<Rightarrow> (Inl ErrWriteMasterKey, s'))"

section \<open>Interleaving\<close>

record mk_world =
  w_file :: "bytes option"
  w_local :: "nat \<Rightarrow> mk_state"
  w_pc :: "nat \<Rightarrow> mk_pc"

definition w_view :: "nat \<Rightarrow> mk_world \<Rightarrow> mk_state" where
  "w_view i w = (w_local w i)\<lparr>mk_file := w_file w\<rparr>"

definition w_put :: "nat \<Rightarrow> mk_pc \<Rightarrow> mk_state \<Rightarrow> mk_world \<Rightarrow> mk_world" where
  "w_put i pc s w =
     w\<lparr>w_file := mk_file s, w_local := (w_local w)(i := s), w_pc := (w_pc w)(i := pc)\<rparr>"

fun in_publish :: "mk_pc \<Rightarrow> bool" where
  "in_publish (ExclWrite _) = True"
| "in_publish (ExclSync _) = True"
| "in_publish _ = False"

text \<open>A step of provider \<open>i\<close>: its next phase, or a new call after the last one returned. The
  phase that opens the file exclusively waits for \<open>publishMu\<close>. The parameter says whether an
  \<open>fsync\<close> of the freshly written key file may fail.\<close>

inductive mk_step :: "bool \<Rightarrow> mk_world \<Rightarrow> mk_world \<Rightarrow> bool" for syncfail where
  phase: "mk_phase (w_pc w i) (w_view i w) = (pc, s) \<Longrightarrow>
    (\<And>k. w_pc w i = ExclOpen k \<Longrightarrow> \<forall>j. \<not> in_publish (w_pc w j)) \<Longrightarrow>
    (syncfail \<or> pc \<noteq> Done (Inl ErrSyncMasterKey)) \<Longrightarrow>
    mk_step syncfail w (w_put i pc s w)"
| again: "w_pc w i = Done r \<Longrightarrow> mk_step syncfail w (w\<lparr>w_pc := (w_pc w)(i := Start)\<rparr>)"

definition mk_init :: "mk_world \<Rightarrow> bool" where
  "mk_init w \<longleftrightarrow> (\<forall>i. mk_key (w_local w i) = [] \<and> w_pc w i = Start)
     \<and> (\<forall>k. w_file w = Some k \<longrightarrow> length k = 32)"

inductive mk_reach :: "bool \<Rightarrow> mk_world \<Rightarrow> bool" for syncfail where
  init: "mk_init w \<Longrightarrow> mk_reach syncfail w"
| step: "mk_reach syncfail w \<Longrightarrow> mk_step syncfail w w' \<Longrightarrow> mk_reach syncfail w'"

inductive_cases mk_stepE: "mk_step f w w'"

section \<open>The sequential call\<close>

lemma io_simps [simp]:
  "mk_key (snd (io s)) = mk_key s" "mk_file (snd (io s)) = mk_file s"
  "mk_nolink (snd (io s)) = mk_nolink s" "mk_rand (snd (io s)) = mk_rand s"
  by (simp_all add: io_def)

lemma ioD: "io s = (f, s') \<Longrightarrow> mk_key s' = mk_key s \<and> mk_file s' = mk_file s \<and> mk_nolink s' = mk_nolink s"
  by (auto simp: io_def)

lemma io_seqD: "io_seq n s = (f, s') \<Longrightarrow> mk_key s' = mk_key s \<and> mk_file s' = mk_file s"
proof (induction n arbitrary: s)
  case (Suc n)
  then show ?case by (auto split: prod.splits bool.splits dest!: ioD)
qed simp

lemma rand_readD:
  "rand_read n s = (r, s') \<Longrightarrow> mk_key s' = mk_key s \<and> mk_file s' = mk_file s
     \<and> (\<forall>bs. r = Some bs \<longrightarrow> length bs = n)"
  by (auto simp: rand_read_def split: list.splits option.splits)

lemma adopt_cases:
  assumes "adopt err s = (pc, s')"
  obtains (fails) e where "pc = Done (Inl e)" "e \<in> {err, ErrMasterKeyCorrupt}"
      "mk_file s' = mk_file s" "mk_key s' = mk_key s"
  | (adopted) k where "pc = Done (Inr k)" "length k = 32" "mk_file s = Some k" "mk_file s' = Some k"
      "mk_key s' = k"
proof -
  obtain f s1 where io: "io s = (f, s1)" by fastforce
  then have s1: "mk_file s1 = mk_file s" "mk_key s1 = mk_key s" by (auto dest: ioD)
  show thesis
  proof (cases "mk_file s")
    case None
    with assms io s1 that(1) show thesis by (auto simp: adopt_def)
  next
    case (Some k)
    show thesis
    proof (cases "f \<or> length k \<noteq> 32")
      case True
      with assms io s1 Some that(1) show thesis by (auto simp: adopt_def split: if_splits)
    next
      case False
      with assms io s1 Some have "pc = Done (Inr k)" "s' = s1\<lparr>mk_key := k\<rparr>" "length k = 32"
        by (auto simp: adopt_def)
      with s1 Some that(2) show thesis by simp
    qed
  qed
qed

lemma remove_keyD: "mk_key (remove_key s) = mk_key s \<and> mk_file (remove_key s) \<in> {None, mk_file s}"
  by (auto simp: remove_key_def split: prod.splits dest!: ioD)

section \<open>Agreement\<close>

fun pc_ok :: "bytes option \<Rightarrow> mk_pc \<Rightarrow> bool" where
  "pc_ok f (Link k) = (length k = 32)"
| "pc_ok f (ExclOpen k) = (length k = 32)"
| "pc_ok f (ExclWrite k) = (length k = 32 \<and> f = Some [])"
| "pc_ok f (ExclSync k) = (length k = 32 \<and> f = Some k)"
| "pc_ok f (Done (Inr k)) = (length k = 32 \<and> f = Some k)"
| "pc_ok f _ = True"

definition key_ok :: "bytes option \<Rightarrow> mk_state \<Rightarrow> bool" where
  "key_ok f s \<longleftrightarrow> mk_key s = [] \<or> length (mk_key s) = 32 \<and> f = Some (mk_key s)"

definition mk_inv :: "mk_world \<Rightarrow> bool" where
  "mk_inv w \<longleftrightarrow> (\<forall>i. pc_ok (w_file w) (w_pc w i) \<and> key_ok (w_file w) (w_local w i))
     \<and> (\<forall>i j. in_publish (w_pc w i) \<longrightarrow> in_publish (w_pc w j) \<longrightarrow> i = j)"

text \<open>What one phase does to its own state and to the file.\<close>

definition phase_post :: "mk_pc \<Rightarrow> mk_state \<Rightarrow> mk_pc \<Rightarrow> mk_state \<Rightarrow> bool" where
  "phase_post pc s pc' s' \<longleftrightarrow>
     pc_ok (mk_file s') pc' \<and> key_ok (mk_file s') s'
     \<and> (in_publish pc' \<longrightarrow> in_publish pc \<or> (\<exists>k. pc = ExclOpen k))
     \<and> (mk_file s' = mk_file s \<or> mk_file s = None \<or> (\<exists>k. pc = ExclWrite k \<and> mk_file s = Some []))"

lemma adopt_post:
  assumes "adopt err s = (pc', s')" "key_ok (mk_file s) s"
  shows "phase_post pc s pc' s'"
  using assms(1)
proof (cases rule: adopt_cases)
  case (fails e)
  with assms(2) show ?thesis by (simp add: phase_post_def key_ok_def)
next
  case (adopted k)
  then show ?thesis by (simp add: phase_post_def key_ok_def)
qed

lemma phase_post_start: "mk_phase Start s = (pc', s') \<Longrightarrow> key_ok (mk_file s) s \<Longrightarrow> phase_post Start s pc' s'"
  by (auto simp: phase_post_def key_ok_def split: if_splits prod.splits option.splits dest!: ioD)

lemma phase_post_prepare:
  assumes "mk_phase Prepare s = (pc', s')" "key_ok (mk_file s) s"
  shows "phase_post Prepare s pc' s'"
proof -
  obtain r s1 where 1: "rand_read 32 s = (r, s1)" by fastforce
  obtain f s2 where 2: "io_seq 6 s1 = (f, s2)" by fastforce
  have "mk_key s2 = mk_key s" "mk_file s2 = mk_file s" "mk_key s1 = mk_key s" "mk_file s1 = mk_file s"
    using rand_readD [OF 1] io_seqD [OF 2] by simp_all
  moreover have "r = Some k \<Longrightarrow> length k = 32" for k using rand_readD [OF 1] by simp
  ultimately show ?thesis using assms 1 2
    by (auto simp: phase_post_def key_ok_def split: option.splits bool.splits)
qed

lemma key_ok_congr: "mk_key s' = mk_key s \<Longrightarrow> key_ok f s' = key_ok f s"
  by (simp add: key_ok_def)

lemma phase_post_link:
  assumes run: "mk_phase (Link k) s = (pc', s')" and ok: "key_ok (mk_file s) s" "length k = 32"
  shows "phase_post (Link k) s pc' s'"
proof (cases "mk_nolink s")
  case True
  with assms show ?thesis by (auto simp: phase_post_def)
next
  case False
  obtain f s1 where 1: "io s = (f, s1)" by fastforce
  note s1 = ioD [OF 1]
  show ?thesis
  proof (cases "f \<or> mk_file s \<noteq> None")
    case True
    with run False 1 s1 have "adopt ErrWriteMasterKey s1 = (pc', s')" by auto
    then have "phase_post (Link k) s1 pc' s'" using ok s1 by (intro adopt_post) (simp_all add: key_ok_def)
    then show ?thesis using s1 by (simp add: phase_post_def)
  next
    case False': False
    with run False 1 s1 ok show ?thesis by (auto simp: phase_post_def key_ok_def)
  qed
qed

lemma phase_post_open:
  assumes run: "mk_phase (ExclOpen k) s = (pc', s')" and ok: "key_ok (mk_file s) s" "length k = 32"
  shows "phase_post (ExclOpen k) s pc' s'"
proof -
  obtain f s1 where 1: "io s = (f, s1)" by fastforce
  note s1 = ioD [OF 1]
  show ?thesis
  proof (cases "\<not> f \<and> mk_file s \<noteq> None")
    case True
    with run 1 s1 have "adopt ErrReadMasterKey s1 = (pc', s')" by auto
    then have "phase_post (ExclOpen k) s1 pc' s'" using ok s1 by (intro adopt_post) (simp_all add: key_ok_def)
    then show ?thesis using s1 by (simp add: phase_post_def)
  next
    case False
    with run 1 s1 ok show ?thesis by (auto simp: phase_post_def key_ok_def split: if_splits)
  qed
qed

lemma phase_post_write:
  assumes "mk_phase (ExclWrite k) s = (pc', s')" "key_ok (mk_file s) s" "length k = 32" "mk_file s = Some []"
  shows "phase_post (ExclWrite k) s pc' s'"
proof -
  obtain f s1 where 1: "io s = (f, s1)" by fastforce
  show ?thesis using assms ioD [OF 1] 1 remove_keyD [of s1]
    by (auto simp: phase_post_def key_ok_def split: if_splits)
qed

lemma phase_post_sync:
  assumes "mk_phase (ExclSync k) s = (pc', s')" "key_ok (mk_file s) s" "length k = 32" "mk_file s = Some k"
    "pc' \<noteq> Done (Inl ErrSyncMasterKey)"
  shows "phase_post (ExclSync k) s pc' s'"
proof -
  obtain f s1 where 1: "io s = (f, s1)" by fastforce
  obtain g s2 where 2: "io s1 = (g, s2)" by fastforce
  show ?thesis using assms 1 2 ioD [OF 1] ioD [OF 2]
    by (auto simp: phase_post_def key_ok_def split: if_splits)
qed

lemma phase_post:
  assumes "mk_phase pc s = (pc', s')" "pc_ok (mk_file s) pc" "key_ok (mk_file s) s"
    "pc' \<noteq> Done (Inl ErrSyncMasterKey) \<or> (\<exists>e. pc = Done (Inl e))"
  shows "phase_post pc s pc' s'"
  using assms
  by (cases pc)
    (auto simp: phase_post_start phase_post_prepare phase_post_link phase_post_open phase_post_write
      phase_post_sync simp del: mk_phase.simps(1-6) split: sum.splits, auto simp: phase_post_def)

lemma other_ok:
  assumes "pc_ok f pc" "\<not> in_publish pc" "f = None \<or> f = Some []"
  shows "pc_ok f' pc"
  using assms by (cases "(f, pc)" rule: pc_ok.cases) auto

lemma mk_step_inv:
  assumes "mk_step False w w'" "mk_inv w"
  shows "mk_inv w'"
  using assms(1)
proof (cases rule: mk_step.cases)
  case (phase i pc s)
  have vf: "mk_file (w_view i w) = w_file w" by (simp add: w_view_def)
  have "key_ok (w_file w) (w_view i w)" "pc_ok (w_file w) (w_pc w i)"
    using assms(2) by (simp_all add: mk_inv_def w_view_def key_ok_def)
  then have post: "phase_post (w_pc w i) (w_view i w) pc s"
    using phase(2,4) by (intro phase_post) (simp_all add: vf)
  have others: "pc_ok (mk_file s) (w_pc w j) \<and> key_ok (mk_file s) (w_local w j)" if "j \<noteq> i" for j
  proof -
    have j: "pc_ok (w_file w) (w_pc w j)" "key_ok (w_file w) (w_local w j)"
      using assms(2) by (simp_all add: mk_inv_def)
    consider "mk_file s = w_file w" | "w_file w = None" | k where "w_pc w i = ExclWrite k" "w_file w = Some []"
      using post by (auto simp: phase_post_def vf)
    then show ?thesis
    proof cases
      case 2
      with j have "\<not> in_publish (w_pc w j)" by (cases "w_pc w j") auto
      with 2 j show ?thesis by (auto simp: key_ok_def intro: other_ok)
    next
      case 3
      have "\<not> in_publish (w_pc w j)" using assms(2) 3(1) that by (fastforce simp: mk_inv_def)
      with 3 j show ?thesis by (auto simp: key_ok_def intro: other_ok)
    qed (use j in simp)
  qed
  have uniq: "in_publish pc \<Longrightarrow> j \<noteq> i \<Longrightarrow> \<not> in_publish (w_pc w j)" for j
    using post phase(3) assms(2) by (auto simp: phase_post_def mk_inv_def)
  show ?thesis
    using post others uniq assms(2) unfolding phase(1)
    by (auto simp: mk_inv_def w_put_def phase_post_def)
next
  case (again i r)
  with assms(2) show ?thesis by (auto simp: mk_inv_def)
qed

lemma mk_reach_inv: "mk_reach False w \<Longrightarrow> mk_inv w"
proof (induction rule: mk_reach.induct)
  case (init w)
  then show ?case by (simp add: mk_init_def mk_inv_def key_ok_def)
next
  case (step w w')
  then show ?case by (blast intro: mk_step_inv)
qed


section \<open>The sequential call, continued\<close>

lemma mk_run_Done [simp]: "mk_run n (Done r) s = (Done r, s)"
  by (induction n) auto

fun pc_rank :: "mk_pc \<Rightarrow> nat" where
  "pc_rank Start = 6"
| "pc_rank Prepare = 5"
| "pc_rank (Link _) = 4"
| "pc_rank (ExclOpen _) = 3"
| "pc_rank (ExclWrite _) = 2"
| "pc_rank (ExclSync _) = 1"
| "pc_rank (Done _) = 0"

lemma adopt_rank: "adopt err s = (pc, s') \<Longrightarrow> pc_rank pc = 0"
  by (erule adopt_cases) auto

lemma phase_rank: "mk_phase pc s = (pc', s') \<Longrightarrow> pc_rank pc' \<le> pc_rank pc - 1"
  by (cases pc) (auto split: if_splits prod.splits option.splits bool.splits dest: adopt_rank)

lemma mk_run_finishes:
  assumes "pc_rank pc \<le> n"
  shows "\<exists>r s'. mk_run n pc s = (Done r, s')"
  using assms
proof (induction n arbitrary: pc s)
  case 0
  then show ?case by (cases pc) auto
next
  case (Suc n)
  obtain pc' s1 where p: "mk_phase pc s = (pc', s1)" by fastforce
  with phase_rank [OF p] Suc.prems have "pc_rank pc' \<le> n" by simp
  from Suc.IH [OF this] p show ?case by simp
qed

lemma master_key_run: "master_key s = (r, s') \<longleftrightarrow> mk_run 6 Start s = (Done r, s')"
proof -
  obtain r' s'' where "mk_run 6 Start s = (Done r', s'')"
    using mk_run_finishes [of Start 6 s] by auto
  then show ?thesis by (simp add: master_key_def)
qed

lemma mk_run_ok:
  "mk_run n pc s = (Done (Inr k), s') \<Longrightarrow> pc_ok (mk_file s) pc \<Longrightarrow> key_ok (mk_file s) s \<Longrightarrow>
   length k = 32 \<and> mk_file s' = Some k \<and> key_ok (mk_file s') s'"
proof (induction n arbitrary: pc s)
  case (Suc n)
  obtain pc' s1 where p: "mk_phase pc s = (pc', s1)" by fastforce
  with Suc.prems have r: "mk_run n pc' s1 = (Done (Inr k), s')" by simp
  then have "pc' \<noteq> Done (Inl e)" for e by auto
  then have "phase_post pc s pc' s1" using p Suc.prems by (intro phase_post) auto
  then show ?case using Suc.IH [OF r] by (auto simp: phase_post_def)
qed auto

lemma adopt_key: "adopt err s = (pc, s') \<Longrightarrow> mk_key s' = mk_key s \<or> (\<exists>k. pc = Done (Inr k))"
  by (erule adopt_cases) auto

lemma phase_key:
  "mk_phase pc s = (pc', s') \<Longrightarrow> mk_key s' = mk_key s \<or> (\<exists>k. pc' = Done (Inr k))"
  by (cases pc) (auto split: if_splits prod.splits option.splits bool.splits
      dest!: ioD rand_readD io_seqD adopt_key simp: remove_keyD)

lemma mk_run_key: "mk_run n pc s = (Done (Inl e), s') \<Longrightarrow> mk_key s' = mk_key s"
proof (induction n arbitrary: pc s)
  case (Suc n)
  obtain pc' s1 where p: "mk_phase pc s = (pc', s1)" by fastforce
  with Suc.prems have r: "mk_run n pc' s1 = (Done (Inl e), s')" by simp
  then have "\<not> (\<exists>k. pc' = Done (Inr k))" by auto
  with phase_key [OF p] Suc.IH [OF r] show ?case by simp
qed simp

lemma master_key_cached:
  assumes "key_ok (mk_file s) s" "mk_key s \<noteq> []"
  shows "master_key s = (Inr (mk_key s), s)"
proof -
  have "mk_run 6 Start s = (Done (Inr (mk_key s)), s)"
    using assms by (simp add: key_ok_def eval_nat_numeral)
  then show ?thesis by (simp add: master_key_run)
qed

text \<open>The contract the sealed keystore relies on: a call never breaks the tie between the cached
  key and the file, the key it returns is the one on file, and once a key is on file every
  successful call returns that key.\<close>

lemma master_key_ok:
  assumes "master_key s = (r, s')" "key_ok (mk_file s) s"
  shows "key_ok (mk_file s') s'" "r = Inr k \<Longrightarrow> length k = 32 \<and> mk_file s' = Some k"
proof -
  have run: "mk_run 6 Start s = (Done r, s')" using assms(1) by (simp add: master_key_run)
  show "key_ok (mk_file s') s'"
  proof (cases r)
    case (Inl e)
    then have "mk_key s = []" using master_key_cached [OF assms(2)] assms(1) by auto
    then show ?thesis using mk_run_key [of 6 Start s e s'] run Inl by (simp add: key_ok_def)
  next
    case (Inr k)
    then show ?thesis using mk_run_ok [of 6 Start s k s'] run assms(2) by auto
  qed
  show "r = Inr k \<Longrightarrow> length k = 32 \<and> mk_file s' = Some k"
    using mk_run_ok [of 6 Start s k s'] run assms(2) by simp
qed

lemma master_key_stable:
  assumes "master_key s = (r, s')" "mk_file s = Some K" "length K = 32" "key_ok (mk_file s) s"
  shows "mk_file s' = Some K" "r = Inr k \<Longrightarrow> k = K"
proof -
  have "\<exists>f. mk_phase Start s = (Done (if f then Inl ErrReadMasterKey else Inr K), s')
      \<and> r = (if f then Inl ErrReadMasterKey else Inr K) \<and> mk_file s' = Some K"
  proof (cases "mk_key s = []")
    case True
    obtain f s1 where 1: "io s = (f, s1)" by fastforce
    have "mk_run 6 Start s = (Done r, s')" using assms(1) by (simp add: master_key_run)
    then show ?thesis using True 1 ioD [OF 1] assms(2,3)
      by (intro exI [of _ f]) (auto simp: eval_nat_numeral split: if_splits)
  next
    case False
    with assms master_key_cached [OF assms(4) False] show ?thesis
      by (intro exI [of _ False]) (auto simp: key_ok_def)
  qed
  then show "mk_file s' = Some K" "r = Inr k \<Longrightarrow> k = K" by (auto split: if_splits)
qed

lemma master_key_stable_error:
  assumes "master_key s = (Inl e, s')" "mk_file s = Some K" "length K = 32" "key_ok (mk_file s) s"
  shows "e = ErrReadMasterKey"
proof -
  have "mk_key s = []" using assms(1) master_key_cached [OF assms(4)] by auto
  moreover obtain f s1 where 1: "io s = (f, s1)" by fastforce
  moreover have "mk_run 6 Start s = (Done (Inl e), s')" using assms(1) by (simp add: master_key_run)
  ultimately show ?thesis using ioD [OF 1] assms(2,3)
    by (auto simp: eval_nat_numeral split: if_splits)
qed

section \<open>Where agreement can be lost\<close>

definition blank_local :: "bool \<Rightarrow> char \<Rightarrow> bool list \<Rightarrow> mk_state" where
  "blank_local nolink c fails =
     \<lparr>mk_key = [], mk_file = None, mk_nolink = nolink, mk_rand = [Some (replicate 32 c)], mk_iofail = fails\<rparr>"

definition race_world :: mk_world where
  "race_world = \<lparr>w_file = None,
     w_local = (\<lambda>i. if i = 0 then blank_local True CHR ''a'' (replicate 9 False @ [True])
                    else blank_local True CHR ''b'' []),
     w_pc = (\<lambda>_. Start)\<rparr>"

definition mk_sched :: "nat \<Rightarrow> mk_world \<Rightarrow> mk_world" where
  "mk_sched i w = (case mk_phase (w_pc w i) (w_view i w) of (pc, s) \<Rightarrow> w_put i pc s w)"

fun lock_free :: "bool \<Rightarrow> nat list \<Rightarrow> mk_world \<Rightarrow> bool" where
  "lock_free syncfail [] w = True"
| "lock_free syncfail (i # sched) w =
     ((case w_pc w i of ExclOpen _ \<Rightarrow> \<forall>j. \<not> in_publish (w_pc w j) | _ \<Rightarrow> True)
      \<and> (syncfail \<or> w_pc (mk_sched i w) i \<noteq> Done (Inl ErrSyncMasterKey))
      \<and> lock_free syncfail sched (mk_sched i w))"

lemma mk_sched_reach:
  "mk_reach f w \<Longrightarrow> lock_free f sched w \<Longrightarrow> mk_reach f (fold mk_sched sched w)"
proof (induction sched arbitrary: w)
  case (Cons i sched)
  obtain pc s where p: "mk_phase (w_pc w i) (w_view i w) = (pc, s)" by fastforce
  have "mk_step f w (w_put i pc s w)"
    using p Cons.prems(2)
    by (intro mk_step.phase) (auto simp: mk_sched_def w_put_def split: mk_pc.splits)
  then have "mk_reach f (mk_sched i w)"
    using Cons.prems(1) p by (auto simp: mk_sched_def intro: mk_reach.step)
  with Cons show ?case by simp
qed simp

definition race_sched :: "nat list" where
  "race_sched = [0, 0, 0, 0, 0, 1, 0, 2, 2, 2, 2, 2, 2]"

lemmas race_defs = race_world_def race_sched_def blank_local_def mk_sched_def w_put_def w_view_def io_def
  rand_read_def adopt_def remove_key_def

text \<open>The exception matters: where hard links are refused and the \<open>fsync\<close> after the key was
  written fails, the file is removed although another provider may already have read it. Then
  two providers hold different keys, and what the first has sealed cannot be opened again.\<close>

theorem sync_failure_splits_keys:
  "\<exists>w k k'. mk_reach True w \<and> w_pc w 1 = Done (Inr k) \<and> w_pc w 2 = Done (Inr k') \<and> k \<noteq> k'"
proof -
  have "mk_reach True race_world"
    by (rule mk_reach.init) (simp add: mk_init_def race_world_def blank_local_def)
  moreover have "lock_free True race_sched race_world"
    by (simp add: race_defs eval_nat_numeral)
  ultimately have "mk_reach True (fold mk_sched race_sched race_world)" by (rule mk_sched_reach)
  moreover have "w_pc (fold mk_sched race_sched race_world) 1 = Done (Inr (replicate 32 CHR ''a''))"
    "w_pc (fold mk_sched race_sched race_world) 2 = Done (Inr (replicate 32 CHR ''b''))"
    by (simp_all add: race_defs eval_nat_numeral)
  moreover have "replicate 32 CHR ''a'' \<noteq> replicate 32 CHR ''b''" by (simp add: eval_nat_numeral)
  ultimately show ?thesis by blast
qed

definition two_world :: mk_world where
  "two_world = \<lparr>w_file = None,
     w_local = (\<lambda>i. blank_local False (if i = 0 then CHR ''a'' else CHR ''b'') []),
     w_pc = (\<lambda>_. Start)\<rparr>"


end
