(* ===== verification/Keystore.thy ===== *)
theory Keystore
  imports MasterKey Base64
begin

text \<open>
  Package \<open>internal/crypto\<close>: the \<open>Keystore\<close> interface and its three implementations,
  \<open>MemoryKeystore\<close> and \<open>PlatformKeystore\<close> (\<open>keystore.go\<close>) and \<open>SealedKeystore\<close>
  (\<open>sealed.go\<close>), the atomic file replacement they persist with, and the sealed blobs of
  \<open>blob.go\<close>. AES-256-GCM is the record \<open>gcm\<close> of its two functions; what is assumed of it, that
  opening a sealed text with the same key, nonce and additional data gives the text back, is
  part of the keystore's invariant. The JSON file of the sealed store is the map it encodes.
\<close>

section \<open>The interface\<close>

record 'k keystore_ops =
  ks_store :: "string \<Rightarrow> bytes \<Rightarrow> 'k \<Rightarrow> (ks_error + unit) \<times> 'k"
  ks_fetch :: "string \<Rightarrow> 'k \<Rightarrow> (ks_error + bytes) \<times> 'k"
  ks_delete :: "string \<Rightarrow> 'k \<Rightarrow> (ks_error + unit) \<times> 'k"

text \<open>What a client may rely on: a state has a view, the secrets it holds by alias. An operation
  that reports success has had its effect on the view, one that fails can only have changed
  the alias it was called for, and a fetch returns what the view says.\<close>

locale keystore =
  fixes ks :: "'k keystore_ops"
    and view :: "'k \<Rightarrow> string \<Rightarrow> bytes option"
    and invar :: "'k \<Rightarrow> bool"
  assumes store_invar: "invar k \<Longrightarrow> invar (snd (ks_store ks a s k))"
    and store_ok: "invar k \<Longrightarrow> ks_store ks a s k = (Inr (), k') \<Longrightarrow> view k' = (view k)(a \<mapsto> s)"
    and store_other: "invar k \<Longrightarrow> b \<noteq> a \<Longrightarrow> view (snd (ks_store ks a s k)) b = view k b"
    and fetch_invar: "invar k \<Longrightarrow> invar (snd (ks_fetch ks a k))"
    and fetch_view: "invar k \<Longrightarrow> view (snd (ks_fetch ks a k)) = view k"
    and fetch_ok: "invar k \<Longrightarrow> ks_fetch ks a k = (Inr s, k') \<Longrightarrow> view k a = Some s"
    and fetch_missing: "invar k \<Longrightarrow> fst (ks_fetch ks a k) = Inl ErrKeyNotFound \<longleftrightarrow> view k a = None"
    and delete_invar: "invar k \<Longrightarrow> invar (snd (ks_delete ks a k))"
    and delete_ok: "invar k \<Longrightarrow> ks_delete ks a k = (Inr (), k') \<Longrightarrow> view k' = (view k)(a := None)"
    and delete_other: "invar k \<Longrightarrow> b \<noteq> a \<Longrightarrow> view (snd (ks_delete ks a k)) b = view k b"
begin

lemma fetch_after_store:
  assumes "invar k" "ks_store ks a s k = (Inr (), k')" "ks_fetch ks a k' = (r, k'')"
  shows "r = Inr s \<or> (\<exists>e. r = Inl e \<and> e \<noteq> ErrKeyNotFound)"
proof (cases r)
  case (Inl e)
  have inv: "invar k'" using store_invar [OF assms(1), of a s] assms(2) by simp
  have "view k' a = Some s" using store_ok [OF assms(1,2)] by simp
  then have "fst (ks_fetch ks a k') \<noteq> Inl ErrKeyNotFound" using fetch_missing [OF inv] by simp
  then show ?thesis using Inl assms(3) by auto
next
  case (Inr t)
  have inv: "invar k'" using store_invar [OF assms(1), of a s] assms(2) by simp
  have "view k' a = Some t" using fetch_ok [OF inv] assms(3) Inr by simp
  then show ?thesis using store_ok [OF assms(1,2)] Inr by simp
qed

lemma fetch_after_delete:
  assumes "invar k" "ks_delete ks a k = (Inr (), k')"
  shows "fst (ks_fetch ks a k') = Inl ErrKeyNotFound"
proof -
  have "invar k'" using delete_invar [OF assms(1), of a] assms(2) by simp
  then show ?thesis using fetch_missing delete_ok [OF assms] by simp
qed

end

section \<open>\<open>MemoryKeystore\<close>\<close>

type_synonym memory_keystore = "string \<rightharpoonup> bytes"

definition mem_store :: "string \<Rightarrow> bytes \<Rightarrow> memory_keystore \<Rightarrow> (ks_error + unit) \<times> memory_keystore" where
  "mem_store alias secret m = (Inr (), m(alias \<mapsto> secret))"

definition mem_fetch :: "string \<Rightarrow> memory_keystore \<Rightarrow> (ks_error + bytes) \<times> memory_keystore" where
  "mem_fetch alias m = (case m alias of None \<Rightarrow> Inl ErrKeyNotFound | Some s \<Rightarrow> Inr s, m)"

definition mem_delete :: "string \<Rightarrow> memory_keystore \<Rightarrow> (ks_error + unit) \<times> memory_keystore" where
  "mem_delete alias m = (Inr (), m(alias := None))"

definition memory_ops :: "memory_keystore keystore_ops" where
  "memory_ops = \<lparr>ks_store = mem_store, ks_fetch = mem_fetch, ks_delete = mem_delete\<rparr>"

interpretation memory: keystore memory_ops "\<lambda>m. m" "\<lambda>_. True"
  by unfold_locales
    (auto simp: memory_ops_def mem_store_def mem_fetch_def mem_delete_def split: option.splits)

section \<open>\<open>PlatformKeystore\<close>\<close>

text \<open>The bridge the platform layer registered, if any.\<close>

definition plat_store ::
  "'k keystore_ops option \<Rightarrow> string \<Rightarrow> bytes \<Rightarrow> 'k \<Rightarrow> (ks_error + unit) \<times> 'k" where
  "plat_store br alias secret k =
     (case br of None \<Rightarrow> (Inl ErrNoPlatformKeystore, k) | Some b \<Rightarrow> ks_store b alias secret k)"

definition plat_fetch :: "'k keystore_ops option \<Rightarrow> string \<Rightarrow> 'k \<Rightarrow> (ks_error + bytes) \<times> 'k" where
  "plat_fetch br alias k =
     (case br of None \<Rightarrow> (Inl ErrNoPlatformKeystore, k) | Some b \<Rightarrow> ks_fetch b alias k)"

definition plat_delete :: "'k keystore_ops option \<Rightarrow> string \<Rightarrow> 'k \<Rightarrow> (ks_error + unit) \<times> 'k" where
  "plat_delete br alias k =
     (case br of None \<Rightarrow> (Inl ErrNoPlatformKeystore, k) | Some b \<Rightarrow> ks_delete b alias k)"

definition platform_ops :: "'k keystore_ops option \<Rightarrow> 'k keystore_ops" where
  "platform_ops br = \<lparr>ks_store = plat_store br, ks_fetch = plat_fetch br, ks_delete = plat_delete br\<rparr>"

text \<open>With a bridge registered that is a keystore, the platform keystore is one.\<close>

context keystore
begin

lemma platform_keystore: "keystore (platform_ops (Some ks)) view invar"
proof -
  have eq: "ks_store (platform_ops (Some ks)) = ks_store ks"
    "ks_fetch (platform_ops (Some ks)) = ks_fetch ks"
    "ks_delete (platform_ops (Some ks)) = ks_delete ks"
    by (simp_all add: platform_ops_def plat_store_def plat_fetch_def plat_delete_def fun_eq_iff)
  show ?thesis
    by (rule keystore.intro)
      (simp_all add: eq store_invar store_ok store_other fetch_invar fetch_view fetch_ok
        fetch_missing delete_invar delete_ok delete_other)
qed

end

interpretation platform_memory: keystore "platform_ops (Some memory_ops)" "\<lambda>m. m" "\<lambda>_. True"
  by (rule memory.platform_keystore)

section \<open>Atomic replacement of a file\<close>

datatype rename_result = RenOK | RenBusy | RenFail

definition max_rename_retries :: nat where "max_rename_retries = 6"

text \<open>\<open>renameBusy\<close>: only Windows reports a target held open.\<close>

definition rename_busy :: "bool \<Rightarrow> rename_result \<Rightarrow> bool" where
  "rename_busy windows r \<longleftrightarrow> windows \<and> r = RenBusy"

text \<open>The retry loop, over the results the operating system gives; it returns whether the rename
  took place, the milliseconds slept, and the number of attempts made.\<close>

function rename_publish :: "bool \<Rightarrow> nat \<Rightarrow> rename_result list \<Rightarrow> bool \<times> nat \<times> nat" where
  "rename_publish windows attempt rs =
     (let r = (if rs = [] then RenOK else hd rs)
      in if r = RenOK then (True, 0, 1)
         else if \<not> rename_busy windows r \<or> attempt \<ge> max_rename_retries then (False, 0, 1)
         else (case rename_publish windows (attempt + 1) (tl rs) of
                 (ok, slept, n) \<Rightarrow> (ok, 2 ^ attempt + slept, n + 1)))"
  by pat_completeness auto
termination
  by (relation "measure (\<lambda>(windows, attempt, rs). Suc max_rename_retries - attempt)") auto

declare rename_publish.simps [simp del]

lemma rename_publish_bound:
  "rename_publish windows attempt rs = (ok, slept, n) \<Longrightarrow> attempt \<le> 6 \<Longrightarrow>
   slept + 2 ^ attempt \<le> 64 \<and> n + attempt \<le> 7 \<and> 1 \<le> n"
proof (induction windows attempt rs arbitrary: ok slept n rule: rename_publish.induct)
  case (1 windows attempt rs)
  let ?r = "if rs = [] then RenOK else hd rs"
  have p: "(2::nat) ^ attempt \<le> 64" using power_increasing [of attempt 6 "2::nat"] "1.prems"(2) by simp
  show ?case
  proof (cases "?r = RenOK \<or> \<not> rename_busy windows ?r \<or> attempt \<ge> max_rename_retries")
    case True
    then have "slept = 0 \<and> n = 1"
      using "1.prems"(1) by (subst (asm) rename_publish.simps) (auto simp: Let_def split: if_splits)
    with p "1.prems"(2) show ?thesis by auto
  next
    case False
    obtain ok' sl' n' where r: "rename_publish windows (attempt + 1) (tl rs) = (ok', sl', n')"
      by (metis prod_cases3)
    with False "1.prems"(1) have "slept = 2 ^ attempt + sl'" "n = n' + 1"
      by (subst (asm) rename_publish.simps, auto simp: Let_def split: if_splits)+
    moreover have "attempt + 1 \<le> 6" using False by (simp add: max_rename_retries_def)
    moreover from this have "sl' + 2 ^ (attempt + 1) \<le> 64 \<and> n' + (attempt + 1) \<le> 7 \<and> 1 \<le> n'"
      using "1.IH" [OF refl _ _ r] False by auto
    ultimately show ?thesis by simp
  qed
qed

text \<open>C39. Publishing a file always ends: at most seven renames are tried and at most 63 ms are spent
  waiting, whatever the operating system answers.\<close>

theorem rename_publish_bounded:
  "\<exists>ok slept n. rename_publish windows 0 rs = (ok, slept, n) \<and> slept \<le> 63 \<and> 1 \<le> n \<and> n \<le> 7"
proof -
  obtain ok slept n where r: "rename_publish windows 0 rs = (ok, slept, n)" by (metis prod_cases3)
  with rename_publish_bound [OF r] show ?thesis by auto
qed

section \<open>\<open>SealedKeystore\<close>\<close>

record gcm =
  g_seal :: "bytes \<Rightarrow> bytes \<Rightarrow> bytes \<Rightarrow> bytes \<Rightarrow> bytes"
  g_open :: "bytes \<Rightarrow> bytes \<Rightarrow> bytes \<Rightarrow> bytes \<Rightarrow> bytes option"

definition nonce_size :: nat where "nonce_size = 12"

text \<open>\<open>sk_disk\<close> is the file \<open>credentials.sealed\<close>, \<open>sk_mk\<close> the key provider with the system
  calls and random bytes still to come.\<close>

record sealed =
  sk_mk :: mk_state
  sk_entries :: "string \<rightharpoonup> string"
  sk_disk :: "(string \<rightharpoonup> string) option"
  sk_windows :: bool
  sk_renames :: "rename_result list"
  sk_gcm :: gcm

text \<open>CreateTemp, Chmod, Write, Sync and Close of the temporary file, then the rename.\<close>

definition write_file_atomic :: "sealed \<Rightarrow> bool \<times> sealed" where
  "write_file_atomic ks =
     (case io_seq 5 (sk_mk ks) of
        (True, mk) \<Rightarrow> (False, ks\<lparr>sk_mk := mk\<rparr>)
      | (False, mk) \<Rightarrow>
          (case rename_publish (sk_windows ks) 0 (sk_renames ks) of
             (ok, _, n) \<Rightarrow>
               let ks' = ks\<lparr>sk_mk := mk, sk_renames := drop n (sk_renames ks)\<rparr>
               in if ok then (True, ks'\<lparr>sk_disk := Some (sk_entries ks)\<rparr>) else (False, ks')))"

definition persist_locked :: "sealed \<Rightarrow> (ks_error + unit) \<times> sealed" where
  "persist_locked ks =
     (case io (sk_mk ks) of
        (True, mk) \<Rightarrow> (Inl ErrWriteStore, ks\<lparr>sk_mk := mk\<rparr>)
      | (False, mk) \<Rightarrow>
          (case write_file_atomic (ks\<lparr>sk_mk := mk\<rparr>) of
             (False, ks') \<Rightarrow> (Inl ErrWriteStore, ks')
           | (True, ks') \<Rightarrow> (Inr (), ks')))"

definition sealed_store :: "string \<Rightarrow> bytes \<Rightarrow> sealed \<Rightarrow> (ks_error + unit) \<times> sealed" where
  "sealed_store alias secret ks =
     (case master_key (sk_mk ks) of
        (Inl e, mk) \<Rightarrow> (Inl e, ks\<lparr>sk_mk := mk\<rparr>)
      | (Inr key, mk) \<Rightarrow>
          (case rand_read nonce_size mk of
             (None, mk) \<Rightarrow> (Inl ErrNonce, ks\<lparr>sk_mk := mk\<rparr>)
           | (Some nonce, mk) \<Rightarrow>
               let sealed = nonce @ g_seal (sk_gcm ks) key nonce secret alias
               in persist_locked (ks\<lparr>sk_mk := mk,
                    sk_entries := (sk_entries ks)(alias \<mapsto> b64_encode sealed)\<rparr>)))"

definition sealed_fetch :: "string \<Rightarrow> sealed \<Rightarrow> (ks_error + bytes) \<times> sealed" where
  "sealed_fetch alias ks =
     (case sk_entries ks alias of
        None \<Rightarrow> (Inl ErrKeyNotFound, ks)
      | Some encoded \<Rightarrow>
          (case b64_decode encoded of
             None \<Rightarrow> (Inl ErrCorruptEntry, ks)
           | Some sealed \<Rightarrow>
               (case master_key (sk_mk ks) of
                  (Inl e, mk) \<Rightarrow> (Inl e, ks\<lparr>sk_mk := mk\<rparr>)
                | (Inr key, mk) \<Rightarrow>
                    (if length sealed < nonce_size then Inl ErrCorruptEntry
                     else (case g_open (sk_gcm ks) key (take nonce_size sealed) (drop nonce_size sealed) alias of
                             None \<Rightarrow> Inl ErrUnseal | Some secret \<Rightarrow> Inr secret),
                     ks\<lparr>sk_mk := mk\<rparr>))))"

definition sealed_delete :: "string \<Rightarrow> sealed \<Rightarrow> (ks_error + unit) \<times> sealed" where
  "sealed_delete alias ks =
     (if sk_entries ks alias = None then (Inr (), ks)
      else persist_locked (ks\<lparr>sk_entries := (sk_entries ks)(alias := None)\<rparr>))"

definition sealed_ops :: "sealed keystore_ops" where
  "sealed_ops = \<lparr>ks_store = sealed_store, ks_fetch = sealed_fetch, ks_delete = sealed_delete\<rparr>"

text \<open>\<open>NewSealedKeystoreWithProvider\<close> with a fresh \<open>FileKeyProvider\<close>: a restart of the app.\<close>

definition reopen :: "sealed \<Rightarrow> (ks_error + sealed) " where
  "reopen ks =
     (case io (sk_mk ks) of
        (f, mk) \<Rightarrow>
          (case sk_disk ks of
             None \<Rightarrow> if f then Inl ErrWriteStore else Inr (ks\<lparr>sk_mk := mk\<lparr>mk_key := []\<rparr>, sk_entries := Map.empty\<rparr>)
           | Some m \<Rightarrow> if f then Inl ErrWriteStore else Inr (ks\<lparr>sk_mk := mk\<lparr>mk_key := []\<rparr>, sk_entries := m\<rparr>)))"

section \<open>Sealed blobs\<close>

definition seal_blob :: "gcm \<Rightarrow> bytes \<Rightarrow> bytes \<Rightarrow> string \<Rightarrow> mk_state \<Rightarrow> (ks_error + bytes) \<times> mk_state" where
  "seal_blob g key plaintext ctx s =
     (case rand_read nonce_size s of
        (None, s') \<Rightarrow> (Inl ErrNonce, s')
      | (Some nonce, s') \<Rightarrow> (Inr (nonce @ g_seal g key nonce plaintext ctx), s'))"

definition open_blob :: "gcm \<Rightarrow> bytes \<Rightarrow> bytes \<Rightarrow> string \<Rightarrow> ks_error + bytes" where
  "open_blob g key sealed ctx =
     (if length sealed < nonce_size then Inl ErrCorruptEntry
      else (case g_open g key (take nonce_size sealed) (drop nonce_size sealed) ctx of
              None \<Rightarrow> Inl ErrUnseal | Some p \<Rightarrow> Inr p))"

section \<open>The sealed keystore is a keystore\<close>

definition gcm_correct :: "gcm \<Rightarrow> bool" where
  "gcm_correct g \<longleftrightarrow> (\<forall>key nonce pt ad. length key = 32 \<longrightarrow> length nonce = nonce_size \<longrightarrow>
     g_open g key nonce (g_seal g key nonce pt ad) ad = Some pt)"

text \<open>An entry as \<open>Store\<close> writes it, under the key on file.\<close>

definition entry_ok :: "gcm \<Rightarrow> bytes option \<Rightarrow> string \<Rightarrow> string \<Rightarrow> bytes \<Rightarrow> bool" where
  "entry_ok g keyfile alias enc secret \<longleftrightarrow>
     (\<exists>K nonce. keyfile = Some K \<and> length K = 32 \<and> length nonce = nonce_size
        \<and> enc = b64_encode (nonce @ g_seal g K nonce secret alias))"

definition entries_ok :: "gcm \<Rightarrow> bytes option \<Rightarrow> (string \<rightharpoonup> string) \<Rightarrow> bool" where
  "entries_ok g keyfile es \<longleftrightarrow> (\<forall>a enc. es a = Some enc \<longrightarrow> (\<exists>s. entry_ok g keyfile a enc s))"

definition sealed_inv :: "sealed \<Rightarrow> bool" where
  "sealed_inv ks \<longleftrightarrow> gcm_correct (sk_gcm ks) \<and> key_ok (mk_file (sk_mk ks)) (sk_mk ks)
     \<and> entries_ok (sk_gcm ks) (mk_file (sk_mk ks)) (sk_entries ks)
     \<and> (\<forall>m. sk_disk ks = Some m \<longrightarrow> entries_ok (sk_gcm ks) (mk_file (sk_mk ks)) m)"

definition unseal :: "gcm \<Rightarrow> bytes \<Rightarrow> string \<Rightarrow> string \<Rightarrow> bytes option" where
  "unseal g key alias enc =
     (case b64_decode enc of None \<Rightarrow> None
      | Some sealed \<Rightarrow> g_open g key (take nonce_size sealed) (drop nonce_size sealed) alias)"

definition sealed_view :: "sealed \<Rightarrow> string \<Rightarrow> bytes option" where
  "sealed_view ks alias =
     Option.bind (sk_entries ks alias) (unseal (sk_gcm ks) (the (mk_file (sk_mk ks))) alias)"

lemma unseal_entry:
  "gcm_correct g \<Longrightarrow> entry_ok g (Some K) a enc s \<Longrightarrow> unseal g K a enc = Some s"
  by (auto simp: gcm_correct_def entry_ok_def unseal_def nonce_size_def)

lemma entry_key:
  assumes "entries_ok g keyfile es" "es a = Some enc"
  obtains K s where "keyfile = Some K" "length K = 32" "entry_ok g (Some K) a enc s"
proof -
  from assms obtain s where e: "entry_ok g keyfile a enc s" unfolding entries_ok_def by blast
  then obtain K where "keyfile = Some K" "length K = 32" unfolding entry_ok_def by blast
  with e that show thesis by blast
qed

lemma persist_locked_cases:
  assumes "persist_locked ks = (r, ks')"
  shows "mk_file (sk_mk ks') = mk_file (sk_mk ks)" "mk_key (sk_mk ks') = mk_key (sk_mk ks)"
    "sk_entries ks' = sk_entries ks" "sk_gcm ks' = sk_gcm ks"
    "sk_disk ks' = (case r of Inl _ \<Rightarrow> sk_disk ks | Inr _ \<Rightarrow> Some (sk_entries ks))"
proof -
  obtain f mk where 1: "io (sk_mk ks) = (f, mk)" by fastforce
  obtain g mk' where 2: "io_seq 5 mk = (g, mk')" by fastforce
  obtain ok sl n where 3: "rename_publish (sk_windows ks) 0 (sk_renames ks) = (ok, sl, n)" by (metis prod_cases3)
  show "mk_file (sk_mk ks') = mk_file (sk_mk ks)" "mk_key (sk_mk ks') = mk_key (sk_mk ks)"
    "sk_entries ks' = sk_entries ks" "sk_gcm ks' = sk_gcm ks"
    "sk_disk ks' = (case r of Inl _ \<Rightarrow> sk_disk ks | Inr _ \<Rightarrow> Some (sk_entries ks))"
    using assms 1 2 3 ioD [OF 1] io_seqD [OF 2]
    by (auto simp: persist_locked_def write_file_atomic_def Let_def split: bool.splits if_splits)
qed

lemma sealed_inv_persist:
  assumes "persist_locked ks = (r, ks')" "sealed_inv ks"
  shows "sealed_inv ks'" "sealed_view ks' = sealed_view ks"
proof -
  note eqs = persist_locked_cases(1-4) [OF assms(1)]
  show "sealed_inv ks'" unfolding sealed_inv_def key_ok_def eqs
    using assms(2) persist_locked_cases(5) [OF assms(1)]
    by (auto simp: sealed_inv_def key_ok_def split: sum.splits)
  show "sealed_view ks' = sealed_view ks"
    by (rule ext) (simp only: sealed_view_def eqs)
qed

text \<open>A call of the provider leaves every sealed entry readable.\<close>

lemma entries_ok_master_key:
  assumes "master_key s = (r, s')" "key_ok (mk_file s) s" "entries_ok g (mk_file s) es"
  shows "entries_ok g (mk_file s') es"
proof (cases "\<exists>a enc. es a = Some enc")
  case True
  then obtain K where "mk_file s = Some K" "length K = 32"
    using assms(3) by (auto simp: entries_ok_def entry_ok_def)
  then show ?thesis using master_key_stable [OF assms(1) _ _ assms(2)] assms(3) by simp
next
  case False
  then show ?thesis by (simp add: entries_ok_def)
qed

lemma sealed_inv_master_key:
  assumes "master_key (sk_mk ks) = (r, mk)" "sealed_inv ks"
  shows "sealed_inv (ks\<lparr>sk_mk := mk\<rparr>)" "sealed_view (ks\<lparr>sk_mk := mk\<rparr>) = sealed_view ks"
proof -
  have k: "key_ok (mk_file (sk_mk ks)) (sk_mk ks)" using assms(2) by (simp add: sealed_inv_def)
  show "sealed_inv (ks\<lparr>sk_mk := mk\<rparr>)"
    using assms(2) master_key_ok(1) [OF assms(1) k] entries_ok_master_key [OF assms(1) k]
    by (auto simp: sealed_inv_def)
  show "sealed_view (ks\<lparr>sk_mk := mk\<rparr>) = sealed_view ks"
  proof
    fix a
    show "sealed_view (ks\<lparr>sk_mk := mk\<rparr>) a = sealed_view ks a"
    proof (cases "sk_entries ks a")
      case (Some enc)
      then obtain K where "mk_file (sk_mk ks) = Some K" "length K = 32"
        using assms(2) entry_key unfolding sealed_inv_def by blast
      then show ?thesis using master_key_stable [OF assms(1) _ _ k] by (simp add: sealed_view_def)
    qed (simp add: sealed_view_def)
  qed
qed

lemma rand_read_keeps:
  "rand_read n s = (r, s') \<Longrightarrow> mk_file s' = mk_file s" "rand_read n s = (r, s') \<Longrightarrow> mk_key s' = mk_key s"
  by (auto dest: rand_readD)

lemma sealed_inv_rand:
  assumes "rand_read n (sk_mk ks) = (r, mk)" "sealed_inv ks"
  shows "sealed_inv (ks\<lparr>sk_mk := mk\<rparr>)" "sealed_view (ks\<lparr>sk_mk := mk\<rparr>) = sealed_view ks"
  using assms(2) rand_read_keeps [OF assms(1)]
  by (simp_all add: sealed_inv_def key_ok_def sealed_view_def fun_eq_iff)

text \<open>The four outcomes of \<open>Store\<close>, with the state \<open>mid\<close> it persists.\<close>

lemma sealed_store_cases:
  assumes inv: "sealed_inv ks" and run: "sealed_store a s ks = (r, ks')"
  obtains (early) e where "r = Inl e" "sealed_inv ks'" "sealed_view ks' = sealed_view ks"
  | (persisted) mid where "persist_locked mid = (r, ks')" "sealed_inv mid"
      "sealed_view mid = (sealed_view ks)(a \<mapsto> s)"
proof -
  obtain rk mk where 1: "master_key (sk_mk ks) = (rk, mk)" by fastforce
  note m = sealed_inv_master_key [OF 1 inv]
  show thesis
  proof (cases rk)
    case (Inl e)
    with run 1 m early show thesis by (auto simp: sealed_store_def)
  next
    case (Inr key)
    obtain rn mk' where 2: "rand_read nonce_size mk = (rn, mk')" by fastforce
    let ?ks = "ks\<lparr>sk_mk := mk'\<rparr>"
    have i2: "sealed_inv ?ks" "sealed_view ?ks = sealed_view ks"
      using sealed_inv_rand [of nonce_size "ks\<lparr>sk_mk := mk\<rparr>" rn mk'] 2 m by simp_all
    show thesis
    proof (cases rn)
      case None
      with run 1 2 Inr i2 early show thesis by (auto simp: sealed_store_def)
    next
      case (Some nonce)
      let ?enc = "b64_encode (nonce @ g_seal (sk_gcm ks) key nonce s a)"
      let ?mid = "ks\<lparr>sk_mk := mk', sk_entries := (sk_entries ks)(a \<mapsto> ?enc)\<rparr>"
      have k: "length key = 32" "mk_file mk' = Some key"
        using master_key_ok(2) [OF 1 _ Inr] inv rand_read_keeps(1) [OF 2] by (simp_all add: sealed_inv_def)
      have n: "length nonce = nonce_size" using rand_readD [OF 2] Some by simp
      have e: "entry_ok (sk_gcm ks) (Some key) a ?enc s" using k n by (auto simp: entry_ok_def)
      have "sealed_inv ?mid" using i2(1) e k by (auto simp: sealed_inv_def entries_ok_def)
      moreover have "sealed_view ?mid = (sealed_view ks)(a \<mapsto> s)"
      proof
        fix b
        have "gcm_correct (sk_gcm ks)" using inv by (simp add: sealed_inv_def)
        with fun_cong [OF i2(2), of b] show "sealed_view ?mid b = ((sealed_view ks)(a \<mapsto> s)) b"
          by (auto simp: sealed_view_def k unseal_entry [OF _ e])
      qed
      moreover have "persist_locked ?mid = (r, ks')"
        using run 1 2 Inr Some by (simp add: sealed_store_def Let_def)
      ultimately show thesis by (rule persisted [rotated 1])
    qed
  qed
qed

lemma sealed_fetch_facts:
  assumes inv: "sealed_inv ks" and run: "sealed_fetch a ks = (r, ks')"
  shows "sealed_inv ks'" "sealed_view ks' = sealed_view ks" "r = Inr s \<Longrightarrow> sealed_view ks a = Some s"
    "r = Inl ErrKeyNotFound \<longleftrightarrow> sealed_view ks a = None"
proof -
  have "sealed_inv ks' \<and> sealed_view ks' = sealed_view ks \<and> (\<forall>s. r = Inr s \<longrightarrow> sealed_view ks a = Some s)
    \<and> (r = Inl ErrKeyNotFound \<longleftrightarrow> sealed_view ks a = None)"
  proof (cases "sk_entries ks a")
    case None
    with run inv show ?thesis by (auto simp: sealed_fetch_def sealed_view_def)
  next
    case (Some enc)
    have "entries_ok (sk_gcm ks) (mk_file (sk_mk ks)) (sk_entries ks)" "gcm_correct (sk_gcm ks)"
      using inv by (simp_all add: sealed_inv_def)
    from entry_key [OF this(1) Some] this(2) obtain K t where K: "mk_file (sk_mk ks) = Some K" "length K = 32"
      and e: "entry_ok (sk_gcm ks) (Some K) a enc t" and u: "unseal (sk_gcm ks) K a enc = Some t"
      by (metis unseal_entry)
    have v: "sealed_view ks a = Some t" by (simp add: sealed_view_def Some K u)
    obtain sealed where d: "b64_decode enc = Some sealed" "\<not> length sealed < nonce_size"
      using e by (auto simp: entry_ok_def)
    obtain rk mk where 1: "master_key (sk_mk ks) = (rk, mk)" by fastforce
    note m = sealed_inv_master_key [OF 1 inv]
    have "rk \<noteq> Inl ErrKeyNotFound"
      using master_key_stable_error [of "sk_mk ks" _ mk K] 1 K inv by (auto simp: sealed_inv_def)
    moreover have "rk = Inr k \<Longrightarrow> k = K" for k
      using master_key_stable(2) [OF 1 K] inv by (simp add: sealed_inv_def)
    ultimately show ?thesis using run Some d 1 m v u
      by (cases rk) (auto simp: sealed_fetch_def unseal_def)
  qed
  then show "sealed_inv ks'" "sealed_view ks' = sealed_view ks" "r = Inr s \<Longrightarrow> sealed_view ks a = Some s"
    "r = Inl ErrKeyNotFound \<longleftrightarrow> sealed_view ks a = None" by blast+
qed

lemma sealed_delete_facts:
  assumes inv: "sealed_inv ks" and run: "sealed_delete a ks = (r, ks')"
  shows "sealed_inv ks'" "sealed_view ks' = (sealed_view ks)(a := None)"
proof -
  let ?mid = "ks\<lparr>sk_entries := (sk_entries ks)(a := None)\<rparr>"
  have mid: "sealed_inv ?mid" "sealed_view ?mid = (sealed_view ks)(a := None)"
    using inv by (auto simp: sealed_inv_def entries_ok_def sealed_view_def fun_eq_iff)
  have "sealed_inv ks' \<and> sealed_view ks' = (sealed_view ks)(a := None)"
  proof (cases "sk_entries ks a")
    case None
    with run inv show ?thesis by (auto simp: sealed_delete_def sealed_view_def)
  next
    case (Some enc)
    with run have "persist_locked ?mid = (r, ks')" by (simp add: sealed_delete_def)
    from sealed_inv_persist [OF this mid(1)] mid(2) show ?thesis by simp
  qed
  then show "sealed_inv ks'" "sealed_view ks' = (sealed_view ks)(a := None)" by blast+
qed

lemma sealed_store_facts:
  assumes inv: "sealed_inv ks" and run: "sealed_store a s ks = (r, ks')"
  shows "sealed_inv ks'" "r = Inr () \<Longrightarrow> sealed_view ks' = (sealed_view ks)(a \<mapsto> s)"
    "b \<noteq> a \<Longrightarrow> sealed_view ks' b = sealed_view ks b"
proof -
  have "sealed_inv ks' \<and> (r = Inr () \<longrightarrow> sealed_view ks' = (sealed_view ks)(a \<mapsto> s))
    \<and> (b \<noteq> a \<longrightarrow> sealed_view ks' b = sealed_view ks b)"
    using inv run
  proof (cases rule: sealed_store_cases)
    case (persisted mid)
    from sealed_inv_persist [OF persisted(1,2)] persisted(3) show ?thesis by simp
  qed simp
  then show "sealed_inv ks'" "r = Inr () \<Longrightarrow> sealed_view ks' = (sealed_view ks)(a \<mapsto> s)"
    "b \<noteq> a \<Longrightarrow> sealed_view ks' b = sealed_view ks b" by blast+
qed

interpretation sealed: keystore sealed_ops sealed_view sealed_inv
proof (unfold_locales, goal_cases)
  case (1 k a s)
  then show ?case using sealed_store_facts(1) by (metis sealed_ops_def keystore_ops.select_convs(1) prod.collapse)
next
  case (2 k a s k')
  then show ?case using sealed_store_facts(2) by (simp add: sealed_ops_def)
next
  case (3 k b a s)
  then show ?case using sealed_store_facts(3) by (metis sealed_ops_def keystore_ops.select_convs(1) prod.collapse)
next
  case (4 k a)
  then show ?case using sealed_fetch_facts(1) by (metis sealed_ops_def keystore_ops.select_convs(2) prod.collapse)
next
  case (5 k a)
  then show ?case using sealed_fetch_facts(2) by (metis sealed_ops_def keystore_ops.select_convs(2) prod.collapse)
next
  case (6 k a s k')
  then show ?case using sealed_fetch_facts(3) by (simp add: sealed_ops_def)
next
  case (7 k a)
  then show ?case using sealed_fetch_facts(4) by (metis sealed_ops_def keystore_ops.select_convs(2) prod.collapse)
next
  case (8 k a)
  then show ?case using sealed_delete_facts(1) by (metis sealed_ops_def keystore_ops.select_convs(3) prod.collapse)
next
  case (9 k a k')
  then show ?case using sealed_delete_facts(2) by (simp add: sealed_ops_def)
next
  case (10 k b a)
  then show ?case using sealed_delete_facts(2)
    by (metis sealed_ops_def keystore_ops.select_convs(3) prod.collapse fun_upd_other)
qed

section \<open>Properties\<close>

lemma reopen_inv:
  assumes "sealed_inv ks" "reopen ks = Inr ks'"
  shows "sealed_inv ks'" "mk_file (sk_mk ks') = mk_file (sk_mk ks)" "sk_gcm ks' = sk_gcm ks"
    "sk_entries ks' = (case sk_disk ks of None \<Rightarrow> Map.empty | Some m \<Rightarrow> m)"
proof -
  obtain f mk where 1: "io (sk_mk ks) = (f, mk)" by fastforce
  show "sealed_inv ks'" "mk_file (sk_mk ks') = mk_file (sk_mk ks)" "sk_gcm ks' = sk_gcm ks"
    "sk_entries ks' = (case sk_disk ks of None \<Rightarrow> Map.empty | Some m \<Rightarrow> m)"
    using assms 1 ioD [OF 1]
    by (auto simp: reopen_def sealed_inv_def key_ok_def entries_ok_def split: option.splits if_splits)
qed

text \<open>C11. A secret whose \<open>Store\<close> reported success is on disk and survives a restart: the keystore
  opened from the file afterwards holds exactly the secrets of before with the new one added,
  and fetching it gives the secret back or fails to read the key file, never anything else.\<close>

theorem sealed_store_survives_restart:
  assumes inv: "sealed_inv ks" and st: "sealed_store alias secret ks = (Inr (), ks')"
    and re: "reopen ks' = Inr ks2"
  shows "sealed_view ks2 = (sealed_view ks)(alias \<mapsto> secret)
    \<and> fst (sealed_fetch alias ks2) \<in> {Inr secret, Inl ErrReadMasterKey}"
proof -
  have inv': "sealed_inv ks'" and v': "sealed_view ks' = (sealed_view ks)(alias \<mapsto> secret)"
    using sealed_store_facts [OF inv st] by simp_all
  have disk: "sk_disk ks' = Some (sk_entries ks')"
    using inv st
  proof (cases rule: sealed_store_cases)
    case (persisted mid)
    from persist_locked_cases(3,5) [OF persisted(1)] show ?thesis by simp
  qed simp
  note r = reopen_inv [OF inv' re]
  have v2: "sealed_view ks2 = sealed_view ks'" using r disk by (auto simp: sealed_view_def fun_eq_iff)
  obtain res ks3 where f: "sealed_fetch alias ks2 = (res, ks3)" by fastforce
  have ok: "res = Inr s \<Longrightarrow> s = secret" for s
    using sealed_fetch_facts(3) [OF r(1) f] v2 v' by simp
  have "res = Inl e \<Longrightarrow> e = ErrReadMasterKey" for e
  proof -
    assume e: "res = Inl e"
    have "sealed_view ks2 alias = Some secret" using v2 v' by simp
    then obtain enc where enc: "sk_entries ks2 alias = Some enc" by (auto simp: sealed_view_def bind_eq_Some_conv)
    have "entries_ok (sk_gcm ks2) (mk_file (sk_mk ks2)) (sk_entries ks2)" "gcm_correct (sk_gcm ks2)"
      using r(1) by (simp_all add: sealed_inv_def)
    from entry_key [OF this(1) enc] this(2) obtain K t where K: "mk_file (sk_mk ks2) = Some K" "length K = 32"
      and eo: "entry_ok (sk_gcm ks2) (Some K) alias enc t" and u: "unseal (sk_gcm ks2) K alias enc = Some t"
      by (metis unseal_entry)
    obtain sealed where d: "b64_decode enc = Some sealed" "\<not> length sealed < nonce_size"
      using eo by (auto simp: entry_ok_def)
    have key: "key_ok (mk_file (sk_mk ks2)) (sk_mk ks2)" using r(1) by (simp add: sealed_inv_def)
    obtain rk mk where 1: "master_key (sk_mk ks2) = (rk, mk)" by fastforce
    show "e = ErrReadMasterKey"
    proof (cases rk)
      case (Inl e')
      then have "e' = ErrReadMasterKey" using master_key_stable_error [of "sk_mk ks2" e' mk K] 1 K key by simp
      with f e enc d 1 Inl show ?thesis by (simp add: sealed_fetch_def)
    next
      case (Inr k)
      with master_key_stable(2) [OF 1 K key] have "k = K" by simp
      with f e enc d 1 Inr u show ?thesis by (auto simp: sealed_fetch_def unseal_def)
    qed
  qed
  with ok v2 v' f show ?thesis by (cases res) auto
qed

text \<open>A settings blob opens to what was sealed under the same key and context label.\<close>

theorem blob_round_trip:
  assumes "gcm_correct g" "length key = 32" "seal_blob g key plaintext ctx s = (Inr sealed, s')"
  shows "open_blob g key sealed ctx = Inr plaintext"
proof -
  obtain rn mk where 1: "rand_read nonce_size s = (rn, mk)" by fastforce
  then show ?thesis using assms rand_readD [OF 1]
    by (cases rn) (auto simp: seal_blob_def open_blob_def gcm_correct_def)
qed

text \<open>Every implementation of the keystore interface returns what was stored: for the in-memory
  store, and for the platform store over a registered bridge, exactly; without a bridge every
  operation is refused and nothing changes.\<close>

theorem memory_platform_round_trip:
  "fst (ks_fetch (platform_ops (Some memory_ops)) alias
     (snd (ks_store (platform_ops (Some memory_ops)) alias secret m))) = Inr secret
   \<and> fst (ks_fetch memory_ops alias (snd (ks_delete memory_ops alias m))) = Inl ErrKeyNotFound
   \<and> ks_store (platform_ops None) alias secret m = (Inl ErrNoPlatformKeystore, m)
   \<and> ks_fetch (platform_ops None) alias m = (Inl ErrNoPlatformKeystore, m)
   \<and> ks_delete (platform_ops None) alias m = (Inl ErrNoPlatformKeystore, m)"
proof -
  have "ks_delete memory_ops alias m = (Inr (), m(alias := None))"
    by (simp add: memory_ops_def mem_delete_def)
  from memory.fetch_after_delete [OF _ this]
  have "fst (ks_fetch memory_ops alias (m(alias := None))) = Inl ErrKeyNotFound" by simp
  then show ?thesis
    by (simp add: platform_ops_def plat_store_def plat_fetch_def plat_delete_def memory_ops_def
        mem_store_def mem_fetch_def mem_delete_def)
qed

section \<open>Witnesses\<close>

definition toy_gcm :: gcm where
  "toy_gcm = \<lparr>g_seal = (\<lambda>key nonce pt ad. pt @ ad),
     g_open = (\<lambda>key nonce ct ad. if has_suffix ad ct then Some (take (length ct - length ad) ct) else None)\<rparr>"

lemma toy_gcm_correct: "gcm_correct toy_gcm"
  by (simp add: gcm_correct_def toy_gcm_def)

definition toy_sealed :: sealed where
  "toy_sealed = \<lparr>sk_mk = blank_local False CHR ''k'' [], sk_entries = Map.empty, sk_disk = None,
     sk_windows = False, sk_renames = [], sk_gcm = toy_gcm\<rparr>"

lemma toy_sealed_inv: "sealed_inv toy_sealed"
  by (simp add: sealed_inv_def toy_sealed_def toy_gcm_correct key_ok_def blank_local_def entries_ok_def)

theorem sealed_store_survives_restart_witness:
  "\<exists>ks' ks2. sealed_store ''a'' ''pw'' toy_sealed = (Inr (), ks') \<and> reopen ks' = Inr ks2
     \<and> sealed_view ks2 ''a'' = Some ''pw''"
proof -
  have f: "fst (sealed_store ''a'' ''pw'' toy_sealed) = Inr ()"
    and io: "mk_iofail (sk_mk (snd (sealed_store ''a'' ''pw'' toy_sealed))) = []"
    and dk: "sk_disk (snd (sealed_store ''a'' ''pw'' toy_sealed)) \<noteq> None"
    by (simp_all add: sealed_store_def toy_sealed_def blank_local_def master_key_def io_def rand_read_def
        persist_locked_def write_file_atomic_def rename_publish.simps Let_def eval_nat_numeral)
  define ks' where "ks' = snd (sealed_store ''a'' ''pw'' toy_sealed)"
  have st: "sealed_store ''a'' ''pw'' toy_sealed = (Inr (), ks')" using f by (metis ks'_def prod.collapse)
  obtain ks2 where re: "reopen ks' = Inr ks2"
    using io dk by (auto simp: reopen_def io_def ks'_def split: option.splits)
  from sealed_store_survives_restart [OF toy_sealed_inv st re] st re show ?thesis by auto
qed

theorem blob_round_trip_witness:
  "\<exists>b s'. seal_blob toy_gcm (replicate 32 CHR ''k'') ''data'' ''ctx'' (blank_local False CHR ''n'' []) = (Inr b, s')
     \<and> open_blob toy_gcm (replicate 32 CHR ''k'') b ''ctx'' = Inr ''data''"
proof -
  obtain b s' where s: "seal_blob toy_gcm (replicate 32 CHR ''k'') ''data'' ''ctx''
      (blank_local False CHR ''n'' []) = (Inr b, s')"
    by (simp add: seal_blob_def rand_read_def blank_local_def)
  from blob_round_trip [OF toy_gcm_correct _ s] s show ?thesis by auto
qed

end
