(* ===== verification/Store.thy ===== *)
theory Store
  imports GoPrelude "HOL-Library.List_Lexorder" "HOL-Library.Product_Lexorder"
begin

text \<open>
  Package \<open>internal/store\<close>: the SQLite tables of \<open>schema.go\<close> and the statements on
  accounts, folders, settings and PGP keys (\<open>accounts.go\<close>, \<open>folders.go\<close>,
  \<open>settings.go\<close>, \<open>intelligence.go\<close>), with the migration loop.

  A table is the list of its rows in rowid order; a nullable TEXT column that is read
  through \<open>COALESCE(c,'')\<close> holds the empty string for NULL. A fresh INTEGER PRIMARY KEY
  is one more than the largest in use. Every statement may be refused by the driver:
  \<open>db_faults\<close> is the schedule of those refusals, one entry per statement, and a theorem
  about all databases is a theorem about all schedules. A refused statement leaves the
  tables as they were.
\<close>

section \<open>Rows\<close>

record account =
  a_ID :: int
  a_DisplayName :: string
  a_EmailAddress :: string
  a_IMAPHost :: string
  a_IMAPPort :: int
  a_IMAPTLS :: string
  a_SMTPHost :: string
  a_SMTPPort :: int
  a_SMTPTLS :: string
  a_Username :: string
  a_KeystoreAlias :: string
  a_CreatedAt :: int
  a_PinnedSPKI :: string
  a_AuthMech :: string

record folder =
  f_ID :: int
  f_AccountID :: int
  f_Name :: string
  f_FullName :: string
  f_Delimiter :: string
  f_UIDValidity :: nat
  f_HighestModSeq :: nat
  f_IsInbox :: bool
  f_IsSent :: bool
  f_IsDrafts :: bool
  f_IsTrash :: bool
  f_IsArchive :: bool

record message =
  m_ID :: int
  m_AccountID :: int
  m_FolderID :: int
  m_UID :: nat
  m_ThreadID :: string
  m_MessageID :: string
  m_InReplyTo :: string
  m_FromAddr :: string
  m_FromName :: string
  m_ToAddrs :: string
  m_CcAddrs :: string
  m_Subject :: string
  m_Snippet :: string
  m_BodyText :: string
  m_BodyHTML :: string
  m_HasAttachments :: bool
  m_PGPStatus :: string
  m_PGPSigVerified :: bool
  m_IsRead :: bool
  m_IsFlagged :: bool
  m_IsDeleted :: bool
  m_Date :: int
  m_SizeBytes :: int
  m_Flags :: string
  m_HasTrackers :: bool
  m_IsList :: bool
  m_ListUnsubscribe :: string
  m_SnoozeUntil :: int
  m_Attachments :: string

record outbox_entry =
  o_ID :: int
  o_AccountID :: int
  o_RawMessage :: bytes
  o_RetryCount :: int
  o_MaxRetries :: int
  o_NextAttempt :: int
  o_LastError :: string
  o_QueuedAt :: int

record pgp_key =
  k_ID :: int
  k_Fingerprint :: string
  k_Email :: string
  k_Armored :: string
  k_IsPrivate :: bool
  k_TrustLevel :: int
  k_AddedAt :: int

text \<open>\<open>db_applied\<close> lists the migrations that have run, \<open>db_version\<close> is the table
  \<open>schema_version\<close>.\<close>

record db =
  db_accounts :: "account list"
  db_folders :: "folder list"
  db_messages :: "message list"
  db_outbox :: "outbox_entry list"
  db_settings :: "(string \<times> string) list"
  db_pgp_keys :: "pgp_key list"
  db_version :: "int list"
  db_applied :: "nat list"
  db_faults :: "bool list"

datatype store_error = ErrNotFound | ErrConstraint | ErrSQL

definition empty_db :: db where
  "empty_db = \<lparr>db_accounts = [], db_folders = [], db_messages = [], db_outbox = [],
     db_settings = [], db_pgp_keys = [], db_version = [], db_applied = [], db_faults = []\<rparr>"

text \<open>\<open>time.Time{}.Unix()\<close>, the value \<open>IsZero\<close> recognises.\<close>

definition zero_time :: int where "zero_time = -62135596800"

section \<open>Statements\<close>

text \<open>One statement: refused by the driver, rejected by a constraint, or run.\<close>

definition sql :: "(db \<Rightarrow> store_error + 'a \<times> db) \<Rightarrow> db \<Rightarrow> (store_error + 'a) \<times> db" where
  "sql stmt d =
     (let d' = d\<lparr>db_faults := tl (db_faults d)\<rparr>
      in if db_faults d \<noteq> [] \<and> hd (db_faults d) then (Inl ErrSQL, d')
         else (case stmt d' of Inl e \<Rightarrow> (Inl e, d') | Inr (a, d'') \<Rightarrow> (Inr a, d'')))"

text \<open>\<open>DB.tx\<close>: the tables are those of before unless the body and the commit succeed.\<close>

definition rollback_to :: "db \<Rightarrow> db \<Rightarrow> db" where
  "rollback_to d d' = d\<lparr>db_faults := db_faults d'\<rparr>"

definition sql_tx :: "(db \<Rightarrow> (store_error + 'a) \<times> db) \<Rightarrow> db \<Rightarrow> (store_error + 'a) \<times> db" where
  "sql_tx body d =
     (case sql (\<lambda>d. Inr ((), d)) d of
        (Inl e, d1) \<Rightarrow> (Inl e, d1)
      | (Inr _, d1) \<Rightarrow>
          (case body d1 of
             (Inl e, d2) \<Rightarrow> (Inl e, rollback_to d1 d2)
           | (Inr a, d2) \<Rightarrow>
               (case sql (\<lambda>d. Inr ((), d)) d2 of
                  (Inl e, d3) \<Rightarrow> (Inl e, rollback_to d1 d3)
                | (Inr _, d3) \<Rightarrow> (Inr a, d3))))"

definition new_id :: "int list \<Rightarrow> int" where
  "new_id ids = (if ids = [] then 1 else Max (set ids) + 1)"

definition sql_page :: "int \<Rightarrow> int \<Rightarrow> 'a list \<Rightarrow> 'a list" where
  "sql_page offset limit xs =
     (let ys = drop (nat offset) xs in if limit < 0 then ys else take (nat limit) ys)"

section \<open>Accounts\<close>

definition insert_account :: "int \<Rightarrow> account \<Rightarrow> db \<Rightarrow> (store_error + int \<times> account) \<times> db" where
  "insert_account now a =
     sql (\<lambda>d.
       let a = (if a_CreatedAt a = zero_time then a\<lparr>a_CreatedAt := now\<rparr> else a);
           rid = new_id (map a_ID (db_accounts d));
           row = a\<lparr>a_ID := rid, a_PinnedSPKI := ''''\<rparr>
       in if a_EmailAddress a \<in> a_EmailAddress ` set (db_accounts d)
             \<or> a_IMAPTLS a \<notin> {''tls'', ''starttls''} \<or> a_SMTPTLS a \<notin> {''tls'', ''starttls''}
          then Inl ErrConstraint
          else Inr ((rid, a\<lparr>a_ID := rid\<rparr>), d\<lparr>db_accounts := db_accounts d @ [row]\<rparr>))"

definition get_account :: "int \<Rightarrow> db \<Rightarrow> (store_error + account) \<times> db" where
  "get_account rid =
     sql (\<lambda>d. case find (\<lambda>a. a_ID a = rid) (db_accounts d) of
                None \<Rightarrow> Inl ErrNotFound | Some a \<Rightarrow> Inr (a, d))"

definition list_accounts :: "db \<Rightarrow> (store_error + account list) \<times> db" where
  "list_accounts = sql (\<lambda>d. Inr (sort_key (\<lambda>a. (a_CreatedAt a, a_ID a)) (db_accounts d), d))"

text \<open>ON DELETE CASCADE from accounts to folders, messages and outbox, and from folders to
  messages.\<close>

definition delete_account :: "int \<Rightarrow> db \<Rightarrow> (store_error + unit) \<times> db" where
  "delete_account rid =
     sql (\<lambda>d.
       if rid \<notin> a_ID ` set (db_accounts d) then Inl ErrNotFound
       else let gone = f_ID ` {f \<in> set (db_folders d). f_AccountID f = rid}
            in Inr ((), d\<lparr>db_accounts := filter (\<lambda>a. a_ID a \<noteq> rid) (db_accounts d),
                          db_folders := filter (\<lambda>f. f_AccountID f \<noteq> rid) (db_folders d),
                          db_messages := filter (\<lambda>m. m_AccountID m \<noteq> rid \<and> m_FolderID m \<notin> gone)
                                           (db_messages d),
                          db_outbox := filter (\<lambda>e. o_AccountID e \<noteq> rid) (db_outbox d)\<rparr>))"

definition set_pinned_spki :: "int \<Rightarrow> string \<Rightarrow> db \<Rightarrow> (store_error + unit) \<times> db" where
  "set_pinned_spki rid spki =
     sql (\<lambda>d. Inr ((), d\<lparr>db_accounts :=
       map (\<lambda>a. if a_ID a = rid then a\<lparr>a_PinnedSPKI := spki\<rparr> else a) (db_accounts d)\<rparr>))"

section \<open>Folders\<close>

definition upsert_folder :: "folder \<Rightarrow> db \<Rightarrow> (store_error + int) \<times> db" where
  "upsert_folder f =
     sql (\<lambda>d.
       case find (\<lambda>g. f_AccountID g = f_AccountID f \<and> f_FullName g = f_FullName f) (db_folders d) of
         Some g \<Rightarrow>
           Inr (f_ID g, d\<lparr>db_folders := map (\<lambda>h.
             if f_ID h = f_ID g
             then h\<lparr>f_Name := f_Name f, f_Delimiter := f_Delimiter f, f_IsInbox := f_IsInbox f,
                    f_IsSent := f_IsSent f, f_IsDrafts := f_IsDrafts f, f_IsTrash := f_IsTrash f,
                    f_IsArchive := f_IsArchive f\<rparr>
             else h) (db_folders d)\<rparr>)
       | None \<Rightarrow>
           if f_AccountID f \<notin> a_ID ` set (db_accounts d) then Inl ErrConstraint
           else let rid = new_id (map f_ID (db_folders d))
                in Inr (rid, d\<lparr>db_folders := db_folders d @ [f\<lparr>f_ID := rid\<rparr>]\<rparr>))"

definition list_folders :: "int \<Rightarrow> db \<Rightarrow> (store_error + folder list) \<times> db" where
  "list_folders acct =
     sql (\<lambda>d. Inr (sort_key (\<lambda>f. (\<not> f_IsInbox f, f_FullName f))
                      (filter (\<lambda>f. f_AccountID f = acct) (db_folders d)), d))"

definition get_folder_by_full_name :: "int \<Rightarrow> string \<Rightarrow> db \<Rightarrow> (store_error + folder) \<times> db" where
  "get_folder_by_full_name acct name =
     sql (\<lambda>d. case find (\<lambda>f. f_AccountID f = acct \<and> f_FullName f = name) (db_folders d) of
                None \<Rightarrow> Inl ErrNotFound | Some f \<Rightarrow> Inr (f, d))"

definition get_folder :: "int \<Rightarrow> db \<Rightarrow> (store_error + folder) \<times> db" where
  "get_folder rid =
     sql (\<lambda>d. case find (\<lambda>f. f_ID f = rid) (db_folders d) of
                None \<Rightarrow> Inl ErrNotFound | Some f \<Rightarrow> Inr (f, d))"

definition set_folder_sync_state :: "int \<Rightarrow> nat \<Rightarrow> nat \<Rightarrow> db \<Rightarrow> (store_error + unit) \<times> db" where
  "set_folder_sync_state rid uv ms =
     sql (\<lambda>d. Inr ((), d\<lparr>db_folders :=
       map (\<lambda>f. if f_ID f = rid then f\<lparr>f_UIDValidity := uv, f_HighestModSeq := ms\<rparr> else f)
         (db_folders d)\<rparr>))"

definition clear_folder_messages :: "int \<Rightarrow> db \<Rightarrow> (store_error + unit) \<times> db" where
  "clear_folder_messages rid =
     sql (\<lambda>d. Inr ((), d\<lparr>db_messages := filter (\<lambda>m. m_FolderID m \<noteq> rid) (db_messages d)\<rparr>))"

section \<open>Settings\<close>

definition settings_update :: "string \<Rightarrow> string \<Rightarrow> (string \<times> string) list \<Rightarrow> (string \<times> string) list" where
  "settings_update k v kvs =
     (if k \<in> fst ` set kvs then map (\<lambda>(k', v'). (k', if k' = k then v else v')) kvs
      else kvs @ [(k, v)])"

definition get_setting :: "string \<Rightarrow> db \<Rightarrow> (store_error + string) \<times> db" where
  "get_setting k =
     sql (\<lambda>d. Inr (case map_of (db_settings d) k of None \<Rightarrow> '''' | Some v \<Rightarrow> v, d))"

definition set_setting :: "string \<Rightarrow> string \<Rightarrow> db \<Rightarrow> (store_error + unit) \<times> db" where
  "set_setting k v =
     sql (\<lambda>d. Inr ((), d\<lparr>db_settings :=
       (if v = '''' then filter (\<lambda>kv. fst kv \<noteq> k) (db_settings d)
        else settings_update k v (db_settings d))\<rparr>))"

section \<open>PGP keys\<close>

definition upsert_pgp_key :: "int \<Rightarrow> pgp_key \<Rightarrow> db \<Rightarrow> (store_error + unit) \<times> db" where
  "upsert_pgp_key now k =
     sql (\<lambda>d.
       let k = (if k_AddedAt k = zero_time then k\<lparr>k_AddedAt := now\<rparr> else k)
       in if k_Fingerprint k \<in> k_Fingerprint ` set (db_pgp_keys d)
          then Inr ((), d\<lparr>db_pgp_keys := map (\<lambda>r.
                 if k_Fingerprint r = k_Fingerprint k
                 then r\<lparr>k_Email := k_Email k, k_Armored := k_Armored k, k_IsPrivate := k_IsPrivate k,
                        k_TrustLevel := k_TrustLevel k\<rparr>
                 else r) (db_pgp_keys d)\<rparr>)
          else Inr ((), d\<lparr>db_pgp_keys := db_pgp_keys d @
                 [k\<lparr>k_ID := new_id (map k_ID (db_pgp_keys d))\<rparr>]\<rparr>))"

definition list_pgp_keys :: "db \<Rightarrow> (store_error + pgp_key list) \<times> db" where
  "list_pgp_keys = sql (\<lambda>d. Inr (sort_key (\<lambda>k. (- k_AddedAt k, - k_ID k)) (db_pgp_keys d), d))"

definition delete_pgp_key :: "string \<Rightarrow> db \<Rightarrow> (store_error + unit) \<times> db" where
  "delete_pgp_key fp =
     sql (\<lambda>d. Inr ((), d\<lparr>db_pgp_keys := filter (\<lambda>k. k_Fingerprint k \<noteq> fp) (db_pgp_keys d)\<rparr>))"

definition set_pgp_trust :: "string \<Rightarrow> int \<Rightarrow> db \<Rightarrow> (store_error + unit) \<times> db" where
  "set_pgp_trust fp level =
     sql (\<lambda>d. Inr ((), d\<lparr>db_pgp_keys :=
       map (\<lambda>k. if k_Fingerprint k = fp then k\<lparr>k_TrustLevel := level\<rparr> else k) (db_pgp_keys d)\<rparr>))"

section \<open>Migrations\<close>

definition migrations :: "nat list" where
  "migrations = [1, 2, 3, 4, 5]"

definition get_schema_version :: "db \<Rightarrow> (store_error + int) \<times> db" where
  "get_schema_version = sql (\<lambda>d. Inr (case db_version d of [] \<Rightarrow> 0 | v # _ \<Rightarrow> v, d))"

definition apply_migration :: "nat \<Rightarrow> db \<Rightarrow> (store_error + unit) \<times> db" where
  "apply_migration v d =
     (case sql (\<lambda>d. Inr ((), d\<lparr>db_applied := db_applied d @ [migrations ! v]\<rparr>)) d of
        (Inl e, d1) \<Rightarrow> (Inl e, d1)
      | (Inr _, d1) \<Rightarrow>
          (case sql (\<lambda>d. Inr ((), d\<lparr>db_version := []\<rparr>)) d1 of
             (Inl e, d2) \<Rightarrow> (Inl e, d2)
           | (Inr _, d2) \<Rightarrow>
               sql (\<lambda>d. Inr ((), d\<lparr>db_version := db_version d @ [int v + 1]\<rparr>)) d2))"

function migrate_from :: "nat \<Rightarrow> db \<Rightarrow> (store_error + unit) \<times> db" where
  "migrate_from v d =
     (if v < length migrations
      then (case sql_tx (apply_migration v) d of
              (Inl e, d') \<Rightarrow> (Inl e, d')
            | (Inr _, d') \<Rightarrow> migrate_from (Suc v) d')
      else (Inr (), d))"
  by pat_completeness auto
termination
  by (relation "measure (\<lambda>(v, d). length migrations - v)") auto

declare migrate_from.simps [simp del]

text \<open>A recorded version below zero would index \<open>migrations\<close> out of range, which panics in Go;
  only \<open>migrate\<close> itself writes the table, and it never writes one.\<close>

definition migrate :: "db \<Rightarrow> (store_error + unit) \<times> db" where
  "migrate d =
     (case sql (\<lambda>d. Inr ((), d)) d of
        (Inl e, d1) \<Rightarrow> (Inl e, d1)
      | (Inr _, d1) \<Rightarrow>
          (case get_schema_version d1 of
             (Inl e, d2) \<Rightarrow> (Inl e, d2)
           | (Inr v, d2) \<Rightarrow> migrate_from (nat v) d2))"

end
