(* ===== verification/StoreMessages.thy ===== *)
theory StoreMessages
  imports Store
begin

text \<open>
  The message table of package \<open>internal/store\<close>: \<open>messages.go\<close> (upsert, reads, paging, flag
  and delete marks), \<open>messages_sync.go\<close> (the surface the IMAP engine drives),
  \<open>intelligence.go\<close> (unified inbox, snooze) and \<open>search.go\<close> (the query language and the
  filtered search). Dates are Unix seconds; \<open>m_SnoozeUntil = 0\<close> stands for the zero time.
  The full text index of SQLite (FTS5 matching and its bm25 rank) is not part of the
  repository: \<open>search\<close> takes it as the argument \<open>fts\<close>.
\<close>

section \<open>Upsert and reads\<close>

definition scan_message :: "message \<Rightarrow> message" where
  "scan_message m =
     m\<lparr>m_PGPSigVerified := False,
       m_SnoozeUntil := (if m_SnoozeUntil m > 0 then m_SnoozeUntil m else 0)\<rparr>"

definition header_cols :: "message \<Rightarrow> message" where
  "header_cols m = m\<lparr>m_BodyText := '''', m_BodyHTML := ''''\<rparr>"

text \<open>The row an INSERT of \<open>UpsertMessage\<close> creates. The statement names 25 columns and has 25
  placeholders: \<open>snooze_until\<close> and \<open>attachments\<close> are not among them, so they take their
  defaults, and \<open>excluded.attachments\<close> of the conflict clause is always NULL. The CHECK on
  \<open>pgp_status\<close> compares with a list that contains NULL, so it never fails.\<close>

definition inserted_message :: "int \<Rightarrow> message \<Rightarrow> message" where
  "inserted_message rid m =
     m\<lparr>m_ID := rid, m_PGPSigVerified := False, m_SnoozeUntil := 0, m_Attachments := ''''\<rparr>"

definition merged_message :: "message \<Rightarrow> message \<Rightarrow> message" where
  "merged_message m old =
     old\<lparr>m_ThreadID := m_ThreadID m,
         m_Snippet := m_Snippet m,
         m_BodyText := (if m_BodyText m \<noteq> '''' then m_BodyText m else m_BodyText old),
         m_BodyHTML := (if m_BodyHTML m \<noteq> '''' then m_BodyHTML m else m_BodyHTML old),
         m_HasAttachments := m_HasAttachments m,
         m_PGPStatus := m_PGPStatus m,
         m_IsRead := m_IsRead m,
         m_IsFlagged := m_IsFlagged m,
         m_IsDeleted := m_IsDeleted m,
         m_Flags := m_Flags m,
         m_HasTrackers := m_HasTrackers m,
         m_IsList := m_IsList m,
         m_ListUnsubscribe := m_ListUnsubscribe m\<rparr>"

definition message_key :: "message \<Rightarrow> int \<times> int \<times> nat" where
  "message_key m = (m_AccountID m, m_FolderID m, m_UID m)"

definition upsert_message :: "message \<Rightarrow> db \<Rightarrow> (store_error + int) \<times> db" where
  "upsert_message m =
     sql (\<lambda>d.
       case find (\<lambda>r. message_key r = message_key m) (db_messages d) of
         Some old \<Rightarrow>
           Inr (m_ID old, d\<lparr>db_messages :=
             map (\<lambda>r. if m_ID r = m_ID old then merged_message m r else r) (db_messages d)\<rparr>)
       | None \<Rightarrow>
           if m_AccountID m \<notin> a_ID ` set (db_accounts d) \<or> m_FolderID m \<notin> f_ID ` set (db_folders d)
           then Inl ErrConstraint
           else let rid = new_id (map m_ID (db_messages d))
                in Inr (rid, d\<lparr>db_messages := db_messages d @ [inserted_message rid m]\<rparr>))"

definition get_message_by_uid :: "int \<Rightarrow> nat \<Rightarrow> db \<Rightarrow> (store_error + message) \<times> db" where
  "get_message_by_uid fid uid =
     sql (\<lambda>d. case find (\<lambda>m. m_FolderID m = fid \<and> m_UID m = uid) (db_messages d) of
                None \<Rightarrow> Inl ErrNotFound | Some m \<Rightarrow> Inr (scan_message m, d))"

definition get_message :: "int \<Rightarrow> db \<Rightarrow> (store_error + message) \<times> db" where
  "get_message rid =
     sql (\<lambda>d. case find (\<lambda>m. m_ID m = rid) (db_messages d) of
                None \<Rightarrow> Inl ErrNotFound | Some m \<Rightarrow> Inr (scan_message m, d))"

definition newest_first :: "message list \<Rightarrow> message list" where
  "newest_first = sort_key (\<lambda>m. (- m_Date m, - int (m_UID m)))"

definition list_messages ::
  "int \<Rightarrow> int \<Rightarrow> int \<Rightarrow> int \<Rightarrow> db \<Rightarrow> (store_error + message list) \<times> db" where
  "list_messages now fid offset limit =
     sql (\<lambda>d. Inr (map (scan_message \<circ> header_cols) (sql_page offset limit (newest_first
       (filter (\<lambda>m. m_FolderID m = fid \<and> \<not> m_IsDeleted m \<and> m_SnoozeUntil m \<le> now)
         (db_messages d)))), d))"

text \<open>\<open>thread_id = ?\<close> is never true of a NULL column, so the empty thread id selects nothing.\<close>

definition list_thread :: "int \<Rightarrow> string \<Rightarrow> db \<Rightarrow> (store_error + message list) \<times> db" where
  "list_thread acct tid =
     sql (\<lambda>d. Inr (map scan_message (sort_key (\<lambda>m. (m_Date m, m_UID m))
       (filter (\<lambda>m. m_AccountID m = acct \<and> m_ThreadID m = tid \<and> tid \<noteq> '''' \<and> \<not> m_IsDeleted m)
         (db_messages d))), d))"

definition correspondent_emails :: "int \<Rightarrow> db \<Rightarrow> (store_error + string list) \<times> db" where
  "correspondent_emails limit =
     sql (\<lambda>d.
       let ms = filter (\<lambda>m. m_FromAddr m \<noteq> '''') (db_messages d);
           latest = (\<lambda>a. Max (set (map m_Date (filter (\<lambda>m. m_FromAddr m = a) ms))))
       in Inr (sql_page 0 limit (sort_key (\<lambda>a. (- latest a, a)) (remdups (map m_FromAddr ms))), d))"

definition count_messages :: "int \<Rightarrow> db \<Rightarrow> (store_error + nat) \<times> db" where
  "count_messages fid =
     sql (\<lambda>d. Inr (length (filter (\<lambda>m. m_FolderID m = fid \<and> \<not> m_IsDeleted m) (db_messages d)), d))"

definition unread_count :: "int \<Rightarrow> db \<Rightarrow> (store_error + nat) \<times> db" where
  "unread_count fid =
     sql (\<lambda>d. Inr (length (filter (\<lambda>m. m_FolderID m = fid \<and> \<not> m_IsRead m \<and> \<not> m_IsDeleted m)
                      (db_messages d)), d))"

section \<open>Marks\<close>

text \<open>An UPDATE of one message by id; no row affected is \<open>ErrNotFound\<close>.\<close>

definition update_message_row ::
  "int \<Rightarrow> (message \<Rightarrow> message) \<Rightarrow> db \<Rightarrow> (store_error + unit) \<times> db" where
  "update_message_row rid g =
     sql (\<lambda>d. if rid \<notin> m_ID ` set (db_messages d) then Inl ErrNotFound
              else Inr ((), d\<lparr>db_messages :=
                     map (\<lambda>m. if m_ID m = rid then g m else m) (db_messages d)\<rparr>))"

definition set_read :: "int \<Rightarrow> bool \<Rightarrow> db \<Rightarrow> (store_error + unit) \<times> db" where
  "set_read rid b = update_message_row rid (\<lambda>m. m\<lparr>m_IsRead := b\<rparr>)"

definition set_flagged :: "int \<Rightarrow> bool \<Rightarrow> db \<Rightarrow> (store_error + unit) \<times> db" where
  "set_flagged rid b = update_message_row rid (\<lambda>m. m\<lparr>m_IsFlagged := b\<rparr>)"

definition set_deleted :: "int \<Rightarrow> bool \<Rightarrow> db \<Rightarrow> (store_error + unit) \<times> db" where
  "set_deleted rid b = update_message_row rid (\<lambda>m. m\<lparr>m_IsDeleted := b\<rparr>)"

definition set_snooze :: "int \<Rightarrow> int \<Rightarrow> db \<Rightarrow> (store_error + unit) \<times> db" where
  "set_snooze rid until =
     update_message_row rid (\<lambda>m. m\<lparr>m_SnoozeUntil := (if until = zero_time then 0 else until)\<rparr>)"

definition delete_local_message :: "int \<Rightarrow> db \<Rightarrow> (store_error + unit) \<times> db" where
  "delete_local_message rid =
     sql (\<lambda>d. if rid \<notin> m_ID ` set (db_messages d) then Inl ErrNotFound
              else Inr ((), d\<lparr>db_messages := filter (\<lambda>m. m_ID m \<noteq> rid) (db_messages d)\<rparr>))"

section \<open>The surface of the sync engine\<close>

record flag_state =
  fs_Flags :: string
  fs_IsRead :: bool
  fs_IsFlagged :: bool

definition folder_flags :: "int \<Rightarrow> db \<Rightarrow> (store_error + (nat \<rightharpoonup> flag_state)) \<times> db" where
  "folder_flags fid =
     sql (\<lambda>d. Inr (foldl (\<lambda>out m. out(m_UID m \<mapsto>
                     \<lparr>fs_Flags = m_Flags m, fs_IsRead = m_IsRead m, fs_IsFlagged = m_IsFlagged m\<rparr>))
                   Map.empty (filter (\<lambda>m. m_FolderID m = fid) (db_messages d)), d))"

definition delete_message_by_uid :: "int \<Rightarrow> nat \<Rightarrow> db \<Rightarrow> (store_error + unit) \<times> db" where
  "delete_message_by_uid fid uid =
     sql (\<lambda>d. Inr ((), d\<lparr>db_messages :=
       filter (\<lambda>m. \<not> (m_FolderID m = fid \<and> m_UID m = uid)) (db_messages d)\<rparr>))"

definition update_message_flags :: "message \<Rightarrow> db \<Rightarrow> (store_error + unit) \<times> db" where
  "update_message_flags m =
     sql (\<lambda>d. Inr ((), d\<lparr>db_messages :=
       map (\<lambda>r. if m_FolderID r = m_FolderID m \<and> m_UID r = m_UID m
                then r\<lparr>m_Flags := m_Flags m, m_IsRead := m_IsRead m, m_IsFlagged := m_IsFlagged m\<rparr>
                else r) (db_messages d)\<rparr>))"

fun delete_stale :: "int list \<Rightarrow> db \<Rightarrow> (store_error + unit) \<times> db" where
  "delete_stale [] d = (Inr (), d)"
| "delete_stale (rid # rids) d =
     (case sql (\<lambda>d. Inr ((), d\<lparr>db_messages := filter (\<lambda>m. m_ID m \<noteq> rid) (db_messages d)\<rparr>)) d of
        (Inl e, d') \<Rightarrow> (Inl e, d')
      | (Inr _, d') \<Rightarrow> delete_stale rids d')"

definition delete_messages_not_in ::
  "int \<Rightarrow> (nat \<Rightarrow> bool) \<Rightarrow> db \<Rightarrow> (store_error + unit) \<times> db" where
  "delete_messages_not_in fid live d =
     (case sql (\<lambda>d. Inr (filter (\<lambda>m. m_FolderID m = fid \<and> m_UID m > 0) (db_messages d), d)) d of
        (Inl e, d1) \<Rightarrow> (Inl e, d1)
      | (Inr rows, d1) \<Rightarrow>
          (let stale = map m_ID (filter (\<lambda>m. \<not> live (m_UID m)) rows)
           in if stale = [] then (Inr (), d1) else sql_tx (delete_stale stale) d1))"

definition highest_uid :: "int \<Rightarrow> db \<Rightarrow> (store_error + nat) \<times> db" where
  "highest_uid fid =
     sql (\<lambda>d. Inr (foldr max (map m_UID (filter (\<lambda>m. m_FolderID m = fid) (db_messages d))) 0, d))"

section \<open>Unified inbox\<close>

definition in_inbox :: "db \<Rightarrow> message \<Rightarrow> bool" where
  "in_inbox d m \<longleftrightarrow> (\<exists>f \<in> set (db_folders d). f_ID f = m_FolderID m \<and> f_IsInbox f)"

definition list_unified_inbox :: "int \<Rightarrow> int \<Rightarrow> int \<Rightarrow> db \<Rightarrow> (store_error + message list) \<times> db" where
  "list_unified_inbox now offset limit =
     sql (\<lambda>d. Inr (map (scan_message \<circ> header_cols) (sql_page offset limit (newest_first
       (filter (\<lambda>m. in_inbox d m \<and> \<not> m_IsDeleted m \<and> m_SnoozeUntil m \<le> now) (db_messages d)))), d))"

definition unified_unread_count :: "db \<Rightarrow> (store_error + nat) \<times> db" where
  "unified_unread_count =
     sql (\<lambda>d. Inr (length (filter (\<lambda>m. in_inbox d m \<and> \<not> m_IsRead m \<and> \<not> m_IsDeleted m)
                      (db_messages d)), d))"

section \<open>Search\<close>

record parsed_query =
  pq_fts :: string
  pq_hasAttachment :: bool
  pq_unread :: bool
  pq_before :: int
  pq_after :: int

definition has_filters :: "parsed_query \<Rightarrow> bool" where
  "has_filters p \<longleftrightarrow>
     pq_hasAttachment p \<or> pq_unread p \<or> pq_before p \<noteq> zero_time \<or> pq_after p \<noteq> zero_time"

text \<open>\<open>time.Parse("2006-01-02", s)\<close> as Unix seconds.\<close>

definition is_leap :: "int \<Rightarrow> bool" where
  "is_leap y \<longleftrightarrow> y mod 4 = 0 \<and> (y mod 100 \<noteq> 0 \<or> y mod 400 = 0)"

definition days_in_month :: "int \<Rightarrow> int \<Rightarrow> int" where
  "days_in_month y m =
     (if m = 2 then (if is_leap y then 29 else 28) else if m \<in> {4, 6, 9, 11} then 30 else 31)"

definition days_from_civil :: "int \<Rightarrow> int \<Rightarrow> int \<Rightarrow> int" where
  "days_from_civil y m d =
     (let y' = (if m \<le> 2 then y - 1 else y);
          era = y' div 400;
          yoe = y' - era * 400;
          doy = (153 * (if m > 2 then m - 3 else m + 9) + 2) div 5 + d - 1;
          doe = yoe * 365 + yoe div 4 - yoe div 100 + doy
      in era * 146097 + doe - 719468)"

definition parse_date :: "string \<Rightarrow> int option" where
  "parse_date s =
     (if length s = 10 \<and> s ! 4 = CHR ''-'' \<and> s ! 7 = CHR ''-''
         \<and> list_all is_digit (take 4 s) \<and> list_all is_digit (take 2 (drop 5 s))
         \<and> list_all is_digit (drop 8 s)
      then let y = int (digits_val (take 4 s));
               m = int (digits_val (take 2 (drop 5 s)));
               d = int (digits_val (drop 8 s))
           in if 1 \<le> m \<and> m \<le> 12 \<and> 1 \<le> d \<and> d \<le> days_in_month y m
              then Some (days_from_civil y m d * 86400) else None
      else None)"

definition drop_quotes :: "string \<Rightarrow> string" where
  "drop_quotes s = replace_all [quote_char] [] s"

definition fts_quote :: "string \<Rightarrow> string" where
  "fts_quote s = [quote_char] @ drop_quotes s @ [quote_char] @ ''*''"

definition parse_field :: "string \<Rightarrow> parsed_query \<times> string list \<Rightarrow> parsed_query \<times> string list" where
  "parse_field field = (\<lambda>(p, ftsTerms).
     let lower = to_lower field
     in if has_prefix ''from:'' lower then
          (let v = drop (length ''from:'') field
           in (p, if v \<noteq> '''' then ftsTerms @ [''({from_addr from_name} : '' @ fts_quote v @ '')'']
                  else ftsTerms))
        else if has_prefix ''subject:'' lower then
          (let v = drop (length ''subject:'') field
           in (p, if v \<noteq> '''' then ftsTerms @ [''(subject : '' @ fts_quote v @ '')''] else ftsTerms))
        else if lower = ''has:attachment'' then (p\<lparr>pq_hasAttachment := True\<rparr>, ftsTerms)
        else if lower = ''is:unread'' then (p\<lparr>pq_unread := True\<rparr>, ftsTerms)
        else if has_prefix ''before:'' lower then
          (case parse_date (drop (length ''before:'') field) of
             None \<Rightarrow> (p, ftsTerms) | Some t \<Rightarrow> (p\<lparr>pq_before := t\<rparr>, ftsTerms))
        else if has_prefix ''after:'' lower then
          (case parse_date (drop (length ''after:'') field) of
             None \<Rightarrow> (p, ftsTerms) | Some t \<Rightarrow> (p\<lparr>pq_after := t\<rparr>, ftsTerms))
        else (let cleaned = drop_quotes field
              in (p, if cleaned \<noteq> '''' then ftsTerms @ [fts_quote cleaned] else ftsTerms)))"

definition parse_query :: "string \<Rightarrow> parsed_query" where
  "parse_query input =
     (let (p, ftsTerms) = fold parse_field (str_fields input)
            (\<lparr>pq_fts = '''', pq_hasAttachment = False, pq_unread = False,
              pq_before = zero_time, pq_after = zero_time\<rparr>, [])
      in p\<lparr>pq_fts := join_with '' '' ftsTerms\<rparr>)"

text \<open>\<open>fts q\<close> is \<open>None\<close> when FTS5 rejects the expression, otherwise the bm25 rank of the
  messages that match. Without a full text part the rank is the constant 0.\<close>

definition matches_filters :: "int \<Rightarrow> parsed_query \<Rightarrow> message \<Rightarrow> bool" where
  "matches_filters acct p m \<longleftrightarrow>
     m_AccountID m = acct \<and> \<not> m_IsDeleted m
     \<and> (pq_hasAttachment p \<longrightarrow> m_HasAttachments m)
     \<and> (pq_unread p \<longrightarrow> \<not> m_IsRead m)
     \<and> (pq_before p \<noteq> zero_time \<longrightarrow> m_Date m < pq_before p)
     \<and> (pq_after p \<noteq> zero_time \<longrightarrow> m_Date m > pq_after p)"

definition search ::
  "(string \<Rightarrow> (message \<Rightarrow> ('r::{linorder,zero}) option) option) \<Rightarrow> int \<Rightarrow> string \<Rightarrow> int \<Rightarrow> db \<Rightarrow>
   (store_error + (message \<times> 'r) list) \<times> db" where
  "search fts acct query limit d =
     (let p = parse_query query
      in if pq_fts p = '''' \<and> \<not> has_filters p then (Inr [], d)
         else sql (\<lambda>d.
           let ms = filter (matches_filters acct p) (db_messages d)
           in if pq_fts p = ''''
              then Inr (map (\<lambda>m. (scan_message (header_cols m), 0))
                          (sql_page 0 limit (sort_key (\<lambda>m. - m_Date m) ms)), d)
              else (case fts (pq_fts p) of
                      None \<Rightarrow> Inl ErrSQL
                    | Some rank \<Rightarrow>
                        Inr (map (\<lambda>m. (scan_message (header_cols m), the (rank m)))
                               (sql_page 0 limit (sort_key (\<lambda>m. the (rank m))
                                  (filter (\<lambda>m. rank m \<noteq> None) ms))), d))) d)"

end
