(* ===== verification/StoreOutbox.thy ===== *)
theory StoreOutbox
  imports StoreMessages
begin

text \<open>
  The outbox table of package \<open>internal/store\<close> (\<open>outbox.go\<close>), and \<open>store_op\<close>, the
  sum of every statement of the package that changes a table, run by \<open>run_op\<close>.
\<close>

definition enqueue_outbox :: "int \<Rightarrow> int \<Rightarrow> bytes \<Rightarrow> db \<Rightarrow> (store_error + int) \<times> db" where
  "enqueue_outbox now acct raw =
     sql (\<lambda>d.
       if acct \<notin> a_ID ` set (db_accounts d) then Inl ErrConstraint
       else let rid = new_id (map o_ID (db_outbox d))
            in Inr (rid, d\<lparr>db_outbox := db_outbox d @
                 [\<lparr>o_ID = rid, o_AccountID = acct, o_RawMessage = raw, o_RetryCount = 0,
                   o_MaxRetries = 5, o_NextAttempt = now, o_LastError = '''', o_QueuedAt = now\<rparr>]\<rparr>))"

definition get_outbox_entry :: "int \<Rightarrow> db \<Rightarrow> (store_error + outbox_entry) \<times> db" where
  "get_outbox_entry rid =
     sql (\<lambda>d. case find (\<lambda>e. o_ID e = rid) (db_outbox d) of
                None \<Rightarrow> Inl ErrNotFound | Some e \<Rightarrow> Inr (e, d))"

definition outbox_due :: "int \<Rightarrow> outbox_entry \<Rightarrow> bool" where
  "outbox_due now e \<longleftrightarrow> o_NextAttempt e \<le> now \<and> o_RetryCount e < o_MaxRetries e"

definition due_outbox :: "int \<Rightarrow> db \<Rightarrow> (store_error + outbox_entry list) \<times> db" where
  "due_outbox now = sql (\<lambda>d. Inr (sort_key o_QueuedAt (filter (outbox_due now) (db_outbox d)), d))"

definition mark_outbox_sent :: "int \<Rightarrow> db \<Rightarrow> (store_error + unit) \<times> db" where
  "mark_outbox_sent rid =
     sql (\<lambda>d. Inr ((), d\<lparr>db_outbox := filter (\<lambda>e. o_ID e \<noteq> rid) (db_outbox d)\<rparr>))"

definition failed_entry :: "string \<Rightarrow> int \<Rightarrow> outbox_entry \<Rightarrow> outbox_entry" where
  "failed_entry err next e =
     e\<lparr>o_RetryCount := o_RetryCount e + 1, o_LastError := err, o_NextAttempt := next\<rparr>"

definition mark_outbox_failed :: "int \<Rightarrow> string \<Rightarrow> int \<Rightarrow> db \<Rightarrow> (store_error + unit) \<times> db" where
  "mark_outbox_failed rid err next =
     sql (\<lambda>d. Inr ((), d\<lparr>db_outbox :=
       map (\<lambda>e. if o_ID e = rid then failed_entry err next e else e) (db_outbox d)\<rparr>))"

definition dead_letters :: "int \<Rightarrow> db \<Rightarrow> (store_error + outbox_entry list) \<times> db" where
  "dead_letters acct =
     sql (\<lambda>d. Inr (sort_key o_QueuedAt
       (filter (\<lambda>e. o_AccountID e = acct \<and> o_RetryCount e \<ge> o_MaxRetries e) (db_outbox d)), d))"

section \<open>All statements that change a table\<close>

datatype store_op =
    InsertAccount int account
  | DeleteAccount int
  | SetPinnedSPKI int string
  | UpsertFolder folder
  | SetFolderSyncState int nat nat
  | ClearFolderMessages int
  | SetSetting string string
  | UpsertPGPKey int pgp_key
  | DeletePGPKey string
  | SetPGPTrust string int
  | UpsertMessage message
  | SetRead int bool
  | SetFlagged int bool
  | SetDeleted int bool
  | SetSnooze int int
  | DeleteLocalMessage int
  | DeleteMessageByUID int nat
  | UpdateMessageFlags message
  | DeleteMessagesNotIn int "nat \<Rightarrow> bool"
  | EnqueueOutbox int int bytes
  | MarkOutboxSent int
  | MarkOutboxFailed int string int

fun run_op :: "store_op \<Rightarrow> db \<Rightarrow> db" where
  "run_op (InsertAccount now a) d = snd (insert_account now a d)"
| "run_op (DeleteAccount i) d = snd (delete_account i d)"
| "run_op (SetPinnedSPKI i s) d = snd (set_pinned_spki i s d)"
| "run_op (UpsertFolder f) d = snd (upsert_folder f d)"
| "run_op (SetFolderSyncState i u m) d = snd (set_folder_sync_state i u m d)"
| "run_op (ClearFolderMessages i) d = snd (clear_folder_messages i d)"
| "run_op (SetSetting k v) d = snd (set_setting k v d)"
| "run_op (UpsertPGPKey now k) d = snd (upsert_pgp_key now k d)"
| "run_op (DeletePGPKey fp) d = snd (delete_pgp_key fp d)"
| "run_op (SetPGPTrust fp l) d = snd (set_pgp_trust fp l d)"
| "run_op (UpsertMessage m) d = snd (upsert_message m d)"
| "run_op (SetRead i b) d = snd (set_read i b d)"
| "run_op (SetFlagged i b) d = snd (set_flagged i b d)"
| "run_op (SetDeleted i b) d = snd (set_deleted i b d)"
| "run_op (SetSnooze i t) d = snd (set_snooze i t d)"
| "run_op (DeleteLocalMessage i) d = snd (delete_local_message i d)"
| "run_op (DeleteMessageByUID f u) d = snd (delete_message_by_uid f u d)"
| "run_op (UpdateMessageFlags m) d = snd (update_message_flags m d)"
| "run_op (DeleteMessagesNotIn f live) d = snd (delete_messages_not_in f live d)"
| "run_op (EnqueueOutbox now a raw) d = snd (enqueue_outbox now a raw d)"
| "run_op (MarkOutboxSent i) d = snd (mark_outbox_sent i d)"
| "run_op (MarkOutboxFailed i e n) d = snd (mark_outbox_failed i e n d)"

end
