(* ===== verification/StoreLaws.thy ===== *)
theory StoreLaws
  imports StoreOutbox
begin

text \<open>
  What package \<open>internal/store\<close> guarantees: the schema's integrity constraints as an
  invariant of every statement sequence, whatever statements the driver refuses; what an
  upsert keeps; the effect of the cascading delete; paging and order of the list queries; the
  safety of the full text expressions; and the migration loop.
\<close>

section \<open>Helpers\<close>

lemma sql_preserves:
  assumes "I (d\<lparr>db_faults := tl (db_faults d)\<rparr>)"
    and "\<And>a d'. stmt (d\<lparr>db_faults := tl (db_faults d)\<rparr>) = Inr (a, d') \<Longrightarrow> I d'"
  shows "I (snd (sql stmt d))"
  using assms by (auto simp: sql_def Let_def split: sum.splits)

lemma new_id_fresh [simp]: "new_id ids \<notin> set ids"
proof
  assume "new_id ids \<in> set ids"
  then have "ids \<noteq> []" and "Max (set ids) + 1 \<in> set ids"
    by (auto simp: new_id_def split: if_splits)
  then show False using Max_ge [of "set ids" "Max (set ids) + 1"] by auto
qed

lemma map_key_update:
  "(\<And>x. k (g x) = k x) \<Longrightarrow> map k (map (\<lambda>x. if P x then g x else x) xs) = map k xs"
  by simp

lemma image_key_update:
  "(\<And>x. k (g x) = k x) \<Longrightarrow> k ` set (map (\<lambda>x. if P x then g x else x) xs) = k ` set xs"
proof -
  assume "\<And>x. k (g x) = k x"
  then have "k (if P x then g x else x) = k x" for x by simp
  then show ?thesis by (simp only: set_map image_image)
qed

lemma find_Some: "find P xs = Some x \<Longrightarrow> x \<in> set xs \<and> P x"
  by (metis find_Some_iff nth_mem)

lemma find_None: "find P xs = None \<longleftrightarrow> (\<forall>x \<in> set xs. \<not> P x)"
  by (auto simp: find_None_iff)

section \<open>The integrity invariant\<close>

definition accounts_ok :: "account list \<Rightarrow> bool" where
  "accounts_ok as \<longleftrightarrow> distinct (map a_ID as) \<and> distinct (map a_EmailAddress as)
     \<and> (\<forall>a \<in> set as. a_IMAPTLS a \<in> {''tls'', ''starttls''} \<and> a_SMTPTLS a \<in> {''tls'', ''starttls''})"

definition folder_key :: "folder \<Rightarrow> int \<times> string" where
  "folder_key f = (f_AccountID f, f_FullName f)"

definition folders_ok :: "int set \<Rightarrow> folder list \<Rightarrow> bool" where
  "folders_ok A fs \<longleftrightarrow> distinct (map f_ID fs) \<and> distinct (map folder_key fs)
     \<and> f_AccountID ` set fs \<subseteq> A"

definition messages_ok :: "int set \<Rightarrow> int set \<Rightarrow> message list \<Rightarrow> bool" where
  "messages_ok A F ms \<longleftrightarrow> distinct (map m_ID ms) \<and> distinct (map message_key ms)
     \<and> m_AccountID ` set ms \<subseteq> A \<and> m_FolderID ` set ms \<subseteq> F"

definition outbox_ok :: "int set \<Rightarrow> outbox_entry list \<Rightarrow> bool" where
  "outbox_ok A es \<longleftrightarrow> distinct (map o_ID es) \<and> o_AccountID ` set es \<subseteq> A
     \<and> (\<forall>e \<in> set es. 0 \<le> o_RetryCount e)"

definition settings_ok :: "(string \<times> string) list \<Rightarrow> bool" where
  "settings_ok kvs \<longleftrightarrow> distinct (map fst kvs) \<and> '''' \<notin> snd ` set kvs"

definition keys_ok :: "pgp_key list \<Rightarrow> bool" where
  "keys_ok ks \<longleftrightarrow> distinct (map k_ID ks) \<and> distinct (map k_Fingerprint ks)"

definition db_inv :: "db \<Rightarrow> bool" where
  "db_inv d \<longleftrightarrow>
     accounts_ok (db_accounts d)
     \<and> folders_ok (a_ID ` set (db_accounts d)) (db_folders d)
     \<and> messages_ok (a_ID ` set (db_accounts d)) (f_ID ` set (db_folders d)) (db_messages d)
     \<and> outbox_ok (a_ID ` set (db_accounts d)) (db_outbox d)
     \<and> settings_ok (db_settings d)
     \<and> keys_ok (db_pgp_keys d)"

lemma db_inv_faults [simp]: "db_inv (d\<lparr>db_faults := fs\<rparr>) = db_inv d"
  by (simp add: db_inv_def)

lemma sql_inv:
  assumes "db_inv d"
    and "\<And>d a d'. db_inv d \<Longrightarrow> stmt d = Inr (a, d') \<Longrightarrow> db_inv d'"
  shows "db_inv (snd (sql stmt d))"
  by (rule sql_preserves [of db_inv]) (use assms(1) assms(2) [of "d\<lparr>db_faults := tl (db_faults d)\<rparr>"] in simp_all)

subsection \<open>Rows added, changed and removed\<close>

lemma accounts_ok_snoc:
  "accounts_ok as \<Longrightarrow> a_ID a \<notin> a_ID ` set as \<Longrightarrow> a_EmailAddress a \<notin> a_EmailAddress ` set as \<Longrightarrow>
   a_IMAPTLS a \<in> {''tls'', ''starttls''} \<Longrightarrow> a_SMTPTLS a \<in> {''tls'', ''starttls''} \<Longrightarrow>
   accounts_ok (as @ [a])"
  by (auto simp: accounts_ok_def)

lemma folders_ok_snoc:
  "folders_ok A fs \<Longrightarrow> f_ID f \<notin> f_ID ` set fs \<Longrightarrow> folder_key f \<notin> folder_key ` set fs \<Longrightarrow>
   f_AccountID f \<in> A \<Longrightarrow> folders_ok A (fs @ [f])"
  by (auto simp: folders_ok_def)

lemma folders_ok_update:
  assumes "\<And>f. f_ID (g f) = f_ID f" "\<And>f. folder_key (g f) = folder_key f"
  shows "folders_ok A (map (\<lambda>f. if P f then g f else f) fs) = folders_ok A fs"
proof -
  have "\<And>f. f_AccountID (g f) = f_AccountID f" using assms(2) by (simp add: folder_key_def)
  with assms show ?thesis
    unfolding folders_ok_def by (simp only: map_key_update image_key_update)
qed

lemma messages_ok_update:
  assumes "\<And>m. m_ID (g m) = m_ID m" "\<And>m. message_key (g m) = message_key m"
  shows "messages_ok A F (map (\<lambda>m. if P m then g m else m) ms) = messages_ok A F ms"
proof -
  have "\<And>m. m_AccountID (g m) = m_AccountID m" "\<And>m. m_FolderID (g m) = m_FolderID m"
    using assms(2) by (auto simp: message_key_def)
  with assms show ?thesis
    unfolding messages_ok_def by (simp only: map_key_update image_key_update)
qed

lemma messages_ok_snoc:
  "messages_ok A F ms \<Longrightarrow> m_ID m \<notin> m_ID ` set ms \<Longrightarrow> message_key m \<notin> message_key ` set ms \<Longrightarrow>
   m_AccountID m \<in> A \<Longrightarrow> m_FolderID m \<in> F \<Longrightarrow> messages_ok A F (ms @ [m])"
  by (auto simp: messages_ok_def)

lemma messages_ok_filter:
  assumes "messages_ok A F ms"
    and "\<And>m. m \<in> set ms \<Longrightarrow> P m \<Longrightarrow> m_AccountID m \<in> A' \<and> m_FolderID m \<in> F'"
  shows "messages_ok A' F' (filter P ms)"
  using assms by (auto simp: messages_ok_def intro: distinct_map_filter)

lemma messages_ok_filter_same: "messages_ok A F ms \<Longrightarrow> messages_ok A F (filter P ms)"
  by (rule messages_ok_filter) (auto simp: messages_ok_def)

lemma outbox_ok_filter:
  assumes "outbox_ok A es" and "\<And>e. e \<in> set es \<Longrightarrow> P e \<Longrightarrow> o_AccountID e \<in> A'"
  shows "outbox_ok A' (filter P es)"
  using assms by (auto simp: outbox_ok_def intro: distinct_map_filter)

lemma outbox_ok_filter_same: "outbox_ok A es \<Longrightarrow> outbox_ok A (filter P es)"
  by (rule outbox_ok_filter) (auto simp: outbox_ok_def)

lemma settings_ok_update: "settings_ok kvs \<Longrightarrow> v \<noteq> '''' \<Longrightarrow> settings_ok (settings_update k v kvs)"
  by (auto simp: settings_ok_def settings_update_def comp_def case_prod_beta image_iff)

lemma settings_ok_filter: "settings_ok kvs \<Longrightarrow> settings_ok (filter P kvs)"
  by (auto simp: settings_ok_def intro: distinct_map_filter)

subsection \<open>Each statement\<close>

lemma db_inv_insert_account:
  assumes inv: "db_inv d"
    and new: "a_ID a \<notin> a_ID ` set (db_accounts d)" "a_EmailAddress a \<notin> a_EmailAddress ` set (db_accounts d)"
      "a_IMAPTLS a \<in> {''tls'', ''starttls''}" "a_SMTPTLS a \<in> {''tls'', ''starttls''}"
  shows "db_inv (d\<lparr>db_accounts := db_accounts d @ [a]\<rparr>)"
proof -
  have "accounts_ok (db_accounts d @ [a])"
    using inv new by (intro accounts_ok_snoc) (simp_all add: db_inv_def)
  with inv show ?thesis
    by (auto simp: db_inv_def folders_ok_def messages_ok_def outbox_ok_def)
qed

lemma fresh_image: "new_id (map k xs) \<notin> k ` set xs"
  using new_id_fresh [of "map k xs"] by simp

lemma fresh_row [elim!]: "new_id (map k xs) = k x \<Longrightarrow> x \<in> set xs \<Longrightarrow> R"
  by (metis fresh_image imageI)

lemma insert_account_inv: "db_inv d \<Longrightarrow> db_inv (snd (insert_account now a d))"
  unfolding insert_account_def
  by (erule sql_inv)
    (auto simp: Let_def fresh_image split: if_splits intro!: db_inv_insert_account)

lemma db_inv_cascade:
  assumes inv: "db_inv d"
  shows "db_inv (d\<lparr>db_accounts := filter (\<lambda>a. a_ID a \<noteq> i) (db_accounts d),
    db_folders := filter (\<lambda>f. f_AccountID f \<noteq> i) (db_folders d),
    db_messages := filter (\<lambda>m. m_AccountID m \<noteq> i
       \<and> m_FolderID m \<notin> f_ID ` {f \<in> set (db_folders d). f_AccountID f = i}) (db_messages d),
    db_outbox := filter (\<lambda>e. o_AccountID e \<noteq> i) (db_outbox d)\<rparr>)"
proof -
  let ?acc = "filter (\<lambda>a. a_ID a \<noteq> i) (db_accounts d)"
  let ?fol = "filter (\<lambda>f. f_AccountID f \<noteq> i) (db_folders d)"
  let ?msg = "filter (\<lambda>m. m_AccountID m \<noteq> i
    \<and> m_FolderID m \<notin> f_ID ` {f \<in> set (db_folders d). f_AccountID f = i}) (db_messages d)"
  let ?out = "filter (\<lambda>e. o_AccountID e \<noteq> i) (db_outbox d)"
  have "accounts_ok ?acc" using inv by (auto simp: db_inv_def accounts_ok_def intro: distinct_map_filter)
  moreover have "folders_ok (a_ID ` set ?acc) ?fol"
    using inv by (force simp: db_inv_def folders_ok_def intro: distinct_map_filter)
  moreover have "messages_ok (a_ID ` set ?acc) (f_ID ` set ?fol) ?msg"
    using inv by (intro messages_ok_filter [where A = "a_ID ` set (db_accounts d)"
      and F = "f_ID ` set (db_folders d)"]) (force simp: db_inv_def messages_ok_def)+
  moreover have "outbox_ok (a_ID ` set ?acc) ?out"
    using inv by (intro outbox_ok_filter [where A = "a_ID ` set (db_accounts d)"])
      (force simp: db_inv_def outbox_ok_def)+
  ultimately show ?thesis using inv by (simp add: db_inv_def)
qed

lemma delete_account_inv: "db_inv d \<Longrightarrow> db_inv (snd (delete_account i d))"
  unfolding delete_account_def
  by (erule sql_inv) (auto simp: Let_def dest: db_inv_cascade split: if_splits)

lemma accounts_ok_update:
  assumes "\<And>a. a_ID (g a) = a_ID a" "\<And>a. a_EmailAddress (g a) = a_EmailAddress a"
    "\<And>a. a_IMAPTLS (g a) = a_IMAPTLS a" "\<And>a. a_SMTPTLS (g a) = a_SMTPTLS a"
  shows "accounts_ok as \<Longrightarrow> accounts_ok (map (\<lambda>a. if P a then g a else a) as)"
  using assms unfolding accounts_ok_def by (simp only: map_key_update) auto

lemma db_inv_accounts:
  "db_inv d \<Longrightarrow> accounts_ok as \<Longrightarrow> a_ID ` set as = a_ID ` set (db_accounts d) \<Longrightarrow>
   db_inv (d\<lparr>db_accounts := as\<rparr>)"
  by (simp add: db_inv_def)

lemma db_inv_folders:
  "db_inv d \<Longrightarrow> folders_ok (a_ID ` set (db_accounts d)) fs \<Longrightarrow>
   f_ID ` set (db_folders d) \<subseteq> f_ID ` set fs \<Longrightarrow> db_inv (d\<lparr>db_folders := fs\<rparr>)"
  unfolding db_inv_def messages_ok_def by (simp, blast)

lemma db_inv_messages:
  "db_inv d \<Longrightarrow> messages_ok (a_ID ` set (db_accounts d)) (f_ID ` set (db_folders d)) ms \<Longrightarrow>
   db_inv (d\<lparr>db_messages := ms\<rparr>)"
  by (simp add: db_inv_def)

lemma db_inv_messages_update:
  assumes "db_inv d" "\<And>m. m_ID (g m) = m_ID m" "\<And>m. message_key (g m) = message_key m"
  shows "db_inv (d\<lparr>db_messages := map (\<lambda>m. if P m then g m else m) (db_messages d)\<rparr>)"
  using assms by (intro db_inv_messages) (simp_all add: messages_ok_update db_inv_def)

lemma db_inv_messages_filter:
  "db_inv d \<Longrightarrow> db_inv (d\<lparr>db_messages := filter P (db_messages d)\<rparr>)"
  by (rule db_inv_messages) (simp_all add: db_inv_def messages_ok_filter_same)

lemma db_inv_folders_update:
  assumes "db_inv d" "\<And>f. f_ID (g f) = f_ID f" "\<And>f. folder_key (g f) = folder_key f"
  shows "db_inv (d\<lparr>db_folders := map (\<lambda>f. if P f then g f else f) (db_folders d)\<rparr>)"
  using assms by (intro db_inv_folders)
    (simp_all only: folders_ok_update image_key_update db_inv_def subset_refl)

lemma db_inv_folders_snoc:
  assumes "db_inv d" "f_ID f \<notin> f_ID ` set (db_folders d)" "folder_key f \<notin> folder_key ` set (db_folders d)"
    "f_AccountID f \<in> a_ID ` set (db_accounts d)"
  shows "db_inv (d\<lparr>db_folders := db_folders d @ [f]\<rparr>)"
  using assms by (intro db_inv_folders folders_ok_snoc) (auto simp: db_inv_def)

lemma db_inv_messages_snoc:
  assumes "db_inv d" "m_ID m \<notin> m_ID ` set (db_messages d)" "message_key m \<notin> message_key ` set (db_messages d)"
    "m_AccountID m \<in> a_ID ` set (db_accounts d)" "m_FolderID m \<in> f_ID ` set (db_folders d)"
  shows "db_inv (d\<lparr>db_messages := db_messages d @ [m]\<rparr>)"
  using assms by (intro db_inv_messages messages_ok_snoc) (auto simp: db_inv_def)

lemma db_inv_outbox:
  "db_inv d \<Longrightarrow> outbox_ok (a_ID ` set (db_accounts d)) es \<Longrightarrow> db_inv (d\<lparr>db_outbox := es\<rparr>)"
  by (simp add: db_inv_def)

lemma db_inv_settings: "db_inv d \<Longrightarrow> settings_ok kvs \<Longrightarrow> db_inv (d\<lparr>db_settings := kvs\<rparr>)"
  by (simp add: db_inv_def)

lemma db_inv_keys: "db_inv d \<Longrightarrow> keys_ok ks \<Longrightarrow> db_inv (d\<lparr>db_pgp_keys := ks\<rparr>)"
  by (simp add: db_inv_def)

lemma set_pinned_spki_inv: "db_inv d \<Longrightarrow> db_inv (snd (set_pinned_spki i s d))"
  unfolding set_pinned_spki_def
proof (erule sql_inv)
  fix d :: db and r d'
  let ?as = "map (\<lambda>a. if a_ID a = i then a\<lparr>a_PinnedSPKI := s\<rparr> else a) (db_accounts d)"
  assume inv: "db_inv d" and "Inr ((), d\<lparr>db_accounts := ?as\<rparr>) = Inr (r, d')"
  then have d': "d' = d\<lparr>db_accounts := ?as\<rparr>" by simp
  have "accounts_ok ?as" using inv by (intro accounts_ok_update) (simp_all add: db_inv_def)
  moreover have "a_ID ` set ?as = a_ID ` set (db_accounts d)" by (rule image_key_update) simp
  ultimately show "db_inv d'" unfolding d' using inv by (intro db_inv_accounts)
qed

lemma upsert_folder_inv: "db_inv d \<Longrightarrow> db_inv (snd (upsert_folder f d))"
  unfolding upsert_folder_def
  by (erule sql_inv)
    (auto simp: Let_def find_None folder_key_def fresh_image split: option.splits if_splits
      intro!: db_inv_folders_update db_inv_folders_snoc)

lemma set_folder_sync_state_inv: "db_inv d \<Longrightarrow> db_inv (snd (set_folder_sync_state i u ms d))"
  unfolding set_folder_sync_state_def
  by (erule sql_inv) (auto simp: folder_key_def intro!: db_inv_folders_update)

lemma clear_folder_messages_inv: "db_inv d \<Longrightarrow> db_inv (snd (clear_folder_messages i d))"
  unfolding clear_folder_messages_def
  by (erule sql_inv) (auto intro: db_inv_messages_filter)

lemma set_setting_inv: "db_inv d \<Longrightarrow> db_inv (snd (set_setting k v d))"
  unfolding set_setting_def
  by (erule sql_inv)
    (auto intro!: db_inv_settings settings_ok_filter settings_ok_update simp: db_inv_def split: if_splits)

lemma keys_ok_update:
  assumes "\<And>k. k_ID (g k) = k_ID k" "\<And>k. k_Fingerprint (g k) = k_Fingerprint k"
  shows "keys_ok (map (\<lambda>k. if P k then g k else k) ks) = keys_ok ks"
  using assms unfolding keys_ok_def by (simp only: map_key_update)

lemma keys_ok_snoc:
  "keys_ok ks \<Longrightarrow> k_ID k \<notin> k_ID ` set ks \<Longrightarrow> k_Fingerprint k \<notin> k_Fingerprint ` set ks \<Longrightarrow> keys_ok (ks @ [k])"
  by (auto simp: keys_ok_def)

lemma upsert_pgp_key_inv: "db_inv d \<Longrightarrow> db_inv (snd (upsert_pgp_key now k d))"
  unfolding upsert_pgp_key_def
  by (erule sql_inv)
    (auto simp: Let_def fresh_image db_inv_def keys_ok_update intro!: keys_ok_snoc split: if_splits)

lemma delete_pgp_key_inv: "db_inv d \<Longrightarrow> db_inv (snd (delete_pgp_key fp d))"
  unfolding delete_pgp_key_def
  by (erule sql_inv) (auto simp: db_inv_def keys_ok_def intro: distinct_map_filter)

lemma set_pgp_trust_inv: "db_inv d \<Longrightarrow> db_inv (snd (set_pgp_trust fp l d))"
  unfolding set_pgp_trust_def
  by (erule sql_inv) (auto simp: db_inv_def keys_ok_update)

lemma message_key_simps [simp]:
  "m_ID (merged_message m r) = m_ID r" "message_key (merged_message m r) = message_key r"
  "m_ID (inserted_message rid m) = rid" "message_key (inserted_message rid m) = message_key m"
  "m_AccountID (inserted_message rid m) = m_AccountID m"
  "m_FolderID (inserted_message rid m) = m_FolderID m"
  by (simp_all add: merged_message_def inserted_message_def message_key_def)

lemma upsert_message_inv: "db_inv d \<Longrightarrow> db_inv (snd (upsert_message m d))"
  unfolding upsert_message_def
  by (erule sql_inv)
    (auto simp: Let_def find_None fresh_image split: option.splits if_splits
      intro!: db_inv_messages_update db_inv_messages_snoc)

lemma update_message_row_inv:
  "db_inv d \<Longrightarrow> (\<And>m. m_ID (g m) = m_ID m) \<Longrightarrow> (\<And>m. message_key (g m) = message_key m) \<Longrightarrow>
   db_inv (snd (update_message_row rid g d))"
  unfolding update_message_row_def
  by (erule sql_inv) (auto intro!: db_inv_messages_update split: if_splits)

lemmas mark_defs = set_read_def set_flagged_def set_deleted_def set_snooze_def

lemma marks_inv:
  assumes "db_inv d"
  shows "db_inv (snd (set_read i b d))" "db_inv (snd (set_flagged i b d))"
    "db_inv (snd (set_deleted i b d))" "db_inv (snd (set_snooze i t d))"
  using assms unfolding mark_defs
  by (simp_all add: update_message_row_inv message_key_def)

lemma delete_local_message_inv: "db_inv d \<Longrightarrow> db_inv (snd (delete_local_message i d))"
  unfolding delete_local_message_def
  by (erule sql_inv) (auto intro: db_inv_messages_filter split: if_splits)

lemma delete_message_by_uid_inv: "db_inv d \<Longrightarrow> db_inv (snd (delete_message_by_uid f u d))"
  unfolding delete_message_by_uid_def
  by (erule sql_inv) (auto intro: db_inv_messages_filter)

lemma update_message_flags_inv: "db_inv d \<Longrightarrow> db_inv (snd (update_message_flags m d))"
  unfolding update_message_flags_def
  by (erule sql_inv) (auto simp: message_key_def intro!: db_inv_messages_update)

lemma delete_stale_inv: "db_inv d \<Longrightarrow> db_inv (snd (delete_stale rids d))"
proof (induction rids arbitrary: d)
  case (Cons rid rids)
  let ?st = "sql (\<lambda>d. Inr ((), d\<lparr>db_messages := filter (\<lambda>m. m_ID m \<noteq> rid) (db_messages d)\<rparr>)) d"
  have "db_inv (snd ?st)"
    using Cons.prems by (rule sql_inv) (auto intro: db_inv_messages_filter)
  with Cons.IH show ?case by (auto split: sum.splits prod.splits)
qed simp

lemma sql_tx_inv:
  assumes "db_inv d" "\<And>d. db_inv d \<Longrightarrow> db_inv (snd (body d))"
  shows "db_inv (snd (sql_tx body d))"
proof -
  have noop: "db_inv d \<Longrightarrow> db_inv (snd (sql (\<lambda>d. Inr ((), d)) d))" for d
    by (erule sql_inv) simp
  obtain r1 d1 where 1: "sql (\<lambda>d. Inr ((), d)) d = (r1, d1)" by fastforce
  with noop [OF assms(1)] have d1: "db_inv d1" by simp
  obtain r2 d2 where 2: "body d1 = (r2, d2)" by fastforce
  with assms(2) [OF d1] have d2: "db_inv d2" by simp
  obtain r3 d3 where 3: "sql (\<lambda>d. Inr ((), d)) d2 = (r3, d3)" by fastforce
  with noop [OF d2] have "db_inv d3" by simp
  with d1 show ?thesis
    by (auto simp: sql_tx_def 1 2 3 rollback_to_def split: sum.splits)
qed

lemma delete_messages_not_in_inv: "db_inv d \<Longrightarrow> db_inv (snd (delete_messages_not_in f live d))"
proof -
  let ?q = "sql (\<lambda>d. Inr (filter (\<lambda>m. m_FolderID m = f \<and> m_UID m > 0) (db_messages d), d)) d"
  assume "db_inv d"
  then have "db_inv (snd ?q)" by (rule sql_inv) simp
  then show ?thesis
    by (auto simp: delete_messages_not_in_def Let_def delete_stale_inv
        intro!: sql_tx_inv split: sum.splits prod.splits)
qed

lemma enqueue_outbox_inv: "db_inv d \<Longrightarrow> db_inv (snd (enqueue_outbox now a raw d))"
  unfolding enqueue_outbox_def
  by (erule sql_inv)
    (auto simp: Let_def outbox_ok_def db_inv_def fresh_image split: if_splits)

lemma mark_outbox_sent_inv: "db_inv d \<Longrightarrow> db_inv (snd (mark_outbox_sent i d))"
  unfolding mark_outbox_sent_def
  by (erule sql_inv) (auto simp: db_inv_def outbox_ok_filter_same)

lemma outbox_ok_failed:
  assumes "outbox_ok A es"
  shows "outbox_ok A (map (\<lambda>e. if P e then failed_entry err n e else e) es)"
proof -
  have k: "\<And>e. o_ID (failed_entry err n e) = o_ID e" "\<And>e. o_AccountID (failed_entry err n e) = o_AccountID e"
    by (simp_all add: failed_entry_def)
  have "map o_ID (map (\<lambda>e. if P e then failed_entry err n e else e) es) = map o_ID es"
    "o_AccountID ` set (map (\<lambda>e. if P e then failed_entry err n e else e) es) = o_AccountID ` set es"
    by (rule map_key_update image_key_update, rule k)+
  with assms show ?thesis unfolding outbox_ok_def by (auto simp: failed_entry_def simp del: map_map)
qed

lemma mark_outbox_failed_inv: "db_inv d \<Longrightarrow> db_inv (snd (mark_outbox_failed i err n d))"
  unfolding mark_outbox_failed_def
  by (erule sql_inv) (auto simp: db_inv_def outbox_ok_failed)

lemmas statement_invs =
  insert_account_inv delete_account_inv set_pinned_spki_inv upsert_folder_inv
  set_folder_sync_state_inv clear_folder_messages_inv set_setting_inv upsert_pgp_key_inv
  delete_pgp_key_inv set_pgp_trust_inv upsert_message_inv marks_inv delete_local_message_inv
  delete_message_by_uid_inv update_message_flags_inv delete_messages_not_in_inv
  enqueue_outbox_inv mark_outbox_sent_inv mark_outbox_failed_inv

interpretation store: preserving run_op db_inv
proof
  fix d p
  assume "db_inv d"
  then show "db_inv (run_op p d)" by (cases p) (simp_all add: statement_invs)
qed

lemma db_inv_empty: "db_inv empty_db"
  by (simp add: db_inv_def empty_db_def accounts_ok_def folders_ok_def messages_ok_def outbox_ok_def
      settings_ok_def keys_ok_def)

section \<open>Properties\<close>

lemma sql_InrD: "sql stmt d = (Inr a, d') \<Longrightarrow> stmt (d\<lparr>db_faults := tl (db_faults d)\<rparr>) = Inr (a, d')"
  by (auto simp: sql_def Let_def split: sum.splits if_splits)

lemma sql_InlD: "sql stmt d = (Inl e, d') \<Longrightarrow> d' = d\<lparr>db_faults := tl (db_faults d)\<rparr>"
  by (auto simp: sql_def Let_def split: sum.splits if_splits)

lemma sql_no_fault: "db_faults d = [] \<Longrightarrow>
    sql stmt d = (case stmt d of Inl e \<Rightarrow> (Inl e, d) | Inr (a, d') \<Rightarrow> (Inr a, d'))"
proof -
  assume nf: "db_faults d = []"
  then have eq: "d\<lparr>db_faults := tl (db_faults d)\<rparr> = d" by (cases d) simp
  show ?thesis unfolding sql_def Let_def eq using nf by simp
qed

text \<open>C2. Whatever statements of the package run, in whatever order and with whatever statements
  refused by the driver, the tables satisfy the schema: primary keys, the UNIQUE keys of
  accounts, folders, messages, settings and PGP keys, the foreign keys, the CHECKs on the TLS
  modes, no negative retry count and no stored empty setting.\<close>

theorem store_integrity: "db_inv (fold run_op ops (empty_db\<lparr>db_faults := fs\<rparr>))"
  by (rule store.run_inv) (simp add: db_inv_empty)

text \<open>The rows after a successful upsert.\<close>

lemma upsert_message_hit:
  assumes "upsert_message m d = (Inr rid, d')" "old \<in> set (db_messages d)" "message_key old = message_key m"
  shows "\<exists>old \<in> set (db_messages d). message_key old = message_key m \<and> rid = m_ID old
    \<and> merged_message m old \<in> set (db_messages d')"
proof -
  obtain o' where o': "find (\<lambda>r. message_key r = message_key m) (db_messages d) = Some o'"
    using assms(2,3) by (metis (full_types) find_None not_Some_eq)
  then have "o' \<in> set (db_messages d)" "message_key o' = message_key m" by (auto dest: find_Some)
  moreover have "rid = m_ID o'" and "merged_message m o' \<in> set (db_messages d')"
    using o' calculation assms(1) by (auto dest!: sql_InrD simp: upsert_message_def)
  ultimately show ?thesis by blast
qed

lemma upsert_message_miss:
  assumes "upsert_message m d = (Inr rid, d')" "message_key m \<notin> message_key ` set (db_messages d)"
  shows "db_messages d' = db_messages d @ [inserted_message rid m]"
proof -
  have "find (\<lambda>r. message_key r = message_key m) (db_messages d) = None"
    using assms(2) by (metis (mono_tags, lifting) find_None imageI)
  then show ?thesis
    using assms(1) by (auto dest!: sql_InrD simp: upsert_message_def Let_def split: if_splits)
qed

lemma distinct_map_unique:
  "distinct (map k xs) \<Longrightarrow> x \<in> set xs \<Longrightarrow> y \<in> set xs \<Longrightarrow> k x = k y \<Longrightarrow> x = y"
  by (simp add: distinct_map inj_on_def)

text \<open>C23. A message body that has been fetched survives every later envelope-only upsert of the
  same message: after a successful \<open>UpsertMessage\<close> the row with the returned id carries the new
  body when there is one and otherwise the body cached before, its flags are those of the
  argument, and a snooze is kept.\<close>

theorem upsert_keeps_fetched_body:
  assumes inv: "db_inv d" and up: "upsert_message m d = (Inr rid, d')"
    and old: "old \<in> set (db_messages d)" "message_key old = message_key m"
  shows "\<exists>r \<in> set (db_messages d'). m_ID r = rid \<and> rid = m_ID old
    \<and> m_BodyText r = (if m_BodyText m \<noteq> '''' then m_BodyText m else m_BodyText old)
    \<and> m_BodyHTML r = (if m_BodyHTML m \<noteq> '''' then m_BodyHTML m else m_BodyHTML old)
    \<and> m_IsRead r = m_IsRead m \<and> m_IsFlagged r = m_IsFlagged m \<and> m_IsDeleted r = m_IsDeleted m
    \<and> m_SnoozeUntil r = m_SnoozeUntil old"
proof -
  obtain o' where r: "o' \<in> set (db_messages d)" "message_key o' = message_key m"
    "rid = m_ID o'" "merged_message m o' \<in> set (db_messages d')"
    using upsert_message_hit [OF up old] by blast
  have "distinct (map message_key (db_messages d))" using inv by (simp add: db_inv_def messages_ok_def)
  then have "o' = old" using r old by (auto dest: distinct_map_unique)
  with r show ?thesis by (intro bexI [of _ "merged_message m old"]) (auto simp: merged_message_def)
qed

text \<open>\<open>DeleteAccount\<close> of a stored account removes it together with its folders, every message
  of the account or in one of its folders and its queued mail, and touches nothing of the other
  accounts, the settings or the PGP keys.\<close>

theorem delete_account_cascade:
  assumes "delete_account i d = (Inr (), d')"
  shows "i \<in> a_ID ` set (db_accounts d) \<and> i \<notin> a_ID ` set (db_accounts d')
    \<and> i \<notin> f_AccountID ` set (db_folders d') \<and> i \<notin> m_AccountID ` set (db_messages d')
    \<and> i \<notin> o_AccountID ` set (db_outbox d')
    \<and> (\<forall>a. a_ID a \<noteq> i \<longrightarrow> (a \<in> set (db_accounts d') \<longleftrightarrow> a \<in> set (db_accounts d)))
    \<and> (\<forall>f. f_AccountID f \<noteq> i \<longrightarrow> (f \<in> set (db_folders d') \<longleftrightarrow> f \<in> set (db_folders d)))
    \<and> (\<forall>e. o_AccountID e \<noteq> i \<longrightarrow> (e \<in> set (db_outbox d') \<longleftrightarrow> e \<in> set (db_outbox d)))
    \<and> (\<forall>m. m_AccountID m \<noteq> i \<longrightarrow> (m \<in> set (db_messages d') \<longleftrightarrow>
          m \<in> set (db_messages d) \<and> m_FolderID m \<notin> f_ID ` {f \<in> set (db_folders d). f_AccountID f = i}))
    \<and> db_settings d' = db_settings d \<and> db_pgp_keys d' = db_pgp_keys d"
  using sql_InrD [OF assms [unfolded delete_account_def]]
  by (auto simp: Let_def split: if_splits)

subsection \<open>Reconciliation\<close>

lemma delete_stale_ok:
  "delete_stale rids d = (Inr (), d') \<Longrightarrow>
   db_messages d' = filter (\<lambda>m. m_ID m \<notin> set rids) (db_messages d)"
proof (induction rids arbitrary: d)
  case (Cons rid rids)
  let ?st = "sql (\<lambda>d. Inr ((), d\<lparr>db_messages := filter (\<lambda>m. m_ID m \<noteq> rid) (db_messages d)\<rparr>)) d"
  obtain r1 d1 where 1: "?st = (r1, d1)" by fastforce
  with Cons.prems obtain u where r1: "r1 = Inr u" and rest: "delete_stale rids d1 = (Inr (), d')"
    by (auto split: sum.splits)
  have "db_messages d1 = filter (\<lambda>m. m_ID m \<noteq> rid) (db_messages d)"
    using sql_InrD [OF 1 [unfolded r1]] by auto
  with Cons.IH [OF rest] show ?case by (simp add: conj_commute)
qed simp

lemma sql_noop: "sql (\<lambda>d. Inr (f d, d)) d = (r, d') \<Longrightarrow> d' = d\<lparr>db_faults := tl (db_faults d)\<rparr>"
  by (auto simp: sql_def Let_def split: if_splits)

lemma sql_tx_cases:
  assumes "sql_tx body d = (r, d')"
  shows "(\<exists>e. r = Inl e \<and> (\<exists>fs. d' = d\<lparr>db_faults := fs\<rparr>))
    \<or> (\<exists>a d1 d2. r = Inr a \<and> d1 = d\<lparr>db_faults := tl (db_faults d)\<rparr> \<and> body d1 = (Inr a, d2)
        \<and> d' = d2\<lparr>db_faults := tl (db_faults d2)\<rparr>)"
proof -
  obtain r1 d1 where 1: "sql (\<lambda>d. Inr ((), d)) d = (r1, d1)" by fastforce
  then have d1: "d1 = d\<lparr>db_faults := tl (db_faults d)\<rparr>" by (rule sql_noop)
  obtain r2 d2 where 2: "body d1 = (r2, d2)" by fastforce
  obtain r3 d3 where 3: "sql (\<lambda>d. Inr ((), d)) d2 = (r3, d3)" by fastforce
  then have d3: "d3 = d2\<lparr>db_faults := tl (db_faults d2)\<rparr>" by (rule sql_noop)
  from assms 2 d1 d3 show ?thesis
    by (cases r1; cases r2; cases r3) (auto simp: sql_tx_def 1 2 3 rollback_to_def)
qed

text \<open>C24. \<open>DeleteMessagesNotIn\<close> is all or nothing: when it succeeds the cached messages are exactly
  those of other folders, those without a server UID and those whose UID the server still
  reports; when it fails, at whatever statement, no message has been removed.\<close>

theorem delete_messages_not_in_exact:
  assumes inv: "db_inv d" and run: "delete_messages_not_in fid live d = (r, d')"
  shows "db_messages d' =
    (case r of Inl _ \<Rightarrow> db_messages d
     | Inr _ \<Rightarrow> filter (\<lambda>m. \<not> (m_FolderID m = fid \<and> m_UID m > 0 \<and> \<not> live (m_UID m))) (db_messages d))"
proof -
  let ?sel = "\<lambda>d. filter (\<lambda>m. m_FolderID m = fid \<and> m_UID m > 0) (db_messages d)"
  let ?bad = "\<lambda>m. m_FolderID m = fid \<and> m_UID m > 0 \<and> \<not> live (m_UID m)"
  let ?stale = "map m_ID (filter (\<lambda>m. \<not> live (m_UID m)) (?sel d))"
  obtain r1 d1 where 1: "sql (\<lambda>d. Inr (?sel d, d)) d = (r1, d1)" by fastforce
  then have d1: "d1 = d\<lparr>db_faults := tl (db_faults d)\<rparr>" by (rule sql_noop)
  show ?thesis
  proof (cases r1)
    case (Inl e)
    with run 1 d1 show ?thesis by (auto simp: delete_messages_not_in_def)
  next
    case (Inr rows)
    with 1 have rows: "rows = ?sel d" by (auto dest!: sql_InrD)
    have ids: "inj_on m_ID (set (db_messages d))"
      using inv by (simp add: db_inv_def messages_ok_def distinct_map)
    have stale: "m_ID m \<in> set ?stale \<longleftrightarrow> ?bad m" if "m \<in> set (db_messages d)" for m
    proof -
      have "set ?stale = m_ID ` {x \<in> set (db_messages d). ?bad x}" by auto
      then show ?thesis using that inj_on_image_mem_iff [OF ids that, of "{x \<in> set (db_messages d). ?bad x}"]
        by auto
    qed
    have eq: "filter (\<lambda>m. m_ID m \<notin> set ?stale) (db_messages d) = filter (\<lambda>m. \<not> ?bad m) (db_messages d)"
      by (rule filter_cong) (simp_all only: stale)
    show ?thesis
    proof (cases "?stale = []")
      case True
      then have "filter (\<lambda>m. \<not> ?bad m) (db_messages d) = db_messages d"
        using eq by simp
      with True run 1 d1 Inr rows show ?thesis
        by (auto simp: delete_messages_not_in_def Let_def)
    next
      case False
      with run 1 Inr rows have tx: "sql_tx (delete_stale ?stale) d1 = (r, d')"
        by (auto simp: delete_messages_not_in_def Let_def)
      from sql_tx_cases [OF this] show ?thesis
      proof (elim disjE exE conjE)
        fix a d2 d3
        assume r: "r = Inr a" "d2 = d1\<lparr>db_faults := tl (db_faults d1)\<rparr>"
          "delete_stale ?stale d2 = (Inr a, d3)" "d' = d3\<lparr>db_faults := tl (db_faults d3)\<rparr>"
        have "db_messages d3 = filter (\<lambda>m. m_ID m \<notin> set ?stale) (db_messages d2)"
          using r(3) by (intro delete_stale_ok) simp
        with r eq d1 show ?thesis by (simp del: set_map)
      qed (simp add: d1)
    qed
  qed
qed

subsection \<open>List queries\<close>

definition visible_in :: "int \<Rightarrow> int \<Rightarrow> message \<Rightarrow> bool" where
  "visible_in now fid m \<longleftrightarrow> m_FolderID m = fid \<and> \<not> m_IsDeleted m \<and> m_SnoozeUntil m \<le> now"

lemma list_messages_rows:
  "list_messages now fid off lim d = (Inr ms, d') \<Longrightarrow>
   ms = map (scan_message \<circ> header_cols)
          (sql_page off lim (newest_first (filter (visible_in now fid) (db_messages d))))"
  by (auto simp: list_messages_def visible_in_def cong: filter_cong dest!: sql_InrD)

lemma header_simps [simp]:
  "m_ID (scan_message m) = m_ID m" "m_ID (header_cols m) = m_ID m"
  "m_Date (scan_message m) = m_Date m" "m_Date (header_cols m) = m_Date m"
  "m_BodyText (scan_message m) = m_BodyText m" "m_BodyHTML (scan_message m) = m_BodyHTML m"
  "m_BodyText (header_cols m) = ''''" "m_BodyHTML (header_cols m) = ''''"
  by (simp_all add: scan_message_def header_cols_def)

lemma newest_first_sorted: "sorted_wrt (\<lambda>a b. m_Date a \<ge> m_Date b) (newest_first ms)"
proof -
  have "sorted (map (\<lambda>m. (- m_Date m, - int (m_UID m))) (newest_first ms))"
    by (simp add: newest_first_def)
  then show ?thesis
    unfolding sorted_wrt_map by (rule sorted_wrt_mono_rel [rotated]) (auto simp: less_eq_prod_def)
qed

text \<open>The message list pages without gap or overlap: a page is the corresponding cut of the full
  list, the full list runs from newest to oldest and holds exactly the visible messages of the
  folder (not deleted, not snoozed into the future), each with its bodies left out.\<close>

theorem list_messages_pages:
  assumes "list_messages now fid 0 (-1) d = (Inr full, d1)"
    and "list_messages now fid (int k) (int n) d = (Inr page, d2)"
  shows "page = take n (drop k full)
    \<and> sorted_wrt (\<lambda>a b. m_Date a \<ge> m_Date b) full
    \<and> m_ID ` set full = m_ID ` {m \<in> set (db_messages d). visible_in now fid m}
    \<and> list_all (\<lambda>m. m_BodyText m = '''' \<and> m_BodyHTML m = '''') full"
proof -
  let ?v = "newest_first (filter (visible_in now fid) (db_messages d))"
  have full: "full = map (scan_message \<circ> header_cols) ?v"
    using list_messages_rows [OF assms(1)] by (simp add: sql_page_def)
  have page: "page = map (scan_message \<circ> header_cols) (take n (drop k ?v))"
    using list_messages_rows [OF assms(2)] by (simp add: sql_page_def Let_def)
  have "sorted_wrt (\<lambda>a b. m_Date a \<ge> m_Date b) full"
    using newest_first_sorted by (simp add: full sorted_wrt_map)
  moreover have "m_ID ` set full = m_ID ` {m \<in> set (db_messages d). visible_in now fid m}"
    by (force simp: full newest_first_def image_iff)
  ultimately show ?thesis by (simp add: full page take_map drop_map list_all_iff)
qed

subsection \<open>Search expressions\<close>

definition quote_free :: "string \<Rightarrow> bool" where
  "quote_free s \<longleftrightarrow> quote_char \<notin> set s"

definition safe_term :: "string \<Rightarrow> bool" where
  "safe_term t \<longleftrightarrow>
     (\<exists>v. quote_free v \<and>
       (let q = [quote_char] @ v @ [quote_char] @ ''*''
        in t = q \<or> t = ''({from_addr from_name} : '' @ q @ '')'' \<or> t = ''(subject : '' @ q @ '')''))"

lemma drop_quotes_eq: "drop_quotes s = filter (\<lambda>c. c \<noteq> quote_char) s"
proof -
  have "replace_all [c] [] s = filter (\<lambda>x. x \<noteq> c) s" for c
  proof (induction s)
    case Nil
    then show ?case by (simp add: replace_all.simps)
  next
    case (Cons x s)
    then show ?case by (subst replace_all.simps) (simp add: has_prefix_def)
  qed
  then show ?thesis by (simp add: drop_quotes_def)
qed

lemma fts_quote_safe:
  "safe_term (fts_quote v)"
  "safe_term (''({from_addr from_name} : '' @ fts_quote v @ '')'')"
  "safe_term (''(subject : '' @ fts_quote v @ '')'')"
proof -
  have q: "quote_free (drop_quotes v)" by (simp add: quote_free_def drop_quotes_eq)
  then show "safe_term (fts_quote v)"
    unfolding safe_term_def Let_def fts_quote_def by blast
  from q show "safe_term (''({from_addr from_name} : '' @ fts_quote v @ '')'')"
    unfolding safe_term_def Let_def fts_quote_def by blast
  from q show "safe_term (''(subject : '' @ fts_quote v @ '')'')"
    unfolding safe_term_def Let_def fts_quote_def by blast
qed

lemma parse_field_safe:
  "list_all safe_term ts \<Longrightarrow> list_all safe_term (snd (parse_field fld (p, ts)))"
  unfolding parse_field_def Let_def case_prod_conv
  by (simp only: list_all_append list.pred_inject snd_conv fts_quote_safe simp_thms
      split: if_split option.split)

lemma fold_parse_field_safe:
  "list_all safe_term (snd pt) \<Longrightarrow> list_all safe_term (snd (fold parse_field fs pt))"
proof (induction fs arbitrary: pt)
  case (Cons f fs)
  obtain p ts where "pt = (p, ts)" by fastforce
  with Cons.prems have "list_all safe_term (snd (parse_field f pt))"
    by (simp add: parse_field_safe)
  with Cons.IH show ?case by simp
qed simp

text \<open>No search input can break out of its quotes: the expression handed to FTS5 is a blank
  separated sequence of prefix phrases and column-scoped prefix phrases, and the text between the
  quotes of each contains no quote, whatever the user typed.\<close>

theorem parse_query_safe:
  "\<exists>terms. pq_fts (parse_query input) = join_with '' '' terms \<and> list_all safe_term terms"
proof -
  let ?p0 = "(\<lparr>pq_fts = '''', pq_hasAttachment = False, pq_unread = False,
              pq_before = zero_time, pq_after = zero_time\<rparr>, [])"
  obtain p ts where pt: "fold parse_field (str_fields input) ?p0 = (p, ts)" by fastforce
  have "list_all safe_term ts"
    using fold_parse_field_safe [of ?p0 "str_fields input"] by (simp add: pt)
  then show ?thesis by (intro exI [of _ ts]) (simp add: parse_query_def pt)
qed

subsection \<open>Migrations\<close>

definition migration_state :: "nat \<Rightarrow> db \<Rightarrow> bool" where
  "migration_state v d \<longleftrightarrow> v \<le> length migrations \<and> db_applied d = take v migrations
     \<and> (db_version d = [int v] \<or> v = 0 \<and> db_version d = [])"

lemma migration_state_faults [simp]: "migration_state v (d\<lparr>db_faults := fs\<rparr>) = migration_state v d"
  by (simp add: migration_state_def)

lemma apply_migration_ok:
  assumes "apply_migration v d = (Inr a, d')" "v < length migrations" "migration_state v d"
  shows "migration_state (Suc v) d'"
proof -
  let ?s1 = "sql (\<lambda>d. Inr ((), d\<lparr>db_applied := db_applied d @ [migrations ! v]\<rparr>)) d"
  obtain r1 d1 where 1: "?s1 = (r1, d1)" by fastforce
  let ?s2 = "sql (\<lambda>d. Inr ((), d\<lparr>db_version := []\<rparr>)) d1"
  obtain r2 d2 where 2: "?s2 = (r2, d2)" by fastforce
  from assms(1) 1 2 obtain u1 u2 where r: "r1 = Inr u1" "r2 = Inr u2"
    and 3: "sql (\<lambda>d. Inr ((), d\<lparr>db_version := db_version d @ [int v + 1]\<rparr>)) d2 = (Inr a, d')"
    by (auto simp: apply_migration_def split: sum.splits)
  show ?thesis
    using sql_InrD [OF 1 [unfolded r]] sql_InrD [OF 2 [unfolded r]] sql_InrD [OF 3] assms(2,3)
    by (auto simp: migration_state_def take_Suc_conv_app_nth)
qed

lemma migrate_from_state:
  "migrate_from v d = (r, d') \<Longrightarrow> migration_state v d \<Longrightarrow>
   \<exists>w \<ge> v. migration_state w d' \<and> (r = Inr () \<longrightarrow> w = length migrations)"
proof (induction v d rule: migrate_from.induct)
  case (1 v d)
  show ?case
  proof (cases "v < length migrations")
    case True
    obtain r1 d1 where tx: "sql_tx (apply_migration v) d = (r1, d1)" by fastforce
    show ?thesis
    proof (cases r1)
      case (Inl e)
      with 1 True tx have "r = Inl e" "d' = d1" by (auto simp: migrate_from.simps [of v d])
      moreover obtain fs where "d1 = d\<lparr>db_faults := fs\<rparr>"
        using sql_tx_cases [OF tx] Inl by auto
      ultimately show ?thesis using 1 by auto
    next
      case (Inr u)
      from sql_tx_cases [OF tx] Inr have "migration_state (Suc v) d1"
        using apply_migration_ok [OF _ True] 1(3) by fastforce
      moreover have "migrate_from (Suc v) d1 = (r, d')"
        using 1(2) True tx Inr by (simp add: migrate_from.simps [of v d])
      ultimately show ?thesis using 1(1) [OF True tx [symmetric] Inr] by (meson Suc_leD)
    qed
  next
    case False
    with 1 show ?thesis by (auto simp: migrate_from.simps [of v d] migration_state_def)
  qed
qed

text \<open>C22. Migrations run in order and each exactly once: started on a database at version \<open>v\<close>,
  \<open>migrate\<close> either succeeds with all five applied and version 5 recorded, or fails, at whatever
  statement, with a database that is exactly at some version between \<open>v\<close> and 5, so that the next
  start resumes there.\<close>

theorem migrate_resumable:
  assumes st: "migration_state v d" and run: "migrate d = (r, d')"
  shows "\<exists>w \<ge> v. migration_state w d' \<and> (r = Inr () \<longrightarrow> w = 5 \<and> db_applied d' = [1, 2, 3, 4, 5])"
proof -
  obtain r1 d1 where 1: "sql (\<lambda>d. Inr ((), d)) d = (r1, d1)" by fastforce
  have d1: "d1 = d\<lparr>db_faults := tl (db_faults d)\<rparr>" using 1 by (rule sql_noop)
  obtain r2 d2 where 2: "get_schema_version d1 = (r2, d2)" by fastforce
  have d2: "d2 = d1\<lparr>db_faults := tl (db_faults d1)\<rparr>" using 2 [unfolded get_schema_version_def]
    by (rule sql_noop)
  have st2: "migration_state v d2" using st by (simp add: d1 d2)
  have w: "migration_state w d' \<Longrightarrow> w = length migrations \<Longrightarrow> w = 5 \<and> db_applied d' = [1, 2, 3, 4, 5]" for w
    by (auto simp: migration_state_def migrations_def)
  show ?thesis
  proof (cases "(\<exists>e. r1 = Inl e) \<or> (\<exists>e. r2 = Inl e)")
    case True
    then have "(d' = d1 \<or> d' = d2) \<and> r \<noteq> Inr ()" using run 1 2 by (auto simp: migrate_def split: sum.splits)
    then show ?thesis using st st2 by (auto simp: d1)
  next
    case False
    then obtain u n where r: "r1 = Inr u" "r2 = Inr n" by (cases r1; cases r2) auto
    have "n = (case db_version d1 of [] \<Rightarrow> 0 | x # _ \<Rightarrow> x)"
      using sql_InrD [OF 2 [unfolded r get_schema_version_def]] by simp
    then have "nat n = v" using st by (auto simp: d1 migration_state_def)
    then have "migrate_from v d2 = (r, d')" using run 1 2 r by (simp add: migrate_def)
    from migrate_from_state [OF this st2] w show ?thesis by blast
  qed
qed

section \<open>Witnesses\<close>

definition sample_account :: account where
  "sample_account = \<lparr>a_ID = 1, a_DisplayName = ''A'', a_EmailAddress = ''a@x'', a_IMAPHost = ''h'',
     a_IMAPPort = 993, a_IMAPTLS = ''tls'', a_SMTPHost = ''h'', a_SMTPPort = 465, a_SMTPTLS = ''tls'',
     a_Username = ''a'', a_KeystoreAlias = ''k'', a_CreatedAt = 1, a_PinnedSPKI = '''', a_AuthMech = ''''\<rparr>"

definition sample_folder :: folder where
  "sample_folder = \<lparr>f_ID = 1, f_AccountID = 1, f_Name = ''INBOX'', f_FullName = ''INBOX'',
     f_Delimiter = '''', f_UIDValidity = 7, f_HighestModSeq = 0, f_IsInbox = True, f_IsSent = False,
     f_IsDrafts = False, f_IsTrash = False, f_IsArchive = False\<rparr>"

definition sample_message :: message where
  "sample_message = \<lparr>m_ID = 1, m_AccountID = 1, m_FolderID = 1, m_UID = 4, m_ThreadID = ''t'',
     m_MessageID = ''i'', m_InReplyTo = '''', m_FromAddr = ''b@y'', m_FromName = '''', m_ToAddrs = ''a@x'',
     m_CcAddrs = '''', m_Subject = ''s'', m_Snippet = ''n'', m_BodyText = ''body'', m_BodyHTML = '''',
     m_HasAttachments = False, m_PGPStatus = '''', m_PGPSigVerified = False, m_IsRead = False,
     m_IsFlagged = False, m_IsDeleted = False, m_Date = 5, m_SizeBytes = 9, m_Flags = '''',
     m_HasTrackers = False, m_IsList = False, m_ListUnsubscribe = '''', m_SnoozeUntil = 0,
     m_Attachments = ''''\<rparr>"

definition sample_db :: db where
  "sample_db = empty_db\<lparr>db_accounts := [sample_account], db_folders := [sample_folder],
     db_messages := [sample_message, sample_message\<lparr>m_ID := 2, m_UID := 5, m_Date := 8\<rparr>]\<rparr>"

lemmas sample_defs = sample_account_def sample_folder_def sample_message_def sample_db_def empty_db_def

lemma sample_db_inv: "db_inv sample_db"
  by (simp add: sample_defs db_inv_def accounts_ok_def folders_ok_def messages_ok_def outbox_ok_def
      settings_ok_def keys_ok_def folder_key_def message_key_def)

lemma sample_db_faults [simp]: "db_faults sample_db = []"
  by (simp add: sample_defs)

theorem upsert_keeps_fetched_body_witness:
  "\<exists>r \<in> set (db_messages (snd (upsert_message (sample_message\<lparr>m_BodyText := '''', m_IsRead := True\<rparr>) sample_db))).
     m_ID r = 1 \<and> m_BodyText r = ''body'' \<and> m_IsRead r"
proof -
  let ?m = "sample_message\<lparr>m_BodyText := '''', m_IsRead := True\<rparr>"
  have "fst (upsert_message ?m sample_db) = Inr 1"
    by (simp add: upsert_message_def sql_no_fault sample_defs message_key_def)
  then have "upsert_message ?m sample_db = (Inr 1, snd (upsert_message ?m sample_db))"
    by (metis prod.collapse)
  from upsert_keeps_fetched_body [OF sample_db_inv this, of sample_message] show ?thesis
    by (auto simp: message_key_def sample_db_def) (auto simp: sample_message_def)
qed

theorem delete_account_cascade_witness:
  "1 \<notin> m_AccountID ` set (db_messages (snd (delete_account 1 sample_db)))"
proof -
  have "fst (delete_account 1 sample_db) = Inr ()"
    by (simp add: delete_account_def sql_no_fault sample_defs)
  then have "delete_account 1 sample_db = (Inr (), snd (delete_account 1 sample_db))"
    by (metis prod.collapse)
  from delete_account_cascade [OF this] show ?thesis by blast
qed

theorem delete_messages_not_in_exact_witness:
  "map m_UID (db_messages (snd (delete_messages_not_in 1 (\<lambda>u. u = 5) sample_db))) = [5]"
proof -
  have "fst (delete_messages_not_in 1 (\<lambda>u. u = 5) sample_db) = Inr ()"
    by (simp add: delete_messages_not_in_def sql_tx_def sql_no_fault sample_defs)
  then have "delete_messages_not_in 1 (\<lambda>u. u = 5) sample_db
      = (Inr (), snd (delete_messages_not_in 1 (\<lambda>u. u = 5) sample_db))"
    by (metis prod.collapse)
  from delete_messages_not_in_exact [OF sample_db_inv this] show ?thesis
    by (simp add: sample_defs)
qed

theorem list_messages_pages_witness:
  "\<exists>page d'. list_messages 100 1 1 1 sample_db = (Inr page, d') \<and> length page = 1
     \<and> list_all (\<lambda>m. m_BodyText m = '''') page"
proof -
  obtain full where f: "list_messages 100 1 0 (-1) sample_db = (Inr full, sample_db)"
    by (simp add: list_messages_def sql_no_fault)
  obtain page where p: "list_messages 100 1 (int 1) (int 1) sample_db = (Inr page, sample_db)"
    by (simp add: list_messages_def sql_no_fault)
  have "length full = 2"
    using list_messages_rows [OF f] by (simp add: sql_page_def newest_first_def visible_in_def sample_defs)
  with list_messages_pages [OF f p] p show ?thesis
    by (auto simp: list_all_iff dest: in_set_takeD in_set_dropD)
qed

theorem migrate_resumable_witness:
  "db_applied (snd (migrate (empty_db\<lparr>db_version := [3], db_applied := [1, 2, 3]\<rparr>))) = [1, 2, 3, 4, 5]"
proof -
  let ?d = "empty_db\<lparr>db_version := [3], db_applied := [1, 2, 3]\<rparr>"
  have "fst (migrate ?d) = Inr ()"
    by (simp add: migrate_def get_schema_version_def sql_tx_def apply_migration_def sql_no_fault
        migrate_from.simps migrations_def empty_db_def)
  then have "migrate ?d = (Inr (), snd (migrate ?d))" by (metis prod.collapse)
  from migrate_resumable [OF _ this, of 3] show ?thesis
    by (simp add: migration_state_def migrations_def)
qed

section \<open>Two defects\<close>

text \<open>The argument of \<open>UpsertMessage\<close> that carries the attachment list has no placeholder, so the
  column is NULL in every row, for every sequence of statements.\<close>

definition no_attachments :: "db \<Rightarrow> bool" where
  "no_attachments d \<longleftrightarrow> (\<forall>m \<in> set (db_messages d). m_Attachments m = '''')"

lemma no_attachments_faults [simp]: "no_attachments (d\<lparr>db_faults := fs\<rparr>) = no_attachments d"
  by (simp add: no_attachments_def)

lemma sql_no_attachments:
  assumes "no_attachments d" "\<And>d a d'. no_attachments d \<Longrightarrow> stmt d = Inr (a, d') \<Longrightarrow> no_attachments d'"
  shows "no_attachments (snd (sql stmt d))"
  by (rule sql_preserves [of no_attachments])
    (use assms(1) assms(2) [of "d\<lparr>db_faults := tl (db_faults d)\<rparr>"] in simp_all)

lemma sql_keeps_messages:
  assumes "no_attachments d" "\<And>d a d'. stmt d = Inr (a, d') \<Longrightarrow> db_messages d' = db_messages d"
  shows "no_attachments (snd (sql stmt d))"
  using assms by (elim sql_no_attachments) (simp add: no_attachments_def)

lemmas other_table_defs =
  insert_account_def set_pinned_spki_def upsert_folder_def set_folder_sync_state_def set_setting_def
  upsert_pgp_key_def delete_pgp_key_def set_pgp_trust_def enqueue_outbox_def mark_outbox_sent_def
  mark_outbox_failed_def

lemma other_tables_no_attachments:
  assumes "no_attachments d"
  shows "no_attachments (snd (insert_account now a d))" "no_attachments (snd (set_pinned_spki i s d))"
    "no_attachments (snd (upsert_folder f d))" "no_attachments (snd (set_folder_sync_state i u ms d))"
    "no_attachments (snd (set_setting k v d))" "no_attachments (snd (upsert_pgp_key now key d))"
    "no_attachments (snd (delete_pgp_key fp d))" "no_attachments (snd (set_pgp_trust fp l d))"
    "no_attachments (snd (enqueue_outbox now i raw d))" "no_attachments (snd (mark_outbox_sent i d))"
    "no_attachments (snd (mark_outbox_failed i err n d))"
  unfolding other_table_defs using assms
  by (auto elim!: sql_keeps_messages simp: Let_def split: if_splits option.splits)

lemma delete_stale_no_attachments: "no_attachments d \<Longrightarrow> no_attachments (snd (delete_stale rids d))"
proof (induction rids arbitrary: d)
  case (Cons rid rids)
  let ?st = "sql (\<lambda>d. Inr ((), d\<lparr>db_messages := filter (\<lambda>m. m_ID m \<noteq> rid) (db_messages d)\<rparr>)) d"
  have "no_attachments (snd ?st)"
    using Cons.prems by (rule sql_no_attachments) (auto simp: no_attachments_def)
  with Cons.IH show ?case by (auto split: sum.splits prod.splits)
qed simp

lemma delete_not_in_no_attachments:
  assumes "no_attachments d" shows "no_attachments (snd (delete_messages_not_in f live d))"
proof -
  let ?q = "sql (\<lambda>d. Inr (filter (\<lambda>m. m_FolderID m = f \<and> m_UID m > 0) (db_messages d), d)) d"
  obtain r1 d1 where 1: "?q = (r1, d1)" by fastforce
  have d1: "no_attachments d1" using sql_noop [OF 1] assms by simp
  have "no_attachments (snd (sql_tx (delete_stale rids) d1))" for rids
  proof -
    obtain r d' where tx: "sql_tx (delete_stale rids) d1 = (r, d')" by fastforce
    have body: "delete_stale rids (d1\<lparr>db_faults := fs\<rparr>) = (Inr a, d2) \<Longrightarrow> no_attachments d2" for fs a d2
      using delete_stale_no_attachments [of "d1\<lparr>db_faults := fs\<rparr>" rids] d1 by simp
    show ?thesis using sql_tx_cases [OF tx] d1 body by (auto simp: tx)
  qed
  then show ?thesis using d1 by (auto simp: delete_messages_not_in_def 1 Let_def split: sum.splits)
qed

lemma message_ops_no_attachments:
  assumes "no_attachments d"
  shows "no_attachments (snd (upsert_message m d))" "no_attachments (snd (delete_account i d))"
    "no_attachments (snd (clear_folder_messages i d))" "no_attachments (snd (delete_local_message i d))"
    "no_attachments (snd (delete_message_by_uid f u d))" "no_attachments (snd (update_message_flags m d))"
    "no_attachments (snd (set_read i b d))" "no_attachments (snd (set_flagged i b d))"
    "no_attachments (snd (set_deleted i b d))" "no_attachments (snd (set_snooze i t d))"
  unfolding upsert_message_def delete_account_def clear_folder_messages_def delete_local_message_def
    delete_message_by_uid_def update_message_flags_def mark_defs update_message_row_def
  using assms
  by (auto elim!: sql_no_attachments split: if_splits option.splits)
    (auto simp: no_attachments_def Let_def inserted_message_def merged_message_def split: if_splits option.splits)

interpretation attachments: preserving run_op no_attachments
proof
  fix d p
  assume "no_attachments d"
  then show "no_attachments (run_op p d)"
    by (cases p) (simp_all add: other_tables_no_attachments message_ops_no_attachments
        delete_not_in_no_attachments)
qed

text \<open>The attachment list that the IMAP engine hands to \<open>UpsertMessage\<close> never reaches the database:
  after any sequence of statements every stored message has an empty attachment list.\<close>

theorem attachments_never_stored:
  "list_all (\<lambda>m. m_Attachments m = '''') (db_messages (fold run_op ops (empty_db\<lparr>db_faults := fs\<rparr>)))"
proof -
  have "no_attachments (fold run_op ops (empty_db\<lparr>db_faults := fs\<rparr>))"
    by (rule attachments.run_inv) (simp add: no_attachments_def empty_db_def)
  then show ?thesis by (simp add: no_attachments_def list_all_iff)
qed

text \<open>The pinned TLS key of an account given to \<open>InsertAccount\<close> is not stored: reading the new
  account back gives the account as passed, except for an empty pin.\<close>

theorem insert_account_drops_pin:
  assumes "db_inv d" "insert_account now a d = (Inr (rid, a'), d')" "db_faults d' = []"
  shows "fst (get_account rid d') = Inr (a'\<lparr>a_PinnedSPKI := ''''\<rparr>)
    \<and> a_PinnedSPKI a' = a_PinnedSPKI a \<and> a_EmailAddress a' = a_EmailAddress a"
proof -
  have *: "find (\<lambda>x. a_ID x = i) (xs @ [y]) = Some y" if "i \<notin> a_ID ` set xs" "a_ID y = i" for xs y i
    using that by (induction xs) auto
  have fresh: "rid \<notin> a_ID ` set (db_accounts d)" and a': "a_ID a' = rid"
    and acc: "db_accounts d' = db_accounts d @ [a'\<lparr>a_PinnedSPKI := ''''\<rparr>]"
    and eq: "a_PinnedSPKI a' = a_PinnedSPKI a" "a_EmailAddress a' = a_EmailAddress a"
    using sql_InrD [OF assms(2) [unfolded insert_account_def]]
    by (auto simp: Let_def fresh_image split: if_splits)
  have "find (\<lambda>x. a_ID x = rid) (db_accounts d') = Some (a'\<lparr>a_PinnedSPKI := ''''\<rparr>)"
    unfolding acc by (rule *) (use fresh a' in simp_all)
  with eq show ?thesis by (simp add: get_account_def sql_no_fault assms(3))
qed

theorem insert_account_drops_pin_witness:
  "\<exists>rid a' d'. insert_account 7 (sample_account\<lparr>a_EmailAddress := ''n@x'', a_PinnedSPKI := ''pin''\<rparr>) sample_db
       = (Inr (rid, a'), d')
     \<and> a_PinnedSPKI a' = ''pin'' \<and> fst (get_account rid d') = Inr (a'\<lparr>a_PinnedSPKI := ''''\<rparr>)"
proof -
  let ?a = "sample_account\<lparr>a_EmailAddress := ''n@x'', a_PinnedSPKI := ''pin''\<rparr>"
  have "fst (insert_account 7 ?a sample_db) = Inr (2, ?a\<lparr>a_ID := 2\<rparr>)
      \<and> db_faults (snd (insert_account 7 ?a sample_db)) = []"
    by (simp add: insert_account_def sql_no_fault Let_def sample_defs new_id_def zero_time_def)
  then obtain rid a' d' where r: "insert_account 7 ?a sample_db = (Inr (rid, a'), d')" "db_faults d' = []"
    by (metis prod.collapse)
  from insert_account_drops_pin [OF sample_db_inv r] r show ?thesis by auto
qed

end
