(* ===== verification/Smtp.thy ===== *)
theory Smtp
  imports StoreLaws "HOL-Library.Sublist"
begin

text \<open>
  Package \<open>internal/mail/smtpsend\<close>: drafts and their header (\<open>compose.go\<close>), the canonical form
  and framing of signed mail (\<open>sign.go\<close>), delivery (\<open>client.go\<close>) and the outbox loop
  (\<open>outbox.go\<close>). The MIME library that parses and writes messages and the SMTP client are not
  part of the repository: the parsed address lists and the outcome of each SMTP call are
  arguments.
\<close>

section \<open>Drafts\<close>

record attachment =
  at_Filename :: string
  at_ContentType :: string
  at_Data :: bytes

record draft =
  d_FromName :: string
  d_FromAddr :: string
  d_To :: "string list"
  d_Cc :: "string list"
  d_Bcc :: "string list"
  d_Subject :: string
  d_TextBody :: string
  d_Attachments :: "attachment list"

definition recipients :: "draft \<Rightarrow> string list" where
  "recipients d = d_To d @ d_Cc d @ d_Bcc d"

datatype compose_error = NoFrom | NoRecipients | EmptyBody | EmptyCanonical | NoSignature | NoBoundary

text \<open>The header fields \<open>draftHeader\<close> sets; the date and the random part of the message id are left
  out, the host of the message id is kept.\<close>

record draft_header =
  h_From :: "string \<times> string"
  h_To :: "string list"
  h_Cc :: "string list"
  h_Bcc :: "string list"
  h_Subject :: string
  h_MessageIDHost :: string

definition draft_header_of :: "draft \<Rightarrow> compose_error + draft_header" where
  "draft_header_of d =
     (if d_FromAddr d = '''' then Inl NoFrom
      else if d_To d = [] \<and> d_Cc d = [] \<and> d_Bcc d = [] then Inl NoRecipients
      else Inr \<lparr>h_From = (d_FromName d, d_FromAddr d), h_To = d_To d, h_Cc = d_Cc d, h_Bcc = d_Bcc d,
             h_Subject = d_Subject d,
             h_MessageIDHost = (case last_char_index CHR ''@'' (d_FromAddr d) of
                                  None \<Rightarrow> ''vayumail.invalid''
                                | Some i \<Rightarrow> drop (i + 1) (d_FromAddr d))\<rparr>)"

text \<open>\<open>writeAttachment\<close>: the content type an attachment is written with.\<close>

definition attachment_type :: "attachment \<Rightarrow> string" where
  "attachment_type a = (if at_ContentType a = '''' then ''application/octet-stream'' else at_ContentType a)"

section \<open>Signed mail\<close>

definition to_crlf :: "string \<Rightarrow> string" where
  "to_crlf s = replace_all lf crlf (replace_all crlf lf s)"

definition signed_part_header :: string where
  "signed_part_header = ''Mime-Version: 1.0'' @ crlf @ ''Content-Type: text/plain; charset=utf-8'' @ crlf
     @ ''Content-Transfer-Encoding: 8bit'' @ crlf @ crlf"

definition canonical_signed_part :: "draft \<Rightarrow> compose_error + bytes" where
  "canonical_signed_part d =
     (if trim_space (d_TextBody d) = '''' then Inl EmptyBody
      else (let body = to_crlf (d_TextBody d)
            in Inr (signed_part_header @ body @ (if has_suffix crlf body then '''' else crlf))))"

text \<open>The hand-framed body of \<open>BuildPGPSigned\<close>; \<open>write_header\<close> is the MIME library's rendering of
  the top-level header, up to and including its blank line.\<close>

definition signed_frame :: "string \<Rightarrow> bytes \<Rightarrow> string \<Rightarrow> bytes" where
  "signed_frame boundary canonical sig =
     ''--'' @ boundary @ crlf @ canonical @ crlf
     @ ''--'' @ boundary @ crlf
     @ ''Content-Type: application/pgp-signature; name='' @ [quote_char] @ ''signature.asc'' @ [quote_char] @ crlf
     @ crlf @ sig @ (if has_suffix crlf sig then '''' else crlf)
     @ ''--'' @ boundary @ ''--'' @ crlf"

definition build_pgp_signed ::
  "(draft_header \<Rightarrow> string \<Rightarrow> bytes) \<Rightarrow> string option \<Rightarrow> draft \<Rightarrow> bytes \<Rightarrow> bytes \<Rightarrow> compose_error + bytes" where
  "build_pgp_signed write_header boundary d canonical armoredSig =
     (if canonical = [] then Inl EmptyCanonical
      else if \<not> contains_str ''-----BEGIN PGP SIGNATURE-----'' armoredSig then Inl NoSignature
      else (case draft_header_of d of
              Inl e \<Rightarrow> Inl e
            | Inr h \<Rightarrow>
                (case boundary of
                   None \<Rightarrow> Inl NoBoundary
                 | Some b \<Rightarrow> Inr (write_header h b @ signed_frame b canonical (to_crlf armoredSig)))))"

section \<open>The wire\<close>

text \<open>\<open>bufio.ScanLines\<close>: lines end at LF, one CR before it is dropped, a final line without LF is
  delivered when it is not empty. A line of a megabyte or more overflows the scanner.\<close>

definition drop_cr :: "string \<Rightarrow> string" where
  "drop_cr l = (if l \<noteq> [] \<and> last l = CHR 0x0D then butlast l else l)"

definition raw_lines :: "string \<Rightarrow> string list" where
  "raw_lines s = (let ls = split_on CHR 0x0A s in if last ls = [] then butlast ls else ls)"

definition max_line :: nat where "max_line = 1048576"

definition scan_lines :: "string \<Rightarrow> string list option" where
  "scan_lines s = (let ls = raw_lines s in if list_all (\<lambda>l. length l < max_line) ls then Some (map drop_cr ls) else None)"

definition equal_fold_prefix :: "string \<Rightarrow> string \<Rightarrow> bool" where
  "equal_fold_prefix s p \<longleftrightarrow> \<not> length s < length p \<and> equal_fold (take (length p) s) p"

fun strip_lines :: "bool \<Rightarrow> bool \<Rightarrow> string list \<Rightarrow> string list" where
  "strip_lines inHeader skipping [] = []"
| "strip_lines inHeader skipping (line # ls) =
     (if \<not> inHeader then line # strip_lines inHeader skipping ls
      else if line = '''' then line # strip_lines False False ls
      else if skipping \<and> (hd line = CHR '' '' \<or> hd line = CHR 0x09) then strip_lines True True ls
      else if 4 \<le> length line \<and> equal_fold_prefix line ''bcc:'' then strip_lines True True ls
      else line # strip_lines True False ls)"

definition unlines_crlf :: "string list \<Rightarrow> bytes" where
  "unlines_crlf ls = concat (map (\<lambda>l. l @ crlf) ls)"

definition strip_bcc :: "bytes \<Rightarrow> bytes option" where
  "strip_bcc raw = map_option (\<lambda>ls. unlines_crlf (strip_lines True False ls)) (scan_lines raw)"

section \<open>Sending\<close>

datatype send_error =
    ParseOutbox
  | OutboxNoFrom
  | OutboxNoRecipients
  | StripBcc
  | FetchCredential string
  | BadTLSMode string
  | Dial string
  | AuthRejected string
  | AuthFailed string
  | Cancelled
  | SendFailed string
  | QuitFailed string

definition send_error_text :: "send_error \<Rightarrow> string" where
  "send_error_text e = (case e of
     ParseOutbox \<Rightarrow> ''smtpsend: parse outbox message''
   | OutboxNoFrom \<Rightarrow> ''smtpsend: outbox message has no From''
   | OutboxNoRecipients \<Rightarrow> ''smtpsend: outbox message has no recipients''
   | StripBcc \<Rightarrow> ''smtpsend: strip bcc''
   | FetchCredential t \<Rightarrow> ''smtpsend: fetch credential: '' @ t
   | BadTLSMode t \<Rightarrow> ''smtpsend: unsupported TLS mode '' @ t
   | Dial t \<Rightarrow> ''smtpsend: dial '' @ t
   | AuthRejected t \<Rightarrow> ''smtpsend: authentication failed: '' @ t
   | AuthFailed t \<Rightarrow> ''smtpsend: auth: '' @ t
   | Cancelled \<Rightarrow> ''context canceled''
   | SendFailed t \<Rightarrow> ''smtpsend: send: '' @ t
   | QuitFailed t \<Rightarrow> ''smtpsend: quit: '' @ t)"

text \<open>What the network does during one delivery: the error of each call, if any. \<open>so_code\<close> is the
  SMTP status of a failing AUTH.\<close>

record smtp_outcome =
  so_cred :: "string option"
  so_dial :: "string option"
  so_auth :: "(int \<times> string) option"
  so_cancel :: bool
  so_mail :: "string option"
  so_quit :: "string option"

text \<open>\<open>Send\<close>: the error, and what SendMail was handed and accepted.\<close>

definition send ::
  "string \<Rightarrow> smtp_outcome \<Rightarrow> string list \<Rightarrow> bytes \<Rightarrow> send_error option \<times> bytes option" where
  "send tlsmode o' rcpts wire =
     (if rcpts = [] then (Some OutboxNoRecipients, None)
      else if tlsmode \<noteq> ''tls'' \<and> tlsmode \<noteq> ''starttls'' then (Some (BadTLSMode tlsmode), None)
      else (case so_dial o' of
        Some t \<Rightarrow> (Some (Dial t), None)
      | None \<Rightarrow>
          (case so_auth o' of
             Some (code, t) \<Rightarrow> (Some (if code \<ge> 500 then AuthRejected t else AuthFailed t), None)
           | None \<Rightarrow>
               if so_cancel o' then (Some Cancelled, None)
               else (case so_mail o' of
                       Some t \<Rightarrow> (Some (SendFailed t), None)
                     | None \<Rightarrow>
                         (case so_quit o' of
                            Some t \<Rightarrow> (Some (QuitFailed t), Some wire)
                          | None \<Rightarrow> (None, Some wire))))))"

text \<open>The parsed header of a stored message: the address list of a field, if it parses.\<close>

type_synonym parsed_header = "string \<Rightarrow> string list option"

definition envelope_from_raw ::
  "(bytes \<Rightarrow> parsed_header option) \<Rightarrow> bytes \<Rightarrow> send_error + string \<times> string list" where
  "envelope_from_raw parse raw =
     (case parse raw of
        None \<Rightarrow> Inl ParseOutbox
      | Some h \<Rightarrow>
          (case h ''From'' of
             None \<Rightarrow> Inl OutboxNoFrom
           | Some [] \<Rightarrow> Inl OutboxNoFrom
           | Some (from # _) \<Rightarrow>
               (let rcpts = concat (map (\<lambda>k. case h k of None \<Rightarrow> [] | Some l \<Rightarrow> l) [''To'', ''Cc'', ''Bcc''])
                in if rcpts = [] then Inl OutboxNoRecipients else Inr (from, rcpts))))"

definition send_entry ::
  "(bytes \<Rightarrow> parsed_header option) \<Rightarrow> string \<Rightarrow> smtp_outcome \<Rightarrow> outbox_entry \<Rightarrow> send_error option \<times> bytes option" where
  "send_entry parse tlsmode o' e =
     (case envelope_from_raw parse (o_RawMessage e) of
        Inl err \<Rightarrow> (Some err, None)
      | Inr (from, rcpts) \<Rightarrow>
          (case strip_bcc (o_RawMessage e) of
             None \<Rightarrow> (Some StripBcc, None)
           | Some wire \<Rightarrow>
               (case so_cred o' of
                  Some t \<Rightarrow> (Some (FetchCredential t), None)
                | None \<Rightarrow> send tlsmode o' rcpts wire)))"

section \<open>The outbox loop\<close>

text \<open>\<open>retryBase << uint(n)\<close> on a 64-bit duration.\<close>

definition retry_base :: int where "retry_base = minute"

definition shift_duration :: "int \<Rightarrow> int \<Rightarrow> int" where
  "shift_duration d n = (if n < 0 \<or> 64 \<le> n then 0 else wrap64 (d * 2 ^ nat n))"

text \<open>Per entry: whether the context was cancelled before it, the network's outcome, and the time at
  which a failure is recorded.\<close>

record send_ctx =
  sc_cancelled :: bool
  sc_outcome :: smtp_outcome
  sc_now :: int

datatype outbox_error = ContextDone | OutboxDB store_error

text \<open>The log of a run: what \<open>onResult\<close> was called with, and the bytes accepted by the server.\<close>

record outbox_log =
  ol_results :: "(int \<times> send_error option) list"
  ol_delivered :: "(int \<times> bytes) list"

fun process_entries ::
  "(bytes \<Rightarrow> parsed_header option) \<Rightarrow> string \<Rightarrow> (outbox_entry \<Rightarrow> send_ctx) \<Rightarrow> int \<Rightarrow> outbox_entry list \<Rightarrow>
   outbox_log \<Rightarrow> db \<Rightarrow> (outbox_error + unit) \<times> outbox_log \<times> db" where
  "process_entries parse tls ctx acct [] lg d = (Inr (), lg, d)"
| "process_entries parse tls ctx acct (e # es) lg d =
     (if o_AccountID e \<noteq> acct then process_entries parse tls ctx acct es lg d
      else if sc_cancelled (ctx e) then (Inl ContextDone, lg, d)
      else (case send_entry parse tls (sc_outcome (ctx e)) e of
        (sendErr, wire) \<Rightarrow>
          (let lg1 = (case wire of None \<Rightarrow> lg | Some w \<Rightarrow> lg\<lparr>ol_delivered := ol_delivered lg @ [(o_ID e, w)]\<rparr>);
               lg2 = lg1\<lparr>ol_results := ol_results lg1 @ [(o_ID e, sendErr)]\<rparr>
           in (case sendErr of
                 None \<Rightarrow>
                   (case mark_outbox_sent (o_ID e) d of
                      (Inl er, d') \<Rightarrow> (Inl (OutboxDB er), lg1, d')
                    | (Inr _, d') \<Rightarrow> process_entries parse tls ctx acct es lg2 d')
               | Some err \<Rightarrow>
                   (case mark_outbox_failed (o_ID e) (send_error_text err)
                           (unix_sec (sc_now (ctx e) + shift_duration retry_base (o_RetryCount e))) d of
                      (Inl er, d') \<Rightarrow> (Inl (OutboxDB er), lg1, d')
                    | (Inr _, d') \<Rightarrow> process_entries parse tls ctx acct es lg2 d')))))"

definition process_outbox ::
  "(bytes \<Rightarrow> parsed_header option) \<Rightarrow> string \<Rightarrow> (outbox_entry \<Rightarrow> send_ctx) \<Rightarrow> int \<Rightarrow> int \<Rightarrow> db \<Rightarrow>
   (outbox_error + unit) \<times> outbox_log \<times> db" where
  "process_outbox parse tls ctx now acct d =
     (case due_outbox (unix_sec now) d of
        (Inl er, d') \<Rightarrow> (Inl (OutboxDB er), \<lparr>ol_results = [], ol_delivered = []\<rparr>, d')
      | (Inr entries, d') \<Rightarrow>
          process_entries parse tls ctx acct entries \<lparr>ol_results = [], ol_delivered = []\<rparr> d')"

section \<open>Lines\<close>

abbreviation lf_free :: "string \<Rightarrow> bool" where "lf_free l \<equiv> CHR 0x0A \<notin> set l"

lemma split_on_append:
  "d \<notin> set l \<Longrightarrow> split_on d (l @ d # s) = l # split_on d s"
  by (induction l) auto

lemma split_on_no_sep_id: "d \<notin> set l \<Longrightarrow> split_on d l = [l]"
  by (induction l) auto

lemma raw_lines_Cons: "lf_free l \<Longrightarrow> raw_lines (l @ CHR 0x0A # s) = l # raw_lines s"
  by (simp add: raw_lines_def split_on_append Let_def)

lemma raw_lines_Nil [simp]: "raw_lines [] = []"
  by (simp add: raw_lines_def)

lemma unlines_crlf_Cons [simp]: "unlines_crlf (l # ls) = l @ crlf @ unlines_crlf ls"
  by (simp add: unlines_crlf_def)

lemma unlines_crlf_Nil [simp]: "unlines_crlf [] = []"
  by (simp add: unlines_crlf_def)

lemma unlines_crlf_append: "unlines_crlf (ls @ ls') = unlines_crlf ls @ unlines_crlf ls'"
  by (simp add: unlines_crlf_def)

lemma raw_lines_unlines:
  "list_all lf_free ls \<Longrightarrow> raw_lines (unlines_crlf ls @ s) = map (\<lambda>l. l @ [CHR 0x0D]) ls @ raw_lines s"
proof (induction ls)
  case (Cons l ls)
  then have "raw_lines ((l @ [CHR 0x0D]) @ CHR 0x0A # unlines_crlf ls @ s)
      = (l @ [CHR 0x0D]) # raw_lines (unlines_crlf ls @ s)"
    by (intro raw_lines_Cons) simp
  with Cons show ?case by (simp add: crlf_def)
qed simp

lemma drop_cr_snoc [simp]: "drop_cr (l @ [CHR 0x0D]) = l"
  by (simp add: drop_cr_def)

lemma scan_unlines:
  assumes "scan_lines (unlines_crlf ls @ s) = Some xs" "list_all lf_free ls"
  shows "\<exists>ys. scan_lines s = Some ys \<and> xs = ls @ ys"
  using assms by (auto simp: scan_lines_def Let_def raw_lines_unlines comp_def split: if_splits)

lemma scan_lines_lf_free: "scan_lines s = Some ls \<Longrightarrow> list_all lf_free ls"
proof -
  assume "scan_lines s = Some ls"
  then have ls: "ls = map drop_cr (raw_lines s)" by (auto simp: scan_lines_def Let_def split: if_splits)
  have "set (raw_lines s) \<subseteq> set (split_on CHR 0x0A s)"
    by (auto simp: raw_lines_def Let_def dest: in_set_butlastD)
  moreover have "set (drop_cr l) \<subseteq> set l" for l by (auto simp: drop_cr_def dest: in_set_butlastD)
  ultimately show ?thesis using split_on_no_sep unfolding ls by (fastforce simp: list_all_iff)
qed

section \<open>Bcc\<close>

definition header_of :: "string list \<Rightarrow> string list" where
  "header_of ls = takeWhile (\<lambda>l. l \<noteq> []) ls"

definition body_of :: "string list \<Rightarrow> string list" where
  "body_of ls = dropWhile (\<lambda>l. l \<noteq> []) ls"

lemma strip_lines_body [simp]: "strip_lines False sk ls = ls"
  by (induction ls) auto

lemma bcc_length: "equal_fold_prefix l ''bcc:'' \<Longrightarrow> 4 \<le> length l"
  by (simp add: equal_fold_prefix_def)

lemma strip_lines_facts:
  "list_all (\<lambda>l. \<not> equal_fold_prefix l ''bcc:'') (header_of (strip_lines True sk ls))
   \<and> body_of (strip_lines True sk ls) = body_of ls \<and> subseq (strip_lines True sk ls) ls"
proof (induction ls arbitrary: sk)
  case (Cons l ls)
  consider "l = ''''" | "l \<noteq> ''''" "sk \<and> (hd l = CHR '' '' \<or> hd l = CHR 0x09) \<or> equal_fold_prefix l ''bcc:''"
    | "l \<noteq> ''''" "\<not> (sk \<and> (hd l = CHR '' '' \<or> hd l = CHR 0x09))" "\<not> equal_fold_prefix l ''bcc:''" by blast
  then show ?case
  proof cases
    case 1
    then show ?thesis by (simp add: header_of_def body_of_def)
  next
    case 2
    then have eq: "strip_lines True sk (l # ls) = strip_lines True True ls"
      using bcc_length [of l] by auto
    show ?thesis using 2(1) Cons.IH [of True] unfolding eq
      by (simp add: header_of_def body_of_def list_emb_Cons)
  next
    case 3
    then have eq: "strip_lines True sk (l # ls) = l # strip_lines True False ls"
      by auto
    show ?thesis using 3 Cons.IH [of False] unfolding eq by (simp add: header_of_def body_of_def)
  qed
qed (simp add: header_of_def body_of_def)

lemma subseq_list_all: "subseq xs ys \<Longrightarrow> list_all P ys \<Longrightarrow> list_all P xs"
  by (induction rule: list_emb.induct) auto


section \<open>Signed mail survives the wire\<close>

text \<open>A text all of whose lines end in CRLF.\<close>

definition crlf_text :: "string \<Rightarrow> bool" where
  "crlf_text s \<longleftrightarrow> (\<exists>ls. list_all lf_free ls \<and> s = unlines_crlf ls)"

lemma crlf_text_append: "crlf_text s \<Longrightarrow> crlf_text t \<Longrightarrow> crlf_text (s @ t)"
  unfolding crlf_text_def by (metis list_all_append unlines_crlf_append)

lemma crlf_text_line: "lf_free l \<Longrightarrow> crlf_text (l @ crlf)"
  unfolding crlf_text_def by (intro exI [of _ "[l]"]) simp

lemma replace_lf: "replace_all lf crlf s = concat (map (\<lambda>c. if c = CHR 0x0A then crlf else [c]) s)"
proof (induction s)
  case Nil
  then show ?case by (simp add: replace_all.simps)
next
  case (Cons c s)
  then show ?case by (subst replace_all.simps) (simp add: has_prefix_def lf_def)
qed

lemma to_crlf_shape: "\<exists>ls l. list_all lf_free ls \<and> lf_free l \<and> to_crlf s = unlines_crlf ls @ l"
proof -
  have "\<exists>ls l. list_all lf_free ls \<and> lf_free l
      \<and> concat (map (\<lambda>c. if c = CHR 0x0A then crlf else [c]) t) = unlines_crlf ls @ l" for t
  proof (induction t)
    case Nil
    show ?case by (intro exI [of _ "[]"]) simp
  next
    case (Cons c t)
    then obtain ls l where ih: "list_all lf_free ls" "lf_free l"
      "concat (map (\<lambda>c. if c = CHR 0x0A then crlf else [c]) t) = unlines_crlf ls @ l" by blast
    show ?case
    proof (cases "c = CHR 0x0A")
      case True
      with ih show ?thesis by (intro exI [of _ "[] # ls"] exI [of _ l]) simp
    next
      case False
      show ?thesis
      proof (cases ls)
        case Nil
        with False ih show ?thesis by (intro exI [of _ "[]"] exI [of _ "c # l"]) simp
      next
        case (Cons k ks)
        with False ih show ?thesis by (intro exI [of _ "(c # k) # ks"] exI [of _ l]) simp
      qed
    qed
  qed
  then show ?thesis by (simp add: to_crlf_def replace_lf)
qed

lemma to_crlf_closed: "crlf_text (to_crlf s @ (if has_suffix crlf (to_crlf s) then '''' else crlf))"
proof -
  obtain ls l where s: "list_all lf_free ls" "lf_free l" "to_crlf s = unlines_crlf ls @ l"
    using to_crlf_shape by blast
  show ?thesis
  proof (cases "has_suffix crlf (to_crlf s)")
    case True
    then have "l = [] \<or> CHR 0x0A \<in> set l"
      using s(3) by (cases l rule: rev_cases) (auto simp: has_suffix_iff crlf_def)
    with s True show ?thesis by (auto simp: crlf_text_def)
  next
    case False
    with s show ?thesis
      by (auto simp: crlf_text_def unlines_crlf_append intro!: exI [of _ "ls @ [l]"])
  qed
qed

lemma canonical_crlf: "canonical_signed_part d = Inr c \<Longrightarrow> crlf_text c"
proof -
  assume c: "canonical_signed_part d = Inr c"
  have h: "crlf_text signed_part_header"
    unfolding signed_part_header_def crlf_text_def
    by (intro exI [of _ "[''Mime-Version: 1.0'', ''Content-Type: text/plain; charset=utf-8'',
        ''Content-Transfer-Encoding: 8bit'', '''']"]) simp
  have "c = signed_part_header @ to_crlf (d_TextBody d)
      @ (if has_suffix crlf (to_crlf (d_TextBody d)) then '''' else crlf)"
    using c by (auto simp: canonical_signed_part_def Let_def split: if_splits)
  then show ?thesis using crlf_text_append [OF h to_crlf_closed] by simp
qed

lemma signed_frame_crlf:
  assumes "lf_free b" "crlf_text c"
  shows "crlf_text (signed_frame b c (to_crlf sig))"
proof -
  have 1: "crlf_text ((''--'' @ b) @ crlf)" using assms(1) by (intro crlf_text_line) simp
  have 2: "crlf_text ([] @ crlf)" by (rule crlf_text_line) simp
  have 3: "crlf_text ((''Content-Type: application/pgp-signature; name='' @ [quote_char] @ ''signature.asc''
      @ [quote_char]) @ crlf)" by (rule crlf_text_line) simp
  have 4: "crlf_text ((''--'' @ b @ ''--'') @ crlf)" using assms(1) by (intro crlf_text_line) simp
  show ?thesis unfolding signed_frame_def
    using crlf_text_append [OF 1 crlf_text_append [OF assms(2) crlf_text_append [OF 2
      crlf_text_append [OF 1 crlf_text_append [OF 3 crlf_text_append [OF 2
        crlf_text_append [OF to_crlf_closed [of sig] 4]]]]]]] by simp
qed

lemma strip_lines_append:
  "list_all (\<lambda>l. l \<noteq> []) hs \<Longrightarrow> strip_lines True sk (hs @ [] # ls) = strip_lines True sk hs @ [] # ls"
  by (induction hs arbitrary: sk) auto

text \<open>C27. A signed message reaches the wire with its signed part byte for byte as it was signed: for a
  message built from a canonical part and a boundary without line feed, under any header of
  non-empty lines, the bytes after the header's blank line that are sent are exactly the framed
  canonical part and signature, although the header has been rewritten.\<close>

theorem signed_part_unchanged_on_wire:
  assumes c: "canonical_signed_part d = Inr c" and b: "lf_free b"
    and hdr: "list_all (\<lambda>l. l \<noteq> [] \<and> lf_free l) hs"
    and wire: "strip_bcc (unlines_crlf hs @ crlf @ signed_frame b c (to_crlf sig)) = Some wire"
  shows "\<exists>hs'. wire = unlines_crlf hs' @ crlf @ signed_frame b c (to_crlf sig) \<and> subseq hs' hs
    \<and> list_all (\<lambda>l. \<not> equal_fold_prefix l ''bcc:'') hs'"
proof -
  obtain fs where fs: "list_all lf_free fs" "signed_frame b c (to_crlf sig) = unlines_crlf fs"
    using signed_frame_crlf [OF b canonical_crlf [OF c]] by (auto simp: crlf_text_def)
  have raw: "unlines_crlf hs @ crlf @ signed_frame b c (to_crlf sig) = unlines_crlf (hs @ [] # fs) @ []"
    by (simp add: unlines_crlf_append fs)
  have free: "list_all lf_free (hs @ [] # fs)" using hdr fs(1) by (auto simp: list_all_iff)
  obtain ls where ls: "scan_lines (unlines_crlf (hs @ [] # fs) @ []) = Some ls"
    "wire = unlines_crlf (strip_lines True False ls)"
    using wire unfolding raw by (auto simp: strip_bcc_def)
  have "ls = hs @ [] # fs" using scan_unlines [OF ls(1) free] by (simp add: scan_lines_def)
  moreover have ne: "list_all (\<lambda>l. l \<noteq> []) hs" using hdr by (auto simp: list_all_iff)
  ultimately have w: "wire = unlines_crlf (strip_lines True False hs) @ crlf @ signed_frame b c (to_crlf sig)"
    by (simp add: ls(2) strip_lines_append unlines_crlf_append fs(2))
  note f = strip_lines_facts [of False hs]
  have "list_all (\<lambda>l. l \<noteq> []) (strip_lines True False hs)" using f ne by (blast intro: subseq_list_all)
  then have "header_of (strip_lines True False hs) = strip_lines True False hs"
    by (simp add: header_of_def takeWhile_eq_all_conv list_all_iff)
  with f w show ?thesis by (intro exI [of _ "strip_lines True False hs"]) simp
qed

section \<open>The outbox loop\<close>

text \<open>What becomes of a row when its entry has been tried: gone after a success, rescheduled after a
  failure.\<close>

definition tried_row ::
  "(bytes \<Rightarrow> parsed_header option) \<Rightarrow> string \<Rightarrow> (outbox_entry \<Rightarrow> send_ctx) \<Rightarrow> outbox_entry \<Rightarrow> outbox_entry \<Rightarrow> outbox_entry option" where
  "tried_row parse tls ctx e x =
     (case fst (send_entry parse tls (sc_outcome (ctx e)) e) of
        None \<Rightarrow> None
      | Some err \<Rightarrow> Some (failed_entry (send_error_text err)
          (unix_sec (sc_now (ctx e) + shift_duration retry_base (o_RetryCount e))) x))"

definition row_after ::
  "(bytes \<Rightarrow> parsed_header option) \<Rightarrow> string \<Rightarrow> (outbox_entry \<Rightarrow> send_ctx) \<Rightarrow> int \<Rightarrow> int \<Rightarrow> outbox_entry \<Rightarrow> outbox_entry option" where
  "row_after parse tls ctx now acct x =
     (if outbox_due (unix_sec now) x \<and> o_AccountID x = acct then tried_row parse tls ctx x x else Some x)"

definition tried_rows ::
  "(bytes \<Rightarrow> parsed_header option) \<Rightarrow> string \<Rightarrow> (outbox_entry \<Rightarrow> send_ctx) \<Rightarrow> int \<Rightarrow> outbox_entry list \<Rightarrow> outbox_entry \<Rightarrow> outbox_entry option" where
  "tried_rows parse tls ctx acct es x =
     (case find (\<lambda>e. o_ID e = o_ID x \<and> o_AccountID e = acct) es of
        None \<Rightarrow> Some x | Some e \<Rightarrow> tried_row parse tls ctx e x)"


lemma map_filter_cong: "(\<And>x. x \<in> set xs \<Longrightarrow> f x = g x) \<Longrightarrow> List.map_filter f xs = List.map_filter g xs"
  by (induction xs) (auto simp: List.map_filter_simps split: option.splits)

lemma failed_entry_simps [simp]:
  "o_ID (failed_entry t n x) = o_ID x" "o_AccountID (failed_entry t n x) = o_AccountID x"
  "o_RawMessage (failed_entry t n x) = o_RawMessage x" "o_RetryCount (failed_entry t n x) = o_RetryCount x + 1"
  "o_MaxRetries (failed_entry t n x) = o_MaxRetries x" "o_NextAttempt (failed_entry t n x) = n"
  "o_QueuedAt (failed_entry t n x) = o_QueuedAt x"
  by (simp_all add: failed_entry_def)

lemma find_distinct_None:
  "o_ID e \<notin> o_ID ` set es \<Longrightarrow> o_ID x = o_ID e \<Longrightarrow> find (\<lambda>e. o_ID e = o_ID x \<and> P e) es = None"
  unfolding find_None by (metis imageI)

lemma process_entries_rows:
  assumes "db_faults d = []" "distinct (map o_ID es)" "\<forall>e \<in> set es. \<not> sc_cancelled (ctx e)"
  shows "\<exists>lg' d'. process_entries parse tls ctx acct es lg d = (Inr (), lg', d') \<and> db_faults d' = []
    \<and> db_outbox d' = List.map_filter (tried_rows parse tls ctx acct es) (db_outbox d)
    \<and> d'\<lparr>db_outbox := db_outbox d\<rparr> = d"
  using assms
proof (induction es arbitrary: lg d)
  case Nil
  then show ?case by (simp add: tried_rows_def List.map_filter_def)
next
  case (Cons e es)
  let ?T = "tried_rows parse tls ctx acct"
  show ?case
  proof (cases "o_AccountID e = acct")
    case False
    have "?T (e # es) = ?T es" using False by (auto simp: tried_rows_def fun_eq_iff)
    with Cons False show ?thesis by simp
  next
    case True
    have fresh: "o_ID e \<notin> o_ID ` set es" using Cons.prems(2) by simp
    obtain err wire where s: "send_entry parse tls (sc_outcome (ctx e)) e = (err, wire)" by fastforce
    define g where "g x = (if o_ID x = o_ID e then tried_row parse tls ctx e x else Some x)" for x
    define d1 where "d1 = d\<lparr>db_outbox := List.map_filter g (db_outbox d)\<rparr>"
    obtain lg1 where 1: "process_entries parse tls ctx acct (e # es) lg d = process_entries parse tls ctx acct es lg1 d1"
    proof (cases err)
      case None
      have "filter (\<lambda>x. o_ID x \<noteq> o_ID e) xs = List.map_filter g xs" for xs
        by (induction xs) (auto simp: g_def tried_row_def s None List.map_filter_simps)
      then have "mark_outbox_sent (o_ID e) d = (Inr (), d1)"
        using Cons.prems(1) by (simp add: mark_outbox_sent_def sql_no_fault d1_def)
      with True s None Cons.prems(3) that show thesis by (simp add: Let_def)
    next
      case (Some er)
      let ?n = "unix_sec (sc_now (ctx e) + shift_duration retry_base (o_RetryCount e))"
      have "map (\<lambda>x. if o_ID x = o_ID e then failed_entry (send_error_text er) ?n x else x) xs
          = List.map_filter g xs" for xs
        by (induction xs) (auto simp: g_def tried_row_def s Some List.map_filter_simps)
      then have "mark_outbox_failed (o_ID e) (send_error_text er) ?n d = (Inr (), d1)"
        using Cons.prems(1) by (simp add: mark_outbox_failed_def sql_no_fault d1_def)
      with True s Some Cons.prems(3) that show thesis by (simp add: Let_def)
    qed
    have d1: "db_faults d1 = []" using Cons.prems(1) by (simp add: d1_def)
    obtain lg' d' where 2: "process_entries parse tls ctx acct es lg1 d1 = (Inr (), lg', d')" "db_faults d' = []"
      "db_outbox d' = List.map_filter (?T es) (db_outbox d1)" "d'\<lparr>db_outbox := db_outbox d1\<rparr> = d1"
      using Cons.IH [OF d1, of lg1] Cons.prems by auto
    have comp: "List.map_filter (?T es) (List.map_filter g xs) = List.map_filter (?T (e # es)) xs" for xs
    proof (induction xs)
      case (Cons x xs)
      show ?case
      proof (cases "o_ID x = o_ID e")
        case True': True
        have "find (\<lambda>e. o_ID e = o_ID x \<and> o_AccountID e = acct) es = None"
          using fresh True' by (rule find_distinct_None)
        then have "?T es x = Some x" "?T es (failed_entry t n x) = Some (failed_entry t n x)" for t n
          by (simp_all add: tried_rows_def)
        with Cons True True' show ?thesis
          by (cases "tried_row parse tls ctx e x")
            (auto simp: g_def List.map_filter_simps tried_rows_def [of _ _ _ _ "e # es"] tried_row_def
              split: option.splits)
      next
        case False
        then have "?T (e # es) x = ?T es x" by (simp add: tried_rows_def)
        with Cons False show ?thesis by (simp add: g_def List.map_filter_simps split: option.split)
      qed
    qed (simp add: List.map_filter_simps)
    have "d'\<lparr>db_outbox := db_outbox d\<rparr> = d"
      using arg_cong [OF 2(4), of "\<lambda>z. z\<lparr>db_outbox := db_outbox d\<rparr>"] by (simp add: d1_def)
    with 1 2 comp show ?thesis by (simp add: d1_def)
  qed
qed

text \<open>The outbox loop does exactly what the queue promises: with no statement refused and no
  cancellation, afterwards every row that was not due or belongs to another account is as
  before, every due row whose delivery succeeded is gone, and every due row whose delivery
  failed has one more attempt on record, the error text, and its next attempt put off by a
  minute doubled per earlier attempt; nothing else in the database changes.\<close>

theorem process_outbox_exact:
  assumes inv: "db_inv d" and nf: "db_faults d = []" and nc: "\<And>e. \<not> sc_cancelled (ctx e)"
  shows "\<exists>lg d'. process_outbox parse tls ctx now acct d = (Inr (), lg, d')
    \<and> db_outbox d' = List.map_filter (row_after parse tls ctx now acct) (db_outbox d)
    \<and> d'\<lparr>db_outbox := db_outbox d\<rparr> = d"
proof -
  let ?es = "sort_key o_QueuedAt (filter (outbox_due (unix_sec now)) (db_outbox d))"
  have due: "due_outbox (unix_sec now) d = (Inr ?es, d)" using nf by (simp add: due_outbox_def sql_no_fault)
  have dist: "distinct (map o_ID (db_outbox d))" using inv by (simp add: db_inv_def outbox_ok_def)
  then have "distinct (map o_ID (filter (outbox_due (unix_sec now)) (db_outbox d)))" by (rule distinct_map_filter)
  then have des: "distinct (map o_ID ?es)" by (simp add: distinct_map)
  obtain lg d' where r: "process_entries parse tls ctx acct ?es \<lparr>ol_results = [], ol_delivered = []\<rparr> d = (Inr (), lg, d')"
    "db_outbox d' = List.map_filter (tried_rows parse tls ctx acct ?es) (db_outbox d)" "d'\<lparr>db_outbox := db_outbox d\<rparr> = d"
    using process_entries_rows [OF nf des, of ctx parse tls acct] nc by blast
  have "tried_rows parse tls ctx acct ?es x = row_after parse tls ctx now acct x" if x: "x \<in> set (db_outbox d)" for x
  proof (cases "find (\<lambda>e. o_ID e = o_ID x \<and> o_AccountID e = acct) ?es")
    case None
    then have "\<not> (outbox_due (unix_sec now) x \<and> o_AccountID x = acct)" using x by (auto simp: find_None)
    with None show ?thesis by (auto simp: tried_rows_def row_after_def)
  next
    case (Some e)
    then have e: "e \<in> set ?es" "o_ID e = o_ID x" "o_AccountID e = acct" by (auto dest: find_Some)
    then have "e = x" using dist x by (auto dest: distinct_map_unique)
    with e Some show ?thesis by (auto simp: tried_rows_def row_after_def)
  qed
  then have "List.map_filter (tried_rows parse tls ctx acct ?es) (db_outbox d)
      = List.map_filter (row_after parse tls ctx now acct) (db_outbox d)"
    by (rule map_filter_cong)
  with r due show ?thesis by (simp add: process_outbox_def)
qed

text \<open>A send that reports success handed the server the message without its Bcc field.\<close>

lemma send_delivered:
  "send tls o' rc w = (err, wire) \<Longrightarrow> (err = None \<longrightarrow> wire = Some w) \<and> (wire = None \<or> wire = Some w)
     \<and> (\<forall>t. err = Some (QuitFailed t) \<longrightarrow> wire = Some w)"
  by (auto simp: send_def split: option.splits if_splits)

lemma send_entry_delivered:
  "send_entry parse tls o' e = (err, wire) \<Longrightarrow>
   (err = None \<longrightarrow> wire \<noteq> None) \<and> (\<forall>w. wire = Some w \<longrightarrow> strip_bcc (o_RawMessage e) = Some w)
   \<and> (\<forall>t. err = Some (QuitFailed t) \<longrightarrow> wire \<noteq> None)"
proof -
  assume s: "send_entry parse tls o' e = (err, wire)"
  show ?thesis
  proof (cases "\<exists>from rc w. envelope_from_raw parse (o_RawMessage e) = Inr (from, rc)
      \<and> strip_bcc (o_RawMessage e) = Some w \<and> so_cred o' = None")
    case True
    then obtain rc w where "strip_bcc (o_RawMessage e) = Some w" "send tls o' rc w = (err, wire)"
      using s by (auto simp: send_entry_def)
    then show ?thesis using send_delivered [of tls o' rc w err wire] by auto
  next
    case False
    have "envelope_from_raw parse (o_RawMessage e) \<noteq> Inl (QuitFailed t)" for t
      by (auto simp: envelope_from_raw_def Let_def split: option.splits list.splits if_splits)
    then show ?thesis using s False
      by (auto simp: send_entry_def split: sum.splits option.splits)
  qed
qed

lemma sent_rows:
  "mark_outbox_sent i d = (r, d') \<Longrightarrow> x \<in> set (db_outbox d) \<Longrightarrow> o_ID x \<noteq> i \<Longrightarrow> x \<in> set (db_outbox d')"
  by (cases r) (auto simp: mark_outbox_sent_def dest!: sql_InrD sql_InlD)

lemma failed_rows:
  "mark_outbox_failed i t n d = (r, d') \<Longrightarrow> x \<in> set (db_outbox d) \<Longrightarrow>
   x \<in> set (db_outbox d') \<or> failed_entry t n x \<in> set (db_outbox d')"
  by (cases r) (auto simp: mark_outbox_failed_def dest!: sql_InrD sql_InlD)

definition queued_in :: "outbox_entry \<Rightarrow> db \<Rightarrow> bool" where
  "queued_in x d \<longleftrightarrow> (\<exists>y \<in> set (db_outbox d). o_ID y = o_ID x \<and> o_RawMessage y = o_RawMessage x)"

lemma process_entries_delivered_mono:
  "process_entries parse tls ctx acct es lg d = (r, lg', d') \<Longrightarrow> set (ol_delivered lg) \<subseteq> set (ol_delivered lg')"
proof (induction es arbitrary: lg d)
  case (Cons e es)
  obtain err wire where s: "send_entry parse tls (sc_outcome (ctx e)) e = (err, wire)" by fastforce
  show ?case using Cons.prems Cons.IH
    by (cases err; cases wire)
      (fastforce simp: s Let_def split: if_splits prod.splits sum.splits)+
qed auto

lemma process_entries_no_loss:
  assumes "process_entries parse tls ctx acct es lg d = (r, lg', d')"
    and "queued_in x d"
    and "\<forall>e \<in> set es. o_ID e = o_ID x \<longrightarrow> o_RawMessage e = o_RawMessage x"
  shows "queued_in x d' \<or> (\<exists>w. (o_ID x, w) \<in> set (ol_delivered lg') \<and> strip_bcc (o_RawMessage x) = Some w)"
  using assms
proof (induction es arbitrary: lg d)
  case (Cons e es)
  obtain err wire where s: "send_entry parse tls (sc_outcome (ctx e)) e = (err, wire)" by fastforce
  note deliv = send_entry_delivered [OF s]
  define lg1 where "lg1 = (case wire of None \<Rightarrow> lg | Some w \<Rightarrow> lg\<lparr>ol_delivered := ol_delivered lg @ [(o_ID e, w)]\<rparr>)"
  define lg2 where "lg2 = lg1\<lparr>ol_results := ol_results lg1 @ [(o_ID e, err)]\<rparr>"
  have rest: "\<forall>e \<in> set es. o_ID e = o_ID x \<longrightarrow> o_RawMessage e = o_RawMessage x" using Cons.prems(3) by simp
  show ?case
  proof (cases "o_AccountID e \<noteq> acct \<or> sc_cancelled (ctx e)")
    case True
    with Cons.prems Cons.IH [OF _ Cons.prems(2) rest] show ?thesis by (auto split: if_splits)
  next
    case False
    show ?thesis
    proof (cases err)
      case None
      obtain rm dm where mk: "mark_outbox_sent (o_ID e) d = (rm, dm)" by fastforce
      have run: "(rm = Inr () \<and> process_entries parse tls ctx acct es lg2 dm = (r, lg', d')) \<or> (lg' = lg1 \<and> d' = dm)"
        using Cons.prems(1) False s None mk
        by (cases rm) (auto simp: Let_def lg1_def lg2_def split: option.splits)
      show ?thesis
      proof (cases "o_ID e = o_ID x")
        case True
        obtain w where w: "wire = Some w" "strip_bcc (o_RawMessage x) = Some w"
          using deliv None True Cons.prems(3) by auto
        then have "(o_ID x, w) \<in> set (ol_delivered lg1)" "(o_ID x, w) \<in> set (ol_delivered lg2)"
          by (simp_all add: lg1_def lg2_def True)
        then have "(o_ID x, w) \<in> set (ol_delivered lg')"
          using run process_entries_delivered_mono [of parse tls ctx acct es lg2 dm r lg' d'] by auto
        with w show ?thesis by blast
      next
        case False
        then have "queued_in x dm" using Cons.prems(2) sent_rows [OF mk] by (metis queued_in_def)
        with run Cons.IH [of lg2 dm] rest show ?thesis by auto
      qed
    next
      case (Some er)
      let ?n = "unix_sec (sc_now (ctx e) + shift_duration retry_base (o_RetryCount e))"
      obtain rm dm where mk: "mark_outbox_failed (o_ID e) (send_error_text er) ?n d = (rm, dm)" by fastforce
      have run: "(rm = Inr () \<and> process_entries parse tls ctx acct es lg2 dm = (r, lg', d')) \<or> d' = dm"
        using Cons.prems(1) False s Some mk
        by (cases rm) (auto simp: Let_def lg1_def lg2_def split: option.splits)
      have "queued_in x dm" using Cons.prems(2) failed_rows [OF mk]
        unfolding queued_in_def by (metis failed_entry_simps(1,3))
      with run Cons.IH [of lg2 dm] rest show ?thesis by auto
    qed
  qed
qed simp

text \<open>C14. No queued message is ever lost: whatever the network does, whatever statements are refused
  and wherever the run is cancelled, every message in the outbox is afterwards still queued
  with its bytes intact, or the server has accepted it, without its Bcc field.\<close>

theorem outbox_no_loss:
  assumes inv: "db_inv d" and run: "process_outbox parse tls ctx now acct d = (r, lg, d')"
    and x: "x \<in> set (db_outbox d)"
  shows "queued_in x d' \<or> (\<exists>w. (o_ID x, w) \<in> set (ol_delivered lg) \<and> strip_bcc (o_RawMessage x) = Some w)"
proof -
  obtain rd d1 where due: "due_outbox (unix_sec now) d = (rd, d1)" by fastforce
  have q: "queued_in x d" using x by (auto simp: queued_in_def)
  have d1: "db_outbox d1 = db_outbox d" using due unfolding due_outbox_def by (auto dest!: sql_noop)
  show ?thesis
  proof (cases rd)
    case (Inl e)
    with run due q d1 show ?thesis by (auto simp: process_outbox_def queued_in_def)
  next
    case (Inr es)
    then have es: "set es \<subseteq> set (db_outbox d)"
      using due unfolding due_outbox_def by (auto dest!: sql_InrD)
    have "distinct (map o_ID (db_outbox d))" using inv by (simp add: db_inv_def outbox_ok_def)
    then have same: "\<forall>e \<in> set es. o_ID e = o_ID x \<longrightarrow> o_RawMessage e = o_RawMessage x"
      using es x by (metis distinct_map_unique subsetD)
    have "queued_in x d1" using q d1 by (simp add: queued_in_def)
    moreover have "process_entries parse tls ctx acct es \<lparr>ol_results = [], ol_delivered = []\<rparr> d1 = (r, lg, d')"
      using run due Inr by (simp add: process_outbox_def)
    ultimately show ?thesis using same by (intro process_entries_no_loss)
  qed
qed

text \<open>The retry ladder: each failed delivery of an entry with the schema's five attempts adds one
  attempt and waits 1, 2, 4, 8, then 16 minutes, computed without overflow; after the fifth the
  entry is a dead letter and never due again, before that it is due from its next attempt on.\<close>

theorem retry_ladder:
  assumes "tried_row parse tls ctx e e = Some e'" "o_MaxRetries e = 5" "0 \<le> o_RetryCount e" "o_RetryCount e < 5"
  shows "o_RetryCount e' = o_RetryCount e + 1
    \<and> o_NextAttempt e' = unix_sec (sc_now (ctx e) + minute * 2 ^ nat (o_RetryCount e))
    \<and> (o_RetryCount e' = 5 \<longrightarrow> \<not> outbox_due t e')
    \<and> (o_RetryCount e' < 5 \<longrightarrow> outbox_due t e' = (o_NextAttempt e' \<le> t))"
proof -
  obtain er where e': "e' = failed_entry (send_error_text er)
      (unix_sec (sc_now (ctx e) + shift_duration retry_base (o_RetryCount e))) e"
    using assms(1) by (auto simp: tried_row_def split: option.splits)
  have "(2::int) ^ nat (o_RetryCount e) \<le> 2 ^ 4" using assms(4) by (intro power_increasing) auto
  then have "shift_duration retry_base (o_RetryCount e) = minute * 2 ^ nat (o_RetryCount e)"
  proof -
    assume b: "(2::int) ^ nat (o_RetryCount e) \<le> 2 ^ 4"
    have "0 \<le> (2::int) ^ nat (o_RetryCount e)" by simp
    then have "0 \<le> minute * 2 ^ nat (o_RetryCount e)" by simp
    moreover have "min_int64 \<le> 0" by simp
    ultimately have "min_int64 \<le> minute * 2 ^ nat (o_RetryCount e)" by (rule order_trans [rotated])
    moreover have "minute * 2 ^ nat (o_RetryCount e) \<le> minute * 2 ^ 4"
      using b by (intro mult_left_mono) simp_all
    then have "minute * 2 ^ nat (o_RetryCount e) \<le> max_int64" by simp
    ultimately show ?thesis using assms(3,4) by (simp add: shift_duration_def retry_base_def)
  qed
  with e' assms show ?thesis by (auto simp: outbox_due_def)
qed

text \<open>A message can be delivered twice: when the server accepted it and only the closing QUIT fails,
  the entry is treated as failed and becomes due again.\<close>

theorem quit_error_resends:
  assumes "fst (send_entry parse tls (sc_outcome (ctx e)) e) = Some (QuitFailed t)"
    and "o_RetryCount e + 1 < o_MaxRetries e"
  shows "(\<exists>w. snd (send_entry parse tls (sc_outcome (ctx e)) e) = Some w)
    \<and> (\<exists>e'. tried_row parse tls ctx e e = Some e' \<and> o_RawMessage e' = o_RawMessage e
        \<and> outbox_due (o_NextAttempt e') e')"
proof -
  have "\<exists>w. snd (send_entry parse tls (sc_outcome (ctx e)) e) = Some w"
    using assms(1) send_entry_delivered [of parse tls "sc_outcome (ctx e)" e]
    by (metis not_None_eq prod.collapse)
  with assms show ?thesis by (auto simp: tried_row_def outbox_due_def)
qed

section \<open>Witnesses\<close>

definition plain_raw :: bytes where
  "plain_raw = ''From: a@x'' @ crlf @ ''Bcc: s@z'' @ crlf @ ''To: b@y'' @ crlf @ crlf @ ''hi'' @ crlf"

definition plain_parse :: "bytes \<Rightarrow> parsed_header option" where
  "plain_parse raw = Some [''From'' \<mapsto> [''a@x''], ''To'' \<mapsto> [''b@y''], ''Bcc'' \<mapsto> [''s@z'']]"

definition good_net :: smtp_outcome where
  "good_net = \<lparr>so_cred = None, so_dial = None, so_auth = None, so_cancel = False, so_mail = None, so_quit = None\<rparr>"

definition plain_entry :: outbox_entry where
  "plain_entry = \<lparr>o_ID = 1, o_AccountID = 1, o_RawMessage = plain_raw, o_RetryCount = 0, o_MaxRetries = 5,
     o_NextAttempt = 3, o_LastError = '''', o_QueuedAt = 3\<rparr>"

definition plain_ctx :: "smtp_outcome \<Rightarrow> outbox_entry \<Rightarrow> send_ctx" where
  "plain_ctx net e = \<lparr>sc_cancelled = False, sc_outcome = net, sc_now = 10 * second\<rparr>"

lemma plain_lines:
  "scan_lines plain_raw = Some [''From: a@x'', ''Bcc: s@z'', ''To: b@y'', '''', ''hi'']"
  by (simp add: scan_lines_def raw_lines_def plain_raw_def crlf_def drop_cr_def max_line_def)

lemma bcc_line: "equal_fold_prefix ''Bcc: s@z'' ''bcc:''" "\<not> equal_fold_prefix ''From: a@x'' ''bcc:''"
  "\<not> equal_fold_prefix ''To: b@y'' ''bcc:''"
  by code_simp+

lemma plain_wire: "strip_bcc plain_raw = Some (unlines_crlf [''From: a@x'', ''To: b@y'', '''', ''hi''])"
  by (simp add: strip_bcc_def plain_lines bcc_line)


definition outbox_db :: db where
  "outbox_db = sample_db\<lparr>db_outbox := [plain_entry]\<rparr>"

lemma outbox_db_inv: "db_inv outbox_db" "db_faults outbox_db = []"
  using sample_db_inv
  by (auto simp: outbox_db_def db_inv_def outbox_ok_def plain_entry_def sample_db_def sample_account_def
      empty_db_def)

lemma plain_send: "send_entry plain_parse ''tls'' good_net plain_entry
    = (None, Some (unlines_crlf [''From: a@x'', ''To: b@y'', '''', ''hi'']))"
proof -
  have "strip_bcc (o_RawMessage plain_entry) = Some (unlines_crlf [''From: a@x'', ''To: b@y'', '''', ''hi''])"
    using plain_wire by (simp add: plain_entry_def)
  then show ?thesis
    by (simp add: send_entry_def envelope_from_raw_def plain_parse_def send_def good_net_def del: unlines_crlf_Cons)
qed

theorem process_outbox_exact_witness:
  "\<exists>lg d'. process_outbox plain_parse ''tls'' (plain_ctx good_net) (9 * second) 1 outbox_db = (Inr (), lg, d')
     \<and> db_outbox d' = []"
proof -
  have nc: "\<not> sc_cancelled (plain_ctx good_net e)" for e by (simp add: plain_ctx_def)
  obtain lg d' where p: "process_outbox plain_parse ''tls'' (plain_ctx good_net) (9 * second) 1 outbox_db = (Inr (), lg, d')"
    "db_outbox d' = List.map_filter (row_after plain_parse ''tls'' (plain_ctx good_net) (9 * second) 1) (db_outbox outbox_db)"
    using process_outbox_exact [where d = outbox_db and ctx = "plain_ctx good_net" and parse = plain_parse
        and tls = "''tls''" and now = "9 * second" and acct = 1] outbox_db_inv nc by blast
  have "row_after plain_parse ''tls'' (plain_ctx good_net) (9 * second) 1 plain_entry = None"
    using plain_send by (simp add: row_after_def tried_row_def plain_ctx_def)
      (simp add: outbox_due_def plain_entry_def unix_sec_def)
  with p show ?thesis by (auto simp: outbox_db_def List.map_filter_def)
qed

theorem outbox_no_loss_witness:
  "\<exists>r lg d'. process_outbox plain_parse ''tls'' (plain_ctx (good_net\<lparr>so_dial := Some ''down''\<rparr>)) (9 * second) 1 outbox_db = (r, lg, d')
     \<and> (queued_in plain_entry d' \<or> (\<exists>w. (1, w) \<in> set (ol_delivered lg)))"
proof -
  obtain r lg d' where p: "process_outbox plain_parse ''tls'' (plain_ctx (good_net\<lparr>so_dial := Some ''down''\<rparr>))
      (9 * second) 1 outbox_db = (r, lg, d')" by (metis surj_pair)
  have "plain_entry \<in> set (db_outbox outbox_db)" by (simp add: outbox_db_def)
  from outbox_no_loss [OF outbox_db_inv(1) p this] p show ?thesis by (auto simp: plain_entry_def)
qed

lemma plain_quit: "send_entry plain_parse ''tls'' (good_net\<lparr>so_quit := Some ''eof''\<rparr>) plain_entry
    = (Some (QuitFailed ''eof''), Some (unlines_crlf [''From: a@x'', ''To: b@y'', '''', ''hi'']))"
proof -
  have "strip_bcc (o_RawMessage plain_entry) = Some (unlines_crlf [''From: a@x'', ''To: b@y'', '''', ''hi''])"
    using plain_wire by (simp add: plain_entry_def)
  then show ?thesis
    by (simp add: send_entry_def envelope_from_raw_def plain_parse_def send_def good_net_def del: unlines_crlf_Cons)
qed

theorem quit_error_resends_witness:
  "\<exists>e'. tried_row plain_parse ''tls'' (plain_ctx (good_net\<lparr>so_quit := Some ''eof''\<rparr>)) plain_entry plain_entry = Some e'
     \<and> outbox_due (o_NextAttempt e') e'"
proof -
  have f: "fst (send_entry plain_parse ''tls'' (sc_outcome (plain_ctx (good_net\<lparr>so_quit := Some ''eof''\<rparr>) plain_entry))
      plain_entry) = Some (QuitFailed ''eof'')"
    using plain_quit by (simp add: plain_ctx_def)
  have "o_RetryCount plain_entry + 1 < o_MaxRetries plain_entry" by (simp add: plain_entry_def)
  with f show ?thesis
    using quit_error_resends [where ctx = "plain_ctx (good_net\<lparr>so_quit := Some ''eof''\<rparr>)" and e = plain_entry
        and parse = plain_parse and tls = "''tls''" and t = "''eof''"] by blast
qed

theorem retry_ladder_witness:
  "\<exists>e'. tried_row plain_parse ''tls'' (plain_ctx (good_net\<lparr>so_quit := Some ''eof''\<rparr>)) plain_entry plain_entry = Some e'
     \<and> o_RetryCount e' = 1 \<and> o_NextAttempt e' = 70"
proof -
  obtain e' where t: "tried_row plain_parse ''tls'' (plain_ctx (good_net\<lparr>so_quit := Some ''eof''\<rparr>)) plain_entry plain_entry = Some e'"
    using plain_quit by (simp add: tried_row_def plain_ctx_def)
  from retry_ladder [OF t] t show ?thesis by (simp add: plain_entry_def plain_ctx_def unix_sec_def)
qed

definition signed_draft :: draft where
  "signed_draft = \<lparr>d_FromName = '''', d_FromAddr = ''a@x'', d_To = [''b@y''], d_Cc = [], d_Bcc = [''s@z''],
     d_Subject = '''', d_TextBody = ''hi'', d_Attachments = []\<rparr>"

theorem signed_part_unchanged_on_wire_witness:
  "\<exists>c wire hs'. canonical_signed_part signed_draft = Inr c
     \<and> strip_bcc (unlines_crlf [''Bcc: s@z'', ''To: b@y''] @ crlf @ signed_frame ''bd'' c (to_crlf ''sig'')) = Some wire
     \<and> wire = unlines_crlf hs' @ crlf @ signed_frame ''bd'' c (to_crlf ''sig'')"
proof -
  have "trim_space ''hi'' = ''hi''" by (simp add: trim_space_def trim_by_def trim_right_by_def is_space_def)
  then obtain c where c: "canonical_signed_part signed_draft = Inr c"
    by (simp add: canonical_signed_part_def signed_draft_def Let_def)
  have tc: "to_crlf ''hi'' = ''hi''" "to_crlf ''sig'' = ''sig''"
    by (simp_all add: to_crlf_def replace_all.simps has_prefix_def crlf_def lf_def)
  have c': "c = signed_part_header @ ''hi'' @ crlf"
    using c by (auto simp: canonical_signed_part_def signed_draft_def tc has_suffix_def crlf_def split: if_splits)
  have "scan_lines (unlines_crlf [''Bcc: s@z'', ''To: b@y''] @ crlf @ signed_frame ''bd'' c (to_crlf ''sig'')) \<noteq> None"
    by (simp add: c' tc scan_lines_def raw_lines_def signed_frame_def signed_part_header_def crlf_def max_line_def
        has_suffix_def)
  then obtain wire where w: "strip_bcc (unlines_crlf [''Bcc: s@z'', ''To: b@y''] @ crlf
      @ signed_frame ''bd'' c (to_crlf ''sig'')) = Some wire"
    by (auto simp: strip_bcc_def)
  from signed_part_unchanged_on_wire [OF c _ _ w] c w show ?thesis by auto
qed

end
