(* ===== verification/Chat.thy ===== *)
theory Chat
  imports Pgp Effects Keystore StoreLaws Smtp
begin

text \<open>
  VayuTalk, src/internal/chat: the wire protocol (transport.go), the event stream (stream.go) and the manager that
  encrypts, sends, receives and reconnects (manager.go, manager_ops.go).

  The manager's state is the record \<open>chat\<close>; the keyring, the database and the keystore it shares with the rest of
  the application are fields of it. The relay is the list of replies it will give, \<open>c_replies\<close>; every request sent
  is logged with its bearer token. The reply to the stream request carries all lines the stream delivers until it
  ends. JSON decoding, the RFC 3339 clock and the callback that re-fetches the private key are fields of the record
  \<open>talk_ext\<close>.
\<close>

section \<open>State\<close>

record envelope =
  ev_ID :: string
  ev_From :: string
  ev_Ciphertext :: string
  ev_CreatedAt :: "int option"
  ev_ExpiresAt :: "int option"
  ev_BurnSeconds :: int
  ev_Mode :: string

record envelope_wire =
  ew_ID :: string
  ew_From :: string
  ew_Ciphertext :: string
  ew_CreatedAt :: string
  ew_ExpiresAt :: string
  ew_BurnSeconds :: int
  ew_Mode :: string

datatype stream_event = Envelope envelope | Receipt string string | Ping

datatype talk_error = ErrTalkAuth | ErrTalkDisabled | ErrTalk | TalkRequest | TalkPgp pgp_error | TalkCred ks_error
  | TalkDB store_error

record incoming =
  in_Peer :: string
  in_ID :: string
  in_Plaintext :: string
  in_Authentic :: bool
  in_SenderFingerprint :: string
  in_CreatedAt :: "int option"
  in_ExpiresAt :: "int option"
  in_BurnSeconds :: int
  in_Mode :: string

datatype chat_event =
    IncomingMessage incoming
  | MessageRead string string
  | MessageExpired string
  | Delivered string bool
  | PeerKey string string bool
  | ConnState bool "talk_error option"

record talk_request =
  tq_method :: string
  tq_url :: string
  tq_accept :: string
  tq_token :: string
  tq_body :: string

record 'k chat =
  c_keyring :: keyring
  c_db :: db
  c_ks :: 'k
  c_self :: string
  c_domain :: string
  c_alias :: string
  c_tok :: string
  c_sentTo :: "string \<rightharpoonup> string"
  c_verifiedMem :: "string \<rightharpoonup> bool"
  c_nextResync :: "int option"
  c_events :: "chat_event list"
  c_log :: "talk_request list"
  c_replies :: "reply list"

record ('k, 'w) talk_ext =
  t_ks :: "'k keystore_ops"
  t_pgp :: pgp_ext
  t_http :: ext
  t_connect :: "string \<Rightarrow> string option"
  t_send :: "string \<Rightarrow> (string \<times> bool) option"
  t_pubkey :: "string \<Rightarrow> (string \<times> string) option"
  t_envelope :: "string \<Rightarrow> envelope_wire option"
  t_receipt :: "string \<Rightarrow> (string \<times> string) option"
  t_time :: "string \<Rightarrow> int option"
  t_settings :: bool
  t_resync :: "('w \<Rightarrow> bool \<times> 'w) option"

type_synonym ('k, 'z, 'a) chat_action = "(('k, 'z) chat_scheme, talk_error, 'a) action"
type_synonym ('k, 'z) talk = "('k, ('k, 'z) chat_scheme) talk_ext"

section \<open>Transport\<close>

definition public_talk_domain :: "string \<Rightarrow> bool" where
  "public_talk_domain d \<longleftrightarrow> \<not> (d = [] \<or> length d > 253 \<or> equal_fold d ''localhost'') \<and> \<not> parse_ip d \<and> mail_host_re d"

definition base_url :: "string \<Rightarrow> string" where
  "base_url d = ''https://'' @ d @ ''/api/v1/talk''"

definition status_err :: "int \<Rightarrow> talk_error option" where
  "status_err code =
     (if code = 200 then None
      else if code = 401 then Some ErrTalkAuth
      else if code = 404 \<or> code = 503 then Some ErrTalkDisabled
      else Some ErrTalk)"

definition next_reply :: "('k, 'z) chat_scheme \<Rightarrow> reply \<times> ('k, 'z) chat_scheme" where
  "next_reply c = (case c_replies c of [] \<Rightarrow> (No_reply, c) | r # rs \<Rightarrow> (r, c\<lparr>c_replies := rs\<rparr>))"

definition talk_do :: "('k, 'z) talk \<Rightarrow> string \<Rightarrow> string \<Rightarrow> string \<Rightarrow> string \<Rightarrow> string \<Rightarrow> ('k, 'z, int \<times> string) chat_action" where
  "talk_do x method path accept token body c =
     (let rq = \<lparr>tq_method = method, tq_url = base_url (c_domain c) @ path, tq_accept = accept, tq_token = token, tq_body = body\<rparr>
      in if url_parse (x_lit (t_http x)) (tq_url rq) = None then (Inl TalkRequest, c)
         else case next_reply (c\<lparr>c_log := c_log c @ [rq]\<rparr>) of
                (No_reply, c') \<Rightarrow> (Inl ErrTalk, c')
              | (Reply status answer ok, c') \<Rightarrow> (Inr (status, answer), c'))"

definition max_talk_resp :: nat where "max_talk_resp = 262144"

definition talk_decode :: "(string \<Rightarrow> 'a option) \<Rightarrow> string \<Rightarrow> ('k, 'z, 'a) chat_action" where
  "talk_decode json body = (case json (take max_talk_resp body) of None \<Rightarrow> failE ErrTalk | Some a \<Rightarrow> retE a)"

definition check_domain :: "('k, 'z, unit) chat_action" where
  "check_domain c = (if public_talk_domain (c_domain c) then Inr () else Inl ErrTalk, c)"

definition check_status :: "int \<Rightarrow> ('k, 'z, unit) chat_action" where
  "check_status status = (case status_err status of None \<Rightarrow> retE () | Some e \<Rightarrow> failE e)"

text \<open>The guard and the call, as every operation of the transport starts.\<close>

definition talk_call :: "('k, 'z) talk \<Rightarrow> string \<Rightarrow> string \<Rightarrow> string \<Rightarrow> string \<Rightarrow> string \<Rightarrow> ('k, 'z, int \<times> string) chat_action" where
  "talk_call x method path accept token body = seqE check_domain (\<lambda>_. talk_do x method path accept token body)"

abbreviation json_type :: string where "json_type \<equiv> ''application/json''"

definition tp_connect :: "('k, 'z) talk \<Rightarrow> string \<Rightarrow> string \<Rightarrow> ('k, 'z, string) chat_action" where
  "tp_connect x email password =
     seqE (talk_call x ''POST'' ''/connect'' json_type [] (marshal_map (t_http x) [(''email'', JStr email), (''password'', JStr password)]))
       (\<lambda>(status, body).
     seqE (check_status status) (\<lambda>_.
     seqE (talk_decode (t_connect x) body) (\<lambda>tok. if tok = [] then failE ErrTalk else retE tok)))"

definition tp_send :: "('k, 'z) talk \<Rightarrow> string \<Rightarrow> string \<Rightarrow> string \<Rightarrow> int \<Rightarrow> string \<Rightarrow> ('k, 'z, string \<times> bool) chat_action" where
  "tp_send x token recipient ciphertext ttl mode =
     seqE (talk_call x ''POST'' ''/send'' json_type token
             (marshal_map (t_http x) [(''to'', JStr recipient), (''ciphertext'', JStr ciphertext), (''ttl_seconds'', JInt ttl), (''mode'', JStr mode)]))
       (\<lambda>(status, body). seqE (check_status status) (\<lambda>_. talk_decode (t_send x) body))"

definition tp_ack :: "('k, 'z) talk \<Rightarrow> string \<Rightarrow> string \<Rightarrow> ('k, 'z, unit) chat_action" where
  "tp_ack x token mid =
     seqE (talk_call x ''POST'' ''/ack'' json_type token (marshal_map (t_http x) [(''id'', JStr mid)])) (\<lambda>(status, body). check_status status)"

definition query_escape :: "string \<Rightarrow> string" where
  "query_escape s = concat (map (\<lambda>c.
     if is_alnum c \<or> c \<in> set ''-_.~'' then [c]
     else if c = CHR '' '' then ''+''
     else [CHR ''%'', ''0123456789ABCDEF'' ! (of_char c div 16), ''0123456789ABCDEF'' ! (of_char c mod 16)]) s)"

definition tp_fetch_pubkey :: "('k, 'z) talk \<Rightarrow> string \<Rightarrow> string \<Rightarrow> ('k, 'z, string \<times> string) chat_action" where
  "tp_fetch_pubkey x token email =
     seqE (talk_call x ''GET'' (''/pubkey?email='' @ query_escape email) json_type token []) (\<lambda>(status, body).
       if status = 404 then failE ErrTalk
       else seqE (check_status status) (\<lambda>_.
            seqE (talk_decode (t_pubkey x) body) (\<lambda>(armored, fp).
              if contains_str ''BEGIN PGP PUBLIC KEY BLOCK'' armored then retE (armored, fp) else failE ErrTalk)))"

section \<open>The event stream\<close>

definition max_sse_event :: nat where "max_sse_event = 262144"

definition build_event :: "('k, 'z) talk \<Rightarrow> string \<Rightarrow> string \<Rightarrow> stream_event option" where
  "build_event x name data =
     (if name = ''envelope'' then
        (case t_envelope x data of
           None \<Rightarrow> None
         | Some w \<Rightarrow>
             if ew_ID w = [] then None
             else Some (Envelope \<lparr>ev_ID = ew_ID w, ev_From = ew_From w, ev_Ciphertext = ew_Ciphertext w,
                    ev_CreatedAt = t_time x (ew_CreatedAt w), ev_ExpiresAt = t_time x (ew_ExpiresAt w),
                    ev_BurnSeconds = ew_BurnSeconds w, ev_Mode = ew_Mode w\<rparr>))
      else if name = ''receipt'' then
        (case t_receipt x data of
           None \<Rightarrow> None
         | Some (mid, status) \<Rightarrow> if mid = [] then None else Some (Receipt mid status))
      else if name = ''ping'' then Some Ping
      else None)"

fun sse_events :: "('k, 'z) talk \<Rightarrow> string \<Rightarrow> string \<Rightarrow> string list \<Rightarrow> stream_event list" where
  "sse_events x name data [] = []"
| "sse_events x name data (line # ls) =
     (if line = [] then
        (case build_event x name data of None \<Rightarrow> sse_events x [] [] ls | Some ev \<Rightarrow> ev # sse_events x [] [] ls)
      else if has_prefix ''event:'' line then sse_events x (trim_space (drop 6 line)) data ls
      else if has_prefix ''data:'' line then sse_events x name (data @ trim_space (drop 5 line)) ls
      else sse_events x name data ls)"

text \<open>A line that does not fit the scanner's buffer ends the stream.\<close>

definition parse_sse :: "('k, 'z) talk \<Rightarrow> string \<Rightarrow> stream_event list" where
  "parse_sse x body =
     sse_events x [] [] (map drop_cr (takeWhile (\<lambda>l. length l < max_sse_event) (raw_lines body)))"

definition open_stream :: "('k, 'z) talk \<Rightarrow> string \<Rightarrow> ('k, 'z, stream_event list) chat_action" where
  "open_stream x token =
     seqE (talk_call x ''GET'' ''/stream'' ''text/event-stream'' token []) (\<lambda>(status, body).
       seqE (check_status status) (\<lambda>_. retE (parse_sse x body)))"

section \<open>The manager\<close>

definition chat_cap :: nat where "chat_cap = 128"

definition chat_emit :: "chat_event \<Rightarrow> ('k, 'z) chat_scheme \<Rightarrow> ('k, 'z) chat_scheme" where
  "chat_emit ev c = c\<lparr>c_events := snd (try_send chat_cap ev (c_events c))\<rparr>"

definition clear_token :: "('k, 'z) chat_scheme \<Rightarrow> ('k, 'z) chat_scheme" where
  "clear_token c = c\<lparr>c_tok := []\<rparr>"

text \<open>The credential callback: the secret stored under the account's alias.\<close>

definition credential :: "('k, 'z) talk \<Rightarrow> ('k, 'z, string) chat_action" where
  "credential x c =
     (case ks_fetch (t_ks x) (c_alias c) (c_ks c) of
        (Inl e, k) \<Rightarrow> (Inl (TalkCred e), c\<lparr>c_ks := k\<rparr>)
      | (Inr s, k) \<Rightarrow> (Inr s, c\<lparr>c_ks := k\<rparr>))"

definition ensure_token :: "('k, 'z) talk \<Rightarrow> ('k, 'z, string) chat_action" where
  "ensure_token x =
     seqE (readE c_tok) (\<lambda>tok.
       if tok \<noteq> [] then retE tok
       else seqE (credential x) (\<lambda>pw.
            seqE (readE c_self) (\<lambda>self.
            seqE (tp_connect x self pw) (\<lambda>tok.
            seqE (modifyE (\<lambda>c. c\<lparr>c_tok := tok\<rparr>)) (\<lambda>_. retE tok)))))"

text \<open>The handling of a failed call that every operation repeats: a rejected token is dropped.\<close>

definition with_auth :: "('k, 'z, 'a) chat_action \<Rightarrow> ('k, 'z, 'a) chat_action" where
  "with_auth m =
     tryE m (\<lambda>r. case r of
        Inr a \<Rightarrow> retE a
      | Inl e \<Rightarrow> seqE (if e = ErrTalkAuth then modifyE clear_token else retE ()) (\<lambda>_. failE e))"

definition trunc_div :: "int \<Rightarrow> int \<Rightarrow> int" where
  "trunc_div a b = (if 0 \<le> a then a div b else - ((- a) div b))"

definition remember_peer :: "string \<Rightarrow> string \<Rightarrow> ('k, 'z) chat_scheme \<Rightarrow> ('k, 'z) chat_scheme" where
  "remember_peer mid peer c = c\<lparr>c_sentTo := (c_sentTo c)(mid \<mapsto> peer)\<rparr>"

definition peer_for_id :: "string \<Rightarrow> ('k, 'z) chat_scheme \<Rightarrow> string" where
  "peer_for_id mid c = (case c_sentTo c mid of Some p \<Rightarrow> p | None \<Rightarrow> [])"

definition chat_send :: "('k, 'z) talk \<Rightarrow> string \<Rightarrow> string \<Rightarrow> int \<Rightarrow> string \<Rightarrow> ('k, 'z, string) chat_action" where
  "chat_send x peer plaintext burn mode =
     seqE (\<lambda>c. (case encrypt (t_pgp x) plaintext [peer] (c_self c) (c_keyring c) of
                  Inl e \<Rightarrow> (Inl (TalkPgp e), c) | Inr ct \<Rightarrow> (Inr ct, c))) (\<lambda>ciphertext.
     seqE (ensure_token x) (\<lambda>tok.
     seqE (with_auth (tp_send x tok peer (b64_encode ciphertext) (trunc_div burn second) mode)) (\<lambda>(mid, delivered).
     seqE (modifyE (remember_peer mid peer)) (\<lambda>_.
     seqE (modifyE (chat_emit (Delivered mid delivered))) (\<lambda>_. retE mid)))))"

definition chat_ack :: "('k, 'z) talk \<Rightarrow> string \<Rightarrow> ('k, 'z, unit) chat_action" where
  "chat_ack x mid = seqE (ensure_token x) (\<lambda>tok. with_auth (tp_ack x tok mid))"

definition setting_prefix :: string where "setting_prefix = ''talk-verified:''"

definition is_verified :: "('k, 'z) talk \<Rightarrow> string \<Rightarrow> ('k, 'z) chat_scheme \<Rightarrow> bool \<times> ('k, 'z) chat_scheme" where
  "is_verified x fingerprint c =
     (let fp = to_lower (trim_space fingerprint)
      in if t_settings x
         then (case get_setting (setting_prefix @ fp) (c_db c) of
                 (r, d) \<Rightarrow> (r = Inr ''1'', c\<lparr>c_db := d\<rparr>))
         else (c_verifiedMem c fp = Some True, c))"

definition set_peer_verified :: "('k, 'z) talk \<Rightarrow> string \<Rightarrow> bool \<Rightarrow> ('k, 'z, unit) chat_action" where
  "set_peer_verified x fingerprint v c =
     (let fp = to_lower (trim_space fingerprint)
      in if t_settings x
         then (case set_setting (setting_prefix @ fp) (if v then ''1'' else []) (c_db c) of
                 (Inl e, d) \<Rightarrow> (Inl (TalkDB e), c\<lparr>c_db := d\<rparr>)
               | (Inr _, d) \<Rightarrow> (Inr (), c\<lparr>c_db := d\<rparr>))
         else (Inr (), c\<lparr>c_verifiedMem := (c_verifiedMem c)(fp \<mapsto> v)\<rparr>))"

definition import_talk_key :: "('k, 'z) talk \<Rightarrow> string \<Rightarrow> ('k, 'z, string list) chat_action" where
  "import_talk_key x armored c =
     (case import_armored (t_pgp x) armored (c_keyring c) of
        (Inl e, k) \<Rightarrow> (Inl (TalkPgp e), c\<lparr>c_keyring := k\<rparr>)
      | (Inr fps, k) \<Rightarrow> (Inr fps, c\<lparr>c_keyring := k\<rparr>))"

definition verify_peer :: "('k, 'z) talk \<Rightarrow> string \<Rightarrow> ('k, 'z, unit) chat_action" where
  "verify_peer x peer =
     seqE (ensure_token x) (\<lambda>tok.
     seqE (with_auth (tp_fetch_pubkey x tok peer)) (\<lambda>(armored, fp).
     seqE (import_talk_key x armored) (\<lambda>_.
     seqE (\<lambda>c. case is_verified x fp c of (v, c') \<Rightarrow> (Inr v, c')) (\<lambda>v.
       modifyE (chat_emit (PeerKey peer fp v))))))"

definition resync_cooldown :: int where "resync_cooldown = 30 * second"
definition resync_fail_backoff :: int where "resync_fail_backoff = 5 * second"

text \<open>The clock is read before the call and again after it.\<close>

definition resync_once :: "('k, 'z) talk \<Rightarrow> int \<Rightarrow> int \<Rightarrow> ('k, 'z) chat_scheme \<Rightarrow> bool \<times> ('k, 'z) chat_scheme" where
  "resync_once x now now' c =
     (case t_resync x of
        None \<Rightarrow> (False, c)
      | Some f \<Rightarrow>
          if (case c_nextResync c of Some t \<Rightarrow> now < t | None \<Rightarrow> False) then (False, c)
          else (case f c of
                  (ok, c') \<Rightarrow>
                    (ok, c'\<lparr>c_nextResync := Some (now' + (if ok then resync_cooldown else resync_fail_backoff))\<rparr>)))"

definition incoming_of :: "envelope \<Rightarrow> decrypt_result \<Rightarrow> incoming" where
  "incoming_of e res =
     \<lparr>in_Peer = ev_From e, in_ID = ev_ID e, in_Plaintext = r_Plaintext res, in_Authentic = (r_Signature res = SigValid),
      in_SenderFingerprint = (if r_Signature res = SigValid then r_SignedByFingerprint res else []),
      in_CreatedAt = ev_CreatedAt e, in_ExpiresAt = ev_ExpiresAt e, in_BurnSeconds = ev_BurnSeconds e, in_Mode = ev_Mode e\<rparr>"

definition handle_envelope :: "('k, 'z) talk \<Rightarrow> int \<Rightarrow> int \<Rightarrow> envelope \<Rightarrow> ('k, 'z) chat_scheme \<Rightarrow> ('k, 'z) chat_scheme" where
  "handle_envelope x now now' e c =
     (case b64_decode (ev_Ciphertext e) of
        None \<Rightarrow> c
      | Some raw \<Rightarrow>
          (case decrypt (t_pgp x) raw (c_keyring c) of
             Inr res \<Rightarrow> chat_emit (IncomingMessage (incoming_of e res)) c
           | Inl _ \<Rightarrow>
               (case resync_once x now now' c of
                  (False, c') \<Rightarrow> c'
                | (True, c') \<Rightarrow>
                    (case decrypt (t_pgp x) raw (c_keyring c') of
                       Inl _ \<Rightarrow> c'
                     | Inr res \<Rightarrow> chat_emit (IncomingMessage (incoming_of e res)) c'))))"

definition handle_receipt :: "string \<Rightarrow> string \<Rightarrow> ('k, 'z) chat_scheme \<Rightarrow> ('k, 'z) chat_scheme" where
  "handle_receipt mid status c =
     (if status = ''read'' then chat_emit (MessageRead (peer_for_id mid c) mid) c
      else if status = ''expired'' then chat_emit (MessageExpired mid) c
      else c)"

fun handle_stream_event :: "('k, 'z) talk \<Rightarrow> int \<Rightarrow> int \<Rightarrow> stream_event \<Rightarrow> ('k, 'z) chat_scheme \<Rightarrow> ('k, 'z) chat_scheme" where
  "handle_stream_event x now now' (Envelope e) c = handle_envelope x now now' e c"
| "handle_stream_event x now now' (Receipt mid status) c = handle_receipt mid status c"
| "handle_stream_event x now now' Ping c = c"

section \<open>The reconnect loop\<close>

definition min_backoff :: int where "min_backoff = 1 * second"
definition max_backoff :: int where "max_backoff = 30 * second"

definition chat_next_backoff :: "int \<Rightarrow> int" where
  "chat_next_backoff d = (if d * 2 > max_backoff then max_backoff else d * 2)"

text \<open>One pass of the loop up to its check of the context after the stream; the result says whether the
  stream was opened, and the delay that follows.\<close>

definition chat_round :: "('k, 'z) talk \<Rightarrow> int \<Rightarrow> int \<Rightarrow> int \<Rightarrow> ('k, 'z) chat_scheme \<Rightarrow> (bool \<times> int) \<times> ('k, 'z) chat_scheme" where
  "chat_round x now now' backoff c =
     (case ensure_token x c of
        (Inl e, c) \<Rightarrow> ((False, backoff), chat_emit (ConnState False (Some e)) c)
      | (Inr tok, c) \<Rightarrow>
          (case open_stream x tok c of
             (Inl e, c) \<Rightarrow>
               ((False, backoff), chat_emit (ConnState False (Some e)) (if e = ErrTalkAuth then clear_token c else c))
           | (Inr evs, c) \<Rightarrow>
               ((True, min_backoff), fold (handle_stream_event x now now') evs (chat_emit (ConnState True None) c))))"

text \<open>A pass is described by its clock readings, whether the context is alive after the stream and whether
  the wait runs to its end. The run returns the waits it asked for.\<close>

fun chat_run :: "('k, 'z) talk \<Rightarrow> (int \<times> int \<times> bool \<times> bool) list \<Rightarrow> int \<Rightarrow> ('k, 'z) chat_scheme \<Rightarrow> int list \<times> ('k, 'z) chat_scheme" where
  "chat_run x [] backoff c = ([], c)"
| "chat_run x ((now, now', live, slept) # rs) backoff c =
     (case chat_round x now now' backoff c of
        ((opened, delay), c1) \<Rightarrow>
          if opened \<and> \<not> live then ([], c1)
          else (let c2 = (if opened then chat_emit (ConnState False None) c1 else c1)
                in if \<not> slept then ([delay], c2)
                   else (let (ws, c3) = chat_run x rs (chat_next_backoff delay) c2 in (delay # ws, c3))))"

section \<open>Safety numbers\<close>

fun groups4 :: "string \<Rightarrow> string list" where
  "groups4 [] = []"
| "groups4 (a # b # c # d # s) = [a, b, c, d] # groups4 s"
| "groups4 s = [s]"

fun join_groups :: "nat \<Rightarrow> string list \<Rightarrow> string" where
  "join_groups i [] = []"
| "join_groups i (g # gs) =
     (if i = 0 then [] else if i mod 5 = 0 then lf else '' '') @ g @ join_groups (Suc i) gs"

definition safety_number :: "string \<Rightarrow> string" where
  "safety_number fingerprint =
     join_groups 0 (groups4 (to_upper (filter (\<lambda>c. c \<noteq> CHR '' '' \<and> c \<noteq> CHR '':'') fingerprint)))"

end
