(* ===== verification/ChatLaws.thy ===== *)
theory ChatLaws
  imports Chat
begin

text \<open>
  Properties of VayuTalk's manager: the locale \<open>chat_invariant\<close> states what an invariant of the manager's state has
  to satisfy on the primitive changes and proves that every operation and the reconnect loop keep it; it is
  interpreted for the requests the manager sends and for the bounds of its event channel.
\<close>

section \<open>Invariants of the manager\<close>

locale token_invariant =
  fixes I :: "('k, 'z) chat_scheme \<Rightarrow> bool"
    and x :: "('k, 'z) talk"
  assumes request: "has_prefix ''/'' path \<Longrightarrow> keeps I (talk_call x method path accept token body)"
    and token: "I c \<Longrightarrow> I (c\<lparr>c_tok := t\<rparr>)"
    and secret: "I c \<Longrightarrow> I (c\<lparr>c_ks := snd (ks_fetch (t_ks x) a (c_ks c))\<rparr>)"
begin

lemma keeps_decode: "keeps I (talk_decode json body)"
  by (auto simp: talk_decode_def intro!: keeps_intros)

lemma keeps_check_status: "keeps I (check_status s)"
  by (auto simp: check_status_def intro!: keeps_intros)

lemma keeps_connect: "keeps I (tp_connect x email pw)"
  unfolding tp_connect_def by (auto simp: has_prefix_def intro!: request keeps_intros keeps_check_status keeps_decode)

lemma keeps_tp_send: "keeps I (tp_send x tok peer ct ttl mode)"
  unfolding tp_send_def by (auto simp: has_prefix_def intro!: request keeps_intros keeps_check_status keeps_decode)

lemma keeps_tp_ack: "keeps I (tp_ack x tok mid)"
  unfolding tp_ack_def by (auto simp: has_prefix_def intro!: request keeps_intros keeps_check_status)

lemma keeps_pubkey: "keeps I (tp_fetch_pubkey x tok email)"
  unfolding tp_fetch_pubkey_def by (auto simp: has_prefix_def intro!: request keeps_intros keeps_check_status keeps_decode)

lemma keeps_stream: "keeps I (open_stream x tok)"
  unfolding open_stream_def by (auto simp: has_prefix_def intro!: request keeps_intros keeps_check_status)

lemma keeps_credential: "keeps I (credential x)"
proof (rule keepsI)
  fix c assume "I c"
  then have "I (c\<lparr>c_ks := snd (ks_fetch (t_ks x) (c_alias c) (c_ks c))\<rparr>)" by (rule secret)
  then show "I (snd (credential x c))" by (auto simp: credential_def split: prod.splits sum.splits)
qed

lemma keeps_ensure_token: "keeps I (ensure_token x)"
  unfolding ensure_token_def
  by (auto intro!: keeps_intros keeps_credential keeps_connect keeps_modifyE token)

lemma keeps_with_auth: "keeps I m \<Longrightarrow> keeps I (with_auth m)"
  unfolding with_auth_def by (auto simp: clear_token_def intro!: keeps_intros keeps_modifyE token)

lemma keeps_pure: "keeps I (\<lambda>c. (case f c of Inl e \<Rightarrow> (Inl (h e), c) | Inr a \<Rightarrow> (Inr a, c)))"
  by (auto simp: keeps_def split: sum.splits)

end

locale chat_invariant = token_invariant I x
  for I :: "('k, 'z) chat_scheme \<Rightarrow> bool" and x :: "('k, 'z) talk" +
  assumes sent: "I c \<Longrightarrow> I (c\<lparr>c_sentTo := p\<rparr>)"
    and verified: "I c \<Longrightarrow> I (c\<lparr>c_verifiedMem := v\<rparr>)"
    and cooldown: "I c \<Longrightarrow> I (c\<lparr>c_nextResync := r\<rparr>)"
    and emitted: "I c \<Longrightarrow> I (chat_emit ev c)"
    and setting_read: "I c \<Longrightarrow> I (c\<lparr>c_db := snd (get_setting key (c_db c))\<rparr>)"
    and setting_write: "I c \<Longrightarrow> I (c\<lparr>c_db := snd (set_setting key w (c_db c))\<rparr>)"
    and imported: "I c \<Longrightarrow> I (c\<lparr>c_keyring := snd (import_armored (t_pgp x) b (c_keyring c))\<rparr>)"
    and resynced: "t_resync x = Some g \<Longrightarrow> I c \<Longrightarrow> I (snd (g c))"
begin

lemma keeps_chat_send: "keeps I (chat_send x peer text burn mode)"
  unfolding chat_send_def remember_peer_def
  by (auto intro!: keeps_intros keeps_pure keeps_ensure_token keeps_with_auth keeps_tp_send keeps_modifyE sent emitted)

lemma keeps_chat_ack: "keeps I (chat_ack x mid)"
  unfolding chat_ack_def by (auto intro!: keeps_intros keeps_ensure_token keeps_with_auth keeps_tp_ack)

lemma is_verified_inv: "I c \<Longrightarrow> I (snd (is_verified x fp c))"
  using setting_read [of c "setting_prefix @ to_lower (trim_space fp)"]
  by (auto simp: is_verified_def Let_def split: prod.splits)

lemma keeps_set_peer_verified: "keeps I (set_peer_verified x fp v)"
proof (rule keepsI)
  fix c assume "I c"
  then show "I (snd (set_peer_verified x fp v c))"
    using setting_write [of c "setting_prefix @ to_lower (trim_space fp)" "if v then ''1'' else []"] verified
    by (auto simp: set_peer_verified_def Let_def split: prod.splits sum.splits)
qed

lemma keeps_import: "keeps I (import_talk_key x armored)"
proof (rule keepsI)
  fix c assume "I c"
  then show "I (snd (import_talk_key x armored c))"
    using imported [of c armored] by (auto simp: import_talk_key_def split: prod.splits sum.splits)
qed

lemma keeps_verify_peer: "keeps I (verify_peer x peer)"
proof -
  have "keeps I (\<lambda>c. case is_verified x fp c of (v, c') \<Rightarrow> (Inr v, c'))" for fp
    using is_verified_inv by (auto simp: keeps_def split: prod.splits) (metis snd_conv)
  then show ?thesis unfolding verify_peer_def
    by (auto intro!: keeps_intros keeps_ensure_token keeps_with_auth keeps_pubkey keeps_import keeps_modifyE emitted)
qed

lemma resync_inv: "I c \<Longrightarrow> I (snd (resync_once x now now' c))"
  using resynced cooldown by (auto simp: resync_once_def split: option.splits prod.splits) (metis snd_conv)+

lemma stream_event_inv: "I c \<Longrightarrow> I (handle_stream_event x now now' ev c)"
proof (cases ev)
  case (Envelope e)
  moreover assume "I c"
  ultimately show ?thesis using resync_inv [of c now now'] emitted
    by (auto simp: handle_envelope_def split: option.splits sum.splits prod.splits bool.splits)
qed (auto simp: handle_receipt_def emitted)

lemma stream_inv: "I c \<Longrightarrow> I (fold (handle_stream_event x now now') evs c)"
  by (induction evs arbitrary: c) (auto simp: stream_event_inv)

lemma round_inv: "I c \<Longrightarrow> I (snd (chat_round x now now' b c))"
proof -
  assume c: "I c"
  obtain r c1 where e: "ensure_token x c = (r, c1)" by fastforce
  have c1: "I c1" using keepsD [OF keeps_ensure_token c] e by simp
  show ?thesis
  proof (cases r)
    case (Inr tok)
    obtain s c2 where o: "open_stream x tok c1 = (s, c2)" by fastforce
    have "I c2" using keepsD [OF keeps_stream c1] o by (metis snd_conv)
    then show ?thesis using e o Inr token stream_inv emitted
      by (auto simp: chat_round_def clear_token_def split: sum.splits)
  qed (use e c1 emitted in \<open>auto simp: chat_round_def\<close>)
qed

lemma run_inv: "I c \<Longrightarrow> I (snd (chat_run x rs b c))"
proof (induction rs arbitrary: b c)
  case (Cons r rs)
  obtain now now' live slept where r: "r = (now, now', live, slept)" by (cases r) auto
  obtain opened delay c1 where e: "chat_round x now now' b c = ((opened, delay), c1)" by (metis surj_pair)
  have "I c1" using round_inv [OF Cons.prems] e by (metis snd_conv)
  then show ?case using e Cons.IH emitted by (auto simp: r Let_def split: prod.splits) (metis snd_conv)+
qed simp

end

section \<open>What a call leaves alone\<close>

lemma call_frame:
  "keeps (\<lambda>c. c_events c = q \<and> c_keyring c = kr \<and> c_db c = d) (talk_call x method path accept token body)"
  by (auto simp: keeps_def talk_call_def seqE_def check_domain_def talk_do_def next_reply_def Let_def split: list.splits reply.splits)

interpretation quiet: token_invariant "\<lambda>c. c_events c = q \<and> c_keyring c = kr \<and> c_db c = d" x for q kr d x
  by unfold_locales (auto intro: call_frame)

lemma keeps_run: "keeps I m \<Longrightarrow> I s \<Longrightarrow> m s = (r, s') \<Longrightarrow> I s'"
  by (metis keepsD snd_conv)

lemmas quiet_run = keeps_run [where I = "\<lambda>c. c_events c = c_events s \<and> c_keyring c = c_keyring s \<and> c_db c = c_db s" and s = s for s]

lemma quiet_token: "ensure_token x s = (r, s') \<Longrightarrow> c_events s' = c_events s \<and> c_keyring s' = c_keyring s \<and> c_db s' = c_db s"
  by (erule quiet_run [OF quiet.keeps_ensure_token, rotated]) simp

lemma quiet_send: "with_auth (tp_send x tok peer ct ttl mode) s = (r, s')
    \<Longrightarrow> c_events s' = c_events s \<and> c_keyring s' = c_keyring s \<and> c_db s' = c_db s"
  by (erule quiet_run [OF quiet.keeps_with_auth [OF quiet.keeps_tp_send], rotated]) simp

lemma quiet_pubkey: "with_auth (tp_fetch_pubkey x tok peer) s = (r, s')
    \<Longrightarrow> c_events s' = c_events s \<and> c_keyring s' = c_keyring s \<and> c_db s' = c_db s"
  by (erule quiet_run [OF quiet.keeps_with_auth [OF quiet.keeps_pubkey], rotated]) simp

lemma chat_send_event:
  assumes "chat_send x peer plain burn mode s = (Inr mid, s')"
  shows "\<exists>ok. c_events s' = snd (try_send chat_cap (Delivered mid ok) (c_events s)) \<and> c_keyring s' = c_keyring s"
  using assms by (auto simp: chat_send_def seqE_Inr modifyE_def retE_def remember_peer_def chat_emit_def
      dest!: quiet_token quiet_send split: sum.splits prod.splits)

lemma verify_peer_event:
  assumes "verify_peer x peer s = (Inr (), s')"
  shows "\<exists>armored fps fp v. import_armored (t_pgp x) armored (c_keyring s) = (Inr fps, c_keyring s')
    \<and> c_events s' = snd (try_send chat_cap (PeerKey peer fp v) (c_events s))"
proof -
  from assms obtain tok s1 armored fp s2 fps s3 v s4 where
    t: "ensure_token x s = (Inr tok, s1)" and f: "with_auth (tp_fetch_pubkey x tok peer) s1 = (Inr (armored, fp), s2)"
    and i: "import_talk_key x armored s2 = (Inr fps, s3)" and v: "is_verified x fp s3 = (v, s4)"
    and s': "s' = chat_emit (PeerKey peer fp v) s4"
    by (fastforce simp: verify_peer_def seqE_Inr modifyE_def split_beta)
  have "c_events s4 = c_events s3 \<and> c_keyring s4 = c_keyring s3"
    using v by (auto simp: is_verified_def Let_def split: if_splits prod.splits)
  moreover have "import_armored (t_pgp x) armored (c_keyring s2) = (Inr fps, c_keyring s3) \<and> c_events s3 = c_events s2"
    using i by (auto simp: import_talk_key_def split: prod.splits sum.splits)
  ultimately show ?thesis using quiet_token [OF t] quiet_pubkey [OF f] s' by (auto simp: chat_emit_def)
qed

section \<open>Safety numbers\<close>

lemma concat_groups4: "concat (groups4 s) = s"
  by (induction s rule: groups4.induct) auto

lemma filter_join_groups:
  "filter (\<lambda>c. c \<noteq> CHR '' '' \<and> c \<noteq> CHR 0x0A) (join_groups i gs) = filter (\<lambda>c. c \<noteq> CHR '' '' \<and> c \<noteq> CHR 0x0A) (concat gs)"
  by (induction gs arbitrary: i) (auto simp: lf_def)

lemma upper_char_blank: "upper_char c \<in> {CHR '' '', CHR 0x0A} \<longleftrightarrow> c \<in> {CHR '' '', CHR 0x0A}"
proof (cases "CHR ''a'' \<le> c \<and> c \<le> CHR ''z''")
  case True
  then have r: "97 \<le> (of_char c :: nat)" "(of_char c :: nat) \<le> 122" by (auto simp: less_eq_char_def)
  then have "(of_char (upper_char c) :: nat) = of_char c - 32" using True by (simp add: upper_char_def)
  then have "65 \<le> (of_char (upper_char c) :: nat)" using r by simp
  then show ?thesis using r by auto
qed (auto simp: upper_char_def)

lemma safety_number_digits:
  assumes "CHR 0x0A \<notin> set f"
  shows "filter (\<lambda>c. c \<noteq> CHR '' '' \<and> c \<noteq> CHR 0x0A) (safety_number f)
    = to_upper (filter (\<lambda>c. c \<noteq> CHR '' '' \<and> c \<noteq> CHR '':'') f)"
proof -
  let ?u = "to_upper (filter (\<lambda>c. c \<noteq> CHR '' '' \<and> c \<noteq> CHR '':'') f)"
  have "c \<noteq> CHR '' '' \<and> c \<noteq> CHR 0x0A" if u: "c \<in> set ?u" for c
  proof -
    obtain d where "c = upper_char d" "d \<in> set f" "d \<noteq> CHR '' ''" using u by (auto simp: to_upper_def)
    then show ?thesis using assms upper_char_blank [of d] by auto
  qed
  then have "filter (\<lambda>c. c \<noteq> CHR '' '' \<and> c \<noteq> CHR 0x0A) ?u = ?u" by (intro filter_True ballI)
  then show ?thesis by (simp only: safety_number_def filter_join_groups concat_groups4)
qed

text \<open>Two fingerprints have the same safety number exactly if they are the same up to letter case and the
  separators between their groups.\<close>

theorem safety_number_identifies:
  assumes "CHR 0x0A \<notin> set f" "CHR 0x0A \<notin> set g"
  shows "safety_number f = safety_number g \<longleftrightarrow>
    to_upper (filter (\<lambda>c. c \<noteq> CHR '' '' \<and> c \<noteq> CHR '':'') f) = to_upper (filter (\<lambda>c. c \<noteq> CHR '' '' \<and> c \<noteq> CHR '':'') g)"
proof
  assume "safety_number f = safety_number g"
  then show "to_upper (filter (\<lambda>c. c \<noteq> CHR '' '' \<and> c \<noteq> CHR '':'') f) = to_upper (filter (\<lambda>c. c \<noteq> CHR '' '' \<and> c \<noteq> CHR '':'') g)"
    using safety_number_digits [OF assms(1)] safety_number_digits [OF assms(2)] by simp
qed (simp add: safety_number_def)

section \<open>Reconnecting\<close>

lemma round_delay: "min_backoff \<le> b \<Longrightarrow> fst (chat_round x now now' b c) = (opened, d) \<Longrightarrow> min_backoff \<le> d \<and> d \<le> b"
  by (auto simp: chat_round_def split: prod.splits sum.splits)

lemma run_waits:
  "min_backoff \<le> b \<Longrightarrow> b \<le> max_backoff \<Longrightarrow> i < length (fst (chat_run x rs b c))
    \<Longrightarrow> min_backoff \<le> fst (chat_run x rs b c) ! i \<and> fst (chat_run x rs b c) ! i \<le> min max_backoff (2 ^ i * b)"
proof (induction rs arbitrary: b c i)
  case (Cons r rs)
  obtain now now' live slept where r: "r = (now, now', live, slept)" by (cases r) auto
  obtain opened d c1 where e: "chat_round x now now' b c = ((opened, d), c1)" by (metis surj_pair)
  have d: "min_backoff \<le> d" "d \<le> b" using round_delay [OF Cons.prems(1), of x now now' c opened d] e by simp_all
  define c2 where "c2 = (if opened then chat_emit (ConnState False None) c1 else c1)"
  have n: "min_backoff \<le> chat_next_backoff d" "chat_next_backoff d \<le> max_backoff" "chat_next_backoff d \<le> 2 * d"
    using d(1) by (auto simp: chat_next_backoff_def min_backoff_def max_backoff_def)
  consider "opened \<and> \<not> live" | "\<not> (opened \<and> \<not> live)" "\<not> slept" | "\<not> (opened \<and> \<not> live)" "slept" by blast
  then show ?case
  proof cases
    case 3
    then have ws: "fst (chat_run x (r # rs) b c) = d # fst (chat_run x rs (chat_next_backoff d) c2)"
      by (simp add: r e c2_def Let_def split_beta)
    show ?thesis
    proof (cases i)
      case 0
      then show ?thesis using ws d Cons.prems(2) by simp
    next
      case (Suc j)
      then have j: "j < length (fst (chat_run x rs (chat_next_backoff d) c2))" using Cons.prems(3) ws by simp
      have "(2::int) ^ j * chat_next_backoff d \<le> 2 ^ j * (2 * b)" using n(3) d(2) by (intro mult_left_mono) auto
      also have "\<dots> = 2 ^ i * b" by (simp add: Suc)
      finally show ?thesis using Cons.IH [OF n(1,2) j] Suc ws by (auto intro: order_trans)
    qed
  qed (use Cons.prems d in \<open>auto simp: r e Let_def split: if_splits\<close>)
qed simp

text \<open>The waits between reconnects lie between one and thirty seconds, and the i-th one of a run is at most
  two to the i seconds.\<close>

theorem reconnect_waits:
  assumes "i < length (fst (chat_run x rs min_backoff c))"
  shows "min_backoff \<le> fst (chat_run x rs min_backoff c) ! i \<and> fst (chat_run x rs min_backoff c) ! i \<le> min max_backoff (2 ^ i * min_backoff)"
  using run_waits [OF _ _ assms] by (simp add: min_backoff_def max_backoff_def)

section \<open>Examples\<close>

theorem safety_number_identifies_witness:
  "safety_number ''ab:cd 12'' = safety_number ''ABCD12'' \<and> safety_number ''ab'' \<noteq> safety_number ''ac''"
proof -
  have "to_upper (filter (\<lambda>c. c \<noteq> CHR '' '' \<and> c \<noteq> CHR '':'') ''ab:cd 12'') = to_upper (filter (\<lambda>c. c \<noteq> CHR '' '' \<and> c \<noteq> CHR '':'') ''ABCD12'')"
    by code_simp
  moreover have "to_upper (filter (\<lambda>c. c \<noteq> CHR '' '' \<and> c \<noteq> CHR '':'') ''ab'') \<noteq> to_upper (filter (\<lambda>c. c \<noteq> CHR '' '' \<and> c \<noteq> CHR '':'') ''ac'')"
    by code_simp
  ultimately show ?thesis
    using safety_number_identifies [of "''ab:cd 12''" "''ABCD12''"] safety_number_identifies [of "''ab''" "''ac''"] by simp
qed

end
