(* ===== verification/PgpVault.thy ===== *)
theory PgpVault
  imports Pgp Keystore StoreLaws
begin

text \<open>
  Custody of private key material, src/ui/state/pgpvault.go: armored private keys go into the platform keystore
  under an alias made of the fingerprint, and the key table of the database keeps only an empty row for them.
\<close>

definition pgp_vault_prefix :: string where "pgp_vault_prefix = ''pgpsec:''"

definition pgp_vault_alias :: "string \<Rightarrow> string" where
  "pgp_vault_alias fp = pgp_vault_prefix @ to_lower (trim_space fp)"

definition seal_private_key :: "'k keystore_ops \<Rightarrow> string \<Rightarrow> string \<Rightarrow> 'k \<Rightarrow> (ks_error + unit) \<times> 'k" where
  "seal_private_key ks fp armored k = ks_store ks (pgp_vault_alias fp) armored k"

definition open_private_key :: "'k keystore_ops \<Rightarrow> string \<Rightarrow> 'k \<Rightarrow> (ks_error + string) \<times> 'k" where
  "open_private_key ks fp k = ks_fetch ks (pgp_vault_alias fp) k"

definition delete_sealed_private_key :: "'k keystore_ops \<Rightarrow> string \<Rightarrow> 'k \<Rightarrow> 'k" where
  "delete_sealed_private_key ks fp k = snd (ks_delete ks (pgp_vault_alias fp) k)"

definition is_private_armored :: "string \<Rightarrow> bool" where
  "is_private_armored armored = contains_str ''PRIVATE KEY BLOCK'' armored"

definition key_row :: "string \<Rightarrow> string \<Rightarrow> string \<Rightarrow> bool \<Rightarrow> pgp_key" where
  "key_row fp email armored priv =
     \<lparr>k_ID = 0, k_Fingerprint = fp, k_Email = email, k_Armored = armored, k_IsPrivate = priv, k_TrustLevel = 0, k_AddedAt = zero_time\<rparr>"

text \<open>The rows that hold no private material.\<close>

definition rows_public :: "db \<Rightarrow> bool" where
  "rows_public d \<longleftrightarrow> (\<forall>k \<in> set (db_pgp_keys d). \<not> is_private_armored (k_Armored k))"

lemma not_private_Nil [simp]: "\<not> is_private_armored []"
  by (simp add: is_private_armored_def contains_str_def)

lemma upsert_rows_public:
  "rows_public d \<Longrightarrow> \<not> is_private_armored (k_Armored k) \<Longrightarrow> rows_public (snd (upsert_pgp_key now k d))"
  by (auto simp: upsert_pgp_key_def sql_def rows_public_def Let_def split: list.splits)

lemma settings_rows_public [simp]:
  "rows_public (snd (get_setting key d)) = rows_public d" "rows_public (snd (set_setting key v d)) = rows_public d"
  by (auto simp: get_setting_def set_setting_def sql_def rows_public_def Let_def split: list.splits)

end
