(* ===== verification/ChatState.thy ===== *)
theory ChatState
  imports ChatLaws PgpVault
begin

text \<open>
  The user interface's holder of VayuTalk, src/ui/state/chatstate.go, chatstate_events.go and chatstate_ops.go: the
  conversations, the fold of the manager's events into them, the user's actions, and the binding to an account.

  The record \<open>chat_state\<close> extends the manager's by the holder's fields; \<open>cs_running\<close> says that a manager is bound.
  The conversations are the map of the code as an association list, in the order in which Go's map iteration
  visits them. Work the code puts on a goroutine is split where another goroutine can run between its parts: a
  sent message waits in \<open>cs_pending\<close> between the return of the manager's \<open>Send\<close> and the append to the conversation,
  and a start waits in \<open>cs_starting\<close> between \<open>EnsureStarted\<close> and \<open>startManager\<close>. Each operation reads the clock once.
  A keystore is always present, as in the application.
\<close>

section \<open>Data\<close>

datatype msg_status = MsgSending | MsgSent | MsgQueued | MsgRead | MsgSealed | MsgOpen | MsgExpired

record chat_message =
  cm_ID :: string
  cm_Peer :: string
  cm_Self :: bool
  cm_Text :: string
  cm_CreatedAt :: int
  cm_ExpiresAt :: "int option"
  cm_ArmedAt :: "int option"
  cm_BurnSeconds :: int
  cm_Mode :: string
  cm_Status :: msg_status
  cm_Revealed :: bool
  cm_Unauthenticated :: bool

record chat_conv =
  cv_peer :: string
  cv_fingerprint :: string
  cv_verified :: bool
  cv_unread :: int
  cv_lastActivity :: int
  cv_msgs :: "chat_message list"

record outgoing =
  og_peer :: string
  og_id :: string
  og_text :: string
  og_burn :: int
  og_mode :: string

record 'k chat_state = "'k chat" +
  cs_running :: bool
  cs_boundID :: int
  cs_account :: "account option"
  cs_transitioning :: bool
  cs_online :: bool
  cs_active :: string
  cs_convs :: "(string \<times> chat_conv) list"
  cs_pending :: "outgoing list"
  cs_starting :: "account list"
  cs_notes :: "string list"
  cs_incoming :: "string list"

definition min_burn_seconds :: int where "min_burn_seconds = 5"
definition max_burn_seconds :: int where "max_burn_seconds = 3600"
definition live_grace_seconds :: int where "live_grace_seconds = 5"
definition default_burn_seconds :: int where "default_burn_seconds = 300"

definition burn_duration :: "chat_message \<Rightarrow> int" where
  "burn_duration m =
     (let secs = (if cm_Mode m = ''live'' then live_grace_seconds else cm_BurnSeconds m);
          secs = (if secs \<le> 0 then default_burn_seconds else secs)
      in wrap64 (secs * second))"

definition clamp_burn :: "int \<Rightarrow> int" where
  "clamp_burn d =
     (let s = trunc_div d second;
          s = (if s < min_burn_seconds then min_burn_seconds else s);
          s = (if s > max_burn_seconds then max_burn_seconds else s)
      in s * second)"

definition peer_key :: "string \<Rightarrow> string" where
  "peer_key peer = to_lower (trim_space peer)"

definition cs_domain_of :: "string \<Rightarrow> string" where
  "cs_domain_of email = (case last_char_index CHR ''@'' email of Some i \<Rightarrow> drop (Suc i) email | None \<Rightarrow> [])"

definition note_user :: "string \<Rightarrow> 'k chat_state \<Rightarrow> 'k chat_state" where
  "note_user msg s = s\<lparr>cs_notes := cs_notes s @ [msg]\<rparr>"

section \<open>Conversations\<close>

definition new_conv :: "int \<Rightarrow> string \<Rightarrow> chat_conv" where
  "new_conv now p = \<lparr>cv_peer = p, cv_fingerprint = [], cv_verified = False, cv_unread = 0, cv_lastActivity = now, cv_msgs = []\<rparr>"

text \<open>\<open>conv\<close>: the record for a peer, made if absent; the second component is the map with it.\<close>

definition conv :: "int \<Rightarrow> string \<Rightarrow> (string \<times> chat_conv) list \<Rightarrow> chat_conv \<times> (string \<times> chat_conv) list" where
  "conv now peer cs =
     (let p = peer_key peer
      in case map_of cs p of
           Some c \<Rightarrow> (c, cs)
         | None \<Rightarrow> (new_conv now p, cs @ [(p, new_conv now p)]))"

definition put_conv :: "string \<Rightarrow> chat_conv \<Rightarrow> (string \<times> chat_conv) list \<Rightarrow> (string \<times> chat_conv) list" where
  "put_conv p c cs = map (\<lambda>(k, c'). if k = p then (k, c) else (k, c')) cs"

fun change_first :: "string \<Rightarrow> (chat_message \<Rightarrow> chat_message) \<Rightarrow> chat_message list \<Rightarrow> chat_message list option" where
  "change_first mid f [] = None"
| "change_first mid f (m # ms) =
     (if cm_ID m = mid then Some (f m # ms) else map_option (Cons m) (change_first mid f ms))"

fun set_status_by_id :: "int \<Rightarrow> string \<Rightarrow> (chat_message \<Rightarrow> chat_message) \<Rightarrow> (string \<times> chat_conv) list \<Rightarrow> (string \<times> chat_conv) list" where
  "set_status_by_id now mid f [] = []"
| "set_status_by_id now mid f ((k, c) # cs) =
     (case change_first mid f (cv_msgs c) of
        Some ms \<Rightarrow> (k, c\<lparr>cv_msgs := ms, cv_lastActivity := now\<rparr>) # cs
      | None \<Rightarrow> (k, c) # set_status_by_id now mid f cs)"

section \<open>Folding events\<close>

definition unauthenticated :: "chat_conv \<Rightarrow> incoming \<Rightarrow> bool" where
  "unauthenticated c e \<longleftrightarrow> \<not> in_Authentic e
     \<or> cv_verified c \<and> cv_fingerprint c \<noteq> []
       \<and> \<not> equal_fold (trim_space (in_SenderFingerprint e)) (trim_space (cv_fingerprint c))"

definition incoming_message :: "int \<Rightarrow> chat_conv \<Rightarrow> incoming \<Rightarrow> chat_message" where
  "incoming_message now c e =
     \<lparr>cm_ID = in_ID e, cm_Peer = cv_peer c, cm_Self = False, cm_Text = in_Plaintext e,
      cm_CreatedAt = (case in_CreatedAt e of Some t \<Rightarrow> t | None \<Rightarrow> now), cm_ExpiresAt = None, cm_ArmedAt = None,
      cm_BurnSeconds = in_BurnSeconds e, cm_Mode = in_Mode e, cm_Status = MsgSealed, cm_Revealed = False,
      cm_Unauthenticated = unauthenticated c e\<rparr>"

definition apply_incoming :: "int \<Rightarrow> incoming \<Rightarrow> 'k chat_state \<Rightarrow> 'k chat_state" where
  "apply_incoming now e s =
     (let (c, cs) = conv now (in_Peer e) (cs_convs s)
      in if list_ex (\<lambda>m. cm_ID m = in_ID e) (cv_msgs c) then s\<lparr>cs_convs := cs\<rparr>
         else (let background = (cs_active s \<noteq> cv_peer c);
                   c' = c\<lparr>cv_msgs := cv_msgs c @ [incoming_message now c e], cv_lastActivity := now,
                          cv_unread := cv_unread c + (if background then 1 else 0)\<rparr>
               in s\<lparr>cs_convs := put_conv (cv_peer c) c' cs,
                    cs_incoming := cs_incoming s @ (if background then [cv_peer c] else [])\<rparr>))"

definition arm :: "int \<Rightarrow> chat_message \<Rightarrow> chat_message" where
  "arm now m = m\<lparr>cm_ArmedAt := Some now, cm_ExpiresAt := Some (now + burn_duration m)\<rparr>"

fun apply_event :: "int \<Rightarrow> chat_event \<Rightarrow> 'k chat_state \<Rightarrow> 'k chat_state" where
  "apply_event now (IncomingMessage e) s = apply_incoming now e s"
| "apply_event now (Delivered mid ok) s =
     s\<lparr>cs_convs := set_status_by_id now mid
         (\<lambda>m. m\<lparr>cm_Status := (if cm_Mode m = ''store'' then MsgQueued else MsgSent)\<rparr>) (cs_convs s)\<rparr>"
| "apply_event now (MessageRead peer mid) s =
     s\<lparr>cs_convs := set_status_by_id now mid
         (\<lambda>m. let m = m\<lparr>cm_Status := MsgRead\<rparr> in if cm_ExpiresAt m = None then arm now m else m) (cs_convs s)\<rparr>"
| "apply_event now (MessageExpired mid) s =
     s\<lparr>cs_convs := set_status_by_id now mid (\<lambda>m. m\<lparr>cm_Status := MsgExpired\<rparr>) (cs_convs s)\<rparr>"
| "apply_event now (PeerKey peer fp v) s =
     (let (c, cs) = conv now peer (cs_convs s)
      in s\<lparr>cs_convs := put_conv (cv_peer c) (c\<lparr>cv_fingerprint := fp, cv_verified := v\<rparr>) cs\<rparr>)"
| "apply_event now (ConnState online err) s = s\<lparr>cs_online := online\<rparr>"

text \<open>One turn of \<open>drain\<close>. Its goroutine ends when it sees the cancelled context, so an event that was queued before
  \<open>Stop\<close> or \<open>EnsureStarted\<close> may still be folded in afterwards; a new manager has its own, empty queue.\<close>

definition drain :: "int \<Rightarrow> 'k chat_state \<Rightarrow> 'k chat_state" where
  "drain now s =
     (case c_events s of [] \<Rightarrow> s | ev # evs \<Rightarrow> apply_event now ev (s\<lparr>c_events := evs\<rparr>))"

section \<open>The user's actions\<close>

definition send_start :: "('k, 'k chat_state) talk_ext \<Rightarrow> string \<Rightarrow> string \<Rightarrow> int \<Rightarrow> string \<Rightarrow> 'k chat_state \<Rightarrow> 'k chat_state" where
  "send_start x peer text burn mode s =
     (let peer = peer_key peer; text = trim_space text
      in if peer = [] \<or> text = [] then s
         else if \<not> cs_running s then note_user ''VayuTalk is not connected yet'' s
         else (let clamped = clamp_burn burn
               in case chat_send x peer text clamped mode s of
                    (Inl _, s') \<Rightarrow> note_user ''Message not sent'' s'
                  | (Inr mid, s') \<Rightarrow>
                      s'\<lparr>cs_pending := cs_pending s' @
                          [\<lparr>og_peer = peer, og_id = mid, og_text = text, og_burn = clamped, og_mode = mode\<rparr>]\<rparr>))"

definition sent_message :: "int \<Rightarrow> chat_conv \<Rightarrow> outgoing \<Rightarrow> chat_message" where
  "sent_message now c g =
     \<lparr>cm_ID = og_id g, cm_Peer = cv_peer c, cm_Self = True, cm_Text = og_text g, cm_CreatedAt = now, cm_ExpiresAt = None,
      cm_ArmedAt = None, cm_BurnSeconds = trunc_div (og_burn g) second, cm_Mode = og_mode g, cm_Status = MsgSending,
      cm_Revealed = False, cm_Unauthenticated = False\<rparr>"

definition send_finish :: "int \<Rightarrow> nat \<Rightarrow> 'k chat_state \<Rightarrow> 'k chat_state" where
  "send_finish now i s =
     (if i < length (cs_pending s)
      then (let g = cs_pending s ! i; (c, cs) = conv now (og_peer g) (cs_convs s)
            in s\<lparr>cs_pending := take i (cs_pending s) @ drop (Suc i) (cs_pending s),
                 cs_convs := put_conv (cv_peer c) (c\<lparr>cv_msgs := cv_msgs c @ [sent_message now c g], cv_lastActivity := now\<rparr>) cs\<rparr>)
      else s)"

definition reveal :: "int \<Rightarrow> string \<Rightarrow> chat_message \<Rightarrow> chat_message" where
  "reveal now mid m =
     (if cm_ID m = mid \<and> \<not> cm_Self m then arm now (m\<lparr>cm_Revealed := True, cm_Status := MsgOpen\<rparr>) else m)"

definition reveal_message :: "('k, 'k chat_state) talk_ext \<Rightarrow> int \<Rightarrow> string \<Rightarrow> string \<Rightarrow> 'k chat_state \<Rightarrow> 'k chat_state" where
  "reveal_message x now peer mid s =
     (let p = peer_key peer;
          found = (case map_of (cs_convs s) p of None \<Rightarrow> False | Some c \<Rightarrow> list_ex (\<lambda>m. cm_ID m = mid \<and> \<not> cm_Self m) (cv_msgs c));
          s' = (case map_of (cs_convs s) p of
                  None \<Rightarrow> s
                | Some c \<Rightarrow> s\<lparr>cs_convs := put_conv p (c\<lparr>cv_msgs := map (reveal now mid) (cv_msgs c)\<rparr>) (cs_convs s)\<rparr>)
      in if \<not> found \<or> \<not> cs_running s then s' else snd (chat_ack x mid s'))"

definition cs_verify_peer :: "('k, 'k chat_state) talk_ext \<Rightarrow> string \<Rightarrow> 'k chat_state \<Rightarrow> 'k chat_state" where
  "cs_verify_peer x peer s =
     (let peer = peer_key peer
      in if \<not> cs_running s then note_user ''VayuTalk is not connected yet'' s
         else case verify_peer x peer s of
                (Inl _, s') \<Rightarrow> note_user (''Could not fetch a key for '' @ peer) s'
              | (Inr _, s') \<Rightarrow> s')"

definition set_verified :: "('k, 'k chat_state) talk_ext \<Rightarrow> string \<Rightarrow> bool \<Rightarrow> 'k chat_state \<Rightarrow> 'k chat_state" where
  "set_verified x peer v s =
     (let p = peer_key peer;
          fp = (case map_of (cs_convs s) p of None \<Rightarrow> [] | Some c \<Rightarrow> cv_fingerprint c);
          s' = (case map_of (cs_convs s) p of
                  None \<Rightarrow> s | Some c \<Rightarrow> s\<lparr>cs_convs := put_conv p (c\<lparr>cv_verified := v\<rparr>) (cs_convs s)\<rparr>)
      in if \<not> cs_running s \<or> fp = [] then s'
         else case set_peer_verified x fp v s' of
                (Inl _, s'') \<Rightarrow> note_user ''Could not save verification'' s''
              | (Inr _, s'') \<Rightarrow> s'')"

definition open_conversation :: "('k, 'k chat_state) talk_ext \<Rightarrow> int \<Rightarrow> string \<Rightarrow> 'k chat_state \<Rightarrow> 'k chat_state" where
  "open_conversation x now peer s =
     (let p = peer_key peer
      in if p = [] then s
         else (let (c, cs) = conv now p (cs_convs s);
                   s' = s\<lparr>cs_convs := put_conv (cv_peer c) (c\<lparr>cv_unread := 0\<rparr>) cs, cs_active := p\<rparr>
               in if cv_fingerprint c = [] then cs_verify_peer x p s' else s'))"

definition close_conversation :: "'k chat_state \<Rightarrow> 'k chat_state" where
  "close_conversation s = s\<lparr>cs_active := []\<rparr>"

section \<open>Binding to an account\<close>

definition ensure_started :: "account \<Rightarrow> 'k chat_state \<Rightarrow> 'k chat_state" where
  "ensure_started acct s =
     (if a_ID acct = 0 \<or> a_EmailAddress acct = [] then s
      else if cs_boundID s = a_ID acct \<and> (cs_running s \<or> cs_transitioning s) then s
      else if cs_transitioning s then s
      else s\<lparr>cs_transitioning := True, cs_boundID := a_ID acct, cs_running := False, cs_starting := cs_starting s @ [acct]\<rparr>)"

text \<open>The keys of the answer are imported; each is sealed in the keystore, and one that could not be sealed
  is not recorded.\<close>

fun persist_own_keys :: "'k keystore_ops \<Rightarrow> int \<Rightarrow> string \<Rightarrow> string \<Rightarrow> string list \<Rightarrow> ('k, 'z) chat_scheme \<Rightarrow> ('k, 'z) chat_scheme" where
  "persist_own_keys ks now email armored [] s = s"
| "persist_own_keys ks now email armored (fp # fps) s =
     (case seal_private_key ks fp armored (c_ks s) of
        (Inl _, k) \<Rightarrow> persist_own_keys ks now email armored fps (s\<lparr>c_ks := k\<rparr>)
      | (Inr _, k) \<Rightarrow>
          persist_own_keys ks now email armored fps
            (s\<lparr>c_ks := k, c_db := snd (upsert_pgp_key now (key_row fp email [] True) (c_db s))\<rparr>))"

definition sync_own_key :: "('k, ('k, 'z) chat_scheme) talk_ext \<Rightarrow> int \<Rightarrow> string \<Rightarrow> ('k, 'z) chat_scheme \<Rightarrow> bool \<times> ('k, 'z) chat_scheme" where
  "sync_own_key x now email s =
     (if email = [] then (False, s)
      else case credential x s of
        (Inl _, s) \<Rightarrow> (False, s)
      | (Inr pw, s) \<Rightarrow>
          if pw = [] then (False, s)
          else (case snd (fetch_private_key (t_http x) email pw) of
                  Inl _ \<Rightarrow> (False, s)
                | Inr armored \<Rightarrow>
                    if armored = [] then (False, s)
                    else (case import_talk_key x armored s of
                            (Inl _, s) \<Rightarrow> (False, s)
                          | (Inr fps, s) \<Rightarrow> (True, persist_own_keys (t_ks x) now email armored fps s))))"

text \<open>The manager's environment as \<open>startManager\<close> sets it up: the settings are the database, a message that
  cannot be decrypted re-fetches the key of the bound mailbox.\<close>

definition bound_ext :: "('k, 'k chat_state) talk_ext \<Rightarrow> int \<Rightarrow> string \<Rightarrow> ('k, 'k chat_state) talk_ext" where
  "bound_ext x now email = x\<lparr>t_settings := True, t_resync := Some (sync_own_key x now email)\<rparr>"

definition start_manager :: "('k, 'k chat_state) talk_ext \<Rightarrow> int \<Rightarrow> account \<Rightarrow> 'k chat_state \<Rightarrow> 'k chat_state" where
  "start_manager x now acct s =
     (let email = a_EmailAddress acct;
          s1 = snd (sync_own_key x now email (s\<lparr>c_alias := a_KeystoreAlias acct\<rparr>));
          h = snd (resolve_talk_host (t_http x) email)
      in s1\<lparr>c_self := email, c_domain := (if h \<noteq> [] then h else cs_domain_of email), c_tok := [], c_sentTo := Map.empty,
            c_verifiedMem := Map.empty, c_nextResync := None, c_events := [],
            cs_running := True, cs_account := Some acct, cs_transitioning := False, cs_convs := [], cs_active := [], cs_online := False\<rparr>)"

definition finish_start :: "('k, 'k chat_state) talk_ext \<Rightarrow> int \<Rightarrow> 'k chat_state \<Rightarrow> 'k chat_state" where
  "finish_start x now s =
     (case cs_starting s of [] \<Rightarrow> s | acct # rest \<Rightarrow> start_manager x now acct (s\<lparr>cs_starting := rest\<rparr>))"

definition cs_stop :: "'k chat_state \<Rightarrow> 'k chat_state" where
  "cs_stop s = s\<lparr>cs_running := False, cs_boundID := 0, cs_transitioning := False, cs_account := None, cs_convs := [],
                 cs_active := [], cs_online := False\<rparr>"

section \<open>The snapshot\<close>

record conversation_row =
  cr_Peer :: string
  cr_Fingerprint :: string
  cr_Verified :: bool
  cr_Unread :: int
  cr_LastActivity :: int

record chat_snapshot =
  sn_Connected :: bool
  sn_Online :: bool
  sn_ActivePeer :: string
  sn_Conversations :: "conversation_row list"
  sn_Messages :: "chat_message list"
  sn_Verified :: bool
  sn_Fingerprint :: string
  sn_SelfEmail :: string
  sn_SelfFingerprint :: string

definition conversation_of :: "chat_conv \<Rightarrow> conversation_row" where
  "conversation_of c = \<lparr>cr_Peer = cv_peer c, cr_Fingerprint = cv_fingerprint c, cr_Verified = cv_verified c,
     cr_Unread = cv_unread c, cr_LastActivity = cv_lastActivity c\<rparr>"

definition cs_snapshot :: "'k chat_state \<Rightarrow> chat_snapshot" where
  "cs_snapshot s =
     (let email = (case cs_account s of Some a \<Rightarrow> a_EmailAddress a | None \<Rightarrow> []);
          act = map_of (cs_convs s) (cs_active s)
      in \<lparr>sn_Connected = cs_running s, sn_Online = cs_online s, sn_ActivePeer = cs_active s,
          sn_Conversations = sort_key (\<lambda>r. - cr_LastActivity r) (map (conversation_of \<circ> snd) (cs_convs s)),
          sn_Messages = (case act of Some c \<Rightarrow> cv_msgs c | None \<Rightarrow> []),
          sn_Verified = (case act of Some c \<Rightarrow> cv_verified c | None \<Rightarrow> False),
          sn_Fingerprint = (case act of Some c \<Rightarrow> cv_fingerprint c | None \<Rightarrow> []),
          sn_SelfEmail = email,
          sn_SelfFingerprint = (if email = [] then [] else case fingerprint_for_email email (c_keyring s) of Inr fp \<Rightarrow> fp | Inl _ \<Rightarrow> [])\<rparr>)"

section \<open>Runs\<close>

datatype cs_op =
    CsEnsure account
  | CsStart int
  | CsStop
  | CsStream int int stream_event
  | CsDrain int
  | CsSend string string int string
  | CsFinish int nat
  | CsReveal int string string
  | CsVerify string
  | CsSetVerified string bool
  | CsOpen int string
  | CsClose

fun cs_step :: "('k, 'k chat_state) talk_ext \<Rightarrow> cs_op \<Rightarrow> 'k chat_state \<Rightarrow> 'k chat_state" where
  "cs_step x (CsEnsure a) s = ensure_started a s"
| "cs_step x (CsStart now) s = finish_start x now s"
| "cs_step x CsStop s = cs_stop s"
| "cs_step x (CsStream now now' ev) s =
     (if cs_running s then handle_stream_event (bound_ext x now (c_self s)) now now' ev s else s)"
| "cs_step x (CsDrain now) s = drain now s"
| "cs_step x (CsSend peer text burn mode) s = send_start (bound_ext x 0 (c_self s)) peer text burn mode s"
| "cs_step x (CsFinish now i) s = send_finish now i s"
| "cs_step x (CsReveal now peer mid) s = reveal_message (bound_ext x 0 (c_self s)) now peer mid s"
| "cs_step x (CsVerify peer) s = cs_verify_peer (bound_ext x 0 (c_self s)) peer s"
| "cs_step x (CsSetVerified peer v) s = set_verified (bound_ext x 0 (c_self s)) peer v s"
| "cs_step x (CsOpen now peer) s = open_conversation (bound_ext x 0 (c_self s)) now peer s"
| "cs_step x CsClose s = close_conversation s"

definition cs_run :: "('k, 'k chat_state) talk_ext \<Rightarrow> cs_op list \<Rightarrow> 'k chat_state \<Rightarrow> 'k chat_state" where
  "cs_run x ops s = fold (cs_step x) ops s"

definition new_chat_state :: "keyring \<Rightarrow> db \<Rightarrow> 'k \<Rightarrow> reply list \<Rightarrow> 'k chat_state" where
  "new_chat_state kr d k replies =
     \<lparr>c_keyring = kr, c_db = d, c_ks = k, c_self = [], c_domain = [], c_alias = [], c_tok = [], c_sentTo = Map.empty,
      c_verifiedMem = Map.empty, c_nextResync = None, c_events = [], c_log = [], c_replies = replies,
      cs_running = False, cs_boundID = 0, cs_account = None, cs_transitioning = False, cs_online = False, cs_active = [],
      cs_convs = [], cs_pending = [], cs_starting = [], cs_notes = [], cs_incoming = []\<rparr>"

end
