(* ===== verification/ChatStateLaws.thy ===== *)
theory ChatStateLaws
  imports ChatState
begin

text \<open>
  Properties of VayuTalk as the user meets it, over runs of the operations of \<open>ChatState\<close> in any order: where
  requests go, the invariant of the conversations, what a message shown as authentic has proved, and the orders of
  operations in which the user interface is wrong.

  \<open>talk_invariant\<close> is the interface the holder needs of an invariant of the shared state; with the manager set up as
  \<open>startManager\<close> does it gives a \<open>chat_invariant\<close>, so that every operation of the manager keeps it.
\<close>

section \<open>Invariants with the manager bound\<close>

lemma bound_ext_simps [simp]:
  "t_ks (bound_ext x now email) = t_ks x" "t_pgp (bound_ext x now email) = t_pgp x" "t_http (bound_ext x now email) = t_http x"
  "t_settings (bound_ext x now email)" "t_resync (bound_ext x now email) = Some (sync_own_key x now email)"
  by (simp_all add: bound_ext_def)

lemma bound_call: "talk_call (bound_ext x now email) = talk_call x"
proof -
  have "talk_do (bound_ext x now email) = talk_do x" by (simp add: fun_eq_iff talk_do_def)
  then show ?thesis by (intro ext) (simp only: talk_call_def)
qed

locale talk_invariant =
  fixes I :: "'k chat_state \<Rightarrow> bool"
    and x :: "('k, 'k chat_state) talk_ext"
  assumes request: "has_prefix ''/'' path \<Longrightarrow> keeps I (talk_call x method path accept token body)"
    and token: "I c \<Longrightarrow> I (c\<lparr>c_tok := t\<rparr>)"
    and sent: "I c \<Longrightarrow> I (c\<lparr>c_sentTo := p\<rparr>)"
    and verified: "I c \<Longrightarrow> I (c\<lparr>c_verifiedMem := v\<rparr>)"
    and cooldown: "I c \<Longrightarrow> I (c\<lparr>c_nextResync := r\<rparr>)"
    and emitted: "I c \<Longrightarrow> I (chat_emit ev c)"
    and secret: "I c \<Longrightarrow> I (c\<lparr>c_ks := k\<rparr>)"
    and setting_read: "I c \<Longrightarrow> I (c\<lparr>c_db := snd (get_setting key (c_db c))\<rparr>)"
    and setting_write: "I c \<Longrightarrow> I (c\<lparr>c_db := snd (set_setting key w (c_db c))\<rparr>)"
    and key_write: "I c \<Longrightarrow> I (c\<lparr>c_db := snd (upsert_pgp_key now (key_row fp email [] True) (c_db c))\<rparr>)"
    and imported: "I c \<Longrightarrow> I (c\<lparr>c_keyring := snd (import_armored (t_pgp x) b (c_keyring c))\<rparr>)"
begin

lemma persist_inv: "I s \<Longrightarrow> I (persist_own_keys (t_ks x) now email armored fps s)"
proof (induction fps arbitrary: s)
  case (Cons fp fps)
  obtain r k where k: "seal_private_key (t_ks x) fp armored (c_ks s) = (r, k)" by fastforce
  have "I (s\<lparr>c_ks := k\<rparr>)" using Cons.prems by (rule secret)
  moreover from key_write [OF this] have "I (s\<lparr>c_ks := k, c_db := snd (upsert_pgp_key now (key_row fp email [] True) (c_db s))\<rparr>)" by simp
  ultimately show ?case using k Cons.IH by (cases r) simp_all
qed simp

lemma sync_own_inv: "I s \<Longrightarrow> I (snd (sync_own_key x now email s))"
proof -
  assume s: "I s"
  obtain r s1 where c: "credential x s = (r, s1)" by fastforce
  have s1: "I s1" using c secret [OF s] by (auto simp: credential_def split: prod.splits sum.splits)
  have "I s2" if "import_talk_key x armored s1 = (r2, s2)" for armored r2 s2
    using imported [OF s1, of armored] that by (auto simp: import_talk_key_def split: prod.splits sum.splits)
  then show ?thesis using s s1 c persist_inv
    by (auto simp: sync_own_key_def split: sum.splits prod.splits)
qed

end

sublocale talk_invariant \<subseteq> bound: chat_invariant I "bound_ext x now email" for now email
  using request token sent verified cooldown emitted secret setting_read setting_write imported sync_own_inv
  by unfold_locales (auto simp: bound_call)
section \<open>Where requests go\<close>

definition talk_request_ok :: "string \<Rightarrow> talk_request \<Rightarrow> bool" where
  "talk_request_ok d rq \<longleftrightarrow> public_talk_domain d \<and> has_prefix (base_url d @ ''/'') (tq_url rq)"

text \<open>The hosts that may serve VayuTalk for an address: its domain as written, or in lower case, or a host
  below it.\<close>

definition mail_host_of :: "string \<Rightarrow> string \<Rightarrow> bool" where
  "mail_host_of email d \<longleftrightarrow>
     (let m = to_lower (trim_space (cs_domain_of email))
      in d = cs_domain_of email \<or> d = m \<or> has_suffix (CHR ''.'' # m) d)"

definition talk_hosts :: "account set \<Rightarrow> string set" where
  "talk_hosts A = {d. d = [] \<or> (\<exists>a \<in> A. mail_host_of (a_EmailAddress a) d)}"

definition confined_inv :: "account set \<Rightarrow> 'k chat_state \<Rightarrow> bool" where
  "confined_inv A s \<longleftrightarrow> c_domain s \<in> talk_hosts A \<and> (\<forall>rq \<in> set (c_log s). \<exists>d \<in> talk_hosts A. talk_request_ok d rq)"

lemma confined_request: "has_prefix ''/'' path \<Longrightarrow> keeps (confined_inv A) (talk_call x method path accept token body)"
  by (auto simp: keeps_def confined_inv_def talk_call_def seqE_def check_domain_def talk_do_def next_reply_def Let_def
      talk_request_ok_def has_prefix_iff split: list.splits reply.splits)

interpretation confined: talk_invariant "confined_inv A" x for A x
  by unfold_locales (auto simp: confined_inv_def chat_emit_def intro: confined_request)

text \<open>The fields of the holder that the manager does not touch.\<close>

definition holder :: "'k chat_state \<Rightarrow> bool \<times> int \<times> account option \<times> bool \<times> bool \<times> string \<times> (string \<times> chat_conv) list
    \<times> outgoing list \<times> account list \<times> string list \<times> string list" where
  "holder s = (cs_running s, cs_boundID s, cs_account s, cs_transitioning s, cs_online s, cs_active s, cs_convs s, cs_pending s,
     cs_starting s, cs_notes s, cs_incoming s)"

lemma frame_request: "keeps (\<lambda>s. holder s = h) (talk_call x method path accept token body)"
  by (auto simp: keeps_def holder_def talk_call_def seqE_def check_domain_def talk_do_def next_reply_def Let_def
      split: list.splits reply.splits)

lemma holder_simps [simp]:
  "holder (s\<lparr>c_tok := t\<rparr>) = holder s" "holder (s\<lparr>c_sentTo := p\<rparr>) = holder s" "holder (s\<lparr>c_verifiedMem := v\<rparr>) = holder s"
  "holder (s\<lparr>c_nextResync := r\<rparr>) = holder s" "holder (chat_emit ev s) = holder s" "holder (s\<lparr>c_ks := k\<rparr>) = holder s"
  "holder (s\<lparr>c_db := d\<rparr>) = holder s" "holder (s\<lparr>c_keyring := kr\<rparr>) = holder s"
  by (simp_all add: holder_def chat_emit_def)

interpretation frame: talk_invariant "\<lambda>s. holder s = h" x for h x
  by unfold_locales (simp_all add: frame_request)

lemma manager_frame:
  "holder (snd (chat_send (bound_ext x now email) peer text burn mode s)) = holder s"
  "holder (snd (chat_ack (bound_ext x now email) mid s)) = holder s"
  "holder (snd (verify_peer (bound_ext x now email) peer s)) = holder s"
  "holder (snd (set_peer_verified (bound_ext x now email) fp v s)) = holder s"
  "holder (handle_stream_event (bound_ext x now email) t t' ev s) = holder s"
  "holder (snd (sync_own_key x now email s)) = holder s"
  by (rule keepsD [OF frame.bound.keeps_chat_send refl], rule keepsD [OF frame.bound.keeps_chat_ack refl],
      rule keepsD [OF frame.bound.keeps_verify_peer refl], rule keepsD [OF frame.bound.keeps_set_peer_verified refl],
      rule frame.bound.stream_event_inv [OF refl], rule frame.sync_own_inv [OF refl])

lemma holder_fields:
  "holder s = holder t \<Longrightarrow> cs_running s = cs_running t \<and> cs_boundID s = cs_boundID t \<and> cs_account s = cs_account t
    \<and> cs_transitioning s = cs_transitioning t \<and> cs_online s = cs_online t \<and> cs_active s = cs_active t \<and> cs_convs s = cs_convs t
    \<and> cs_pending s = cs_pending t \<and> cs_starting s = cs_starting t \<and> cs_notes s = cs_notes t \<and> cs_incoming s = cs_incoming t"
  by (simp add: holder_def)

lemmas manager_holder = manager_frame [THEN holder_fields]

fun op_accounts :: "cs_op \<Rightarrow> account set" where
  "op_accounts (CsEnsure a) = {a}"
| "op_accounts _ = {}"

lemma resolved_host: "snd (resolve_talk_host x email) \<noteq> [] \<Longrightarrow> mail_host_of email (snd (resolve_talk_host x email))"
  using talk_relay_confined [of x email]
  by (auto simp: address_domain_def mail_host_of_def cs_domain_of_def Let_def simp del: last_char_index_None split: option.splits if_splits)

lemma confined_other [simp]:
  "confined_inv A (s\<lparr>cs_convs := cs\<rparr>) = confined_inv A s" "confined_inv A (s\<lparr>cs_notes := ns\<rparr>) = confined_inv A s"
  "confined_inv A (s\<lparr>cs_pending := ps\<rparr>) = confined_inv A s" "confined_inv A (s\<lparr>cs_active := p\<rparr>) = confined_inv A s"
  "confined_inv A (s\<lparr>cs_online := b\<rparr>) = confined_inv A s" "confined_inv A (s\<lparr>cs_incoming := is\<rparr>) = confined_inv A s"
  "confined_inv A (s\<lparr>cs_starting := as\<rparr>) = confined_inv A s" "confined_inv A (s\<lparr>c_events := evs\<rparr>) = confined_inv A s"
  "confined_inv A (s\<lparr>c_alias := al\<rparr>) = confined_inv A s"
  by (simp_all add: confined_inv_def)

lemma confined_start:
  assumes "confined_inv A s" "acct \<in> A"
  shows "confined_inv A (start_manager x now acct s)"
proof -
  have "confined_inv A (snd (sync_own_key x now (a_EmailAddress acct) (s\<lparr>c_alias := a_KeystoreAlias acct\<rparr>)))"
    using assms(1) by (intro confined.sync_own_inv) simp
  moreover have "snd (resolve_talk_host (t_http x) (a_EmailAddress acct)) \<in> talk_hosts A"
    using resolved_host [of "t_http x" "a_EmailAddress acct"] assms(2) by (auto simp: talk_hosts_def)
  moreover have "cs_domain_of (a_EmailAddress acct) \<in> talk_hosts A"
    using assms(2) by (auto simp: talk_hosts_def mail_host_of_def Let_def)
  ultimately show ?thesis by (auto simp: start_manager_def Let_def confined_inv_def)
qed

lemma start_manager_starting: "cs_starting (start_manager x now acct s) = cs_starting s"
  using manager_holder(6) [of x now "a_EmailAddress acct" "s\<lparr>c_alias := a_KeystoreAlias acct\<rparr>"]
  by (simp add: start_manager_def Let_def)

definition starting_in :: "account set \<Rightarrow> 'k chat_state \<Rightarrow> bool" where
  "starting_in A s \<longleftrightarrow> confined_inv A s \<and> set (cs_starting s) \<subseteq> A"

lemma starting_in_cong: "holder t = holder s \<Longrightarrow> confined_inv A t \<Longrightarrow> starting_in A s \<Longrightarrow> starting_in A t"
  using holder_fields [of t s] by (simp add: starting_in_def)

lemma starting_in_other [simp]:
  "starting_in A (s\<lparr>cs_convs := cs\<rparr>) = starting_in A s" "starting_in A (s\<lparr>cs_notes := ns\<rparr>) = starting_in A s"
  "starting_in A (s\<lparr>cs_pending := ps\<rparr>) = starting_in A s" "starting_in A (s\<lparr>cs_active := p\<rparr>) = starting_in A s"
  "starting_in A (s\<lparr>cs_online := b\<rparr>) = starting_in A s" "starting_in A (s\<lparr>cs_incoming := is\<rparr>) = starting_in A s"
  "starting_in A (s\<lparr>c_events := evs\<rparr>) = starting_in A s" "starting_in A (note_user msg s) = starting_in A s"
  by (simp_all add: starting_in_def note_user_def)

lemma starting_in_manager:
  assumes "starting_in A s"
  shows "starting_in A (snd (chat_send (bound_ext x now email) peer text burn mode s))"
    "starting_in A (snd (chat_ack (bound_ext x now email) mid s))"
    "starting_in A (snd (verify_peer (bound_ext x now email) peer s))"
    "starting_in A (snd (set_peer_verified (bound_ext x now email) fp v s))"
    "starting_in A (handle_stream_event (bound_ext x now email) t t' ev s)"
proof -
  have s: "confined_inv A s" using assms by (simp add: starting_in_def)
  note cong = starting_in_cong [OF _ _ assms]
  show "starting_in A (snd (chat_send (bound_ext x now email) peer text burn mode s))"
    by (intro cong manager_frame keepsD [OF confined.bound.keeps_chat_send s])
  show "starting_in A (snd (chat_ack (bound_ext x now email) mid s))"
    by (intro cong manager_frame keepsD [OF confined.bound.keeps_chat_ack s])
  show "starting_in A (snd (verify_peer (bound_ext x now email) peer s))"
    by (intro cong manager_frame keepsD [OF confined.bound.keeps_verify_peer s])
  show "starting_in A (snd (set_peer_verified (bound_ext x now email) fp v s))"
    by (intro cong manager_frame keepsD [OF confined.bound.keeps_set_peer_verified s])
  show "starting_in A (handle_stream_event (bound_ext x now email) t t' ev s)"
    by (intro cong manager_frame confined.bound.stream_event_inv [OF s])
qed

lemma starting_in_send: "starting_in A s \<Longrightarrow> starting_in A (send_start (bound_ext x now email) peer text burn mode s)"
  using starting_in_manager(1) [of A s x now email "peer_key peer" "trim_space text" "clamp_burn burn" mode]
  by (auto simp: send_start_def Let_def split: prod.splits sum.splits)

lemma starting_in_reveal: "starting_in A s \<Longrightarrow> starting_in A (reveal_message (bound_ext x now email) t peer mid s)"
  by (auto simp: reveal_message_def Let_def starting_in_manager split: option.splits)

lemma starting_in_verify: "starting_in A s \<Longrightarrow> starting_in A (cs_verify_peer (bound_ext x now email) peer s)"
  using starting_in_manager(3) [of A s x now email "peer_key peer"]
  by (auto simp: cs_verify_peer_def Let_def split: prod.splits sum.splits)

lemma starting_in_set: "starting_in A s \<Longrightarrow> starting_in A (set_verified (bound_ext x now email) peer v s)"
proof -
  assume "starting_in A s"
  then have "starting_in A (case map_of (cs_convs s) (peer_key peer) of
      None \<Rightarrow> s | Some c \<Rightarrow> s\<lparr>cs_convs := put_conv (peer_key peer) (c\<lparr>cv_verified := v\<rparr>) (cs_convs s)\<rparr>)" (is "starting_in A ?t")
    by (simp split: option.splits)
  from starting_in_manager(4) [OF this] have "starting_in A (snd (set_peer_verified (bound_ext x now email) fp v ?t))" for fp .
  then show ?thesis using \<open>starting_in A ?t\<close> unfolding set_verified_def Let_def
    by (auto split: prod.splits sum.splits) (metis snd_conv)+
qed

lemma starting_in_open: "starting_in A s \<Longrightarrow> starting_in A (open_conversation (bound_ext x now email) t peer s)"
  by (auto simp: open_conversation_def Let_def starting_in_verify split: prod.splits)

lemma apply_event_manager: "starting_in A (apply_event now ev s) = starting_in A s"
  by (cases ev) (auto simp: apply_incoming_def starting_in_def confined_inv_def Let_def split: prod.splits)

lemma starting_in_step:
  assumes "starting_in A s" "op_accounts op \<subseteq> A"
  shows "starting_in A (cs_step x op s)"
proof (cases op)
  case (CsStart now)
  then show ?thesis using assms confined_start [of A "s\<lparr>cs_starting := tl (cs_starting s)\<rparr>" "hd (cs_starting s)" x now]
    by (cases "cs_starting s") (auto simp: finish_start_def starting_in_def start_manager_starting)
next
  case (CsEnsure a)
  then show ?thesis using assms by (auto simp: ensure_started_def starting_in_def confined_inv_def)
next
  case CsStop
  then show ?thesis using assms by (auto simp: cs_stop_def starting_in_def confined_inv_def)
next
  case (CsFinish now i)
  then show ?thesis using assms by (auto simp: send_finish_def Let_def split: prod.splits)
qed (use assms in \<open>auto simp: starting_in_manager starting_in_send starting_in_reveal starting_in_verify starting_in_set
      starting_in_open drain_def apply_event_manager close_conversation_def split: list.splits\<close>)

text \<open>C9. Whatever the relay answers and in whatever order the operations run, every request VayuTalk sends, and
  with it every bearer token and the mailbox password, goes over https to a public host that is the mail domain of an
  account it was bound to, or a host below it.\<close>

theorem talk_requests_confined:
  assumes "rq \<in> set (c_log (cs_run x ops (new_chat_state kr d k replies)))"
  shows "\<exists>a. CsEnsure a \<in> set ops \<and> (\<exists>host. mail_host_of (a_EmailAddress a) host \<and> public_talk_domain host
    \<and> has_prefix (''https://'' @ host @ ''/api/v1/talk/'') (tq_url rq))"
proof -
  define A where "A = {a. CsEnsure a \<in> set ops}"
  have step: "starting_in A s \<Longrightarrow> set os \<subseteq> set ops \<Longrightarrow> starting_in A (fold (cs_step x) os s)" for os s
  proof (induction os arbitrary: s)
    case (Cons op os)
    have "op_accounts op \<subseteq> A" using Cons.prems(2) by (cases op) (auto simp: A_def)
    from Cons.IH [OF starting_in_step [OF Cons.prems(1) this]] show ?case using Cons.prems(2) by simp
  qed simp
  have "starting_in A (new_chat_state kr d k replies)"
    by (simp add: starting_in_def confined_inv_def new_chat_state_def talk_hosts_def)
  from step [OF this] have "confined_inv A (cs_run x ops (new_chat_state kr d k replies))"
    by (simp add: cs_run_def starting_in_def)
  then obtain host where "host \<in> talk_hosts A" "talk_request_ok host rq" using assms by (auto simp: confined_inv_def)
  moreover have "host \<noteq> []" using \<open>talk_request_ok host rq\<close> by (auto simp: talk_request_ok_def public_talk_domain_def)
  ultimately show ?thesis by (auto simp: talk_hosts_def talk_request_ok_def base_url_def A_def)
qed

section \<open>The conversations\<close>

text \<open>A countdown runs exactly for armed messages and ends a burn time after it started; a revealed message is
  armed; a message of one's own carries a timer between the bounds.\<close>

definition message_ok :: "string \<Rightarrow> chat_message \<Rightarrow> bool" where
  "message_ok p m \<longleftrightarrow> cm_Peer m = p
     \<and> cm_ExpiresAt m = map_option (\<lambda>t. t + burn_duration m) (cm_ArmedAt m)
     \<and> (cm_Revealed m \<longrightarrow> cm_ArmedAt m \<noteq> None \<and> \<not> cm_Self m)
     \<and> (cm_Self m \<longrightarrow> min_burn_seconds \<le> cm_BurnSeconds m \<and> cm_BurnSeconds m \<le> max_burn_seconds)"

definition received_ids :: "chat_conv \<Rightarrow> string list" where
  "received_ids c = map cm_ID (filter (\<lambda>m. \<not> cm_Self m) (cv_msgs c))"

definition conv_ok :: "string \<Rightarrow> string \<Rightarrow> chat_conv \<Rightarrow> bool" where
  "conv_ok active p c \<longleftrightarrow> cv_peer c = p \<and> peer_key p = p \<and> list_all (message_ok p) (cv_msgs c) \<and> distinct (received_ids c)
     \<and> 0 \<le> cv_unread c \<and> cv_unread c \<le> int (length (received_ids c)) \<and> (cv_unread c = 0 \<or> p \<noteq> active \<or> p = [])"

definition convs_ok :: "string \<Rightarrow> (string \<times> chat_conv) list \<Rightarrow> bool" where
  "convs_ok active cs \<longleftrightarrow> distinct (map fst cs) \<and> (\<forall>(p, c) \<in> set cs. conv_ok active p c)"

definition convs_inv :: "'k chat_state \<Rightarrow> bool" where
  "convs_inv s \<longleftrightarrow> convs_ok (cs_active s) (cs_convs s)
     \<and> list_all (\<lambda>g. \<exists>n. og_burn g = n * second \<and> min_burn_seconds \<le> n \<and> n \<le> max_burn_seconds) (cs_pending s)
     \<and> length (c_events s) \<le> chat_cap"

lemma lower_char_space: "is_space (lower_char c) = is_space c"
proof (cases "CHR ''A'' \<le> c \<and> c \<le> CHR ''Z''")
  case True
  then have "97 \<le> (of_char (lower_char c) :: nat)" "65 \<le> (of_char c :: nat)" by (auto simp: less_eq_char_def)
  then show ?thesis by (auto simp: is_space_def simp del: of_char_lower)
qed (auto simp: lower_char_def)

lemma trim_space_lower: "trim_space (to_lower s) = to_lower (trim_space s)"
proof -
  have "is_space \<circ> lower_char = is_space" by (simp add: fun_eq_iff lower_char_space)
  then show ?thesis by (simp add: trim_space_def trim_by_def trim_right_by_def to_lower_def dropWhile_map rev_map)
qed

lemma peer_key_idem [simp]: "peer_key (peer_key p) = peer_key p"
  by (simp add: peer_key_def trim_space_lower)

lemma new_conv_ok: "peer_key p = p \<Longrightarrow> conv_ok active p (new_conv now p)"
  by (simp add: conv_ok_def new_conv_def received_ids_def)

lemma conv_result:
  assumes "convs_ok active cs" "conv now peer cs = (c, cs')"
  shows "convs_ok active cs'" "conv_ok active (peer_key peer) c" "cv_peer c = peer_key peer"
proof -
  have "convs_ok active cs' \<and> conv_ok active (peer_key peer) c"
  proof (cases "map_of cs (peer_key peer)")
    case None
    then have "peer_key peer \<notin> fst ` set cs" by (simp add: map_of_eq_None_iff)
    then show ?thesis using assms None new_conv_ok [of "peer_key peer" active now]
      by (auto simp: conv_def Let_def convs_ok_def)
  next
    case (Some c')
    then show ?thesis using assms map_of_SomeD [OF Some] by (auto simp: conv_def Let_def convs_ok_def)
  qed
  then show "convs_ok active cs'" "conv_ok active (peer_key peer) c" "cv_peer c = peer_key peer" by (simp_all add: conv_ok_def)
qed

lemma put_conv_keys: "map fst (put_conv p c cs) = map fst cs"
  by (simp add: put_conv_def split_beta comp_def if_distrib cong: if_cong)

lemma put_conv_elem: "(k, c') \<in> set (put_conv p c cs) \<Longrightarrow> k = p \<and> c' = c \<or> k \<noteq> p \<and> (k, c') \<in> set cs"
  by (auto simp: put_conv_def split: if_splits)

lemma put_conv_ok: "convs_ok active cs \<Longrightarrow> conv_ok active p c \<Longrightarrow> convs_ok active (put_conv p c cs)"
  unfolding convs_ok_def put_conv_keys by (fastforce dest: put_conv_elem)

text \<open>A change of one message that keeps its identity.\<close>

definition mild :: "(chat_message \<Rightarrow> chat_message) \<Rightarrow> bool" where
  "mild f \<longleftrightarrow> (\<forall>m p. message_ok p m \<longrightarrow> message_ok p (f m) \<and> cm_ID (f m) = cm_ID m \<and> cm_Self (f m) = cm_Self m)"

lemma change_first_nth: "change_first mid f ms = Some ms' \<Longrightarrow> \<exists>i < length ms. ms' = ms[i := f (ms ! i)]"
proof (induction ms arbitrary: ms')
  case (Cons m ms)
  then show ?case
  proof (cases "cm_ID m = mid")
    case False
    then obtain ns where "change_first mid f ms = Some ns" "ms' = m # ns" using Cons.prems by auto
    then show ?thesis using Cons.IH [of ns] by (metis length_Cons list_update_code(3) not_less_eq nth_Cons_Suc Suc_less_eq)
  qed force
qed simp

lemma received_update:
  assumes "i < length ms" "list_all (message_ok p) ms" "mild f"
  shows "map cm_ID (filter (\<lambda>m. \<not> cm_Self m) (ms[i := f (ms ! i)])) = map cm_ID (filter (\<lambda>m. \<not> cm_Self m) ms)"
    "list_all (message_ok p) (ms[i := f (ms ! i)])"
proof -
  have m: "message_ok p (ms ! i)" using assms(1,2) by (simp add: list_all_length)
  then have f: "message_ok p (f (ms ! i))" "cm_ID (f (ms ! i)) = cm_ID (ms ! i)" "cm_Self (f (ms ! i)) = cm_Self (ms ! i)"
    using assms(3) by (auto simp: mild_def)
  have "ms = take i ms @ ms ! i # drop (Suc i) ms" using assms(1) by (rule id_take_nth_drop)
  then have "map cm_ID (filter (\<lambda>m. \<not> cm_Self m) ms)
      = map cm_ID (filter (\<lambda>m. \<not> cm_Self m) (take i ms @ ms ! i # drop (Suc i) ms))" by simp
  then show "map cm_ID (filter (\<lambda>m. \<not> cm_Self m) (ms[i := f (ms ! i)])) = map cm_ID (filter (\<lambda>m. \<not> cm_Self m) ms)"
    using assms(1) f by (simp add: upd_conv_take_nth_drop)
  show "list_all (message_ok p) (ms[i := f (ms ! i)])" using assms(2) f(1)
    by (auto simp: list_all_iff dest!: set_update_subset_insert [THEN subsetD])
qed

lemma set_status_ok: "convs_ok active cs \<Longrightarrow> mild f \<Longrightarrow> convs_ok active (set_status_by_id now mid f cs)"
proof -
  have keys: "map fst (set_status_by_id now mid f cs) = map fst cs" for cs
    by (induction now mid f cs rule: set_status_by_id.induct) (auto split: option.splits)
  have "mild f \<Longrightarrow> (\<forall>(p, c) \<in> set cs. conv_ok active p c) \<Longrightarrow> (\<forall>(p, c) \<in> set (set_status_by_id now mid f cs). conv_ok active p c)" for cs
  proof (induction now mid f cs rule: set_status_by_id.induct)
    case (2 now mid f k c cs)
    have c: "conv_ok active k c" using 2(3) by simp
    show ?case
    proof (cases "change_first mid f (cv_msgs c)")
      case None
      then show ?thesis using 2 by auto
    next
      case (Some ms)
      then obtain i where i: "i < length (cv_msgs c)" "ms = (cv_msgs c)[i := f (cv_msgs c ! i)]" using change_first_nth by blast
      have ok: "list_all (message_ok k) (cv_msgs c)" using c by (simp add: conv_ok_def)
      have "conv_ok active k (c\<lparr>cv_msgs := ms, cv_lastActivity := now\<rparr>)"
        using c received_update [OF i(1) ok 2(2)] i(2) by (simp add: conv_ok_def received_ids_def)
      then show ?thesis using Some 2(3) by auto
    qed
  qed simp
  then show "convs_ok active cs \<Longrightarrow> mild f \<Longrightarrow> convs_ok active (set_status_by_id now mid f cs)"
    unfolding convs_ok_def keys by blast
qed

lemma burn_duration_cong: "cm_Mode m = cm_Mode m' \<Longrightarrow> cm_BurnSeconds m = cm_BurnSeconds m' \<Longrightarrow> burn_duration m = burn_duration m'"
  by (simp add: burn_duration_def)

lemma mild_status: "mild (\<lambda>m. m\<lparr>cm_Status := g m\<rparr>)"
  by (auto simp: mild_def message_ok_def intro!: burn_duration_cong ext arg_cong [where f = "\<lambda>h. map_option h _"])

lemma message_ok_arm: "message_ok p m \<Longrightarrow> message_ok p (arm now m)"
  by (auto simp: message_ok_def arm_def intro!: burn_duration_cong)

lemma mild_read: "mild (\<lambda>m. let m = m\<lparr>cm_Status := MsgRead\<rparr> in if cm_ExpiresAt m = None then arm now m else m)"
  using mild_status [of "\<lambda>_. MsgRead"] by (auto simp: mild_def Let_def message_ok_arm) (simp_all add: arm_def)

lemma mild_reveal: "mild (reveal now mid)"
proof -
  have "message_ok p m \<Longrightarrow> \<not> cm_Self m \<Longrightarrow> message_ok p (arm now (m\<lparr>cm_Revealed := True, cm_Status := MsgOpen\<rparr>))" for p m
    by (auto simp: message_ok_def arm_def intro!: burn_duration_cong)
  then show ?thesis by (auto simp: mild_def reveal_def) (simp_all add: arm_def)
qed

interpretation bounded: talk_invariant "\<lambda>s. length (c_events s) \<le> chat_cap" x for x
proof unfold_locales
  show "keeps (\<lambda>s. length (c_events s) \<le> chat_cap) (talk_call x m p a t b)" for m p a t b
    by (auto simp: keeps_def talk_call_def seqE_def check_domain_def talk_do_def next_reply_def Let_def split: list.splits reply.splits)
qed (auto simp: chat_emit_def try_send_def)

lemma convs_inv_cong: "holder t = holder s \<Longrightarrow> length (c_events t) \<le> chat_cap \<Longrightarrow> convs_inv s \<Longrightarrow> convs_inv t"
  using holder_fields [of t s] by (simp add: convs_inv_def)

lemma convs_inv_manager:
  assumes "convs_inv s"
  shows "convs_inv (snd (chat_send (bound_ext x now email) peer text burn mode s))"
    "convs_inv (snd (chat_ack (bound_ext x now email) mid s))"
    "convs_inv (snd (verify_peer (bound_ext x now email) peer s))"
    "convs_inv (snd (set_peer_verified (bound_ext x now email) fp v s))"
    "convs_inv (handle_stream_event (bound_ext x now email) t t' ev s)"
proof -
  have s: "length (c_events s) \<le> chat_cap" using assms by (simp add: convs_inv_def)
  note cong = convs_inv_cong [OF _ _ assms]
  show "convs_inv (snd (chat_send (bound_ext x now email) peer text burn mode s))"
    by (intro cong manager_frame keepsD [OF bounded.bound.keeps_chat_send s])
  show "convs_inv (snd (chat_ack (bound_ext x now email) mid s))"
    by (intro cong manager_frame keepsD [OF bounded.bound.keeps_chat_ack s])
  show "convs_inv (snd (verify_peer (bound_ext x now email) peer s))"
    by (intro cong manager_frame keepsD [OF bounded.bound.keeps_verify_peer s])
  show "convs_inv (snd (set_peer_verified (bound_ext x now email) fp v s))"
    by (intro cong manager_frame keepsD [OF bounded.bound.keeps_set_peer_verified s])
  show "convs_inv (handle_stream_event (bound_ext x now email) t t' ev s)"
    by (intro cong manager_frame bounded.bound.stream_event_inv [OF s])
qed

lemma convs_inv_note [simp]: "convs_inv (note_user msg s) = convs_inv s"
  by (simp add: convs_inv_def note_user_def)

lemma convs_inv_convs: "convs_inv s \<Longrightarrow> convs_ok (cs_active s) cs \<Longrightarrow> convs_inv (s\<lparr>cs_convs := cs\<rparr>)"
  by (simp add: convs_inv_def)

lemma incoming_ok:
  assumes "conv_ok active p c" "\<not> list_ex (\<lambda>m. cm_ID m = in_ID e) (cv_msgs c)"
  shows "conv_ok active p (c\<lparr>cv_msgs := cv_msgs c @ [incoming_message now c e], cv_lastActivity := now,
    cv_unread := cv_unread c + (if active \<noteq> cv_peer c then 1 else 0)\<rparr>)"
  using assms by (auto simp: conv_ok_def received_ids_def incoming_message_def message_ok_def list_ex_iff)

lemma convs_inv_incoming: "convs_inv s \<Longrightarrow> convs_inv (apply_incoming now e s)"
proof -
  assume s: "convs_inv s"
  obtain c cs where c: "conv now (in_Peer e) (cs_convs s) = (c, cs)" by fastforce
  have ok: "convs_ok (cs_active s) (cs_convs s)" using s by (simp add: convs_inv_def)
  note r = conv_result [OF ok c]
  show ?thesis
  proof (cases "list_ex (\<lambda>m. cm_ID m = in_ID e) (cv_msgs c)")
    case True
    then show ?thesis using c s r by (simp add: apply_incoming_def convs_inv_convs)
  next
    case False
    from put_conv_ok [OF r(1) incoming_ok [OF r(2) False, of now]] show ?thesis
      using False c s r(3) by (simp add: apply_incoming_def convs_inv_def Let_def)
  qed
qed

lemma convs_inv_status: "convs_inv s \<Longrightarrow> mild f \<Longrightarrow> convs_inv (s\<lparr>cs_convs := set_status_by_id now mid f (cs_convs s)\<rparr>)"
  by (simp add: convs_inv_def set_status_ok)

lemma convs_inv_event: "convs_inv s \<Longrightarrow> convs_inv (apply_event now ev s)"
proof (cases ev)
  case (PeerKey peer fp v)
  assume s: "convs_inv s"
  obtain c cs where c: "conv now peer (cs_convs s) = (c, cs)" by fastforce
  have "convs_ok (cs_active s) (cs_convs s)" using s by (simp add: convs_inv_def)
  note r = conv_result [OF this c]
  have "conv_ok (cs_active s) (peer_key peer) (c\<lparr>cv_fingerprint := fp, cv_verified := v\<rparr>)"
    using r(2) by (simp add: conv_ok_def received_ids_def)
  then show ?thesis using PeerKey s c r put_conv_ok [OF r(1)] by (simp add: convs_inv_convs)
next
  case (ConnState online err)
  moreover assume "convs_inv s"
  ultimately show ?thesis by (simp add: convs_inv_def)
qed (simp_all only: apply_event.simps convs_inv_incoming convs_inv_status mild_status mild_read)

lemma clamp_burn_bounds: "\<exists>n. clamp_burn d = n * second \<and> min_burn_seconds \<le> n \<and> n \<le> max_burn_seconds"
  by (auto simp: clamp_burn_def Let_def min_burn_seconds_def max_burn_seconds_def)

lemma convs_inv_send: "convs_inv s \<Longrightarrow> convs_inv (send_start (bound_ext x now email) peer text burn mode s)"
proof -
  assume s: "convs_inv s"
  obtain r s' where r: "chat_send (bound_ext x now email) (peer_key peer) (trim_space text) (clamp_burn burn) mode s = (r, s')" by fastforce
  have s': "convs_inv s'" using convs_inv_manager(1) [OF s] r by (metis snd_conv)
  then have "convs_inv (s'\<lparr>cs_pending := cs_pending s' @ [\<lparr>og_peer = q, og_id = mid, og_text = t, og_burn = clamp_burn burn, og_mode = mo\<rparr>]\<rparr>)" for q mid t mo
    using clamp_burn_bounds [of burn] by (simp add: convs_inv_def)
  then show ?thesis using s s' r by (simp add: send_start_def Let_def split: sum.splits)
qed

lemma trunc_div_second: "0 \<le> n \<Longrightarrow> trunc_div (n * second) second = n"
  by (simp add: trunc_div_def)

lemma convs_inv_finish: "convs_inv s \<Longrightarrow> convs_inv (send_finish now i s)"
proof -
  assume s: "convs_inv s"
  show ?thesis
  proof (cases "i < length (cs_pending s)")
    case True
    let ?g = "cs_pending s ! i"
    obtain c cs where c: "conv now (og_peer ?g) (cs_convs s) = (c, cs)" by fastforce
    have "convs_ok (cs_active s) (cs_convs s)" using s by (simp add: convs_inv_def)
    note r = conv_result [OF this c]
    obtain n where n: "og_burn ?g = n * second" "min_burn_seconds \<le> n" "n \<le> max_burn_seconds"
      using s True by (auto simp: convs_inv_def list_all_length)
    then have "message_ok (peer_key (og_peer ?g)) (sent_message now c ?g)"
      using r(3) trunc_div_second [of n] by (simp add: message_ok_def sent_message_def min_burn_seconds_def)
    then have "conv_ok (cs_active s) (peer_key (og_peer ?g))
        (c\<lparr>cv_msgs := cv_msgs c @ [sent_message now c ?g], cv_lastActivity := now\<rparr>)"
      using r(2) by (simp add: conv_ok_def received_ids_def) (simp add: sent_message_def)
    from put_conv_ok [OF r(1) this] show ?thesis using True s c r(3)
      by (auto simp: send_finish_def convs_inv_def Let_def list_all_iff dest: in_set_takeD in_set_dropD)
  qed (use s in \<open>simp add: send_finish_def\<close>)
qed

lemma convs_inv_found:
  assumes "convs_inv s" "map_of (cs_convs s) p = Some c" "conv_ok (cs_active s) p c \<Longrightarrow> conv_ok (cs_active s) p c'"
  shows "convs_inv (s\<lparr>cs_convs := put_conv p c' (cs_convs s)\<rparr>)"
  using assms map_of_SomeD [OF assms(2)] by (intro convs_inv_convs put_conv_ok) (auto simp: convs_inv_def convs_ok_def)

lemma reveal_all_ok: "conv_ok active p c \<Longrightarrow> conv_ok active p (c\<lparr>cv_msgs := map (reveal now mid) (cv_msgs c)\<rparr>)"
proof -
  assume c: "conv_ok active p c"
  then have ok: "list_all (message_ok p) (cv_msgs c)" by (simp add: conv_ok_def)
  have "map cm_ID (filter (\<lambda>m. \<not> cm_Self m) (map (reveal now mid) ms)) = map cm_ID (filter (\<lambda>m. \<not> cm_Self m) ms)" for ms
    by (induction ms) (auto simp: reveal_def arm_def)
  moreover have "list_all (message_ok p) (map (reveal now mid) (cv_msgs c))"
    using ok mild_reveal [of now mid] by (auto simp: list_all_iff mild_def)
  moreover from calculation(1) have "received_ids (c\<lparr>cv_msgs := map (reveal now mid) (cv_msgs c)\<rparr>) = received_ids c"
    by (simp add: received_ids_def)
  ultimately show ?thesis using c by (simp add: conv_ok_def)
qed

lemma convs_inv_reveal: "convs_inv s \<Longrightarrow> convs_inv (reveal_message (bound_ext x now email) t peer mid s)"
  using convs_inv_found [OF _ _ reveal_all_ok, of s "peer_key peer"]
  by (auto simp: reveal_message_def Let_def convs_inv_manager split: option.splits)

lemma convs_inv_verify: "convs_inv s \<Longrightarrow> convs_inv (cs_verify_peer (bound_ext x now email) peer s)"
  using convs_inv_manager(3) [of s x now email "peer_key peer"]
  by (auto simp: cs_verify_peer_def Let_def split: prod.splits sum.splits)

lemma convs_inv_set: "convs_inv s \<Longrightarrow> convs_inv (set_verified (bound_ext x now email) peer v s)"
proof -
  assume s: "convs_inv s"
  have "convs_inv (case map_of (cs_convs s) (peer_key peer) of
      None \<Rightarrow> s | Some c \<Rightarrow> s\<lparr>cs_convs := put_conv (peer_key peer) (c\<lparr>cv_verified := v\<rparr>) (cs_convs s)\<rparr>)" (is "convs_inv ?t")
    using s by (auto intro!: convs_inv_found simp: conv_ok_def received_ids_def split: option.splits)
  from convs_inv_manager(4) [OF this] have "convs_inv (snd (set_peer_verified (bound_ext x now email) fp v ?t))" for fp .
  then show ?thesis using \<open>convs_inv ?t\<close> unfolding set_verified_def Let_def
    by (auto split: prod.splits sum.splits) (metis snd_conv)+
qed

lemma convs_inv_open: "convs_inv s \<Longrightarrow> convs_inv (open_conversation (bound_ext x now email) t peer s)"
proof -
  assume s: "convs_inv s"
  obtain c cs where c: "conv t (peer_key peer) (cs_convs s) = (c, cs)" by fastforce
  have "convs_ok (cs_active s) (cs_convs s)" using s by (simp add: convs_inv_def)
  note r = conv_result [OF this c, simplified]
  have "conv_ok (peer_key peer) (peer_key peer) (c\<lparr>cv_unread := 0\<rparr>)"
    "conv_ok (cs_active s) p c' \<Longrightarrow> p \<noteq> peer_key peer \<Longrightarrow> conv_ok (peer_key peer) p c'" for p c'
    using r(2) by (simp_all add: conv_ok_def received_ids_def)
  then have "convs_ok (peer_key peer) (put_conv (peer_key peer) (c\<lparr>cv_unread := 0\<rparr>) cs)"
    using r(1) unfolding convs_ok_def put_conv_keys by (fastforce dest: put_conv_elem)
  then have "convs_inv (s\<lparr>cs_convs := put_conv (peer_key peer) (c\<lparr>cv_unread := 0\<rparr>) cs, cs_active := peer_key peer\<rparr>)"
    using s by (simp add: convs_inv_def)
  then show ?thesis using s c r(3) by (simp add: open_conversation_def Let_def convs_inv_verify)
qed

lemma convs_inv_start: "convs_inv s \<Longrightarrow> convs_inv (start_manager x now acct s)"
  using manager_holder(6) [of x now "a_EmailAddress acct" "s\<lparr>c_alias := a_KeystoreAlias acct\<rparr>"]
  by (simp add: start_manager_def Let_def convs_inv_def convs_ok_def)

lemma convs_inv_step: "convs_inv s \<Longrightarrow> convs_inv (cs_step x op s)"
proof (cases op)
  case (CsStart now)
  moreover assume "convs_inv s"
  moreover from this have "convs_inv (s\<lparr>cs_starting := as\<rparr>)" for as by (simp add: convs_inv_def)
  ultimately show ?thesis by (simp add: finish_start_def convs_inv_start split: list.splits)
next
  case (CsDrain now)
  moreover assume "convs_inv s"
  moreover from this have "c_events s = ev # evs \<Longrightarrow> convs_inv (s\<lparr>c_events := evs\<rparr>)" for ev evs by (simp add: convs_inv_def)
  ultimately show ?thesis by (auto simp: drain_def convs_inv_event split: list.splits)
next
  case CsClose
  moreover assume "convs_inv s"
  ultimately show ?thesis by (auto simp: close_conversation_def convs_inv_def convs_ok_def conv_ok_def)
next
  case (CsEnsure a)
  moreover assume "convs_inv s"
  ultimately show ?thesis by (auto simp: ensure_started_def convs_inv_def)
next
  case CsStop
  moreover assume "convs_inv s"
  ultimately show ?thesis by (auto simp: cs_stop_def convs_inv_def convs_ok_def)
qed (simp_all add: convs_inv_manager convs_inv_send convs_inv_finish convs_inv_reveal convs_inv_verify convs_inv_set convs_inv_open)


section \<open>Authentic messages\<close>

lemma persist_events: "c_events (persist_own_keys ks now email armored fps s) = c_events s"
  by (induction fps arbitrary: s) (auto split: prod.splits sum.splits)

lemma sync_own_events: "c_events (snd (sync_own_key x now email s)) = c_events s"
  by (auto simp: sync_own_key_def credential_def import_talk_key_def persist_events split: prod.splits sum.splits)

lemma resync_events: "c_events (snd (resync_once (bound_ext x now email) t t' s)) = c_events s"
  using sync_own_events [of x now email s] by (auto simp: resync_once_def split: prod.splits option.splits)

lemma emit_events: "ev \<in> set (c_events (chat_emit ev' s)) \<Longrightarrow> ev = ev' \<or> ev \<in> set (c_events s)"
  by (auto simp: chat_emit_def try_send_def split: if_splits)

lemma envelope_event:
  assumes "IncomingMessage i \<in> set (c_events (handle_stream_event (bound_ext x now email) t t' (Envelope e) s))"
    and "IncomingMessage i \<notin> set (c_events s)"
  shows "\<exists>raw kr res. b64_decode (ev_Ciphertext e) = Some raw \<and> decrypt (t_pgp x) raw kr = Inr res \<and> i = incoming_of e res"
  using assms resync_events [of x now email t t' s]
  by (auto simp: handle_envelope_def split: option.splits sum.splits prod.splits bool.splits dest!: emit_events)

lemma valid_signature:
  assumes "decrypt px raw kr = Inr res" "r_Signature res = SigValid"
  obtains md fp where "pg_read_message px (case pg_dearmor px raw of Some b \<Rightarrow> b | None \<Rightarrow> raw) (kr_entities kr) = Some md"
    "md_IsSigned md" "md_SignatureError md = None" "md_SignedBy md = Some fp" "r_SignedByFingerprint res = hex_bytes fp"
    "md_Body md = Some (r_Plaintext res)"
  using assms that by (auto simp: decrypt_def decrypt_from_def Let_def split: option.splits if_splits)


section \<open>Redelivery\<close>

lemma map_of_put: "map_of cs p \<noteq> None \<Longrightarrow> map_of (put_conv p c cs) p = Some c"
  by (induction cs) (auto simp: put_conv_def split: if_splits)

lemma conv_found: "conv now peer cs = (c, cs') \<Longrightarrow> map_of cs' (peer_key peer) = Some c"
  by (auto simp: conv_def Let_def map_add_def split: option.splits)

text \<open>C30. A message the relay delivers again, after a reconnect, changes nothing.\<close>

theorem redelivery_idempotent:
  assumes "convs_inv s" and "in_Peer e' = in_Peer e" and "in_ID e' = in_ID e"
  shows "apply_incoming t' e' (apply_incoming t e s) = apply_incoming t e s"
proof -
  obtain c cs where c: "conv t (in_Peer e) (cs_convs s) = (c, cs)" by fastforce
  have "convs_ok (cs_active s) (cs_convs s)" using assms(1) by (simp add: convs_inv_def)
  from conv_result(3) [OF this c] have p: "cv_peer c = peer_key (in_Peer e)" .
  define s1 where "s1 = apply_incoming t e s"
  have "\<exists>c'. map_of (cs_convs s1) (peer_key (in_Peer e)) = Some c' \<and> list_ex (\<lambda>m. cm_ID m = in_ID e) (cv_msgs c')"
  proof (cases "list_ex (\<lambda>m. cm_ID m = in_ID e) (cv_msgs c)")
    case True
    then show ?thesis using c conv_found [OF c] by (simp add: s1_def apply_incoming_def)
  next
    case False
    then show ?thesis using c p conv_found [OF c] map_of_put [of cs "peer_key (in_Peer e)"]
      by (simp add: s1_def apply_incoming_def Let_def incoming_message_def)
  qed
  then have "apply_incoming t' e' s1 = s1" using assms(2,3) by (auto simp: apply_incoming_def conv_def)
  then show ?thesis by (simp add: s1_def)
qed

section \<open>Orders of operations\<close>

lemma finish_one:
  assumes "cs_pending s = [g]" "convs_inv s"
  shows "\<exists>c. map_of (cs_convs (send_finish t 0 s)) (peer_key (og_peer g)) = Some c \<and> cv_msgs c \<noteq> []
    \<and> last (cv_msgs c) = sent_message t c g"
proof -
  obtain c cs where c: "conv t (og_peer g) (cs_convs s) = (c, cs)" by fastforce
  have "convs_ok (cs_active s) (cs_convs s)" using assms(2) by (simp add: convs_inv_def)
  from conv_result(3) [OF this c] have "cv_peer c = peer_key (og_peer g)" .
  then show ?thesis using assms(1) c conv_found [OF c] map_of_put [of cs "peer_key (og_peer g)"]
    by (simp add: send_finish_def sent_message_def)
qed

text \<open>The manager announces the delivery before \<open>SendMessage\<close> appends the message. If the event is folded in
  between, nothing carries its identifier yet and the message stays in the state \<open>MsgSending\<close>.\<close>

theorem delivery_before_append_lost:
  assumes "convs_inv s" "cs_running s" "c_events s = []" "cs_pending s = []"
    and "peer_key peer \<noteq> []" "trim_space msg \<noteq> []"
    and "chat_send (bound_ext x 0 (c_self s)) (peer_key peer) (trim_space msg) (clamp_burn burn) mode s = (Inr mid, s1)"
  shows "\<exists>c. map_of (cs_convs (cs_run x [CsSend peer msg burn mode, CsDrain t, CsFinish t' 0] s)) (peer_key peer) = Some c
    \<and> cm_Status (last (cv_msgs c)) = MsgSending \<and> cm_Text (last (cv_msgs c)) = trim_space msg
    \<and> c_events (cs_run x [CsSend peer msg burn mode, CsDrain t, CsFinish t' 0] s) = []"
proof -
  let ?g = "\<lparr>og_peer = peer_key peer, og_id = mid, og_text = trim_space msg, og_burn = clamp_burn burn, og_mode = mode\<rparr>"
  define s2 where "s2 = cs_step x (CsSend peer msg burn mode) s"
  define s3 where "s3 = cs_step x (CsDrain t) s2"
  have h: "holder s1 = holder s" using manager_frame(1) [of x 0 "c_self s"] assms(7) by (metis snd_conv)
  have s2: "s2 = s1\<lparr>cs_pending := [?g]\<rparr>"
    using assms(2,4-7) holder_fields [OF h] by (simp add: s2_def send_start_def Let_def)
  obtain ok where ev: "c_events s1 = [Delivered mid ok]"
    using chat_send_event [OF assms(7)] assms(3) by (auto simp: try_send_def chat_cap_def)
  have "s3 = apply_event t (Delivered mid ok) (s2\<lparr>c_events := []\<rparr>)"
    using ev s2 assms(2) holder_fields [OF h] by (simp add: s3_def drain_def)
  then have s3: "cs_pending s3 = [?g]" "c_events s3 = []" by (simp_all add: s2)
  have "convs_inv s3" unfolding s3_def s2_def using assms(1) by (intro convs_inv_step)
  from finish_one [OF s3(1) this, of t'] obtain c where "map_of (cs_convs (send_finish t' 0 s3)) (peer_key peer) = Some c"
    "last (cv_msgs c) = sent_message t' c ?g" by auto
  moreover have "cs_run x [CsSend peer msg burn mode, CsDrain t, CsFinish t' 0] s = send_finish t' 0 s3"
    by (simp add: cs_run_def s3_def s2_def)
  moreover have "c_events (send_finish t' 0 s3) = []" using s3(2) by (simp add: send_finish_def Let_def split: prod.splits)
  ultimately show ?thesis by (simp add: sent_message_def)
qed

text \<open>\<open>Stop\<close> does not reach a start that is under way: after signing out, VayuTalk comes up for the account.\<close>

theorem stop_misses_start:
  assumes "a_ID acct \<noteq> 0" "a_EmailAddress acct \<noteq> []" "\<not> cs_running s" "\<not> cs_transitioning s" "cs_starting s = []"
  shows "cs_running (cs_run x [CsEnsure acct, CsStop, CsStart now] s)
    \<and> cs_account (cs_run x [CsEnsure acct, CsStop, CsStart now] s) = Some acct
    \<and> c_alias (cs_run x [CsEnsure acct, CsStop, CsStart now] s) = a_KeystoreAlias acct"
proof -
  have "c_alias (persist_own_keys ks t email armored fps u) = c_alias u" for ks t email armored fps and u :: "'a chat_state"
    by (induction fps arbitrary: u) (auto split: prod.splits sum.splits)
  then have "c_alias (snd (sync_own_key x now email u)) = c_alias u" for email u
    by (auto simp: sync_own_key_def credential_def import_talk_key_def split: prod.splits sum.splits)
  then show ?thesis using assms
    by (simp add: cs_run_def ensure_started_def cs_stop_def finish_start_def start_manager_def Let_def)
qed

text \<open>A peer can be marked as verified before any key of it is known: the mark is then shown, but it binds
  nothing, and any message with a valid signature of any known key passes as authentic.\<close>

theorem verified_without_key:
  assumes "convs_inv s" "map_of (cs_convs s) (peer_key peer) = Some c" "cv_fingerprint c = []"
  shows "\<exists>c'. map_of (cs_convs (set_verified x peer True s)) (peer_key peer) = Some c' \<and> cv_verified c'
    \<and> (\<forall>e t. cm_Unauthenticated (incoming_message t c' e) = (\<not> in_Authentic e))"
  using assms map_of_put [of "cs_convs s" "peer_key peer"]
  by (simp add: set_verified_def incoming_message_def unauthenticated_def)

section \<open>Verified keys\<close>

text \<open>Fetching and verifying a peer's key does not change the key messages to the peer are encrypted to, when the
  keyring already had one: the safety number the user compares is the one the relay sent with the new key, and the
  messages go on being encrypted to the old key.\<close>

theorem verified_key_unused:
  assumes "entity_by_email peer (c_keyring s) = Inr old" "c_events s = []" "verify_peer x peer s = (Inr (), s')"
  shows "(\<exists>fp v. c_events s' = [PeerKey peer fp v])
    \<and> encrypt (t_pgp x) plain [peer] [] (c_keyring s') =
        (case pg_encrypt (t_pgp x) [old] None plain of None \<Rightarrow> Inl ErrEncrypt | Some ct \<Rightarrow> Inr ct)"
proof -
  obtain armored fps fp v where i: "import_armored (t_pgp x) armored (c_keyring s) = (Inr fps, c_keyring s')"
    and ev: "c_events s' = snd (try_send chat_cap (PeerKey peer fp v) (c_events s))"
    using verify_peer_event [OF assms(3)] by blast
  have "c_keyring s' = snd (import_entities es (c_keyring s))" if "pg_armored_ring (t_pgp x) armored = Some es" for es
    using i that by (simp add: import_armored_def Let_def split_beta)
  then have "entity_by_email peer (c_keyring s') = Inr old"
    using entity_by_email_append [OF _ assms(1)] i by (auto simp: import_armored_def split: option.splits prod.splits)
  then show ?thesis using ev assms(2) by (simp add: encrypt_def try_send_def chat_cap_def)
qed

section \<open>Examples\<close>

definition toy_talk :: "(memory_keystore, 'w) talk_ext" where
  "toy_talk = \<lparr>t_ks = memory_ops, t_pgp = toy_pgp, t_http = toy_net, t_connect = (\<lambda>_. Some ''T''), t_send = (\<lambda>_. Some (''m1'', False)),
     t_pubkey = (\<lambda>_. Some (''BEGIN PGP PUBLIC KEY BLOCK'', ''ff'')), t_envelope = (\<lambda>_. None), t_receipt = (\<lambda>_. None), t_time = (\<lambda>_. None),
     t_settings = True, t_resync = None\<rparr>"

definition sample_chat :: "memory_keystore chat_state" where
  "sample_chat = (new_chat_state toy_ring empty_db (Map.empty(''k'' \<mapsto> ''pw'')) [Reply 200 [] True, Reply 200 [] True])\<lparr>
     cs_running := True, c_self := ''alice@example.org'', c_domain := ''example.org'', c_tok := ''T''\<rparr>"

lemma chat_fields:
  "cs_running sample_chat" "c_events sample_chat = []" "cs_pending sample_chat = []" "cs_convs sample_chat = []"
  "c_self sample_chat = ''alice@example.org''" "c_keyring sample_chat = toy_ring"
  by (simp_all add: sample_chat_def new_chat_state_def)

lemma sample_convs_inv: "convs_inv sample_chat"
  by (simp add: convs_inv_def convs_ok_def chat_fields)

lemma sample_peer: "peer_key '' Alice@example.org'' = ''alice@example.org''" "trim_space ''hi '' = ''hi''"
  by code_simp+

lemma sample_send: "fst (chat_send (bound_ext toy_talk 0 ''alice@example.org'') ''alice@example.org'' ''hi'' (clamp_burn 0) ''live'' sample_chat) = Inr ''m1''"
  by code_simp

theorem delivery_before_append_lost_witness:
  "\<exists>c. map_of (cs_convs (cs_run toy_talk [CsSend '' Alice@example.org'' ''hi '' 0 ''live'', CsDrain 5, CsFinish 6 0] sample_chat)) ''alice@example.org'' = Some c
    \<and> cm_Status (last (cv_msgs c)) = MsgSending"
proof -
  have "chat_send (bound_ext toy_talk 0 (c_self sample_chat)) (peer_key '' Alice@example.org'') (trim_space ''hi '') (clamp_burn 0) ''live'' sample_chat
      = (Inr ''m1'', snd (chat_send (bound_ext toy_talk 0 (c_self sample_chat)) (peer_key '' Alice@example.org'') (trim_space ''hi '') (clamp_burn 0) ''live'' sample_chat))"
    using sample_send by (simp only: chat_fields sample_peer prod_eq_iff fst_conv snd_conv simp_thms)
  from delivery_before_append_lost [OF sample_convs_inv _ _ _ _ _ this, of 5 6] show ?thesis
    by (auto simp: chat_fields sample_peer)
qed

theorem verified_key_unused_witness:
  "encrypt toy_pgp ''x'' [''alice@example.org''] [] (c_keyring (snd (verify_peer (toy_talk :: (memory_keystore, memory_keystore chat_state) talk_ext) ''alice@example.org'' sample_chat))) = Inr ''Ax''"
proof -
  let ?x = "toy_talk :: (memory_keystore, memory_keystore chat_state) talk_ext"
  have old: "entity_by_email ''alice@example.org'' (c_keyring sample_chat) = Inr (sample_key ''A'' ''alice@example.org'')"
    by (simp add: chat_fields toy_alice)
  have "fst (verify_peer ?x ''alice@example.org'' sample_chat) = Inr ()" by code_simp
  then have "verify_peer ?x ''alice@example.org'' sample_chat = (Inr (), snd (verify_peer ?x ''alice@example.org'' sample_chat))"
    by (simp add: prod_eq_iff)
  from verified_key_unused [OF old chat_fields(2) this, of "''x''"] show ?thesis
    by (simp add: toy_talk_def toy_pgp_def sample_key_def)
qed

theorem stop_misses_start_witness:
  "cs_running (cs_run toy_talk [CsEnsure sample_account, CsStop, CsStart 3] (new_chat_state toy_ring empty_db Map.empty []))"
  using stop_misses_start [of sample_account "new_chat_state toy_ring empty_db Map.empty []" toy_talk 3]
  by (simp add: sample_account_def new_chat_state_def)

definition sample_envelope :: envelope where
  "sample_envelope = \<lparr>ev_ID = ''m7'', ev_From = ''Bob@example.org'', ev_Ciphertext = b64_encode ''hi'', ev_CreatedAt = None, ev_ExpiresAt = None,
     ev_BurnSeconds = 60, ev_Mode = ''store''\<rparr>"

definition sample_incoming :: incoming where
  "sample_incoming = \<lparr>in_Peer = ''Bob@example.org'', in_ID = ''m7'', in_Plaintext = ''hi'', in_Authentic = True, in_SenderFingerprint = ''41'',
     in_CreatedAt = None, in_ExpiresAt = None, in_BurnSeconds = 60, in_Mode = ''store''\<rparr>"

definition sample_conv :: chat_conv where
  "sample_conv = (new_conv 0 ''bob@example.org'')\<lparr>cv_verified := True, cv_fingerprint := ''41''\<rparr>"

lemma sample_stream:
  "c_events (handle_stream_event (bound_ext toy_talk 0 ''alice@example.org'') 1 2 (Envelope sample_envelope) sample_chat)
     = [IncomingMessage sample_incoming]"
  by code_simp

lemma sample_shown: "\<not> cm_Unauthenticated (incoming_message 3 sample_conv sample_incoming)"
  by code_simp


theorem redelivery_idempotent_witness:
  "apply_incoming 9 (sample_incoming\<lparr>in_Plaintext := ''again''\<rparr>) (apply_incoming 8 sample_incoming sample_chat)
     = apply_incoming 8 sample_incoming sample_chat"
  using redelivery_idempotent [OF sample_convs_inv, of "sample_incoming\<lparr>in_Plaintext := ''again''\<rparr>" sample_incoming 9 8]
  by simp

theorem verified_without_key_witness:
  "\<exists>c'. map_of (cs_convs (set_verified toy_talk '' Bob@example.org'' True (apply_incoming 8 sample_incoming sample_chat))) ''bob@example.org'' = Some c'
    \<and> cv_verified c' \<and> \<not> cm_Unauthenticated (incoming_message 9 c' sample_incoming)"
proof -
  let ?s = "apply_incoming 8 sample_incoming sample_chat"
  have key: "peer_key '' Bob@example.org'' = ''bob@example.org''" by code_simp
  have auth: "in_Authentic sample_incoming" by (simp add: sample_incoming_def)
  obtain c where c: "map_of (cs_convs ?s) ''bob@example.org'' = Some c" "cv_fingerprint c = []"
  proof
    show "map_of (cs_convs ?s) ''bob@example.org'' = Some (the (map_of (cs_convs ?s) ''bob@example.org''))" by code_simp
    show "cv_fingerprint (the (map_of (cs_convs ?s) ''bob@example.org'')) = []" by code_simp
  qed
  from verified_without_key [OF convs_inv_incoming [OF sample_convs_inv] c(1) [folded key] c(2), of toy_talk]
  show ?thesis using auth unfolding key by fastforce
qed


definition chat_account :: account where
  "chat_account = sample_account\<lparr>a_ID := 4, a_EmailAddress := ''alice@example.org'', a_KeystoreAlias := ''k''\<rparr>"

definition chat_ops :: "cs_op list" where
  "chat_ops = [CsEnsure chat_account, CsStart 0, CsSend ''alice@example.org'' ''hi'' 0 ''live'']"

definition offline_talk :: "(memory_keystore, 'w) talk_ext" where
  "offline_talk = toy_talk\<lparr>t_http := toy_net\<lparr>x_net := (\<lambda>_. No_reply)\<rparr>\<rparr>"

theorem talk_requests_confined_witness:
  "\<exists>host. mail_host_of ''alice@example.org'' host \<and> public_talk_domain host
    \<and> has_prefix (''https://'' @ host @ ''/api/v1/talk/'')
        (tq_url (hd (c_log (cs_run offline_talk chat_ops (new_chat_state toy_ring empty_db (Map.empty(''k'' \<mapsto> ''pw'')) [Reply 200 [] True, Reply 200 [] True])))))"
proof -
  let ?log = "c_log (cs_run offline_talk chat_ops (new_chat_state toy_ring empty_db (Map.empty(''k'' \<mapsto> ''pw'')) [Reply 200 [] True, Reply 200 [] True]))"
  have "?log \<noteq> []" by code_simp
  then have "hd ?log \<in> set ?log" by simp
  from talk_requests_confined [OF this] show ?thesis by (auto simp: chat_ops_def chat_account_def)
qed

end
