(* ===== verification/HtmlRich.thy ===== *)
theory HtmlRich
  imports Url "HOL-Library.Sublist"
begin

text \<open>
  Rich rendering of HTML mail (\<open>internal/mail/mime\<close>): \<open>SanitizeHTML\<close>, which turns hostile
  markup into a flat stream of inert events, and \<open>RichParagraphs\<close>, which folds the stream into
  paragraphs of styled runs.

  The tree comes from the HTML parser of \<open>golang.org/x/net\<close>; the parser is the argument
  \<open>parse\<close>. Texts are UTF-8, so that the white space and the tag names the code looks for are
  single bytes.
\<close>

section \<open>Trees and events\<close>

datatype html_node =
    TextNode string
  | ElementNode string "(string \<times> string) list" "html_node list"
  | DocumentNode "html_node list"
  | OtherNode

datatype rich_kind = RichText | RichBlockOpen | RichBlockClose | RichLinkOpen | RichLinkClose
  | RichStyleOpen | RichStyleClose | RichBreak | RichImage

record rich_event =
  ev_Kind :: rich_kind
  ev_Tag :: string
  ev_Style :: string
  ev_Href :: string
  ev_Alt :: string
  ev_Text :: string
  ev_Depth :: int

definition rich_ev :: "rich_kind \<Rightarrow> rich_event" where
  "rich_ev k = \<lparr>ev_Kind = k, ev_Tag = [], ev_Style = [], ev_Href = [], ev_Alt = [], ev_Text = [], ev_Depth = 0\<rparr>"

definition max_sanitize_input :: nat where "max_sanitize_input = 524288"
definition max_rich_events :: nat where "max_rich_events = 20000"

definition drop_subtree :: "string list" where
  "drop_subtree =
     [''script'', ''style'', ''head'', ''title'', ''iframe'', ''object'', ''embed'', ''applet'', ''noscript'',
      ''template'', ''svg'', ''math'', ''form'', ''input'', ''button'', ''select'', ''option'', ''textarea'',
      ''label'', ''fieldset'', ''audio'', ''video'', ''source'', ''track'', ''canvas'', ''frame'', ''frameset'',
      ''base'', ''link'', ''meta'', ''dialog'', ''slot'']"

definition rich_block_tags :: "(string \<times> string) list" where
  "rich_block_tags =
     [(''p'', ''p''), (''br'', ''br''), (''div'', ''p''), (''section'', ''p''), (''article'', ''p''),
      (''h1'', ''h1''), (''h2'', ''h2''), (''h3'', ''h3''), (''h4'', ''h4''), (''h5'', ''h5''), (''h6'', ''h6''),
      (''blockquote'', ''blockquote''), (''pre'', ''pre''), (''ul'', ''ul''), (''ol'', ''ol''), (''li'', ''li''),
      (''tr'', ''tr''), (''td'', ''td''), (''th'', ''td'')]"

definition style_of :: "string \<Rightarrow> string option" where
  "style_of name = map_of [(''b'', ''b''), (''strong'', ''b''), (''i'', ''i''), (''em'', ''i''), (''u'', ''u''), (''code'', ''code'')] name"

fun attr_of :: "(string \<times> string) list \<Rightarrow> string \<Rightarrow> string" where
  "attr_of [] key = []"
| "attr_of ((k, v) # as) key = (if equal_fold k key then v else attr_of as key)"

definition safe_href :: "(string \<Rightarrow> string option) \<Rightarrow> string \<Rightarrow> string" where
  "safe_href lit raw =
     (let raw = trim_space raw
      in case url_parse lit raw of
           None \<Rightarrow> []
         | Some u \<Rightarrow> if u_Scheme u = [] then []
                     else if to_lower (u_Scheme u) = ''https'' \<or> to_lower (u_Scheme u) = ''mailto'' then raw else [])"

definition append_event :: "rich_event \<Rightarrow> rich_event list \<Rightarrow> rich_event list" where
  "append_event ev out = (if length out \<ge> max_rich_events then out else out @ [ev])"

text \<open>The walk over the tree; both functions thread the output through, as the code does by pointer.\<close>

fun emit_node :: "(string \<Rightarrow> string option) \<Rightarrow> html_node \<Rightarrow> int \<Rightarrow> rich_event list \<Rightarrow> rich_event list"
  and recurse_children :: "(string \<Rightarrow> string option) \<Rightarrow> html_node list \<Rightarrow> int \<Rightarrow> rich_event list \<Rightarrow> rich_event list" where
  "emit_node lit (TextNode d) q out =
     (if length out \<ge> max_rich_events then out else append_event ((rich_ev RichText)\<lparr>ev_Text := d\<rparr>) out)"
| "emit_node lit OtherNode q out = out"
| "emit_node lit (DocumentNode cs) q out =
     (if length out \<ge> max_rich_events then out else recurse_children lit cs q out)"
| "emit_node lit (ElementNode d attrs cs) q out =
     (let name = to_lower d
      in if length out \<ge> max_rich_events then out
         else if name \<in> set drop_subtree then out
         else if name = ''blockquote'' then
           append_event ((rich_ev RichBlockClose)\<lparr>ev_Tag := name, ev_Depth := q + 1\<rparr>)
             (recurse_children lit cs (q + 1)
               (append_event ((rich_ev RichBlockOpen)\<lparr>ev_Tag := name, ev_Depth := q + 1\<rparr>) out))
         else if name = ''a'' then
           (let href = safe_href lit (attr_of attrs ''href'')
            in if href \<noteq> [] then
                 append_event (rich_ev RichLinkClose)
                   (recurse_children lit cs q (append_event ((rich_ev RichLinkOpen)\<lparr>ev_Href := href\<rparr>) out))
               else recurse_children lit cs q out)
         else if name = ''img'' then append_event ((rich_ev RichImage)\<lparr>ev_Alt := attr_of attrs ''alt''\<rparr>) out
         else case style_of name of
           Some st \<Rightarrow>
             append_event ((rich_ev RichStyleClose)\<lparr>ev_Style := st\<rparr>)
               (recurse_children lit cs q (append_event ((rich_ev RichStyleOpen)\<lparr>ev_Style := st\<rparr>) out))
         | None \<Rightarrow>
             if name = ''br'' then append_event (rich_ev RichBreak) out
             else case map_of rich_block_tags name of
               Some tag \<Rightarrow>
                 append_event ((rich_ev RichBlockClose)\<lparr>ev_Tag := tag, ev_Depth := q\<rparr>)
                   (recurse_children lit cs q (append_event ((rich_ev RichBlockOpen)\<lparr>ev_Tag := tag, ev_Depth := q\<rparr>) out))
             | None \<Rightarrow> recurse_children lit cs q out)"
| "recurse_children lit [] q out = out"
| "recurse_children lit (c # cs) q out = recurse_children lit cs q (emit_node lit c q out)"

text \<open>\<open>SanitizeHTML\<close>: the nil slice and the empty slice are both the empty list. \<open>parse\<close> gives the
  children of the root, or nothing on an error.\<close>

definition sanitize_html :: "(string \<Rightarrow> string option) \<Rightarrow> (string \<Rightarrow> html_node list option) \<Rightarrow> string \<Rightarrow> rich_event list" where
  "sanitize_html lit parse src =
     (if length src = 0 \<or> length src > max_sanitize_input then []
      else case parse src of None \<Rightarrow> [] | Some cs \<Rightarrow> recurse_children lit cs 0 [])"

section \<open>Paragraphs\<close>

record rich_run =
  r_Text :: string
  r_Bold :: bool
  r_Italic :: bool
  r_Underline :: bool
  r_Code :: bool
  r_Link :: string

definition same_style :: "rich_run \<Rightarrow> rich_run \<Rightarrow> bool" where
  "same_style r o' \<longleftrightarrow> r_Bold r = r_Bold o' \<and> r_Italic r = r_Italic o' \<and> r_Underline r = r_Underline o'
     \<and> r_Code r = r_Code o' \<and> r_Link r = r_Link o'"

record rich_para =
  pa_Tag :: string
  pa_Depth :: int
  pa_Runs :: "rich_run list"

definition max_rich_paras :: nat where "max_rich_paras = 5000"

record span_state =
  ss_bold :: int
  ss_italic :: int
  ss_under :: int
  ss_code :: int
  ss_link :: string

definition span_apply :: "string \<Rightarrow> bool \<Rightarrow> span_state \<Rightarrow> span_state" where
  "span_apply style on s =
     (let d = (if on then 1 else - 1);
          s = (if style = ''b'' then s\<lparr>ss_bold := ss_bold s + d\<rparr>
               else if style = ''i'' then s\<lparr>ss_italic := ss_italic s + d\<rparr>
               else if style = ''u'' then s\<lparr>ss_under := ss_under s + d\<rparr>
               else if style = ''code'' then s\<lparr>ss_code := ss_code s + d\<rparr> else s)
      in s\<lparr>ss_bold := max 0 (ss_bold s), ss_italic := max 0 (ss_italic s),
           ss_under := max 0 (ss_under s), ss_code := max 0 (ss_code s)\<rparr>)"

text \<open>\<open>collapseSpace\<close>; \<open>sp\<close> is the pending space.\<close>

fun collapse_from :: "bool \<Rightarrow> string \<Rightarrow> string" where
  "collapse_from sp [] = (if sp then '' '' else [])"
| "collapse_from sp (c # s) =
     (if c \<in> {CHR '' '', CHR 0x09, CHR 0x0A} then collapse_from True s
      else (if sp then CHR '' '' # c # collapse_from False s else c # collapse_from False s))"

definition collapse_space :: "string \<Rightarrow> string" where
  "collapse_space s = collapse_from False (replace_all crlf lf s)"

definition append_run :: "rich_run \<Rightarrow> rich_para \<Rightarrow> rich_para" where
  "append_run r p =
     (if pa_Runs p \<noteq> [] \<and> same_style (last (pa_Runs p)) r
      then p\<lparr>pa_Runs := butlast (pa_Runs p) @ [(last (pa_Runs p))\<lparr>r_Text := r_Text (last (pa_Runs p)) @ r_Text r\<rparr>]\<rparr>
      else p\<lparr>pa_Runs := pa_Runs p @ [r]\<rparr>)"

record fold_state =
  f_paras :: "rich_para list"
  f_cur :: "rich_para option"
  f_span :: span_state
  f_bullet :: bool
  f_pre :: bool

definition empty_para :: rich_para where
  "empty_para = \<lparr>pa_Tag = [], pa_Depth = 0, pa_Runs = []\<rparr>"

definition flush_para :: "fold_state \<Rightarrow> fold_state" where
  "flush_para s =
     (case f_cur s of
        Some c \<Rightarrow> s\<lparr>f_paras := (if pa_Runs c \<noteq> [] \<and> length (f_paras s) < max_rich_paras then f_paras s @ [c] else f_paras s),
                   f_cur := None\<rparr>
      | None \<Rightarrow> s)"

definition cur_append :: "rich_run \<Rightarrow> fold_state \<Rightarrow> fold_state" where
  "cur_append r s = s\<lparr>f_cur := Some (append_run r (case f_cur s of Some c \<Rightarrow> c | None \<Rightarrow> empty_para))\<rparr>"

definition bullet_text :: string where
  "bullet_text = [CHR 0xE2, CHR 0x80, CHR 0xA2, CHR '' '']"

definition styled :: "string \<Rightarrow> span_state \<Rightarrow> rich_run" where
  "styled t st = \<lparr>r_Text = t, r_Bold = ss_bold st > 0, r_Italic = ss_italic st > 0, r_Underline = ss_under st > 0,
     r_Code = ss_code st > 0, r_Link = ss_link st\<rparr>"

text \<open>The text event, whose three early exits leave the state alone.\<close>

definition text_event :: "string \<Rightarrow> fold_state \<Rightarrow> fold_state" where
  "text_event t s =
     (if f_pre s then cur_append (styled t (f_span s)) s
      else (let t1 = collapse_space t
            in if t1 = [] then s
               else if f_cur s = None then
                 (let t2 = dropWhile (\<lambda>c. c = CHR '' '') t1
                  in if t2 = [] then s else cur_append (styled t2 (f_span s)) s)
               else cur_append (styled t1 (f_span s)) s))"

definition block_open :: "string \<Rightarrow> int \<Rightarrow> fold_state \<Rightarrow> fold_state" where
  "block_open tag depth s0 =
     (let s = flush_para s0
      in if tag = ''br'' then s
         else (let s1 = (if tag = ''li'' then s\<lparr>f_bullet := True\<rparr> else if tag = ''pre'' then s\<lparr>f_pre := True\<rparr> else s);
                   s2 = s1\<lparr>f_cur := Some \<lparr>pa_Tag = tag, pa_Depth = depth, pa_Runs = []\<rparr>\<rparr>
               in if f_bullet s2
                  then cur_append \<lparr>r_Text = bullet_text, r_Bold = True, r_Italic = False, r_Underline = False, r_Code = False, r_Link = []\<rparr>
                         (s2\<lparr>f_bullet := False\<rparr>)
                  else s2))"

definition rich_step :: "rich_event \<Rightarrow> fold_state \<Rightarrow> fold_state" where
  "rich_step ev s =
     (case ev_Kind ev of
        RichText \<Rightarrow> text_event (ev_Text ev) s
      | RichBlockOpen \<Rightarrow> block_open (ev_Tag ev) (ev_Depth ev) s
      | RichBlockClose \<Rightarrow>
          (let s1 = flush_para s in if ev_Tag ev = ''pre'' then s1\<lparr>f_pre := False\<rparr> else s1)
      | RichStyleOpen \<Rightarrow> s\<lparr>f_span := span_apply (ev_Style ev) True (f_span s)\<rparr>
      | RichStyleClose \<Rightarrow> s\<lparr>f_span := span_apply (ev_Style ev) False (f_span s)\<rparr>
      | RichLinkOpen \<Rightarrow> s\<lparr>f_span := (f_span s)\<lparr>ss_link := ev_Href ev\<rparr>\<rparr>
      | RichLinkClose \<Rightarrow> s\<lparr>f_span := (f_span s)\<lparr>ss_link := []\<rparr>\<rparr>
      | RichBreak \<Rightarrow>
          cur_append ((styled lf (f_span s))\<lparr>r_Underline := False, r_Link := []\<rparr>) s
      | RichImage \<Rightarrow>
          (let alt = trim_space (ev_Alt ev); alt = (if alt = [] then ''image'' else alt)
           in cur_append \<lparr>r_Text = ''[image: '' @ alt @ '']'', r_Bold = False, r_Italic = True, r_Underline = False,
                          r_Code = False, r_Link = []\<rparr> s))"

definition fold_init :: fold_state where
  "fold_init = \<lparr>f_paras = [], f_cur = None,
     f_span = \<lparr>ss_bold = 0, ss_italic = 0, ss_under = 0, ss_code = 0, ss_link = []\<rparr>, f_bullet = False, f_pre = False\<rparr>"

definition rich_paragraphs :: "rich_event list \<Rightarrow> rich_para list" where
  "rich_paragraphs evs = f_paras (flush_para (fold rich_step evs fold_init))"

section \<open>The reference stream\<close>

text \<open>What the walk would emit without a bound: compositional, with no shared output.\<close>

definition bracket :: "rich_event \<Rightarrow> rich_event \<Rightarrow> rich_event list \<Rightarrow> rich_event list" where
  "bracket opn cls body = opn # body @ [cls]"

fun node_events :: "(string \<Rightarrow> string option) \<Rightarrow> html_node \<Rightarrow> int \<Rightarrow> rich_event list"
  and forest_events :: "(string \<Rightarrow> string option) \<Rightarrow> html_node list \<Rightarrow> int \<Rightarrow> rich_event list" where
  "node_events lit (TextNode d) q = [(rich_ev RichText)\<lparr>ev_Text := d\<rparr>]"
| "node_events lit OtherNode q = []"
| "node_events lit (DocumentNode cs) q = forest_events lit cs q"
| "node_events lit (ElementNode d attrs cs) q =
     (let name = to_lower d; body = forest_events lit cs q; href = safe_href lit (attr_of attrs ''href'')
      in if name \<in> set drop_subtree then []
         else if name = ''blockquote''
         then bracket ((rich_ev RichBlockOpen)\<lparr>ev_Tag := name, ev_Depth := q + 1\<rparr>)
                ((rich_ev RichBlockClose)\<lparr>ev_Tag := name, ev_Depth := q + 1\<rparr>) (forest_events lit cs (q + 1))
         else if name = ''a''
         then (if href \<noteq> [] then bracket ((rich_ev RichLinkOpen)\<lparr>ev_Href := href\<rparr>) (rich_ev RichLinkClose) body else body)
         else if name = ''img'' then [(rich_ev RichImage)\<lparr>ev_Alt := attr_of attrs ''alt''\<rparr>]
         else case style_of name of
           Some st \<Rightarrow> bracket ((rich_ev RichStyleOpen)\<lparr>ev_Style := st\<rparr>) ((rich_ev RichStyleClose)\<lparr>ev_Style := st\<rparr>) body
         | None \<Rightarrow>
             if name = ''br'' then [rich_ev RichBreak]
             else case map_of rich_block_tags name of
               Some tag \<Rightarrow> bracket ((rich_ev RichBlockOpen)\<lparr>ev_Tag := tag, ev_Depth := q\<rparr>)
                             ((rich_ev RichBlockClose)\<lparr>ev_Tag := tag, ev_Depth := q\<rparr>) body
             | None \<Rightarrow> body)"
| "forest_events lit [] q = []"
| "forest_events lit (c # cs) q = node_events lit c q @ forest_events lit cs q"

lemma append_event_take: "append_event ev (take max_rich_events out) = take max_rich_events (out @ [ev])"
proof (cases "length out \<ge> max_rich_events")
  case False
  then show ?thesis by (simp add: append_event_def)
qed (simp add: append_event_def)

lemma take_full: "length out \<ge> max_rich_events \<Longrightarrow> take max_rich_events (out @ xs) = take max_rich_events out"
  by simp

lemma emit_full: "length out \<ge> max_rich_events \<Longrightarrow> emit_node lit n q out = out"
  by (cases n) (simp_all add: Let_def)

lemma recurse_full: "length out \<ge> max_rich_events \<Longrightarrow> recurse_children lit ns q out = out"
  by (induction ns) (simp_all add: emit_full)

lemma children_take:
  assumes "\<And>c q out. c \<in> set ns \<Longrightarrow> emit_node lit c q (take max_rich_events out) = take max_rich_events (out @ node_events lit c q)"
  shows "recurse_children lit ns q (take max_rich_events out) = take max_rich_events (out @ forest_events lit ns q)"
  using assms
proof (induction ns arbitrary: out)
  case (Cons c cs)
  then show ?case by (simp del: take_append)
qed simp


text \<open>The bounded walk is the reference stream cut off at the bound.\<close>

lemma emit_take: "emit_node lit n q (take max_rich_events out) = take max_rich_events (out @ node_events lit n q)"
proof (induction n arbitrary: q out)
  case (TextNode d)
  show ?case
    by (cases "length out \<ge> max_rich_events") (simp add: emit_full, simp add: append_event_def)
next
  case (ElementNode d attrs cs)
  show ?case
  proof (cases "length out \<ge> max_rich_events")
    case True
    then show ?thesis by (simp add: emit_full)
  next
    case False
    then have nf: "(length (take max_rich_events out) \<ge> max_rich_events) = False" by simp
    note body = children_take [OF ElementNode]
    show ?thesis
      unfolding emit_node.simps node_events.simps Let_def nf if_False
      by (simp only: if_distrib [of "\<lambda>xs. take max_rich_events (out @ xs)"]
          option.case_distrib [of "\<lambda>xs. take max_rich_events (out @ xs)"]
          body append_event_take bracket_def append_assoc append_Cons append_Nil append_Nil2)
  qed
next
  case (DocumentNode cs)
  show ?case
    by (cases "length out \<ge> max_rich_events") (simp add: emit_full, use children_take [OF DocumentNode, of cs q out] in simp)
next
  case OtherNode
  show ?case by simp
qed

lemma sanitize_reference:
  assumes "parse src = Some cs" "0 < length src" "length src \<le> max_sanitize_input"
  shows "sanitize_html lit parse src = take max_rich_events (forest_events lit cs 0)"
  using children_take [OF emit_take, of lit cs 0 "[]"] assms by (simp add: sanitize_html_def)

section \<open>Inertness\<close>

definition safe_link :: "string \<Rightarrow> bool" where
  "safe_link h \<longleftrightarrow> has_prefix ''https:'' (to_lower h) \<or> has_prefix ''mailto:'' (to_lower h)"

text \<open>What an event may carry: a link only a safe target, a block only a permitted tag, a style only one of
  four aspects, and nothing in the fields of other kinds.\<close>

definition inert :: "rich_event \<Rightarrow> bool" where
  "inert ev \<longleftrightarrow>
     (ev_Kind ev \<noteq> RichText \<longrightarrow> ev_Text ev = []) \<and> (ev_Kind ev \<noteq> RichImage \<longrightarrow> ev_Alt ev = [])
     \<and> (if ev_Kind ev = RichLinkOpen then safe_link (ev_Href ev) else ev_Href ev = [])
     \<and> (if ev_Kind ev \<in> {RichBlockOpen, RichBlockClose} then ev_Tag ev \<in> set (map snd rich_block_tags) else ev_Tag ev = [])
     \<and> (if ev_Kind ev \<in> {RichStyleOpen, RichStyleClose} then ev_Style ev \<in> set [''b'', ''i'', ''u'', ''code''] else ev_Style ev = [])"

text \<open>The texts of a tree outside dropped elements, in document order.\<close>

fun node_texts :: "html_node \<Rightarrow> string list" and forest_texts :: "html_node list \<Rightarrow> string list" where
  "node_texts (TextNode d) = [d]"
| "node_texts OtherNode = []"
| "node_texts (DocumentNode cs) = forest_texts cs"
| "node_texts (ElementNode d attrs cs) =
     (if to_lower d \<in> set drop_subtree \<or> to_lower d \<in> {''img'', ''br''} then [] else forest_texts cs)"
| "forest_texts [] = []"
| "forest_texts (c # cs) = node_texts c @ forest_texts cs"

definition event_texts :: "rich_event list \<Rightarrow> string list" where
  "event_texts evs = map ev_Text (filter (\<lambda>ev. ev_Kind ev = RichText) evs)"

lemma event_texts_simps [simp]:
  "event_texts [] = []" "event_texts (xs @ ys) = event_texts xs @ event_texts ys"
  "event_texts (ev # xs) = (if ev_Kind ev = RichText then [ev_Text ev] else []) @ event_texts xs"
  by (simp_all add: event_texts_def)

lemma rich_ev_simps [simp]:
  "ev_Kind (rich_ev k) = k" "ev_Tag (rich_ev k) = []" "ev_Style (rich_ev k) = []" "ev_Href (rich_ev k) = []"
  "ev_Alt (rich_ev k) = []" "ev_Text (rich_ev k) = []"
  by (simp_all add: rich_ev_def)

lemma style_of_Some: "style_of n = Some st \<Longrightarrow> st \<in> set [''b'', ''i'', ''u'', ''code'']"
  unfolding style_of_def by (drule map_of_SomeD) auto

lemma style_not_void: "style_of ''img'' = None" "style_of ''br'' = None"
  by (simp_all add: style_of_def)

lemma block_tag_Some: "map_of rich_block_tags n = Some t \<Longrightarrow> t \<in> set (map snd rich_block_tags)"
  by (drule map_of_SomeD) force

lemma quote_tag: "''blockquote'' \<in> set (map snd rich_block_tags)"
  by (simp add: rich_block_tags_def)

lemma url_parse_scheme:
  assumes "url_parse lit s = Some u" "u_Scheme u \<noteq> []"
  shows "\<exists>sch r. s = sch @ '':'' @ r \<and> to_lower sch = u_Scheme u"
proof -
  define w where "w = fst (cut_at CHR ''#'' s)"
  obtain t where t: "s = w @ t" unfolding w_def by (rule cut_at_fst)
  have nf: "url_parse_nofrag lit w = Some u"
    using assms(1) by (auto simp: url_parse_def w_def Let_def split: prod.splits option.splits if_splits)
  obtain sch r where gs: "get_scheme w = Some (sch, r)" and ls: "to_lower sch = u_Scheme u"
    using nf assms(2) by (auto simp: url_parse_nofrag_def Let_def split: if_splits option.splits)
  have "sch \<noteq> []" using ls assms(2) by auto
  then have "w = sch @ '':'' @ r" by (rule get_scheme_Some [OF gs])
  then show ?thesis using t ls by auto
qed

lemma safe_href_safe: "safe_href lit raw \<noteq> [] \<Longrightarrow> safe_link (safe_href lit raw)"
proof -
  assume n: "safe_href lit raw \<noteq> []"
  define r where "r = trim_space raw"
  obtain u where u: "url_parse lit r = Some u" "u_Scheme u \<noteq> []"
    "to_lower (u_Scheme u) = ''https'' \<or> to_lower (u_Scheme u) = ''mailto''" and h: "safe_href lit raw = r"
    using n by (auto simp: safe_href_def r_def [symmetric] Let_def split: option.splits if_splits)
  obtain sch q where s: "r = sch @ '':'' @ q" "to_lower sch = u_Scheme u" using url_parse_scheme [OF u(1,2)] by auto
  have "to_lower sch = to_lower (u_Scheme u)" using s(2) to_lower_idem [of sch] by simp
  moreover have "to_lower r = to_lower sch @ CHR '':'' # to_lower q" using s(1) by (simp add: to_lower_def lower_char_def)
  ultimately show ?thesis using u(3) h unfolding safe_link_def has_prefix_iff by auto
qed

lemma inert_atoms:
  "inert ((rich_ev RichText)\<lparr>ev_Text := d\<rparr>)" "inert ((rich_ev RichImage)\<lparr>ev_Alt := a\<rparr>)" "inert (rich_ev RichBreak)"
  "inert (rich_ev RichLinkClose)" "safe_link h \<Longrightarrow> inert ((rich_ev RichLinkOpen)\<lparr>ev_Href := h\<rparr>)"
  "t \<in> set (map snd rich_block_tags) \<Longrightarrow> inert ((rich_ev RichBlockOpen)\<lparr>ev_Tag := t, ev_Depth := q\<rparr>)"
  "t \<in> set (map snd rich_block_tags) \<Longrightarrow> inert ((rich_ev RichBlockClose)\<lparr>ev_Tag := t, ev_Depth := q\<rparr>)"
  "st \<in> set [''b'', ''i'', ''u'', ''code''] \<Longrightarrow> inert ((rich_ev RichStyleOpen)\<lparr>ev_Style := st\<rparr>)"
  "st \<in> set [''b'', ''i'', ''u'', ''code''] \<Longrightarrow> inert ((rich_ev RichStyleClose)\<lparr>ev_Style := st\<rparr>)"
  unfolding inert_def by simp_all

lemma forest_all: "(\<And>c q. c \<in> set cs \<Longrightarrow> list_all P (node_events lit c q)) \<Longrightarrow> list_all P (forest_events lit cs q)"
  by (induction cs) auto

lemma node_inert: "list_all inert (node_events lit n q)"
proof (induction n arbitrary: q)
  case (ElementNode d attrs cs)
  note body = forest_all [OF ElementNode]
  show ?case
    unfolding node_events.simps Let_def bracket_def
    using quote_tag by (auto simp: body inert_atoms safe_href_safe split: option.splits
        dest!: style_of_Some block_tag_Some simp del: set_map list.set)
next
  case (DocumentNode cs)
  then show ?case by (simp add: forest_all)
qed (simp_all add: inert_atoms)

lemma forest_event_texts:
  "(\<And>c q. c \<in> set cs \<Longrightarrow> event_texts (node_events lit c q) = node_texts c) \<Longrightarrow> event_texts (forest_events lit cs q) = forest_texts cs"
  by (induction cs) auto

lemma node_event_texts: "event_texts (node_events lit n q) = node_texts n"
proof (induction n arbitrary: q)
  case (ElementNode d attrs cs)
  note body = forest_event_texts [OF ElementNode]
  show ?case
    unfolding node_events.simps node_texts.simps Let_def bracket_def
    using style_not_void by (auto simp: body split: option.splits)
next
  case (DocumentNode cs)
  then show ?case by (simp add: forest_event_texts)
qed simp_all

section \<open>Nesting\<close>

definition closing :: "rich_event \<Rightarrow> rich_event option" where
  "closing ev =
     (case ev_Kind ev of
        RichBlockOpen \<Rightarrow> Some (ev\<lparr>ev_Kind := RichBlockClose\<rparr>)
      | RichStyleOpen \<Rightarrow> Some (ev\<lparr>ev_Kind := RichStyleClose\<rparr>)
      | RichLinkOpen \<Rightarrow> Some (rich_ev RichLinkClose)
      | _ \<Rightarrow> None)"

text \<open>A stack machine for the brackets: an opening event pushes the closing one it asks for, a closing event must
  be on top. \<open>None\<close> is a mismatch.\<close>

fun nesting :: "rich_event list \<Rightarrow> rich_event list \<Rightarrow> rich_event list option" where
  "nesting st [] = Some st"
| "nesting st (ev # evs) =
     (case closing ev of
        Some c \<Rightarrow> nesting (c # st) evs
      | None \<Rightarrow>
          if ev_Kind ev \<in> {RichBlockClose, RichStyleClose, RichLinkClose}
          then (if st \<noteq> [] \<and> hd st = ev then nesting (tl st) evs else None)
          else nesting st evs)"

lemma nesting_bracket:
  assumes "closing opn = Some cls" "closing cls = None" "ev_Kind cls \<in> {RichBlockClose, RichStyleClose, RichLinkClose}"
    and "\<And>st r. nesting st (body @ r) = nesting st r"
  shows "nesting st (bracket opn cls body @ r) = nesting st r"
  using assms by (simp add: bracket_def)

lemma closing_events:
  "closing ((rich_ev RichBlockOpen)\<lparr>ev_Tag := t, ev_Depth := q\<rparr>) = Some ((rich_ev RichBlockClose)\<lparr>ev_Tag := t, ev_Depth := q\<rparr>)"
  "closing ((rich_ev RichStyleOpen)\<lparr>ev_Style := u\<rparr>) = Some ((rich_ev RichStyleClose)\<lparr>ev_Style := u\<rparr>)"
  "closing ((rich_ev RichLinkOpen)\<lparr>ev_Href := h\<rparr>) = Some (rich_ev RichLinkClose)"
  "closing ((rich_ev RichBlockClose)\<lparr>ev_Tag := t, ev_Depth := q\<rparr>) = None"
  "closing ((rich_ev RichStyleClose)\<lparr>ev_Style := u\<rparr>) = None"
  "closing (rich_ev RichLinkClose) = None" "closing (rich_ev RichBreak) = None"
  "closing ((rich_ev RichImage)\<lparr>ev_Alt := a\<rparr>) = None" "closing ((rich_ev RichText)\<lparr>ev_Text := d\<rparr>) = None"
  by (simp_all add: closing_def rich_ev_def)

lemma forest_nesting:
  "(\<And>c q st r. c \<in> set cs \<Longrightarrow> nesting st (node_events lit c q @ r) = nesting st r) \<Longrightarrow> nesting st (forest_events lit cs q @ r) = nesting st r"
  by (induction cs) auto

lemma node_nesting: "nesting st (node_events lit n q @ r) = nesting st r"
proof (induction n arbitrary: q st r)
  case (ElementNode d attrs cs)
  note body = forest_nesting [OF ElementNode]
  show ?case
    unfolding node_events.simps Let_def
    by (auto simp: body nesting_bracket closing_events split: option.splits)
next
  case (DocumentNode cs)
  then show ?case by (simp add: forest_nesting)
qed (simp_all add: closing_events)

lemma nesting_take: "nesting st xs \<noteq> None \<Longrightarrow> nesting st (take n xs) \<noteq> None"
proof (induction xs arbitrary: st n)
  case (Cons x xs)
  then show ?case by (cases n) (auto split: option.splits if_splits)
qed simp

section \<open>Properties of the sanitizer\<close>

text \<open>C20. The bounded walk agrees with its reference: the sanitizer's output is the unbounded,
  compositional event stream of the tree, cut off after 20000 events.\<close>

theorem sanitizer_equivalence:
  assumes "parse src = Some cs" "0 < length src" "length src \<le> max_sanitize_input"
  shows "sanitize_html lit parse src = take 20000 (forest_events lit cs 0)"
  using sanitize_reference [of parse src cs lit] assms by (simp add: max_rich_events_def)

definition sample_tree :: "html_node list" where
  "sample_tree = [ElementNode ''P'' [] [TextNode ''hi''], ElementNode ''script'' [] [TextNode ''evil'']]"

theorem sanitizer_equivalence_witness:
  "sanitize_html (\<lambda>h. None) (\<lambda>s. Some sample_tree) ''<P>hi''
     = [(rich_ev RichBlockOpen)\<lparr>ev_Tag := ''p''\<rparr>, (rich_ev RichText)\<lparr>ev_Text := ''hi''\<rparr>, (rich_ev RichBlockClose)\<lparr>ev_Tag := ''p''\<rparr>]"
proof -
  have "forest_events (\<lambda>h. None) sample_tree 0
      = [(rich_ev RichBlockOpen)\<lparr>ev_Tag := ''p''\<rparr>, (rich_ev RichText)\<lparr>ev_Text := ''hi''\<rparr>, (rich_ev RichBlockClose)\<lparr>ev_Tag := ''p''\<rparr>]"
    by code_simp
  then show ?thesis
    using sanitizer_equivalence [of "\<lambda>s. Some sample_tree" "''<P>hi''" sample_tree "\<lambda>h. None"]
    by (simp add: max_sanitize_input_def)
qed

lemma sanitize_inert: "list_all inert (sanitize_html lit parse src)"
proof (cases "\<exists>cs. parse src = Some cs \<and> 0 < length src \<and> length src \<le> max_sanitize_input")
  case True
  then obtain cs where "sanitize_html lit parse src = take max_rich_events (forest_events lit cs 0)"
    using sanitize_reference by blast
  moreover have "list_all inert (forest_events lit cs 0)" by (simp add: forest_all node_inert)
  ultimately show ?thesis by (auto simp: list_all_iff dest: in_set_takeD)
next
  case False
  then show ?thesis by (auto simp: sanitize_html_def split: option.splits)
qed

text \<open>C19. Only inert pieces come out: every event of a sanitized document is inert (links to https or mailto
  only, permitted tags and styles only), opening and closing events never mismatch, and the texts are, in
  order, a prefix of the document's texts outside the dropped elements.\<close>

theorem sanitized_stream_inert:
  "list_all inert (sanitize_html lit parse src) \<and> length (sanitize_html lit parse src) \<le> 20000
   \<and> nesting [] (sanitize_html lit parse src) \<noteq> None
   \<and> prefix (event_texts (sanitize_html lit parse src)) (case parse src of Some cs \<Rightarrow> forest_texts cs | None \<Rightarrow> [])"
proof (cases "\<exists>cs. parse src = Some cs \<and> 0 < length src \<and> length src \<le> max_sanitize_input")
  case True
  then obtain cs where cs: "parse src = Some cs" and
    out: "sanitize_html lit parse src = take max_rich_events (forest_events lit cs 0)"
    using sanitize_reference by blast
  have "nesting [] (forest_events lit cs 0) = Some []"
    using forest_nesting [OF node_nesting, of "[]" lit cs 0 "[]"] by simp
  moreover have "event_texts (forest_events lit cs 0) = forest_texts cs"
    by (rule forest_event_texts) (rule node_event_texts)
  then have "prefix (event_texts (take max_rich_events (forest_events lit cs 0))) (forest_texts cs)"
    by (metis append_take_drop_id event_texts_simps(2) prefixI)
  ultimately show ?thesis
    using cs sanitize_inert [of lit parse src] nesting_take [of "[]" "forest_events lit cs 0" max_rich_events] out
    by (simp add: max_rich_events_def)
next
  case False
  then have "sanitize_html lit parse src = []" by (auto simp: sanitize_html_def split: option.splits)
  then show ?thesis by simp
qed

section \<open>Properties of the paragraphs\<close>

definition run_ok :: "rich_run \<Rightarrow> bool" where
  "run_ok r \<longleftrightarrow> r_Link r = [] \<or> safe_link (r_Link r)"

text \<open>Runs with safe links only, and no two neighbours that should have been merged.\<close>

definition para_ok :: "rich_para \<Rightarrow> bool" where
  "para_ok p \<longleftrightarrow> list_all run_ok (pa_Runs p) \<and> successively (\<lambda>a b. \<not> same_style a b) (pa_Runs p)"

definition fold_inv :: "fold_state \<Rightarrow> bool" where
  "fold_inv s \<longleftrightarrow> length (f_paras s) \<le> max_rich_paras
     \<and> list_all (\<lambda>p. pa_Runs p \<noteq> [] \<and> para_ok p) (f_paras s)
     \<and> (\<forall>c. f_cur s = Some c \<longrightarrow> para_ok c)
     \<and> (ss_link (f_span s) = [] \<or> safe_link (ss_link (f_span s)))"

lemma append_run_ok: "para_ok p \<Longrightarrow> run_ok r \<Longrightarrow> para_ok (append_run r p)"
proof (cases "pa_Runs p" rule: rev_cases)
  case Nil
  then show "run_ok r \<Longrightarrow> para_ok (append_run r p)" by (simp add: append_run_def para_ok_def)
next
  case (snoc rs l)
  assume "para_ok p" "run_ok r"
  with snoc show "para_ok (append_run r p)"
    by (auto simp: append_run_def para_ok_def run_ok_def successively_append_iff same_style_def)
qed

lemma flush_para_inv: "fold_inv s \<Longrightarrow> fold_inv (flush_para s)"
  by (auto simp: flush_para_def fold_inv_def split: option.splits)

lemma flush_para_cur: "f_cur (flush_para s) = None"
  by (simp add: flush_para_def split: option.splits)

lemma cur_append_inv: "fold_inv s \<Longrightarrow> run_ok r \<Longrightarrow> fold_inv (cur_append r s)"
proof -
  assume s: "fold_inv s" and r: "run_ok r"
  have "para_ok (case f_cur s of Some c \<Rightarrow> c | None \<Rightarrow> empty_para)"
    using s by (simp add: fold_inv_def empty_para_def para_ok_def split: option.splits)
  from append_run_ok [OF this r] show ?thesis using s by (simp add: cur_append_def fold_inv_def)
qed

lemma styled_ok: "fold_inv s \<Longrightarrow> run_ok (styled t (f_span s))"
  by (simp add: fold_inv_def run_ok_def styled_def)

lemma plain_run_ok: "r_Link r = [] \<Longrightarrow> run_ok r"
  by (simp add: run_ok_def)

lemma text_event_inv: "fold_inv s \<Longrightarrow> fold_inv (text_event t s)"
  by (simp add: text_event_def Let_def cur_append_inv styled_ok)

lemma block_open_inv:
  assumes "fold_inv s"
  shows "fold_inv (block_open tag depth s)"
proof -
  note flush_para_inv [OF assms]
  then have "fold_inv ((flush_para s)\<lparr>f_bullet := b, f_pre := e, f_cur := Some \<lparr>pa_Tag = t, pa_Depth = d, pa_Runs = []\<rparr>\<rparr>)" for b e t d
    by (simp add: fold_inv_def para_ok_def)
  then have "fold_inv ((flush_para s)\<lparr>f_bullet := b, f_cur := Some \<lparr>pa_Tag = t, pa_Depth = d, pa_Runs = []\<rparr>\<rparr>)"
    "fold_inv ((flush_para s)\<lparr>f_pre := e, f_cur := Some \<lparr>pa_Tag = t, pa_Depth = d, pa_Runs = []\<rparr>\<rparr>)"
    "fold_inv ((flush_para s)\<lparr>f_cur := Some \<lparr>pa_Tag = t, pa_Depth = d, pa_Runs = []\<rparr>\<rparr>)" for b e t d
    by (simp_all add: fold_inv_def)
  then show ?thesis using flush_para_inv [OF assms]
    by (auto simp: block_open_def Let_def plain_run_ok fold_inv_def [of "_\<lparr>f_bullet := _\<rparr>"] intro!: cur_append_inv)
       (simp_all add: fold_inv_def)
qed

lemma span_apply_link: "ss_link (span_apply st on s) = ss_link s"
  by (simp add: span_apply_def Let_def)

lemma rich_step_inv:
  assumes "fold_inv s" "inert ev"
  shows "fold_inv (rich_step ev s)"
proof (cases "ev_Kind ev")
  case RichText
  then show ?thesis using assms by (simp add: rich_step_def text_event_inv)
next
  case RichBlockOpen
  then show ?thesis using assms by (simp add: rich_step_def block_open_inv)
next
  case RichBlockClose
  then show ?thesis using flush_para_inv [OF assms(1)] by (simp add: rich_step_def Let_def fold_inv_def)
next
  case RichLinkOpen
  then show ?thesis using assms by (simp add: rich_step_def fold_inv_def inert_def)
next
  case RichBreak
  then show ?thesis using assms by (simp add: rich_step_def cur_append_inv plain_run_ok)
next
  case RichImage
  then show ?thesis using assms by (simp add: rich_step_def Let_def cur_append_inv plain_run_ok)
qed (use assms in \<open>simp_all add: rich_step_def fold_inv_def span_apply_link\<close>)

interpretation rich: guarded rich_step fold_inv inert
  by unfold_locales (rule rich_step_inv)

text \<open>What reaches the renderer is bounded and safe: a sanitized document gives at most 5000
  paragraphs, each with at least one run, every link in them goes to https or mailto, and neighbouring runs
  differ in style.\<close>

theorem rendered_mail_safe:
  "length (rich_paragraphs (sanitize_html lit parse src)) \<le> 5000
   \<and> list_all (\<lambda>p. pa_Runs p \<noteq> [] \<and> list_all run_ok (pa_Runs p)
        \<and> successively (\<lambda>a b. \<not> same_style a b) (pa_Runs p)) (rich_paragraphs (sanitize_html lit parse src))"
proof -
  note sanitize_inert [of lit parse src]
  moreover have "fold_inv fold_init" by (simp add: fold_inv_def fold_init_def)
  ultimately have "fold_inv (flush_para (fold rich_step (sanitize_html lit parse src) fold_init))"
    by (intro flush_para_inv rich.guarded_run)
  then show ?thesis by (simp add: rich_paragraphs_def fold_inv_def para_ok_def max_rich_paras_def)
qed

end
