(* ===== verification/MimeText.thy ===== *)
theory MimeText
  imports GoPrelude "HOL-Library.Sublist"
begin

text \<open>
  The text renderer and the tracker detection of \<open>internal/mail/mime\<close> (\<open>render.go\<close>,
  \<open>track.go\<close>). Both walk the tokens of the HTML tokenizer of \<open>golang.org/x/net\<close>, which is the argument
  \<open>tokens\<close>: the tokens up to the error token that ends the input, tag names lowercased as it does.
\<close>

section \<open>Rendering to text\<close>

datatype html_token =
    StartTag string "(string \<times> string) list"
  | SelfClosingTag string "(string \<times> string) list"
  | EndTag string
  | TextToken string
  | OtherToken

definition block_tags :: "string list" where
  "block_tags = [''p'', ''div'', ''br'', ''li'', ''tr'', ''h1'', ''h2'', ''h3'', ''h4'', ''h5'', ''h6'',
     ''blockquote'', ''pre'', ''table'', ''ul'', ''ol'']"

definition skip_tags :: "string list" where
  "skip_tags = [''script'', ''style'', ''head'', ''object'', ''embed'', ''iframe'', ''noscript'', ''svg'', ''template'']"

text \<open>One turn of the loop: the skip depth and the text written so far.\<close>

fun render_token :: "html_token \<Rightarrow> nat \<times> string \<Rightarrow> nat \<times> string" where
  "render_token (StartTag name attrs) (d, b) =
     (let d' = (if name \<in> set skip_tags then Suc d else d)
      in (d', if name \<in> set block_tags \<and> d' = 0 then b @ lf else b))"
| "render_token (SelfClosingTag name attrs) (d, b) =
     (d, if name \<in> set block_tags \<and> d = 0 then b @ lf else b)"
| "render_token (EndTag name) (d, b) =
     (let d' = (if name \<in> set skip_tags \<and> d > 0 then d - 1 else d)
      in (d', if name \<in> set block_tags \<and> d' = 0 then b @ lf else b))"
| "render_token (TextToken t) (d, b) = (d, if d = 0 then b @ t else b)"
| "render_token OtherToken (d, b) = (d, b)"

text \<open>\<open>multiBlank\<close>: a maximal run of three or more line feeds becomes two; \<open>n\<close> line feeds are pending.\<close>

fun squeeze_from :: "nat \<Rightarrow> string \<Rightarrow> string" where
  "squeeze_from n [] = replicate (min n 2) CHR 0x0A"
| "squeeze_from n (c # s) =
     (if c = CHR 0x0A then squeeze_from (Suc n) s
      else replicate (min n 2) CHR 0x0A @ c # squeeze_from 0 s)"

definition collapse_blank_lines :: "string \<Rightarrow> string" where
  "collapse_blank_lines s =
     (let ls = map (trim_right_by (\<lambda>c. c = CHR '' '' \<or> c = CHR 0x09)) (split_on CHR 0x0A s)
      in trim_space (squeeze_from 0 (join_with lf ls)))"

definition html_to_text :: "(string \<Rightarrow> html_token list) \<Rightarrow> string \<Rightarrow> string" where
  "html_to_text tokens src = collapse_blank_lines (snd (fold render_token (tokens src) (0, [])))"

definition wrap_plaintext :: "string \<Rightarrow> string" where
  "wrap_plaintext t = collapse_blank_lines (replace_all crlf lf t)"

definition display_text :: "(string \<Rightarrow> html_token list) \<Rightarrow> string \<Rightarrow> string \<Rightarrow> string" where
  "display_text tokens txt html =
     (if trim_space txt \<noteq> [] then wrap_plaintext txt
      else if html \<noteq> [] then html_to_text tokens html else [])"

function quote_depth :: "string \<Rightarrow> nat" where
  "quote_depth line =
     (case dropWhile (\<lambda>c. c = CHR '' '') line of
        c # rest \<Rightarrow> if c = CHR ''>'' then Suc (quote_depth rest) else 0
      | [] \<Rightarrow> 0)"
  by pat_completeness auto
termination
proof (relation "measure length")
  fix line c rest
  assume "dropWhile (\<lambda>c. c = CHR '' '') line = c # rest"
  then have "length (c # rest) \<le> length line" using length_dropWhile_le by metis
  then show "(rest, line) \<in> measure length" by simp
qed simp

declare quote_depth.simps [simp del]

section \<open>Trackers\<close>

definition tracker_hosts :: "string list" where
  "tracker_hosts =
     [''list-manage.com'', ''mailchimp.com'', ''mandrillapp.com'', ''sendgrid.net'', ''sendgrid.com'', ''sparkpostmail.com'',
      ''awstrack.me'', ''aweber.com'', ''getresponse.com'', ''mailtrack.io'', ''mixmax.com'', ''streak.com'', ''yesware.com'',
      ''bananatag.com'', ''mailgun.org'', ''postmarkapp.com'', ''customeriomail.com'', ''exacttarget.com'', ''salesforce.com'',
      ''hubspotemail.net'', ''hs-analytics.net'', ''klaviyomail.com'', ''braze.com'', ''iterable.com'', ''sailthru.com'']"

text \<open>The attribute map of a tag; a repeated key keeps its last value, an absent one reads as empty.\<close>

definition attr_get :: "(string \<times> string) list \<Rightarrow> string \<Rightarrow> string" where
  "attr_get attrs k = (case map_of (rev attrs) k of Some v \<Rightarrow> v | None \<Rightarrow> [])"

definition trim_suffix :: "string \<Rightarrow> string \<Rightarrow> string" where
  "trim_suffix suf s = (if has_suffix suf s then take (length s - length suf) s else s)"

definition is_tracking_pixel :: "(string \<times> string) list \<Rightarrow> bool" where
  "is_tracking_pixel attrs =
     (let w = trim_suffix ''px'' (trim_space (attr_get attrs ''width''));
          h = trim_suffix ''px'' (trim_space (attr_get attrs ''height''));
          style = to_lower (attr_get attrs ''style'')
      in if (w = ''0'' \<or> w = ''1'') \<and> (h = ''0'' \<or> h = ''1'') then True
         else if contains_str ''display:none'' style \<or> contains_str ''display: none'' style
                 \<or> contains_str ''visibility:hidden'' style \<or> contains_str ''visibility: hidden'' style
         then attr_get attrs ''src'' \<noteq> [] else False)"

definition url_host_of :: "string \<Rightarrow> string" where
  "url_host_of rest =
     (let h = (case index_by (\<lambda>c. c \<in> set ''/?#'') rest of Some i \<Rightarrow> take i rest | None \<Rightarrow> rest)
      in case char_index CHR '':'' h of Some i \<Rightarrow> take i h | None \<Rightarrow> h)"

definition url_hits_tracker_host :: "string \<Rightarrow> bool" where
  "url_hits_tracker_host u =
     (let url = to_lower u
      in if \<not> has_prefix ''http://'' url \<and> \<not> has_prefix ''https://'' url then False
         else (let host = url_host_of (case str_index ''://'' url of Some i \<Rightarrow> drop (i + 3) url | None \<Rightarrow> url)
               in list_ex (\<lambda>t. host = t \<or> has_suffix (CHR ''.'' # t) host) tracker_hosts))"

definition tracked_tag :: "string \<Rightarrow> (string \<times> string) list \<Rightarrow> bool" where
  "tracked_tag tag attrs =
     (if tag \<noteq> ''img'' \<and> tag \<noteq> ''a'' then False
      else if tag = ''img'' \<and> is_tracking_pixel attrs then True
      else url_hits_tracker_host (if attr_get attrs ''src'' = [] then attr_get attrs ''href'' else attr_get attrs ''src''))"

fun detect_in :: "html_token list \<Rightarrow> bool" where
  "detect_in [] = False"
| "detect_in (StartTag tag attrs # ts) = (if tracked_tag tag attrs then True else detect_in ts)"
| "detect_in (SelfClosingTag tag attrs # ts) = (if tracked_tag tag attrs then True else detect_in ts)"
| "detect_in (_ # ts) = detect_in ts"

definition detect_trackers :: "(string \<Rightarrow> html_token list) \<Rightarrow> string \<Rightarrow> bool" where
  "detect_trackers tokens html = (if html = [] then False else detect_in (tokens html))"

text \<open>\<open>FirstUnsubscribeTarget\<close>, over the parts of the header value.\<close>

fun unsubscribe_parts :: "string list \<Rightarrow> string \<times> string \<Rightarrow> string \<times> string" where
  "unsubscribe_parts [] (mailto, url) = (mailto, url)"
| "unsubscribe_parts (p # ps) (mailto, url) =
     (let part = trim_by (\<lambda>c. c = CHR ''<'' \<or> c = CHR ''>'') (trim_space p); low = to_lower part
      in if has_prefix ''mailto:'' low \<and> mailto = [] then
           (let addr = drop 7 part
            in unsubscribe_parts ps (case char_index CHR ''?'' addr of Some i \<Rightarrow> take i addr | None \<Rightarrow> addr, url))
         else if has_prefix ''https://'' low \<and> url = [] then unsubscribe_parts ps (mailto, part)
         else unsubscribe_parts ps (mailto, url))"

definition first_unsubscribe_target :: "string \<Rightarrow> string \<times> string" where
  "first_unsubscribe_target header = unsubscribe_parts (split_on CHR '','' header) ([], [])"

section \<open>Properties\<close>

text \<open>Tokens whose skipped elements open and close properly, \<open>d\<close> of them still open.\<close>

fun skip_balanced :: "nat \<Rightarrow> html_token list \<Rightarrow> bool" where
  "skip_balanced d [] = (d = 0)"
| "skip_balanced d (StartTag name attrs # ts) = skip_balanced (if name \<in> set skip_tags then Suc d else d) ts"
| "skip_balanced d (EndTag name # ts) =
     (if name \<in> set skip_tags then d > 0 \<and> skip_balanced (d - 1) ts else skip_balanced d ts)"
| "skip_balanced d (_ # ts) = skip_balanced d ts"

lemma skip_not_block: "set skip_tags \<inter> set block_tags = {}"
  by (simp add: skip_tags_def block_tags_def)

lemma skip_not_blockD: "name \<in> set skip_tags \<Longrightarrow> name \<notin> set block_tags"
  using skip_not_block by blast

lemma render_skipped: "skip_balanced d ts \<Longrightarrow> fold render_token ts (Suc (k + d), b) = (Suc k, b)"
proof (induction d ts rule: skip_balanced.induct)
  case (3 d name ts)
  then show ?case by (cases d) (auto split: if_splits)
qed (auto split: if_splits)

lemma render_element:
  assumes "name \<in> set skip_tags" "skip_balanced 0 body"
  shows "fold render_token (StartTag name attrs # body @ [EndTag name]) s = s"
proof -
  obtain d b where s: "s = (d, b)" by force
  have "fold render_token body (Suc d, b) = (Suc d, b)" using render_skipped [OF assms(2), of d b] by simp
  then show ?thesis using assms(1) skip_not_blockD s by simp
qed


definition sample_tokens :: "string \<Rightarrow> html_token list" where
  "sample_tokens s = (if s = ''full''
     then [TextToken ''a'', StartTag ''script'' [], TextToken ''evil()'', EndTag ''script'', TextToken ''b'']
     else [TextToken ''a'', TextToken ''b''])"


text \<open>An embed element hides the rest of the mail: it is a void element, so its start tag has no end tag, and
  without a later end tag of a skipped element everything after it is lost from the rendering.\<close>

theorem embed_swallows_rest:
  assumes "tokens src = pre @ StartTag ''embed'' attrs # post" "tokens short = pre"
    and "list_all (\<lambda>t. \<forall>name. t = EndTag name \<longrightarrow> name \<notin> set skip_tags) post"
  shows "html_to_text tokens src = html_to_text tokens short"
proof -
  have stuck: "snd (fold render_token ts (Suc d, b)) = b"
    if "list_all (\<lambda>t. \<forall>name. t = EndTag name \<longrightarrow> name \<notin> set skip_tags) ts" for ts d b
    using that
  proof (induction ts arbitrary: d)
    case (Cons t ts)
    then show ?case by (cases t) (auto simp: Let_def)
  qed simp
  obtain d b where s: "fold render_token pre (0, []) = (d, b)" by force
  have "''embed'' \<in> set skip_tags" "''embed'' \<notin> set block_tags" by (simp_all add: skip_tags_def block_tags_def)
  then have "fold render_token (tokens src) (0, []) = fold render_token post (Suc d, b)"
    using assms(1) s by simp
  then have "snd (fold render_token (tokens src) (0, [])) = snd (fold render_token (tokens short) (0, []))"
    using stuck [OF assms(3)] s assms(2) by simp
  then show ?thesis by (simp add: html_to_text_def)
qed

definition embed_tokens :: "string \<Rightarrow> html_token list" where
  "embed_tokens s = (if s = ''full'' then [TextToken ''Dear'', StartTag ''embed'' [], TextToken ''Sir'', EndTag ''p'']
     else [TextToken ''Dear''])"

theorem embed_swallows_rest_witness: "html_to_text embed_tokens ''full'' = ''Dear''"
proof -
  have "html_to_text embed_tokens ''full'' = html_to_text embed_tokens ''cut''"
    by (rule embed_swallows_rest [of embed_tokens "''full''" "[TextToken ''Dear'']" "[]" "[TextToken ''Sir'', EndTag ''p'']"])
       (simp_all add: embed_tokens_def skip_tags_def)
  also have "html_to_text embed_tokens ''cut'' = ''Dear''" by code_simp
  finally show ?thesis .
qed

text \<open>Never more than one blank line, and no white space at either end.\<close>

lemma squeeze_no_blank_run: "\<not> sublist (replicate 3 CHR 0x0A) (squeeze_from n s)"
proof (induction n s rule: squeeze_from.induct)
  case (1 n)
  have "length (replicate 3 CHR 0x0A) \<le> length (replicate (min n 2) CHR 0x0A)" if "sublist (replicate 3 CHR 0x0A) (replicate (min n 2) CHR 0x0A)"
    using that by (rule sublist_length_le)
  then show ?case by auto
next
  case (2 n c s)
  show ?case
  proof (cases "c = CHR 0x0A")
    case True
    then show ?thesis using 2 by simp
  next
    case False
    have np: "\<not> prefix (replicate 3 CHR 0x0A) (replicate k CHR 0x0A @ c # t)" if "k \<le> 2" for k t
      using that False by (auto simp: numeral_3_eq_3 le_Suc_eq numeral_2_eq_2 less_Suc_eq_le)
    have "\<not> sublist (replicate 3 CHR 0x0A) (replicate k CHR 0x0A @ c # squeeze_from 0 s)" if "k \<le> 2" for k
      using that
    proof (induction k)
      case 0
      show ?case using np [of 0 "squeeze_from 0 s"] 2(2) False by (simp add: sublist_Cons_right)
    next
      case (Suc k)
      then show ?case using np [of "Suc k" "squeeze_from 0 s"] by (simp add: sublist_Cons_right)
    qed
    then show ?thesis using False by simp
  qed
qed

text \<open>Displayed text is tidy: it never has two blank lines in a row and no white space at either end.\<close>

theorem displayed_text_tidy:
  "\<not> sublist (replicate 3 CHR 0x0A) (collapse_blank_lines s)
   \<and> trim_space (collapse_blank_lines s) = collapse_blank_lines s"
proof -
  obtain w where w: "collapse_blank_lines s = trim_space (squeeze_from 0 w)"
    by (simp add: collapse_blank_lines_def Let_def)
  have "sublist (trim_space x) x" for x
    using trim_by_infix [of x is_space] unfolding trim_space_def sublist_def by metis
  then have "\<not> sublist (replicate 3 CHR 0x0A) (trim_space (squeeze_from 0 w))"
    using squeeze_no_blank_run sublist_order.order_trans by metis
  then show ?thesis by (simp add: w)
qed

text \<open>An unsubscribe link the app offers is https: from any List-Unsubscribe header the URL it picks is
  none or starts with https, and it is one of the header's parts.\<close>

theorem unsubscribe_url_https:
  "snd (first_unsubscribe_target header) = [] \<or> has_prefix ''https://'' (to_lower (snd (first_unsubscribe_target header)))"
proof -
  have "url = [] \<or> has_prefix ''https://'' (to_lower url) \<Longrightarrow>
      snd (unsubscribe_parts ps (mailto, url)) = [] \<or> has_prefix ''https://'' (to_lower (snd (unsubscribe_parts ps (mailto, url))))"
    for ps mailto url
    by (induction ps arbitrary: mailto url) (auto simp: Let_def)
  then show ?thesis by (simp add: first_unsubscribe_target_def)
qed

end
