(* ===== verification/MimeParse.thy ===== *)
theory MimeParse
  imports HtmlRich MimeText
begin

text \<open>
  \<open>Parse\<close> and \<open>ExtractAttachment\<close> of \<open>internal/mail/mime\<close>: from a raw message to the display
  model, with the detection of PGP messages. The MIME reader of go-message is the argument
  \<open>reader\<close>: it gives the values of the top-level header and the results of \<open>NextPart\<close> in
  order, or nothing when the message is unreadable.
\<close>

section \<open>The reader\<close>

text \<open>A part as \<open>NextPart\<close> returns it: the content type unless it does not parse, for an
  attachment the file name unless it does not decode, the decoded bytes of the body and whether reading them
  succeeds; or an error of an unknown charset or of the structure.\<close>

datatype mail_part =
    InlinePart "string option" string bool
  | AttachmentPart "string option" "string option" string bool
  | UnknownCharset
  | StructuralError

record mail_reader =
  mr_ContentType :: "(string \<times> (string \<times> string) list) option"
  mr_XVayuPGP :: string
  mr_ListID :: string
  mr_ListUnsubscribe :: string
  mr_Parts :: "mail_part list"

record attachment_ref =
  a_Filename :: string
  a_ContentType :: string

record parsed =
  pd_Text :: string
  pd_HTML :: string
  pd_Snippet :: string
  pd_Attachments :: "attachment_ref list"
  pd_PGPStatus :: string
  pd_EncryptedBlock :: string
  pd_HasTrackers :: bool
  pd_ListID :: string
  pd_ListUnsubscribe :: string

section \<open>PGP detection\<close>

definition pgp_begin :: string where "pgp_begin = ''-----BEGIN PGP MESSAGE-----''"
definition pgp_end :: string where "pgp_end = ''-----END PGP MESSAGE-----''"

definition pgp_status_from_content_type :: "string \<Rightarrow> (string \<times> string) list \<Rightarrow> string" where
  "pgp_status_from_content_type ct params =
     (let proto = to_lower (attr_get params ''protocol'')
      in if to_lower ct = ''multipart/encrypted'' \<and> proto = ''application/pgp-encrypted'' then ''encrypted''
         else if to_lower ct = ''multipart/signed'' \<and> proto = ''application/pgp-signature'' then ''signed''
         else [])"

definition looks_inline_pgp :: "string \<Rightarrow> bool" where
  "looks_inline_pgp t = contains_str pgp_begin t"

definition is_encrypted :: "string \<Rightarrow> bool" where
  "is_encrypted status \<longleftrightarrow> status = ''encrypted'' \<or> status = ''signed+encrypted''"

definition extract_inline_pgp :: "string \<Rightarrow> string" where
  "extract_inline_pgp t =
     (case str_index pgp_begin t of
        None \<Rightarrow> []
      | Some i \<Rightarrow>
          (case str_index pgp_end (drop i t) of
             None \<Rightarrow> []
           | Some j \<Rightarrow> take (j + length pgp_end) (drop i t)))"

definition snippet :: "(string \<Rightarrow> html_token list) \<Rightarrow> string \<Rightarrow> string \<Rightarrow> string" where
  "snippet tokens txt html =
     (let src = (if txt = [] \<and> html \<noteq> [] then html_to_text tokens html else txt)
      in take_runes 160 (join_with '' '' (str_fields src)))"

section \<open>Parsing\<close>

definition max_part :: nat where "max_part = 1048576"

definition inline_part :: "string option \<Rightarrow> string \<Rightarrow> bool \<Rightarrow> parsed \<Rightarrow> parsed" where
  "inline_part ct body ok p =
     (case (ct, read_limited max_part body ok) of
        (Some pt, Some b) \<Rightarrow>
          (let p1 = (if is_encrypted (pd_PGPStatus p) \<and> pd_EncryptedBlock p = [] \<and> contains_str pgp_begin b
                        \<and> \<not> equal_fold pt ''text/html''
                     then p\<lparr>pd_EncryptedBlock := extract_inline_pgp b\<rparr> else p)
           in if equal_fold pt ''text/plain'' \<and> pd_Text p1 = [] then p1\<lparr>pd_Text := b\<rparr>
              else if equal_fold pt ''text/html'' \<and> pd_HTML p1 = [] then p1\<lparr>pd_HTML := b\<rparr>
              else p1)
      | _ \<Rightarrow> p)"

definition attachment_part :: "string option \<Rightarrow> string option \<Rightarrow> string \<Rightarrow> bool \<Rightarrow> parsed \<Rightarrow> parsed" where
  "attachment_part ct fname body ok p =
     (let pt = (case ct of Some t \<Rightarrow> t | None \<Rightarrow> ''application/octet-stream'');
          lpt = to_lower pt;
          enc = is_encrypted (pd_PGPStatus p);
          armored = (case read_limited max_part body ok of Some b \<Rightarrow> extract_inline_pgp b | None \<Rightarrow> [])
      in if enc \<and> contains_str ''pgp-encrypted'' lpt then p
         else if enc \<and> pd_EncryptedBlock p = [] \<and> (contains_str ''octet-stream'' lpt \<or> contains_str ''pgp'' lpt)
                 \<and> armored \<noteq> []
         then p\<lparr>pd_EncryptedBlock := armored\<rparr>
         else p\<lparr>pd_Attachments := pd_Attachments p @
                  [\<lparr>a_Filename = (case fname of Some f \<Rightarrow> f | None \<Rightarrow> []), a_ContentType = pt\<rparr>]\<rparr>)"

fun parse_parts :: "mail_part list \<Rightarrow> parsed \<Rightarrow> parsed" where
  "parse_parts [] p = p"
| "parse_parts (InlinePart ct body ok # ps) p = parse_parts ps (inline_part ct body ok p)"
| "parse_parts (AttachmentPart ct fname body ok # ps) p = parse_parts ps (attachment_part ct fname body ok p)"
| "parse_parts (UnknownCharset # ps) p = parse_parts ps p"
| "parse_parts (StructuralError # ps) p = p"

definition initial_status :: "mail_reader \<Rightarrow> string" where
  "initial_status mr =
     (let st = (case mr_ContentType mr of Some (ct, params) \<Rightarrow> pgp_status_from_content_type ct params | None \<Rightarrow> [])
      in if st = [] \<and> equal_fold (mr_XVayuPGP mr) ''encrypted'' then ''encrypted'' else st)"

definition parse_start :: "mail_reader \<Rightarrow> parsed" where
  "parse_start mr = \<lparr>pd_Text = [], pd_HTML = [], pd_Snippet = [], pd_Attachments = [], pd_PGPStatus = initial_status mr,
     pd_EncryptedBlock = [], pd_HasTrackers = False, pd_ListID = mr_ListID mr, pd_ListUnsubscribe = mr_ListUnsubscribe mr\<rparr>"

definition parse_finish :: "(string \<Rightarrow> html_token list) \<Rightarrow> parsed \<Rightarrow> parsed" where
  "parse_finish tokens p =
     (let p1 = (if pd_PGPStatus p = [] \<and> looks_inline_pgp (pd_Text p) then p\<lparr>pd_PGPStatus := ''encrypted''\<rparr> else p);
          p2 = (if is_encrypted (pd_PGPStatus p1) \<and> pd_EncryptedBlock p1 = [] \<and> looks_inline_pgp (pd_Text p1)
                then p1\<lparr>pd_EncryptedBlock := extract_inline_pgp (pd_Text p1)\<rparr> else p1)
      in p2\<lparr>pd_HasTrackers := detect_trackers tokens (pd_HTML p2), pd_Snippet := snippet tokens (pd_Text p2) (pd_HTML p2)\<rparr>)"

definition parse_message :: "(string \<Rightarrow> html_token list) \<Rightarrow> (bytes \<Rightarrow> mail_reader option) \<Rightarrow> bytes \<Rightarrow> parsed option" where
  "parse_message tokens reader raw =
     (case reader raw of
        None \<Rightarrow> None
      | Some mr \<Rightarrow> Some (parse_finish tokens (parse_parts (mr_Parts mr) (parse_start mr))))"

section \<open>Attachments\<close>

datatype attach_error = Unreadable | WalkParts | ReadAttachment | AttachmentNotFound int

fun find_attachment :: "int \<Rightarrow> int \<Rightarrow> mail_part list \<Rightarrow> (attach_error, attachment_ref \<times> bytes) result" where
  "find_attachment seen i [] = Inl (AttachmentNotFound i)"
| "find_attachment seen i (UnknownCharset # ps) = Inl WalkParts"
| "find_attachment seen i (StructuralError # ps) = Inl WalkParts"
| "find_attachment seen i (InlinePart ct body ok # ps) = find_attachment seen i ps"
| "find_attachment seen i (AttachmentPart ct fname body ok # ps) =
     (if seen \<noteq> i then find_attachment (seen + 1) i ps
      else (case read_limited 67108864 body ok of
              None \<Rightarrow> Inl ReadAttachment
            | Some b \<Rightarrow>
                Inr (\<lparr>a_Filename = (case fname of Some f \<Rightarrow> if f = [] then ''attachment-'' @ itoa (i + 1) else f
                                     | None \<Rightarrow> ''attachment-'' @ itoa (i + 1)),
                      a_ContentType = (case ct of Some t \<Rightarrow> t | None \<Rightarrow> ''application/octet-stream'')\<rparr>, b)))"

definition extract_attachment :: "(bytes \<Rightarrow> mail_reader option) \<Rightarrow> bytes \<Rightarrow> int \<Rightarrow> (attach_error, attachment_ref \<times> bytes) result" where
  "extract_attachment reader raw i =
     (case reader raw of None \<Rightarrow> Inl Unreadable | Some mr \<Rightarrow> find_attachment 0 i (mr_Parts mr))"

section \<open>Properties\<close>

lemma marker_offset: "pgp_begin @ r = a @ pgp_end @ s \<Longrightarrow> 2 \<le> length a"
proof (rule ccontr)
  assume eq: "pgp_begin @ r = a @ pgp_end @ s" and "\<not> 2 \<le> length a"
  then consider "a = []" | c where "a = [c]" by (cases a rule: list.exhaust; cases "tl a") auto
  then show False using eq by cases (simp_all add: pgp_begin_def pgp_end_def)
qed

lemma extract_armored:
  assumes "extract_inline_pgp t \<noteq> []"
  shows "has_prefix pgp_begin (extract_inline_pgp t) \<and> has_suffix pgp_end (extract_inline_pgp t)"
proof -
  obtain i j where i: "str_index pgp_begin t = Some i" and j: "str_index pgp_end (drop i t) = Some j"
    and b: "extract_inline_pgp t = take (j + length pgp_end) (drop i t)"
    using assms by (auto simp: extract_inline_pgp_def split: option.splits)
  obtain r where "t = take i t @ pgp_begin @ r" "i \<le> length t" using str_index_Some [OF i] by blast
  then have d: "drop i t = pgp_begin @ r" by (metis append_eq_conv_conj length_take min.absorb2)
  obtain s where e: "drop i t = take j (drop i t) @ pgp_end @ s" "j \<le> length (drop i t)"
    using str_index_Some [OF j] by blast
  define a where "a = take j (drop i t)"
  have a: "length a = j" "drop i t = a @ pgp_end @ s" using e by (simp_all add: a_def)
  have blk: "extract_inline_pgp t = a @ pgp_end" unfolding b a(2) using a(1) by simp
  have "2 \<le> j" using marker_offset [of r a s] d a by simp
  then have "length pgp_begin \<le> length (a @ pgp_end)" using a(1) by (simp add: pgp_begin_def pgp_end_def)
  moreover have "pgp_begin @ r = (a @ pgp_end) @ s" using d a by simp
  then have "take (length (a @ pgp_end)) (pgp_begin @ r) = a @ pgp_end" by (metis append_eq_conv_conj)
  ultimately have "has_prefix pgp_begin (a @ pgp_end)"
    by (metis append_eq_conv_conj has_prefix_def min.absorb1 take_take)
  then show ?thesis by (simp add: blk)
qed

lemma is_encrypted_simps [simp]: "is_encrypted ''encrypted''" "\<not> is_encrypted []" "\<not> is_encrypted ''signed''"
  by (simp_all add: is_encrypted_def)

text \<open>What the parts leave invariant: the status, and an encrypted block only in armor of an encrypted
  message.\<close>

definition block_ok :: "parsed \<Rightarrow> bool" where
  "block_ok p \<longleftrightarrow> pd_EncryptedBlock p \<noteq> [] \<longrightarrow> is_encrypted (pd_PGPStatus p)
     \<and> has_prefix pgp_begin (pd_EncryptedBlock p) \<and> has_suffix pgp_end (pd_EncryptedBlock p)"

lemma inline_part_keeps:
  "pd_PGPStatus (inline_part ct body ok p) = pd_PGPStatus p" "block_ok p \<Longrightarrow> block_ok (inline_part ct body ok p)"
  by (auto simp: inline_part_def block_ok_def Let_def extract_armored split: option.splits)

lemma attachment_part_keeps:
  "pd_PGPStatus (attachment_part ct fname body ok p) = pd_PGPStatus p" "block_ok p \<Longrightarrow> block_ok (attachment_part ct fname body ok p)"
  by (auto simp: attachment_part_def block_ok_def Let_def extract_armored split: option.splits)

lemma parse_parts_keeps:
  "pd_PGPStatus (parse_parts ps p) = pd_PGPStatus p" "block_ok p \<Longrightarrow> block_ok (parse_parts ps p)"
  by (induction ps p rule: parse_parts.induct) (simp_all add: inline_part_keeps attachment_part_keeps)

lemma initial_status_range: "initial_status mr \<in> {[], ''signed'', ''encrypted''}"
  by (simp add: initial_status_def pgp_status_from_content_type_def Let_def split: option.splits)

text \<open>The PGP view of any readable message is consistent: its status is one of the values the store's
  column admits and never the combined one, and a captured ciphertext belongs to an encrypted message and is
  exactly one armored block, from its BEGIN to its END line.\<close>

theorem parsed_pgp_consistent:
  assumes "parse_message tokens reader raw = Some p"
  shows "pd_PGPStatus p \<in> {[], ''signed'', ''encrypted''}
    \<and> (pd_EncryptedBlock p \<noteq> [] \<longrightarrow> pd_PGPStatus p = ''encrypted''
        \<and> has_prefix ''-----BEGIN PGP MESSAGE-----'' (pd_EncryptedBlock p)
        \<and> has_suffix ''-----END PGP MESSAGE-----'' (pd_EncryptedBlock p))"
proof -
  obtain mr where p: "p = parse_finish tokens (parse_parts (mr_Parts mr) (parse_start mr))"
    using assms by (auto simp: parse_message_def split: option.splits)
  define q where "q = parse_parts (mr_Parts mr) (parse_start mr)"
  have "block_ok q" unfolding q_def by (rule parse_parts_keeps) (simp add: block_ok_def parse_start_def)
  moreover have st: "pd_PGPStatus q \<in> {[], ''signed'', ''encrypted''}"
    using initial_status_range [of mr] by (simp add: q_def parse_parts_keeps parse_start_def)
  ultimately have "block_ok p" "pd_PGPStatus p \<in> {[], ''signed'', ''encrypted''}"
    unfolding p q_def [symmetric] by (auto simp: parse_finish_def block_ok_def Let_def extract_armored)
  then show ?thesis by (auto simp: block_ok_def is_encrypted_def pgp_begin_def pgp_end_def)
qed

definition sample_reader :: "bytes \<Rightarrow> mail_reader option" where
  "sample_reader raw = Some \<lparr>mr_ContentType = Some (''multipart/encrypted'', [(''protocol'', ''application/pgp-encrypted'')]),
     mr_XVayuPGP = [], mr_ListID = [], mr_ListUnsubscribe = [],
     mr_Parts = [AttachmentPart (Some ''application/pgp-encrypted'') None ''Version: 1'' True,
       AttachmentPart (Some ''application/octet-stream'') (Some ''encrypted.asc'') ''-----BEGIN PGP MESSAGE-----x-----END PGP MESSAGE-----'' True,
       AttachmentPart (Some ''image/png'') (Some ''photo.png'') ''PNG'' True]\<rparr>"

lemma read_small [simp]: "length b \<le> n \<Longrightarrow> read_limited n b True = Some b"
  by (simp add: read_limited_def)

definition sample_parsed :: parsed where
  "sample_parsed = \<lparr>pd_Text = [], pd_HTML = [], pd_Snippet = [],
     pd_Attachments = [\<lparr>a_Filename = ''photo.png'', a_ContentType = ''image/png''\<rparr>], pd_PGPStatus = ''encrypted'',
     pd_EncryptedBlock = ''-----BEGIN PGP MESSAGE-----x-----END PGP MESSAGE-----'', pd_HasTrackers = False,
     pd_ListID = [], pd_ListUnsubscribe = []\<rparr>"

lemma sample_types:
  "contains_str ''pgp-encrypted'' (to_lower ''application/pgp-encrypted'')"
  "\<not> contains_str ''pgp-encrypted'' (to_lower ''application/octet-stream'')"
  "contains_str ''octet-stream'' (to_lower ''application/octet-stream'')"
  "\<not> contains_str ''pgp-encrypted'' (to_lower ''image/png'')" "\<not> contains_str ''octet-stream'' (to_lower ''image/png'')"
  "\<not> contains_str ''pgp'' (to_lower ''image/png'')"
  "extract_inline_pgp ''-----BEGIN PGP MESSAGE-----x-----END PGP MESSAGE-----'' = ''-----BEGIN PGP MESSAGE-----x-----END PGP MESSAGE-----''"
  "\<not> looks_inline_pgp []" "str_fields [] = []"
  "pgp_status_from_content_type ''multipart/encrypted'' [(''protocol'', ''application/pgp-encrypted'')] = ''encrypted''"
  by code_simp+

lemma sample_parse: "parse_message (\<lambda>s. []) sample_reader raw = Some sample_parsed"
  by (simp add: parse_message_def sample_reader_def parse_start_def initial_status_def sample_types attachment_part_def
      Let_def max_part_def parse_finish_def detect_trackers_def snippet_def sample_parsed_def)

theorem parsed_pgp_consistent_witness: "pd_PGPStatus sample_parsed \<in> {[], ''signed'', ''encrypted''}"
  using parsed_pgp_consistent [OF sample_parse] by simp

text \<open>What the attachment list of an unencrypted message holds, part by part.\<close>

fun attachment_refs :: "mail_part list \<Rightarrow> attachment_ref list" where
  "attachment_refs [] = []"
| "attachment_refs (AttachmentPart ct fname body ok # ps) =
     \<lparr>a_Filename = (case fname of Some f \<Rightarrow> f | None \<Rightarrow> []),
      a_ContentType = (case ct of Some t \<Rightarrow> t | None \<Rightarrow> ''application/octet-stream'')\<rparr> # attachment_refs ps"
| "attachment_refs (_ # ps) = attachment_refs ps"

definition well_read :: "mail_part \<Rightarrow> bool" where
  "well_read p \<longleftrightarrow> p \<noteq> UnknownCharset \<and> p \<noteq> StructuralError"

lemma inline_part_attachments: "pd_Attachments (inline_part ct body ok p) = pd_Attachments p"
  by (auto simp: inline_part_def Let_def split: option.splits)

lemma parse_parts_attachments:
  "\<not> is_encrypted (pd_PGPStatus p) \<Longrightarrow> list_all well_read ps \<Longrightarrow> pd_Attachments (parse_parts ps p) = pd_Attachments p @ attachment_refs ps"
  by (induction ps p rule: parse_parts.induct)
     (simp_all add: inline_part_attachments inline_part_keeps attachment_part_keeps well_read_def attachment_part_def Let_def)

text \<open>An attachment request that opens the part described by a list entry, or fails on its bytes.\<close>

definition opens_as :: "(attach_error, attachment_ref \<times> bytes) result \<Rightarrow> attachment_ref \<Rightarrow> bool" where
  "opens_as r a =
     (case r of
        Inr (ref, b) \<Rightarrow> a_ContentType ref = a_ContentType a \<and> (a_Filename a \<noteq> [] \<longrightarrow> a_Filename ref = a_Filename a)
      | Inl e \<Rightarrow> e = ReadAttachment)"

lemma find_attachment_refs:
  assumes "list_all well_read ps" "n < length (attachment_refs ps)"
  shows "opens_as (find_attachment k (k + int n) ps) (attachment_refs ps ! n)"
  using assms
proof (induction ps arbitrary: k n rule: attachment_refs.induct)
  case (2 ct fname body ok ps)
  show ?case
  proof (cases n)
    case 0
    then show ?thesis by (auto simp: opens_as_def split: option.splits)
  next
    case (Suc m)
    then show ?thesis using 2(1) [of m "k + 1"] 2(2,3) Suc by (simp add: algebra_simps)
  qed
qed (simp_all add: well_read_def)

text \<open>The attachment list and the attachment reader agree: in a message that is not PGP encrypted and whose
  parts are all readable, asking for the entry with a listed index finds that part (its content type, and its
  file name unless it has none), or fails only on reading its bytes.\<close>

theorem attachments_match_list:
  assumes "reader raw = Some mr" "parse_message tokens reader raw = Some p"
    and "pd_PGPStatus p \<in> {[], ''signed''}" "list_all well_read (mr_Parts mr)" "n < length (pd_Attachments p)"
  shows "opens_as (extract_attachment reader raw (int n)) (pd_Attachments p ! n)"
proof -
  define q where "q = parse_parts (mr_Parts mr) (parse_start mr)"
  have p: "p = parse_finish tokens q" using assms(1,2) by (simp add: parse_message_def q_def)
  have "\<not> is_encrypted (initial_status mr)"
  proof
    assume "is_encrypted (initial_status mr)"
    then have "initial_status mr = ''encrypted''" using initial_status_range [of mr] by auto
    then have "pd_PGPStatus q = ''encrypted''" by (simp add: q_def parse_parts_keeps parse_start_def)
    then show False using assms(3) by (auto simp: p parse_finish_def Let_def split: if_splits)
  qed
  then have "pd_Attachments q = attachment_refs (mr_Parts mr)"
    unfolding q_def using assms(4) by (subst parse_parts_attachments) (simp_all add: parse_start_def)
  moreover have "pd_Attachments p = pd_Attachments q" by (simp add: p parse_finish_def Let_def)
  ultimately show ?thesis
    using find_attachment_refs [OF assms(4), of n 0] assms(1,5) by (simp add: extract_attachment_def)
qed

definition plain_reader :: "bytes \<Rightarrow> mail_reader option" where
  "plain_reader raw = Some \<lparr>mr_ContentType = None, mr_XVayuPGP = [], mr_ListID = [], mr_ListUnsubscribe = [],
     mr_Parts = [AttachmentPart (Some ''image/png'') (Some ''photo.png'') ''PNG'' True]\<rparr>"

theorem attachments_match_list_witness:
  "opens_as (extract_attachment plain_reader [] 0) \<lparr>a_Filename = ''photo.png'', a_ContentType = ''image/png''\<rparr>"
proof -
  define mr where "mr = the (plain_reader [])"
  define p where "p = the (parse_message (\<lambda>s. []) plain_reader [])"
  have "\<not> equal_fold [] ''encrypted''" by code_simp
  then have p: "pd_PGPStatus p = []" "pd_Attachments p = [\<lparr>a_Filename = ''photo.png'', a_ContentType = ''image/png''\<rparr>]"
    "parse_message (\<lambda>s. []) plain_reader [] = Some p"
    by (simp_all add: p_def parse_message_def plain_reader_def parse_start_def initial_status_def Let_def
        attachment_part_def parse_finish_def sample_types)
  have "plain_reader [] = Some mr" "list_all well_read (mr_Parts mr)"
    by (simp_all add: mr_def plain_reader_def well_read_def)
  from attachments_match_list [OF this(1) p(3) _ this(2), of 0] show ?thesis using p by simp
qed

text \<open>In an encrypted message they disagree: the list leaves out the control part and the ciphertext, the reader counts
  them, so the first listed attachment opens as the control part.\<close>

theorem encrypted_attachment_index_shifted:
  "\<exists>p ref b. parse_message (\<lambda>s. []) sample_reader [] = Some p \<and> extract_attachment sample_reader [] 0 = Inr (ref, b)
     \<and> a_ContentType (pd_Attachments p ! 0) = ''image/png'' \<and> a_ContentType ref = ''application/pgp-encrypted''"
  by (simp add: sample_parse extract_attachment_def sample_reader_def) (simp add: sample_parsed_def)

end
