(* ===== verification/ImapSync.thy ===== *)
theory ImapSync
  imports Effects StoreLaws MimeParse Account
begin

text \<open>
  Package \<open>internal/mail/imapsync\<close>: folder discovery, the incremental sync of a folder, flag refresh and
  expunge reconciliation over the store, the operations on single messages, and the IDLE session.

  The IMAP client library and the server are outside: a call of the client is logged with its connection
  and answered by the next entry of \<open>w_replies\<close> (an error when there is none), so a theorem about all
  worlds is a theorem about all servers. Callbacks of \<open>Events\<close> put an event into the bounded channel
  of the sync manager, dropping it when the channel is full.
\<close>

section \<open>World\<close>

record envelope =
  en_Subject :: string
  en_MessageID :: string
  en_InReplyTo :: "string list"
  en_Date :: int
  en_From :: "(string \<times> string) list"
  en_To :: "string list"
  en_Cc :: "string list"

record fetch_buf =
  b_UID :: nat
  b_Size :: int
  b_Flags :: "string list"
  b_ModSeq :: nat
  b_Envelope :: "envelope option"

record list_data =
  l_Attrs :: "string list"
  l_Delim :: string
  l_Mailbox :: string

record select_data =
  sd_UIDValidity :: nat
  sd_HighestModSeq :: nat
  sd_NumMessages :: nat

datatype login = Login string string | Authenticate sasl_client

datatype imap_cmd =
    C_Select string bool
  | C_FetchEnvelopes nat
  | C_FetchBody nat
  | C_FetchFlags nat
  | C_FetchUIDs
  | C_Move nat string
  | C_Copy nat string
  | C_Store nat string bool
  | C_Expunge
  | C_Append string bytes "string list"
  | C_List bool
  | C_Create string
  | C_Login login
  | C_Idle
  | C_IdleDone
  | C_Noop
  | C_Logout
  | C_Close

datatype imap_reply =
    IErr string
  | IOk
  | ISelected select_data
  | IFetched "fetch_buf list"
  | IBody "bytes option"
  | IListed "list_data list"

text \<open>How a dial ends: no connection, or a connection with the outcome of the login and the capabilities.\<close>

datatype auth_reply = LoginOk | LoginRefused | LoginBroken

datatype dial_reply = DialFails | DialUp auth_reply "string list"

record conn =
  cn_id :: nat
  cn_caps :: "string list"

datatype event =
    NewMessageEvent int int nat
  | FlagChangeEvent int nat "string list"
  | SyncProgressEvent int nat nat
  | SendResultEvent int bool
  | AuthErrorEvent int
  | ConnectionEvent int bool
  | FolderListEvent int "folder list"
  | PrivateKeyEvent int string string bool
  | SyncStartedEvent int
  | SyncFinishedEvent int bool
  | MessageRefetchedEvent int int bool
  | CredentialUpdatedEvent int bool
  | AccountAddedEvent int string bool
  | AccountRemovedEvent int bool
  | AttachmentSavedEvent int int string bool

datatype sync_error = E_Store store_error | E_Imap | E_Auth | E_Ctx | E_Cred | E_Folder | E_Mime | E_TLSMode
  | E_Config | E_Key | E_File | E_Attachment | E_Unsubscribe | E_Send

text \<open>\<open>w_fuse\<close> is the number of looks at the context until it is cancelled, if it is; \<open>w_opened\<close> numbers the
  connections, \<open>w_waits\<close> are the reconnect delays in seconds.\<close>

record world =
  w_db :: db
  w_replies :: "imap_reply list"
  w_log :: "(nat \<times> imap_cmd) list"
  w_events :: "event list"
  w_fuse :: "nat option"
  w_dials :: "dial_reply list"
  w_opened :: nat
  w_waits :: "int list"

text \<open>The parts of MIME parsing that are outside: the reader, the tokenizer and the JSON text of the
  attachment list.\<close>

record mime_ext =
  mx_tokens :: "string \<Rightarrow> html_token list"
  mx_reader :: "bytes \<Rightarrow> mail_reader option"
  mx_json :: "attachment_ref list \<Rightarrow> string"

definition event_cap :: nat where "event_cap = 256"

definition emit :: "event \<Rightarrow> ('x world_scheme, 'e, unit) action" where
  "emit ev = modifyE (\<lambda>w. w\<lparr>w_events := snd (try_send event_cap ev (w_events w))\<rparr>)"

definition on_db :: "(db \<Rightarrow> (store_error + 'a) \<times> db) \<Rightarrow> ('x world_scheme, sync_error, 'a) action" where
  "on_db stmt w = (case stmt (w_db w) of
     (Inl e, d) \<Rightarrow> (Inl (E_Store e), w\<lparr>w_db := d\<rparr>) | (Inr a, d) \<Rightarrow> (Inr a, w\<lparr>w_db := d\<rparr>))"

text \<open>A call of the client and its answer; the connection is gone when the answers run out.\<close>

definition imap_send :: "conn \<Rightarrow> imap_cmd \<Rightarrow> 'x world_scheme \<Rightarrow> imap_reply \<times> 'x world_scheme" where
  "imap_send c cmd w =
     (case w_replies w of [] \<Rightarrow> IErr ''EOF'' | r # _ \<Rightarrow> r,
      w\<lparr>w_log := w_log w @ [(cn_id c, cmd)], w_replies := tl (w_replies w)\<rparr>)"

definition imap_call :: "conn \<Rightarrow> imap_cmd \<Rightarrow> ('x world_scheme, sync_error, imap_reply) action" where
  "imap_call c cmd w =
     (let (r, w') = imap_send c cmd w in case r of IErr _ \<Rightarrow> (Inl E_Imap, w') | _ \<Rightarrow> (Inr r, w'))"

definition has_cap :: "conn \<Rightarrow> string \<Rightarrow> bool" where
  "has_cap c cap \<longleftrightarrow> cap \<in> set (cn_caps c)"

text \<open>\<open>ctx.Err()\<close>; once cancelled a context stays so.\<close>

definition ctx_err :: "'x world_scheme \<Rightarrow> bool \<times> 'x world_scheme" where
  "ctx_err w =
     (case w_fuse w of
        None \<Rightarrow> (False, w) | Some 0 \<Rightarrow> (True, w) | Some (Suc k) \<Rightarrow> (False, w\<lparr>w_fuse := Some k\<rparr>))"

definition check_ctx :: "('x world_scheme, sync_error, unit) action" where
  "check_ctx w = (let (b, w') = ctx_err w in (if b then Inl E_Ctx else Inr (), w'))"

definition cancel_ctx :: "('x world_scheme, 'e, unit) action" where
  "cancel_ctx = modifyE (\<lambda>w. w\<lparr>w_fuse := Some 0\<rparr>)"

text \<open>A system flag or special-use attribute: a backslash and its name.\<close>

definition sys_flag :: "string \<Rightarrow> string" where
  "sys_flag name = CHR 0x5C # name"

section \<open>Operations on one message\<close>

definition select_folder :: "conn \<Rightarrow> string \<Rightarrow> ('x world_scheme, sync_error, select_data) action" where
  "select_folder c mbox =
     seqE (imap_call c (C_Select mbox (has_cap c ''CONDSTORE'')))
       (\<lambda>r. case r of ISelected d \<Rightarrow> retE d | _ \<Rightarrow> failE E_Imap)"

definition store_flag :: "conn \<Rightarrow> nat \<Rightarrow> string \<Rightarrow> bool \<Rightarrow> ('x world_scheme, sync_error, unit) action" where
  "store_flag c uid flag st = seqE (imap_call c (C_Store uid flag st)) (\<lambda>_. retE ())"

definition move_uid :: "conn \<Rightarrow> string \<Rightarrow> nat \<Rightarrow> string \<Rightarrow> ('x world_scheme, sync_error, unit) action" where
  "move_uid c src uid dest =
     seqE (select_folder c src) (\<lambda>_.
       if has_cap c ''MOVE'' then seqE (imap_call c (C_Move uid dest)) (\<lambda>_. retE ())
       else seqE (imap_call c (C_Copy uid dest)) (\<lambda>_.
              seqE (store_flag c uid (sys_flag ''Deleted'') True) (\<lambda>_.
                seqE (imap_call c C_Expunge) (\<lambda>_. retE ()))))"

definition set_flag_uid :: "conn \<Rightarrow> string \<Rightarrow> nat \<Rightarrow> string \<Rightarrow> bool \<Rightarrow> ('x world_scheme, sync_error, unit) action" where
  "set_flag_uid c mbox uid flag st = seqE (select_folder c mbox) (\<lambda>_. store_flag c uid flag st)"

definition delete_uid :: "conn \<Rightarrow> string \<Rightarrow> nat \<Rightarrow> ('x world_scheme, sync_error, unit) action" where
  "delete_uid c mbox uid =
     seqE (select_folder c mbox) (\<lambda>_.
       seqE (store_flag c uid (sys_flag ''Deleted'') True) (\<lambda>_.
         seqE (imap_call c C_Expunge) (\<lambda>_. retE ())))"

definition imap_append :: "conn \<Rightarrow> string \<Rightarrow> bytes \<Rightarrow> string list \<Rightarrow> ('x world_scheme, sync_error, unit) action" where
  "imap_append c mbox raw flags = seqE (imap_call c (C_Append mbox raw flags)) (\<lambda>_. retE ())"

definition fetch_raw :: "conn \<Rightarrow> nat \<Rightarrow> ('x world_scheme, sync_error, bytes) action" where
  "fetch_raw c uid =
     seqE (imap_call c (C_FetchBody uid)) (\<lambda>r. case r of IBody (Some raw) \<Rightarrow> retE raw | _ \<Rightarrow> failE E_Imap)"

section \<open>Folder discovery\<close>

definition has_attr :: "string list \<Rightarrow> string \<Rightarrow> bool" where
  "has_attr attrs want = list_ex (\<lambda>a. equal_fold a want) attrs"

text \<open>\<open>strings.LastIndex\<close> of the one-rune delimiter.\<close>

definition last_segment :: "string \<Rightarrow> string \<Rightarrow> string" where
  "last_segment delim name =
     (case delim of
        [d] \<Rightarrow> (case last_char_index d name of Some i \<Rightarrow> drop (Suc i) name | None \<Rightarrow> name)
      | _ \<Rightarrow> name)"

definition folder_from_list :: "int \<Rightarrow> list_data \<Rightarrow> folder" where
  "folder_from_list acct data =
     (let name = last_segment (l_Delim data) (l_Mailbox data);
          f = \<lparr>f_ID = 0, f_AccountID = acct, f_Name = name, f_FullName = l_Mailbox data, f_Delimiter = l_Delim data,
               f_UIDValidity = 0, f_HighestModSeq = 0, f_IsInbox = equal_fold (l_Mailbox data) ''INBOX'',
               f_IsSent = has_attr (l_Attrs data) (sys_flag ''Sent''), f_IsDrafts = has_attr (l_Attrs data) (sys_flag ''Drafts''),
               f_IsTrash = has_attr (l_Attrs data) (sys_flag ''Trash''), f_IsArchive = has_attr (l_Attrs data) (sys_flag ''Archive'')\<rparr>
      in if \<not> f_IsSent f \<and> \<not> f_IsDrafts f \<and> \<not> f_IsTrash f \<and> \<not> f_IsArchive f \<and> \<not> f_IsInbox f then
           (let n = to_lower name
            in if n \<in> {''sent'', ''sent messages'', ''sent items''} then f\<lparr>f_IsSent := True\<rparr>
               else if n = ''drafts'' then f\<lparr>f_IsDrafts := True\<rparr>
               else if n \<in> {''trash'', ''deleted messages'', ''deleted items''} then f\<lparr>f_IsTrash := True\<rparr>
               else if n \<in> {''archive'', ''archives''} then f\<lparr>f_IsArchive := True\<rparr> else f)
         else f)"

definition sync_folders :: "conn \<Rightarrow> int \<Rightarrow> ('x world_scheme, sync_error, folder list) action" where
  "sync_folders c acct =
     seqE (imap_call c (C_List (has_cap c ''SPECIAL-USE''))) (\<lambda>r.
       case r of
         IListed ds \<Rightarrow>
           seqE (forE ds (\<lambda>data.
             if has_attr (l_Attrs data) (sys_flag ''Noselect'') then retE ()
             else seqE (on_db (upsert_folder (folder_from_list acct data))) (\<lambda>_. retE ())))
             (\<lambda>_. on_db (list_folders acct))
       | _ \<Rightarrow> failE E_Imap)"

section \<open>Threads\<close>

definition re_space :: "char \<Rightarrow> bool" where
  "re_space c \<longleftrightarrow> c \<in> {CHR 0x09, CHR 0x0A, CHR 0x0C, CHR 0x0D, CHR '' ''}"

abbreviation skip_sp :: "string \<Rightarrow> string" where
  "skip_sp s \<equiv> dropWhile re_space s"

definition reply_word :: "string \<Rightarrow> string option" where
  "reply_word s =
     (let low = to_lower s
      in if has_prefix ''fwd'' low then Some (drop 3 s)
         else if has_prefix ''re'' low \<or> has_prefix ''fw'' low \<or> has_prefix ''aw'' low \<or> has_prefix ''sv'' low then Some (drop 2 s)
         else None)"

text \<open>The optional counter in brackets; without one the text stays.\<close>

definition skip_counter :: "string \<Rightarrow> string" where
  "skip_counter s =
     (case s of
        c # r \<Rightarrow>
          (let ds = takeWhile is_digit r; t = dropWhile is_digit r
           in if c = CHR ''['' \<and> ds \<noteq> [] \<and> has_prefix '']'' t then tl t else s)
      | [] \<Rightarrow> s)"

text \<open>One reply or forward marker of \<open>reSubjectPrefix\<close>, with the white space after it.\<close>

definition strip_marker :: "string \<Rightarrow> string option" where
  "strip_marker s =
     (case reply_word s of
        None \<Rightarrow> None
      | Some r \<Rightarrow>
          (let t = skip_sp (skip_counter (skip_sp r))
           in if has_prefix '':'' t then Some (skip_sp (tl t)) else None))"

lemma skip_counter_length: "length (skip_counter s) \<le> length s"
proof (cases s)
  case (Cons c r)
  have "length (dropWhile is_digit r) \<le> length r" by (rule length_dropWhile_le)
  then show ?thesis using Cons by (auto simp: skip_counter_def Let_def)
qed (simp add: skip_counter_def)

lemma reply_word_length: "reply_word s = Some r \<Longrightarrow> length r < length s"
  by (auto simp: reply_word_def Let_def has_prefix_def to_lower_def split: if_splits) (cases s; auto)+

lemma strip_marker_length: "strip_marker s = Some t \<Longrightarrow> length t < length s"
proof -
  assume "strip_marker s = Some t"
  then obtain r where r: "reply_word s = Some r" and t: "t = skip_sp (tl (skip_sp (skip_counter (skip_sp r))))"
    by (auto simp: strip_marker_def Let_def split: option.splits if_splits)
  have "length t \<le> length r" unfolding t
    by (metis (no_types, lifting) length_dropWhile_le length_tl diff_le_self order_trans skip_counter_length)
  then show ?thesis using reply_word_length [OF r] by simp
qed

function strip_markers :: "string \<Rightarrow> string" where
  "strip_markers s = (case strip_marker s of None \<Rightarrow> s | Some t \<Rightarrow> strip_markers t)"
  by pat_completeness auto
termination
  by (relation "measure length") (auto simp: strip_marker_length)

declare strip_markers.simps [simp del]

definition strip_subject :: "string \<Rightarrow> string" where
  "strip_subject s = (case strip_marker (skip_sp s) of None \<Rightarrow> s | Some t \<Rightarrow> strip_markers t)"

definition thread_id :: "string \<Rightarrow> string \<Rightarrow> string \<Rightarrow> string" where
  "thread_id subject message_id in_reply_to =
     (let normalized = to_lower (trim_space (strip_subject subject))
      in if normalized \<noteq> [] then ''subj:'' @ normalized
         else if in_reply_to \<noteq> [] then ''ref:'' @ in_reply_to
         else ''msg:'' @ message_id)"

section \<open>Fetching\<close>

definition max_inline_body_bytes :: int where "max_inline_body_bytes = 524288"

definition has_flag :: "string list \<Rightarrow> string \<Rightarrow> bool" where
  "has_flag flags want = list_ex (\<lambda>f. equal_fold f want) flags"

definition empty_message :: message where
  "empty_message = \<lparr>m_ID = 0, m_AccountID = 0, m_FolderID = 0, m_UID = 0, m_ThreadID = [], m_MessageID = [], m_InReplyTo = [],
     m_FromAddr = [], m_FromName = [], m_ToAddrs = [], m_CcAddrs = [], m_Subject = [], m_Snippet = [], m_BodyText = [],
     m_BodyHTML = [], m_HasAttachments = False, m_PGPStatus = [], m_PGPSigVerified = False, m_IsRead = False,
     m_IsFlagged = False, m_IsDeleted = False, m_Date = zero_time, m_SizeBytes = 0, m_Flags = [], m_HasTrackers = False,
     m_IsList = False, m_ListUnsubscribe = [], m_SnoozeUntil = 0, m_Attachments = []\<rparr>"

definition message_from_buffer :: "int \<Rightarrow> int \<Rightarrow> fetch_buf \<Rightarrow> message" where
  "message_from_buffer acct fid buf =
     (let msg = empty_message\<lparr>m_AccountID := acct, m_FolderID := fid, m_UID := b_UID buf, m_SizeBytes := b_Size buf,
            m_Flags := join_with '' '' (b_Flags buf), m_IsRead := has_flag (b_Flags buf) (sys_flag ''Seen''),
            m_IsFlagged := has_flag (b_Flags buf) (sys_flag ''Flagged'')\<rparr>
      in case b_Envelope buf of
           None \<Rightarrow> msg
         | Some env \<Rightarrow>
             (let irt = (case en_InReplyTo env of [] \<Rightarrow> [] | r # _ \<Rightarrow> r);
                  (addr, name) = (case en_From env of [] \<Rightarrow> ([], []) | f # _ \<Rightarrow> f)
              in msg\<lparr>m_Subject := en_Subject env, m_MessageID := en_MessageID env, m_InReplyTo := irt,
                     m_Date := en_Date env, m_FromAddr := addr, m_FromName := name,
                     m_ToAddrs := join_with '', '' (en_To env), m_CcAddrs := join_with '', '' (en_Cc env),
                     m_ThreadID := thread_id (en_Subject env) (en_MessageID env) irt\<rparr>))"

definition attach_parsed :: "mime_ext \<Rightarrow> parsed \<Rightarrow> message \<Rightarrow> message" where
  "attach_parsed mx p msg =
     (let m1 = msg\<lparr>m_BodyText := pd_Text p, m_BodyHTML := pd_HTML p, m_Snippet := pd_Snippet p,
            m_HasAttachments := pd_Attachments p \<noteq> [], m_PGPStatus := pd_PGPStatus p\<rparr>;
          m2 = (if pd_EncryptedBlock p \<noteq> []
                then m1\<lparr>m_BodyText := pd_EncryptedBlock p,
                        m_Snippet := (if m_Snippet m1 = [] then ''Encrypted message'' else m_Snippet m1)\<rparr> else m1);
          m3 = m2\<lparr>m_HasTrackers := pd_HasTrackers p, m_IsList := pd_ListID p \<noteq> [], m_ListUnsubscribe := pd_ListUnsubscribe p\<rparr>
      in if pd_Attachments p \<noteq> [] then m3\<lparr>m_Attachments := mx_json mx (pd_Attachments p)\<rparr> else m3)"

definition fetch_and_attach_body :: "mime_ext \<Rightarrow> conn \<Rightarrow> nat \<Rightarrow> message \<Rightarrow> ('x world_scheme, sync_error, message) action" where
  "fetch_and_attach_body mx c uid msg =
     seqE (fetch_raw c uid) (\<lambda>raw.
       case parse_message (mx_tokens mx) (mx_reader mx) raw of
         None \<Rightarrow> failE E_Mime | Some p \<Rightarrow> retE (attach_parsed mx p msg))"

text \<open>The body of the fetch loop: position, size of the batch, and one envelope. A failed body fetch leaves the
  envelope.\<close>

definition sync_envelope :: "mime_ext \<Rightarrow> conn \<Rightarrow> int \<Rightarrow> int \<Rightarrow> nat \<Rightarrow> nat \<Rightarrow> nat \<times> fetch_buf \<Rightarrow> ('x world_scheme, sync_error, unit) action" where
  "sync_envelope mx c acct fid highest n = (\<lambda>(i, buf).
     seqE check_ctx (\<lambda>_.
       if b_UID buf \<le> highest then retE ()
       else (let msg = message_from_buffer acct fid buf
             in seqE (if b_Size buf \<le> max_inline_body_bytes
                      then tryE (fetch_and_attach_body mx c (b_UID buf) msg)
                             (\<lambda>r. retE (case r of Inr m \<Rightarrow> m | Inl _ \<Rightarrow> msg\<lparr>m_Snippet := []\<rparr>))
                      else retE msg)
                  (\<lambda>m. seqE (on_db (upsert_message m)) (\<lambda>_.
                     seqE (emit (NewMessageEvent acct fid (b_UID buf))) (\<lambda>_.
                       emit (SyncProgressEvent acct (i + 1) n)))))))"

definition sync_folder :: "mime_ext \<Rightarrow> conn \<Rightarrow> int \<Rightarrow> folder \<Rightarrow> select_data \<Rightarrow> ('x world_scheme, sync_error, unit) action" where
  "sync_folder mx c acct f sel =
     seqE (if f_UIDValidity f \<noteq> 0 \<and> sd_UIDValidity sel \<noteq> f_UIDValidity f
           then on_db (clear_folder_messages (f_ID f)) else retE ()) (\<lambda>_.
       seqE (on_db (set_folder_sync_state (f_ID f) (sd_UIDValidity sel) (sd_HighestModSeq sel))) (\<lambda>_.
         seqE (on_db (highest_uid (f_ID f))) (\<lambda>highest.
           if sd_NumMessages sel = 0 then retE ()
           else seqE (imap_call c (C_FetchEnvelopes ((highest + 1) mod 4294967296))) (\<lambda>r.
             case r of
               IFetched bufs \<Rightarrow> forE (enumerate 0 bufs) (sync_envelope mx c acct (f_ID f) highest (length bufs))
             | _ \<Rightarrow> failE E_Imap))))"

definition refetch_message :: "mime_ext \<Rightarrow> conn \<Rightarrow> folder \<Rightarrow> message \<Rightarrow> ('x world_scheme, sync_error, unit) action" where
  "refetch_message mx c f msg =
     seqE (select_folder c (f_FullName f)) (\<lambda>_.
       seqE (fetch_and_attach_body mx c (m_UID msg) msg) (\<lambda>m.
         seqE (on_db (upsert_message m)) (\<lambda>_. retE ())))"

definition fetch_body :: "mime_ext \<Rightarrow> conn \<Rightarrow> message \<Rightarrow> ('x world_scheme, sync_error, unit) action" where
  "fetch_body mx c msg =
     seqE (fetch_and_attach_body mx c (m_UID msg) msg) (\<lambda>m.
       seqE (on_db (upsert_message m)) (\<lambda>_. check_ctx))"

section \<open>Flags and expunges\<close>

definition split_flags :: "string \<Rightarrow> string list" where
  "split_flags flags = (if flags = [] then [] else str_fields flags)"

definition flag_state_of :: "fetch_buf \<Rightarrow> flag_state" where
  "flag_state_of buf = \<lparr>fs_Flags = join_with '' '' (b_Flags buf), fs_IsRead = has_flag (b_Flags buf) (sys_flag ''Seen''),
     fs_IsFlagged = has_flag (b_Flags buf) (sys_flag ''Flagged'')\<rparr>"

definition refresh_flag :: "int \<Rightarrow> int \<Rightarrow> (nat \<rightharpoonup> flag_state) \<Rightarrow> fetch_buf \<Rightarrow> ('x world_scheme, sync_error, unit) action" where
  "refresh_flag acct fid cached buf =
     (let next_fs = flag_state_of buf
      in if cached (b_UID buf) = None \<or> cached (b_UID buf) = Some next_fs then retE ()
         else seqE (on_db (update_message_flags (empty_message\<lparr>m_AccountID := acct, m_FolderID := fid, m_UID := b_UID buf,
                      m_Flags := fs_Flags next_fs, m_IsRead := fs_IsRead next_fs, m_IsFlagged := fs_IsFlagged next_fs\<rparr>))) (\<lambda>_.
                emit (FlagChangeEvent acct (b_UID buf) (split_flags (fs_Flags next_fs)))))"

definition refresh_from :: "conn \<Rightarrow> int \<Rightarrow> folder \<Rightarrow> ('x world_scheme, sync_error, unit) action" where
  "refresh_from c acct f =
     (let condstore = has_cap c ''CONDSTORE'' \<and> f_HighestModSeq f > 0
      in seqE (on_db (folder_flags (f_ID f))) (\<lambda>cached.
           seqE (imap_call c (C_FetchFlags (if condstore then f_HighestModSeq f else 0))) (\<lambda>r.
             case r of
               IFetched bufs \<Rightarrow>
                 (let max_mod_seq = foldr max (map b_ModSeq bufs) (f_HighestModSeq f)
                  in seqE (forE bufs (refresh_flag acct (f_ID f) cached)) (\<lambda>_.
                       if condstore \<and> max_mod_seq \<noteq> f_HighestModSeq f
                       then on_db (set_folder_sync_state (f_ID f) (f_UIDValidity f) max_mod_seq) else retE ()))
             | _ \<Rightarrow> failE E_Imap)))"

definition refresh_flags :: "conn \<Rightarrow> int \<Rightarrow> string \<Rightarrow> ('x world_scheme, sync_error, unit) action" where
  "refresh_flags c acct name = seqE (on_db (get_folder_by_full_name acct name)) (refresh_from c acct)"

definition reconcile_expunged :: "conn \<Rightarrow> int \<Rightarrow> string \<Rightarrow> ('x world_scheme, sync_error, unit) action" where
  "reconcile_expunged c acct name =
     seqE (on_db (get_folder_by_full_name acct name)) (\<lambda>f.
       seqE (imap_call c C_FetchUIDs) (\<lambda>r.
         case r of
           IFetched bufs \<Rightarrow> on_db (delete_messages_not_in (f_ID f) (\<lambda>u. u \<in> b_UID ` set bufs))
         | _ \<Rightarrow> failE E_Imap))"

definition delta_sync :: "mime_ext \<Rightarrow> conn \<Rightarrow> int \<Rightarrow> string \<Rightarrow> ('x world_scheme, sync_error, unit) action" where
  "delta_sync mx c acct name =
     seqE (on_db (get_folder_by_full_name acct name)) (\<lambda>f.
       sync_folder mx c acct f
         \<lparr>sd_UIDValidity = f_UIDValidity f, sd_HighestModSeq = f_HighestModSeq f, sd_NumMessages = 1\<rparr>)"

section \<open>Connections\<close>

definition login_of :: "config \<Rightarrow> string \<Rightarrow> login option" where
  "login_of cfg secret =
     (if is_token_auth (c_AuthMech cfg)
      then map_option Authenticate (new_sasl_client (c_AuthMech cfg) (c_Username cfg) secret (c_IMAPHost cfg) (c_IMAPPort cfg))
      else Some (Login (c_Username cfg) secret))"

definition log_cmd :: "conn \<Rightarrow> imap_cmd \<Rightarrow> 'x world_scheme \<Rightarrow> 'x world_scheme" where
  "log_cmd c cmd w = w\<lparr>w_log := w_log w @ [(cn_id c, cmd)]\<rparr>"

definition close_conn :: "conn \<Rightarrow> ('x world_scheme, 'e, unit) action" where
  "close_conn c = modifyE (log_cmd c C_Close)"

definition dial :: "config \<Rightarrow> string \<Rightarrow> ('x world_scheme, sync_error, conn) action" where
  "dial cfg secret w =
     (if \<not> tls_valid (c_IMAPTLS cfg) then (Inl E_TLSMode, w)
      else case w_dials w of
        [] \<Rightarrow> (Inl E_Imap, w)
      | DialFails # ds \<Rightarrow> (Inl E_Imap, w\<lparr>w_dials := ds\<rparr>)
      | DialUp auth caps # ds \<Rightarrow>
          (let c = \<lparr>cn_id = w_opened w, cn_caps = caps\<rparr>; w1 = w\<lparr>w_dials := ds, w_opened := Suc (w_opened w)\<rparr>
           in case login_of cfg secret of
                None \<Rightarrow> (Inl E_Imap, log_cmd c C_Close w1)
              | Some l \<Rightarrow>
                  (let w2 = log_cmd c (C_Login l) w1
                   in case auth of
                        LoginOk \<Rightarrow> (Inr c, w2)
                      | LoginRefused \<Rightarrow> (Inl E_Auth, log_cmd c C_Close w2)
                      | LoginBroken \<Rightarrow> (Inl E_Imap, log_cmd c C_Close w2))))"

record notification =
  n_NumMessages :: nat
  n_ExpungedSeq :: nat
  n_FlagsChanged :: bool

definition push_notification :: "notification \<Rightarrow> notification list \<Rightarrow> notification list" where
  "push_notification n ch = snd (try_send 64 n ch)"

text \<open>The deferred \<open>client.Close()\<close> runs on every path.\<close>

definition with_close :: "conn \<Rightarrow> ('x world_scheme, sync_error, 'a) action \<Rightarrow> ('x world_scheme, sync_error, 'a) action" where
  "with_close c act = tryE act (\<lambda>r. seqE (close_conn c) (\<lambda>_. case r of Inl e \<Rightarrow> failE e | Inr a \<Rightarrow> retE a))"

definition with_connection ::
  "config \<Rightarrow> ('x world_scheme, sync_error, string) action \<Rightarrow> (conn \<Rightarrow> ('x world_scheme, sync_error, unit) action)
     \<Rightarrow> ('x world_scheme, sync_error, unit) action" where
  "with_connection cfg cred fn =
     seqE cred (\<lambda>secret. seqE (dial cfg secret) (\<lambda>c.
       with_close c (seqE (fn c) (\<lambda>_. seqE (imap_call c C_Logout) (\<lambda>_. retE ())))))"

section \<open>The IDLE session\<close>

definition handle_notification ::
  "mime_ext \<Rightarrow> conn \<Rightarrow> int \<Rightarrow> string \<Rightarrow> notification \<Rightarrow> ('x world_scheme, sync_error, unit) action" where
  "handle_notification mx c acct name n =
     (if n_ExpungedSeq n \<noteq> 0 then reconcile_expunged c acct name
      else if n_FlagsChanged n then refresh_flags c acct name
      else delta_sync mx c acct name)"

text \<open>What wakes the \<open>select\<close> of a session, in order; after the last entry the context is cancelled. In a
  polling session every entry is one tick of the timer. \<open>Notified\<close> says whether IDLE could be ended.\<close>

datatype wake = IdleEnded | IdleFailed | Notified bool notification

definition logout_cancelled :: "conn \<Rightarrow> ('x world_scheme, sync_error, unit) action" where
  "logout_cancelled c = seqE cancel_ctx (\<lambda>_. tryE (imap_call c C_Logout) (\<lambda>_. failE E_Ctx))"

fun idle_loop :: "mime_ext \<Rightarrow> conn \<Rightarrow> int \<Rightarrow> string \<Rightarrow> wake list \<Rightarrow> ('x world_scheme, sync_error, unit) action" where
  "idle_loop mx c acct name [] =
     seqE (imap_call c C_Idle) (\<lambda>_. seqE (modifyE (log_cmd c C_IdleDone)) (\<lambda>_. logout_cancelled c))"
| "idle_loop mx c acct name (wk # wks) =
     seqE (imap_call c C_Idle) (\<lambda>_.
       case wk of
         IdleFailed \<Rightarrow> failE E_Imap
       | Notified done_ok n \<Rightarrow>
           seqE (modifyE (log_cmd c C_IdleDone)) (\<lambda>_.
             if \<not> done_ok then failE E_Imap
             else seqE (handle_notification mx c acct name n) (\<lambda>_. idle_loop mx c acct name wks))
       | IdleEnded \<Rightarrow> idle_loop mx c acct name wks)"

fun poll_loop :: "mime_ext \<Rightarrow> conn \<Rightarrow> int \<Rightarrow> string \<Rightarrow> wake list \<Rightarrow> ('x world_scheme, sync_error, unit) action" where
  "poll_loop mx c acct name [] = logout_cancelled c"
| "poll_loop mx c acct name (wk # wks) =
     seqE (imap_call c C_Noop) (\<lambda>_.
       seqE (delta_sync mx c acct name) (\<lambda>_. poll_loop mx c acct name wks))"

text \<open>The \<open>Folders\<close> callback of the manager.\<close>

definition folders_event :: "int \<Rightarrow> ('x world_scheme, sync_error, unit) action" where
  "folders_event acct =
     tryE (on_db (list_folders acct)) (\<lambda>r. case r of Inl _ \<Rightarrow> retE () | Inr fs \<Rightarrow> emit (FolderListEvent acct fs))"

definition run_session ::
  "mime_ext \<Rightarrow> config \<Rightarrow> ('x world_scheme, sync_error, string) action \<Rightarrow> string \<Rightarrow> int \<Rightarrow> wake list
     \<Rightarrow> ('x world_scheme, sync_error, unit) action" where
  "run_session mx cfg cred name acct wks =
     seqE cred (\<lambda>secret. seqE (dial cfg secret) (\<lambda>c. with_close c (
       seqE (emit (ConnectionEvent acct True)) (\<lambda>_.
       seqE (sync_folders c acct) (\<lambda>_.
       seqE (folders_event acct) (\<lambda>_.
       seqE (on_db (get_folder_by_full_name acct name)) (\<lambda>f.
       seqE (select_folder c name) (\<lambda>sel.
       seqE (sync_folder mx c acct f sel) (\<lambda>_.
         if \<not> has_cap c ''IDLE'' then poll_loop mx c acct name wks
         else idle_loop mx c acct name wks)))))))))"

definition backoff_initial :: int where "backoff_initial = 5"
definition backoff_max :: int where "backoff_max = 300"

definition next_backoff :: "int \<Rightarrow> int" where
  "next_backoff b = (if b * 2 > backoff_max then backoff_max else b * 2)"

text \<open>\<open>RunIDLE\<close> over the scripts of its sessions; with no session left the context is cancelled in the wait.\<close>

fun run_idle_from ::
  "int \<Rightarrow> mime_ext \<Rightarrow> config \<Rightarrow> ('x world_scheme, sync_error, string) action \<Rightarrow> string \<Rightarrow> int \<Rightarrow> wake list list
     \<Rightarrow> ('x world_scheme, sync_error, unit) action" where
  "run_idle_from b mx cfg cred name acct [] = seqE cancel_ctx (\<lambda>_. failE E_Ctx)"
| "run_idle_from b mx cfg cred name acct (wks # rest) =
     tryE (run_session mx cfg cred name acct wks) (\<lambda>r.
       seqE check_ctx (\<lambda>_.
         if r = Inl E_Auth then seqE (emit (AuthErrorEvent acct)) (\<lambda>_. failE E_Auth)
         else seqE (emit (ConnectionEvent acct False)) (\<lambda>_.
                seqE (modifyE (\<lambda>w. w\<lparr>w_waits := w_waits w @ [b]\<rparr>)) (\<lambda>_.
                  seqE check_ctx (\<lambda>_.
                    run_idle_from (next_backoff b) mx cfg cred name acct rest)))))"

definition run_idle ::
  "mime_ext \<Rightarrow> config \<Rightarrow> ('x world_scheme, sync_error, string) action \<Rightarrow> string \<Rightarrow> int \<Rightarrow> wake list list
     \<Rightarrow> ('x world_scheme, sync_error, unit) action" where
  "run_idle mx cfg cred name acct scripts = run_idle_from backoff_initial mx cfg cred name acct scripts"

section \<open>Settings in the mailbox\<close>

definition meta_folder :: string where "meta_folder = ''VayuMail.Meta''"


definition ensure_meta_folder :: "conn \<Rightarrow> ('x world_scheme, sync_error, unit) action" where
  "ensure_meta_folder c w =
     (let (r, w') = imap_send c (C_Create meta_folder) w
      in case r of IErr msg \<Rightarrow> (if \<not> contains_str ''exist'' (to_lower msg) then Inl E_Imap else Inr (), w') | _ \<Rightarrow> (Inr (), w'))"

definition settings_raw :: "bytes \<Rightarrow> bytes" where
  "settings_raw sealed = join_with crlf
     [''From: vayumail@localhost'', ''Subject: vayumail-settings'', ''Content-Type: application/octet-stream'', [], b64_encode sealed]"

definition save_settings_blob :: "conn \<Rightarrow> bytes \<Rightarrow> ('x world_scheme, sync_error, unit) action" where
  "save_settings_blob c sealed =
     seqE (ensure_meta_folder c) (\<lambda>_. imap_append c meta_folder (settings_raw sealed) [sys_flag ''Seen''])"

definition fetch_newest_raw :: "conn \<Rightarrow> ('x world_scheme, sync_error, bytes) action" where
  "fetch_newest_raw c =
     seqE (imap_call c C_FetchUIDs) (\<lambda>r.
       case r of
         IFetched bufs \<Rightarrow>
           if bufs = [] then failE E_Imap
           else fetch_raw c (fold (\<lambda>b n. if b_UID b > n then b_UID b else n) bufs (b_UID (last bufs)))
       | _ \<Rightarrow> failE E_Imap)"

definition settings_body :: "bytes \<Rightarrow> (sync_error + bytes)" where
  "settings_body raw =
     (case str_index (crlf @ crlf) raw of
        None \<Rightarrow> Inl E_Mime
      | Some idx \<Rightarrow> (case b64_decode (trim_space (drop (idx + 4) raw)) of None \<Rightarrow> Inl E_Mime | Some sealed \<Rightarrow> Inr sealed))"

definition load_settings_blob :: "conn \<Rightarrow> ('x world_scheme, sync_error, bytes option) action" where
  "load_settings_blob c =
     tryE (imap_call c (C_Select meta_folder False)) (\<lambda>r.
       case r of
         Inr (ISelected sel) \<Rightarrow>
           if sd_NumMessages sel = 0 then retE None
           else seqE (fetch_newest_raw c) (\<lambda>raw. case settings_body raw of Inl e \<Rightarrow> failE e | Inr sealed \<Rightarrow> retE (Some sealed))
       | _ \<Rightarrow> retE None)"

end
