(* ===== verification/SyncManager.thy ===== *)
theory SyncManager
  imports ImapSync Smtp Keystore
begin

text \<open>
  Package \<open>internal/syncmanager\<close>: the manager's state, the pooled command connections, every command of the
  command loop and the outbox scheduler.

  The manager extends the world of the IMAP actions, so their definitions run on it unchanged. The keystore is
  any implementation of its interface; the SMTP and HTTP networks, key generation and the MIME writer are the
  fields of \<open>mgr_ext\<close> or schedules of outcomes in the state. The sync goroutines of an account are
  \<open>run_idle\<close> and the scheduler passes; starting one is recorded in \<open>g_started\<close>. The command loop runs one
  command after the other, as in the source.
\<close>

section \<open>State\<close>

record cmd_conn =
  cc_client :: conn
  cc_usedAt :: int

datatype cmd =
    MoveCmd int string
  | DeleteCmd int
  | MarkCmd int string bool
  | SendCmd int
  | SyncNowCmd int
  | SyncFolderCmd int int
  | AddAccountCmd config bytes
  | SyncPrivateKeyCmd int
  | RefetchMessageCmd int int
  | UpdateCredentialCmd int bytes
  | RemoveAccountCmd int
  | FetchAttachmentCmd int int
  | SaveDraftCmd int bytes
  | SnoozeCmd int int
  | UnsubscribeCmd int

text \<open>\<open>g_clock\<close> are the readings of the clock to come, \<open>g_smtp\<close> the outcomes of the deliveries to come,
  \<open>g_file_faults\<close> the failures of file calls to come; \<open>g_delivered\<close>, \<open>g_files\<close> and \<open>g_published\<close> record what left
  the process.\<close>

record 'k manager = world +
  g_ks :: 'k
  g_pool :: "string \<rightharpoonup> cmd_conn"
  g_runners :: "int list"
  g_started :: "(int \<times> config) list"
  g_cmds :: "cmd list"
  g_clock :: "int list"
  g_smtp :: "smtp_outcome list"
  g_delivered :: "(int \<times> bytes) list"
  g_attach_dir :: string
  g_files :: "(string \<times> bytes) list"
  g_file_faults :: "bool list"
  g_published :: "(string \<times> string) list"

record 'k mgr_ext =
  e_ks :: "'k keystore_ops"
  e_mime :: mime_ext
  e_parse :: "bytes \<Rightarrow> parsed_header option"
  e_build :: "draft \<Rightarrow> bytes option"
  e_http :: ext
  e_genkey :: "string \<Rightarrow> string \<Rightarrow> (string \<times> string) option"
  e_publish :: bool

type_synonym ('k, 'a) mgr_action = "('k manager, sync_error, 'a) action"

definition cmd_cap :: nat where "cmd_cap = 64"

text \<open>\<open>time.Now()\<close>; the clock stands still once the readings are used up.\<close>

definition now :: "('k, int) mgr_action" where
  "now g = (case g_clock g of [] \<Rightarrow> (Inr 0, g) | [t] \<Rightarrow> (Inr t, g) | t # ts \<Rightarrow> (Inr t, g\<lparr>g_clock := ts\<rparr>))"

definition mgr_send :: "cmd \<Rightarrow> 'k manager \<Rightarrow> bool \<times> 'k manager" where
  "mgr_send c g = (let (ok, q) = try_send cmd_cap c (g_cmds g) in (ok, g\<lparr>g_cmds := q\<rparr>))"

definition ks_call :: "('k \<Rightarrow> (ks_error + 'a) \<times> 'k) \<Rightarrow> ('k, 'a) mgr_action" where
  "ks_call f g = (case f (g_ks g) of (Inl _, k) \<Rightarrow> (Inl E_Key, g\<lparr>g_ks := k\<rparr>) | (Inr a, k) \<Rightarrow> (Inr a, g\<lparr>g_ks := k\<rparr>))"

definition cred_for :: "'k mgr_ext \<Rightarrow> string \<Rightarrow> ('k, string) mgr_action" where
  "cred_for x alias = tryE (ks_call (ks_fetch (e_ks x) alias)) (\<lambda>r. case r of Inl _ \<Rightarrow> failE E_Cred | Inr s \<Rightarrow> retE s)"

definition config_from_store :: "account \<Rightarrow> config" where
  "config_from_store a = \<lparr>c_DisplayName = a_DisplayName a, c_EmailAddress = a_EmailAddress a, c_IMAPHost = a_IMAPHost a,
     c_IMAPPort = a_IMAPPort a, c_IMAPTLS = a_IMAPTLS a, c_SMTPHost = a_SMTPHost a, c_SMTPPort = a_SMTPPort a,
     c_SMTPTLS = a_SMTPTLS a, c_Username = a_Username a, c_KeystoreAlias = a_KeystoreAlias a,
     c_PinnedSPKI = a_PinnedSPKI a, c_AuthMech = a_AuthMech a\<rparr>"

section \<open>Sync goroutines\<close>

definition start_account :: "account \<Rightarrow> ('k, unit) mgr_action" where
  "start_account a = modifyE (\<lambda>g.
     if a_ID a \<in> set (g_runners g) then g
     else g\<lparr>g_runners := a_ID a # g_runners g, g_started := g_started g @ [(a_ID a, config_from_store a)]\<rparr>)"

definition stop_account :: "int \<Rightarrow> ('k, unit) mgr_action" where
  "stop_account i = modifyE (\<lambda>g. g\<lparr>g_runners := removeAll i (g_runners g)\<rparr>)"

definition mgr_start :: "('k, unit) mgr_action" where
  "mgr_start = seqE (on_db list_accounts) (\<lambda>as. forE as start_account)"

section \<open>Pooled connections\<close>

text \<open>A command returns the value the closure leaves in its captured variables.\<close>


definition max_cmd_idle :: int where "max_cmd_idle = 90 * second"

definition set_pool :: "string \<Rightarrow> cmd_conn option \<Rightarrow> ('k, unit) mgr_action" where
  "set_pool key cc = modifyE (\<lambda>g. g\<lparr>g_pool := (g_pool g)(key := cc)\<rparr>)"

definition pooled_conn :: "string \<Rightarrow> ('k, conn option) mgr_action" where
  "pooled_conn key =
     seqE (readE (\<lambda>g. g_pool g key)) (\<lambda>cc.
       case cc of
         None \<Rightarrow> retE None
       | Some cc \<Rightarrow>
           seqE now (\<lambda>t.
             if t - cc_usedAt cc > max_cmd_idle
             then seqE (close_conn (cc_client cc)) (\<lambda>_. seqE (set_pool key None) (\<lambda>_. retE None))
             else seqE now (\<lambda>t'. seqE (set_pool key (Some (cc\<lparr>cc_usedAt := t'\<rparr>))) (\<lambda>_. retE (Some (cc_client cc))))))"

definition drop_suspect :: "string \<Rightarrow> conn \<Rightarrow> ('k, unit) mgr_action" where
  "drop_suspect key c =
     seqE (modifyE (\<lambda>g. case g_pool g key of
                          Some cur \<Rightarrow> if cc_client cur = c then g\<lparr>g_pool := (g_pool g)(key := None)\<rparr> else g
                        | None \<Rightarrow> g))
       (\<lambda>_. close_conn c)"

definition park_conn :: "string \<Rightarrow> conn \<Rightarrow> ('k, unit) mgr_action" where
  "park_conn key c =
     seqE (readE (\<lambda>g. g_pool g key)) (\<lambda>old.
       seqE (case old of Some cc \<Rightarrow> if cc_client cc \<noteq> c then close_conn (cc_client cc) else retE () | None \<Rightarrow> retE ()) (\<lambda>_.
         seqE now (\<lambda>t. set_pool key (Some \<lparr>cc_client = c, cc_usedAt = t\<rparr>))))"

definition fresh_command ::
  "config \<Rightarrow> ('k, string) mgr_action \<Rightarrow> (conn \<Rightarrow> ('k, 'a) mgr_action) \<Rightarrow> ('k, 'a) mgr_action" where
  "fresh_command cfg cred fn =
     seqE cred (\<lambda>password.
       seqE (dial cfg password) (\<lambda>c.
         tryE (fn c) (\<lambda>r.
           case r of
             Inl e \<Rightarrow> seqE (close_conn c) (\<lambda>_. failE e)
           | Inr a \<Rightarrow> seqE (park_conn (c_KeystoreAlias cfg) c) (\<lambda>_. retE a))))"

definition with_command_conn ::
  "config \<Rightarrow> ('k, string) mgr_action \<Rightarrow> (conn \<Rightarrow> ('k, 'a) mgr_action) \<Rightarrow> ('k, 'a) mgr_action" where
  "with_command_conn cfg cred fn =
     seqE (pooled_conn (c_KeystoreAlias cfg)) (\<lambda>cached.
       case cached of
         None \<Rightarrow> fresh_command cfg cred fn
       | Some c \<Rightarrow>
           tryE (fn c) (\<lambda>r.
             case r of
               Inr a \<Rightarrow> retE a
             | Inl _ \<Rightarrow> seqE (drop_suspect (c_KeystoreAlias cfg) c) (\<lambda>_. fresh_command cfg cred fn)))"

definition drop_command_conn :: "string \<Rightarrow> ('k, unit) mgr_action" where
  "drop_command_conn alias =
     seqE (readE (\<lambda>g. g_pool g alias)) (\<lambda>cc.
       case cc of
         None \<Rightarrow> retE ()
       | Some cc \<Rightarrow> seqE (close_conn (cc_client cc)) (\<lambda>_. set_pool alias None))"

text \<open>\<open>withCommandConn\<close> for a stored account, as every command calls it.\<close>

definition on_server :: "'k mgr_ext \<Rightarrow> account \<Rightarrow> (conn \<Rightarrow> ('k, 'a) mgr_action) \<Rightarrow> ('k, 'a) mgr_action" where
  "on_server x a fn = with_command_conn (config_from_store a) (cred_for x (a_KeystoreAlias a)) fn"
section \<open>Commands on messages\<close>

text \<open>A loop over a slice that keeps the last match.\<close>

definition last_such :: "('a \<Rightarrow> bool) \<Rightarrow> 'a list \<Rightarrow> 'a option" where
  "last_such P xs = find P (rev xs)"

text \<open>The server's part of a move, then the local row, then the destination when it is cached.\<close>

definition move_on :: "'k mgr_ext \<Rightarrow> account \<Rightarrow> message \<Rightarrow> folder \<Rightarrow> folder \<Rightarrow> conn \<Rightarrow> ('k, unit) mgr_action" where
  "move_on x acct msg src dest c =
     seqE (move_uid c (f_FullName src) (m_UID msg) (f_FullName dest)) (\<lambda>_.
       seqE (on_db (delete_local_message (m_ID msg))) (\<lambda>_.
         seqE (on_db (highest_uid (f_ID dest))) (\<lambda>highest.
           if highest = 0 then retE ()
           else seqE (select_folder c (f_FullName dest)) (\<lambda>sel.
                  sync_folder (e_mime x) c (a_ID acct) dest sel))))"

definition exec_move :: "'k mgr_ext \<Rightarrow> int \<Rightarrow> string \<Rightarrow> ('k, unit) mgr_action" where
  "exec_move x mid dest_name =
     seqE (on_db (get_message mid)) (\<lambda>msg.
       seqE (on_db (get_account (m_AccountID msg))) (\<lambda>acct.
         seqE (on_db (list_folders (m_AccountID msg))) (\<lambda>fs.
           case (last_such (\<lambda>f. f_ID f = m_FolderID msg) fs, last_such (\<lambda>f. f_FullName f = dest_name) fs) of
             (Some src, Some dest) \<Rightarrow> on_server x acct (move_on x acct msg src dest)
           | _ \<Rightarrow> failE E_Folder)))"

definition expunge_on :: "message \<Rightarrow> folder \<Rightarrow> conn \<Rightarrow> ('k, unit) mgr_action" where
  "expunge_on msg current c =
     tryE (delete_uid c (f_FullName current) (m_UID msg)) (\<lambda>r.
       case r of
         Inl e \<Rightarrow> tryE (on_db (set_deleted (m_ID msg) False)) (\<lambda>_. failE e)
       | Inr _ \<Rightarrow> on_db (delete_local_message (m_ID msg)))"

definition delete_forever :: "'k mgr_ext \<Rightarrow> message \<Rightarrow> folder \<Rightarrow> ('k, unit) mgr_action" where
  "delete_forever x msg current =
     seqE (on_db (get_account (m_AccountID msg))) (\<lambda>acct.
       seqE (on_db (set_deleted (m_ID msg) True)) (\<lambda>_. on_server x acct (expunge_on msg current)))"

definition exec_delete :: "'k mgr_ext \<Rightarrow> int \<Rightarrow> ('k, unit) mgr_action" where
  "exec_delete x mid =
     seqE (on_db (get_message mid)) (\<lambda>msg.
       seqE (on_db (list_folders (m_AccountID msg))) (\<lambda>fs.
         case last_such (\<lambda>f. f_ID f = m_FolderID msg) fs of
           None \<Rightarrow> failE E_Folder
         | Some current \<Rightarrow>
             (case last_such f_IsTrash fs of
                Some trash \<Rightarrow> if f_IsTrash current then delete_forever x msg current else exec_move x mid (f_FullName trash)
              | None \<Rightarrow> delete_forever x msg current)))"

definition exec_mark :: "'k mgr_ext \<Rightarrow> int \<Rightarrow> string \<Rightarrow> bool \<Rightarrow> ('k, unit) mgr_action" where
  "exec_mark x mid flag st =
     seqE (on_db (get_message mid)) (\<lambda>msg.
       seqE (if to_lower flag = sys_flag ''seen'' then on_db (set_read (m_ID msg) st)
             else if to_lower flag = sys_flag ''flagged'' then on_db (set_flagged (m_ID msg) st)
             else retE ()) (\<lambda>_.
         seqE (on_db (get_account (m_AccountID msg))) (\<lambda>acct.
           seqE (on_db (list_folders (m_AccountID msg))) (\<lambda>fs.
             let name = (case last_such (\<lambda>f. f_ID f = m_FolderID msg) fs of Some f \<Rightarrow> f_FullName f | None \<Rightarrow> [])
             in on_server x acct (\<lambda>c. set_flag_uid c name (m_UID msg) flag st)))))"

section \<open>Sending\<close>

text \<open>\<open>SendEntry\<close>: the credential is fetched once the envelope is read and Bcc is stripped.\<close>

definition send_now :: "'k mgr_ext \<Rightarrow> account \<Rightarrow> outbox_entry \<Rightarrow> ('k, send_error option) mgr_action" where
  "send_now x acct e =
     seqE (if \<not> isl (envelope_from_raw (e_parse x) (o_RawMessage e)) \<and> strip_bcc (o_RawMessage e) \<noteq> None
           then tryE (cred_for x (a_KeystoreAlias acct)) (\<lambda>r. retE (if isl r then Some ''syncmanager: keystore fetch'' else None))
           else retE None) (\<lambda>cred_err.
       \<lambda>g. let o' = (case g_smtp g of [] \<Rightarrow> \<lparr>so_cred = None, so_dial = Some ''no network'', so_auth = None, so_cancel = False, so_mail = None, so_quit = None\<rparr>
                     | o1 # _ \<Rightarrow> o1)\<lparr>so_cred := cred_err\<rparr>;
               (err, wire) = send_entry (e_parse x) (a_SMTPTLS acct) o' e
           in (Inr err, g\<lparr>g_smtp := tl (g_smtp g),
                          g_delivered := g_delivered g @ (case wire of None \<Rightarrow> [] | Some w \<Rightarrow> [(o_ID e, w)])\<rparr>))"

definition append_to_sent :: "'k mgr_ext \<Rightarrow> int \<Rightarrow> bytes \<Rightarrow> ('k, unit) mgr_action" where
  "append_to_sent x aid raw =
     tryE (seqE (on_db (get_account aid)) (\<lambda>acct.
             seqE (on_db (list_folders aid)) (\<lambda>fs.
               let sent = (case last_such f_IsSent fs of Some f \<Rightarrow> f_FullName f | None \<Rightarrow> [])
               in if sent = [] then retE ()
                  else on_server x acct (\<lambda>c. imap_append c sent raw [sys_flag ''Seen'']))))
       (\<lambda>_. retE ())"

definition exec_send :: "'k mgr_ext \<Rightarrow> int \<Rightarrow> ('k, unit) mgr_action" where
  "exec_send x oid =
     seqE (on_db (get_outbox_entry oid)) (\<lambda>entry.
       seqE (on_db (get_account (o_AccountID entry))) (\<lambda>acct.
         seqE (send_now x acct entry) (\<lambda>send_err.
           seqE (case send_err of
                   None \<Rightarrow>
                     seqE (on_db (mark_outbox_sent (o_ID entry))) (\<lambda>_. append_to_sent x (o_AccountID entry) (o_RawMessage entry))
                 | Some err \<Rightarrow>
                     seqE now (\<lambda>t.
                       on_db (mark_outbox_failed (o_ID entry) (send_error_text err)
                                (unix_sec (t + shift_duration minute (o_RetryCount entry)))))) (\<lambda>_.
             seqE (emit (SendResultEvent (o_ID entry) (send_err \<noteq> None))) (\<lambda>_.
               whenE (send_err \<noteq> None) E_Send)))))"

section \<open>Syncing\<close>

definition sync_one :: "'k mgr_ext \<Rightarrow> account \<Rightarrow> conn \<Rightarrow> folder \<Rightarrow> ('k, unit) mgr_action" where
  "sync_one x acct c f =
     seqE check_ctx (\<lambda>_.
       tryE (select_folder c (f_FullName f)) (\<lambda>r.
         case r of
           Inl _ \<Rightarrow> retE ()
         | Inr sel \<Rightarrow> tryE (sync_folder (e_mime x) c (a_ID acct) f sel) (\<lambda>_. retE ())))"

definition exec_sync_now :: "'k mgr_ext \<Rightarrow> int \<Rightarrow> ('k, unit) mgr_action" where
  "exec_sync_now x aid =
     seqE (on_db (get_account aid)) (\<lambda>acct.
       seqE (emit (SyncStartedEvent (a_ID acct))) (\<lambda>_.
         tryE (on_server x acct (\<lambda>c. seqE (sync_folders c (a_ID acct)) (\<lambda>fs. forE fs (sync_one x acct c)))) (\<lambda>r.
           seqE (emit (SyncFinishedEvent (a_ID acct) (isl r))) (\<lambda>_.
             case r of Inl e \<Rightarrow> failE e | Inr _ \<Rightarrow> retE ()))))"

text \<open>A command whose outcome is always reported as an event.\<close>

definition reported :: "(bool \<Rightarrow> event) \<Rightarrow> ('k, unit) mgr_action \<Rightarrow> ('k, unit) mgr_action" where
  "reported ev act = tryE act (\<lambda>r. seqE (emit (ev (isl r))) (\<lambda>_. case r of Inl e \<Rightarrow> failE e | Inr _ \<Rightarrow> retE ()))"

definition exec_refetch_message :: "'k mgr_ext \<Rightarrow> int \<Rightarrow> int \<Rightarrow> ('k, unit) mgr_action" where
  "exec_refetch_message x aid mid =
     reported (MessageRefetchedEvent aid mid) (
       seqE (on_db (get_account aid)) (\<lambda>acct.
         seqE (on_db (get_message mid)) (\<lambda>msg.
           seqE (on_db (get_folder (m_FolderID msg))) (\<lambda>f.
             on_server x acct (\<lambda>c. refetch_message (e_mime x) c f msg)))))"

definition exec_sync_folder :: "'k mgr_ext \<Rightarrow> int \<Rightarrow> int \<Rightarrow> ('k, unit) mgr_action" where
  "exec_sync_folder x aid fid =
     seqE (on_db (get_account aid)) (\<lambda>acct.
       seqE (on_db (get_folder fid)) (\<lambda>f.
         on_server x acct (\<lambda>c. seqE (select_folder c (f_FullName f)) (\<lambda>sel.
           sync_folder (e_mime x) c (a_ID acct) f sel))))"

section \<open>Commands on accounts\<close>

definition account_row :: "config \<Rightarrow> account" where
  "account_row c = \<lparr>a_ID = 0, a_DisplayName = c_DisplayName c, a_EmailAddress = c_EmailAddress c, a_IMAPHost = c_IMAPHost c,
     a_IMAPPort = c_IMAPPort c, a_IMAPTLS = c_IMAPTLS c, a_SMTPHost = c_SMTPHost c, a_SMTPPort = c_SMTPPort c,
     a_SMTPTLS = c_SMTPTLS c, a_Username = c_Username c, a_KeystoreAlias = c_KeystoreAlias c, a_CreatedAt = zero_time,
     a_PinnedSPKI = c_PinnedSPKI c, a_AuthMech = c_AuthMech c\<rparr>"

definition add_account :: "'k mgr_ext \<Rightarrow> config \<Rightarrow> bytes \<Rightarrow> ('k, int) mgr_action" where
  "add_account x cfg credential =
     (case config_validate cfg of
        Some _ \<Rightarrow> failE E_Config
      | None \<Rightarrow>
          seqE (ks_call (ks_store (e_ks x) (c_KeystoreAlias cfg) credential)) (\<lambda>_.
            seqE now (\<lambda>t.
              seqE (on_db (insert_account (unix_sec t) (account_row cfg))) (\<lambda>(i, row).
                seqE (start_account row) (\<lambda>_.
                  seqE (modifyE (\<lambda>g. snd (mgr_send (SyncPrivateKeyCmd i) g))) (\<lambda>_. retE i))))))"

definition exec_add_account :: "'k mgr_ext \<Rightarrow> config \<Rightarrow> bytes \<Rightarrow> ('k, unit) mgr_action" where
  "exec_add_account x cfg credential =
     tryE (add_account x cfg credential) (\<lambda>r.
       case r of
         Inl e \<Rightarrow> seqE (emit (AccountAddedEvent 0 (c_EmailAddress cfg) True)) (\<lambda>_. failE e)
       | Inr i \<Rightarrow> emit (AccountAddedEvent i (c_EmailAddress cfg) False))"

definition exec_update_credential :: "'k mgr_ext \<Rightarrow> int \<Rightarrow> bytes \<Rightarrow> ('k, unit) mgr_action" where
  "exec_update_credential x aid credential =
     reported (CredentialUpdatedEvent aid) (
       seqE (on_db (get_account aid)) (\<lambda>acct.
         seqE (stop_account aid) (\<lambda>_.
           seqE (ks_call (ks_store (e_ks x) (a_KeystoreAlias acct) credential)) (\<lambda>_.
             start_account acct))))"

definition pgp_key_alias_prefix :: string where "pgp_key_alias_prefix = ''pgppriv:''"

definition key_event :: "int \<Rightarrow> string \<Rightarrow> string \<Rightarrow> ('k, unit) mgr_action" where
  "key_event aid email armored = emit (PrivateKeyEvent aid email armored False)"

definition key_error :: "int \<Rightarrow> string \<Rightarrow> sync_error \<Rightarrow> ('k, unit) mgr_action" where
  "key_error aid email e = seqE (emit (PrivateKeyEvent aid email [] True)) (\<lambda>_. failE e)"

text \<open>The third tier: a key generated on the device, sealed and offered for publication.\<close>

definition generate_key :: "'k mgr_ext \<Rightarrow> int \<Rightarrow> account \<Rightarrow> string \<Rightarrow> ('k, unit) mgr_action" where
  "generate_key x aid acct alias =
     (case e_genkey x (a_DisplayName acct) (a_EmailAddress acct) of
        None \<Rightarrow> key_error aid (a_EmailAddress acct) E_Key
      | Some (pub, priv) \<Rightarrow>
          tryE (ks_call (ks_store (e_ks x) alias priv)) (\<lambda>r.
            case r of
              Inl _ \<Rightarrow> key_error aid (a_EmailAddress acct) E_Key
            | Inr _ \<Rightarrow>
                seqE (modifyE (\<lambda>g. if e_publish x then g\<lparr>g_published := g_published g @ [(a_EmailAddress acct, pub)]\<rparr> else g)) (\<lambda>_.
                  key_event aid (a_EmailAddress acct) priv)))"

definition obtain_key :: "'k mgr_ext \<Rightarrow> int \<Rightarrow> account \<Rightarrow> string \<Rightarrow> ('k, unit) mgr_action" where
  "obtain_key x aid acct alias =
     tryE (cred_for x (a_KeystoreAlias acct)) (\<lambda>r.
       case r of
         Inl e \<Rightarrow> key_error aid (a_EmailAddress acct) e
       | Inr secret \<Rightarrow>
           (case snd (fetch_private_key (e_http x) (a_EmailAddress acct) secret) of
              Inr armored \<Rightarrow>
                tryE (ks_call (ks_store (e_ks x) alias armored)) (\<lambda>_. key_event aid (a_EmailAddress acct) armored)
            | Inl e \<Rightarrow>
                if e = ErrNoPrivateKey then generate_key x aid acct alias
                else key_error aid (a_EmailAddress acct) E_Key))"

definition exec_sync_private_key :: "'k mgr_ext \<Rightarrow> int \<Rightarrow> ('k, unit) mgr_action" where
  "exec_sync_private_key x aid =
     tryE (on_db (get_account aid)) (\<lambda>r.
       case r of
         Inl e \<Rightarrow> key_error aid [] e
       | Inr acct \<Rightarrow>
           (let alias = pgp_key_alias_prefix @ a_EmailAddress acct
            in tryE (ks_call (ks_fetch (e_ks x) alias)) (\<lambda>s.
                 case s of
                   Inr key \<Rightarrow> if key \<noteq> [] then key_event aid (a_EmailAddress acct) key else obtain_key x aid acct alias
                 | Inl _ \<Rightarrow> obtain_key x aid acct alias)))"

definition exec_remove_account :: "'k mgr_ext \<Rightarrow> int \<Rightarrow> ('k, unit) mgr_action" where
  "exec_remove_account x aid =
     reported (AccountRemovedEvent aid) (
       seqE (on_db (get_account aid)) (\<lambda>acct.
         seqE (stop_account aid) (\<lambda>_.
           seqE (drop_command_conn (a_KeystoreAlias acct)) (\<lambda>_.
             tryE (ks_call (ks_delete (e_ks x) (a_KeystoreAlias acct))) (\<lambda>_.
               on_db (delete_account aid))))))"

section \<open>Attachments, drafts and the rest\<close>

text \<open>\<open>filepath.Base\<close>.\<close>

definition file_base :: "string \<Rightarrow> string" where
  "file_base s =
     (if s = [] then ''.''
      else let t = trim_right_by (\<lambda>c. c = CHR ''/'') s
           in if t = [] then ''/''
              else rev (takeWhile (\<lambda>c. c \<noteq> CHR ''/'') (rev t)))"

definition bad_char :: "char \<Rightarrow> bool" where
  "bad_char c \<longleftrightarrow> (of_char c :: nat) < 32
     \<or> c \<in> {CHR ''/'', CHR 0x5C, CHR '':'', CHR ''*'', CHR ''?'', CHR 0x22, CHR ''<'', CHR ''>'', CHR ''|''}"

definition sanitize_filename :: "string \<Rightarrow> string" where
  "sanitize_filename name = map (\<lambda>c. if bad_char c then CHR ''_'' else c) (file_base name)"

definition folder_name :: "int \<Rightarrow> int \<Rightarrow> ('k, string) mgr_action" where
  "folder_name aid fid =
     seqE (on_db (list_folders aid)) (\<lambda>fs.
       case find (\<lambda>f. f_ID f = fid) fs of Some f \<Rightarrow> retE (f_FullName f) | None \<Rightarrow> failE (E_Store ErrNotFound))"

definition file_call :: "('k manager \<Rightarrow> 'k manager) \<Rightarrow> ('k, unit) mgr_action" where
  "file_call f g =
     (let g' = g\<lparr>g_file_faults := tl (g_file_faults g)\<rparr>
      in if g_file_faults g \<noteq> [] \<and> hd (g_file_faults g) then (Inl E_File, g') else (Inr (), f g'))"

definition attachments_dir :: "'k manager \<Rightarrow> string" where
  "attachments_dir g = (if g_attach_dir g = [] then ''attachments'' else g_attach_dir g)"

definition save_attachment :: "'k mgr_ext \<Rightarrow> message \<Rightarrow> string \<Rightarrow> int \<Rightarrow> conn \<Rightarrow> ('k, string) mgr_action" where
  "save_attachment x msg name index c =
     seqE (select_folder c name) (\<lambda>_.
       seqE (fetch_raw c (m_UID msg)) (\<lambda>raw.
         case extract_attachment (mx_reader (e_mime x)) raw index of
           Inl _ \<Rightarrow> failE E_Attachment
         | Inr (ref, data) \<Rightarrow>
             seqE (readE attachments_dir) (\<lambda>dir.
               let path = dir @ ''/'' @ itoa (m_ID msg) @ ''-'' @ sanitize_filename (a_Filename ref)
               in seqE (file_call (\<lambda>g. g)) (\<lambda>_.
                    seqE (file_call (\<lambda>g. g\<lparr>g_files := g_files g @ [(path, data)]\<rparr>)) (\<lambda>_. retE path)))))"

definition exec_fetch_attachment :: "'k mgr_ext \<Rightarrow> int \<Rightarrow> int \<Rightarrow> ('k, unit) mgr_action" where
  "exec_fetch_attachment x mid index =
     tryE (seqE (on_db (get_message mid)) (\<lambda>msg.
             seqE (on_db (get_account (m_AccountID msg))) (\<lambda>acct.
               seqE (folder_name (m_AccountID msg) (m_FolderID msg)) (\<lambda>name.
                 on_server x acct (save_attachment x msg name index)))))
       (\<lambda>r. case r of
               Inl e \<Rightarrow> seqE (emit (AttachmentSavedEvent mid index [] True)) (\<lambda>_. failE e)
             | Inr path \<Rightarrow> emit (AttachmentSavedEvent mid index path False))"

definition exec_save_draft :: "'k mgr_ext \<Rightarrow> int \<Rightarrow> bytes \<Rightarrow> ('k, unit) mgr_action" where
  "exec_save_draft x aid raw =
     seqE (on_db (get_account aid)) (\<lambda>acct.
       seqE (on_db (list_folders aid)) (\<lambda>fs.
         let drafts = (case last_such f_IsDrafts fs of Some f \<Rightarrow> f_FullName f | None \<Rightarrow> ''Drafts'')
         in on_server x acct (\<lambda>c. imap_append c drafts raw [sys_flag ''Draft''])))"

definition exec_snooze :: "int \<Rightarrow> int \<Rightarrow> ('k, unit) mgr_action" where
  "exec_snooze mid until_unix = on_db (set_snooze mid (if until_unix > 0 then until_unix else zero_time))"

definition unsubscribe_draft :: "account \<Rightarrow> string \<Rightarrow> draft" where
  "unsubscribe_draft acct mailto = \<lparr>d_FromName = a_DisplayName acct, d_FromAddr = a_EmailAddress acct, d_To = [mailto], d_Cc = [],
     d_Bcc = [], d_Subject = ''unsubscribe'',
     d_TextBody = ''This message was sent automatically by VayuMail to unsubscribe.'' @ lf, d_Attachments = []\<rparr>"

definition exec_unsubscribe :: "'k mgr_ext \<Rightarrow> int \<Rightarrow> ('k, unit) mgr_action" where
  "exec_unsubscribe x mid =
     seqE (on_db (get_message mid)) (\<lambda>msg.
       let mailto = fst (first_unsubscribe_target (m_ListUnsubscribe msg))
       in if mailto = [] then failE E_Unsubscribe
          else seqE (on_db (get_account (m_AccountID msg))) (\<lambda>acct.
                 case e_build x (unsubscribe_draft acct mailto) of
                   None \<Rightarrow> failE E_Mime
                 | Some raw \<Rightarrow>
                     seqE now (\<lambda>t.
                       seqE (on_db (enqueue_outbox (unix_sec t) (a_ID acct) raw)) (\<lambda>oid. exec_send x oid))))"

section \<open>The command loop\<close>

fun handle_cmd :: "'k mgr_ext \<Rightarrow> cmd \<Rightarrow> ('k, unit) mgr_action" where
  "handle_cmd x (MoveCmd mid dest) = exec_move x mid dest"
| "handle_cmd x (DeleteCmd mid) = exec_delete x mid"
| "handle_cmd x (MarkCmd mid flag st) = exec_mark x mid flag st"
| "handle_cmd x (SendCmd oid) = exec_send x oid"
| "handle_cmd x (SyncNowCmd aid) = exec_sync_now x aid"
| "handle_cmd x (SyncFolderCmd aid fid) = exec_sync_folder x aid fid"
| "handle_cmd x (AddAccountCmd cfg credential) = exec_add_account x cfg credential"
| "handle_cmd x (RemoveAccountCmd aid) = exec_remove_account x aid"
| "handle_cmd x (UpdateCredentialCmd aid credential) = exec_update_credential x aid credential"
| "handle_cmd x (SyncPrivateKeyCmd aid) = exec_sync_private_key x aid"
| "handle_cmd x (RefetchMessageCmd aid mid) = exec_refetch_message x aid mid"
| "handle_cmd x (FetchAttachmentCmd mid index) = exec_fetch_attachment x mid index"
| "handle_cmd x (SaveDraftCmd aid raw) = exec_save_draft x aid raw"
| "handle_cmd x (SnoozeCmd mid t) = exec_snooze mid t"
| "handle_cmd x (UnsubscribeCmd mid) = exec_unsubscribe x mid"

text \<open>One step of the program around the manager: the UI sends a command, drains an event, the loop takes the oldest
  command, or one session of an account's goroutine runs.\<close>

datatype mgr_op = UISend cmd | UIDrain | LoopStep | Session config int "wake list list"

fun mgr_step :: "'k mgr_ext \<Rightarrow> mgr_op \<Rightarrow> 'k manager \<Rightarrow> 'k manager" where
  "mgr_step x (UISend c) g = snd (mgr_send c g)"
| "mgr_step x UIDrain g = g\<lparr>w_events := tl (w_events g)\<rparr>"
| "mgr_step x LoopStep g =
     (case g_cmds g of [] \<Rightarrow> g | c # cs \<Rightarrow> snd (handle_cmd x c (g\<lparr>g_cmds := cs\<rparr>)))"
| "mgr_step x (Session cfg aid scripts) g =
     snd (run_idle (e_mime x) cfg (cred_for x (c_KeystoreAlias cfg)) ''INBOX'' aid scripts g)"

section \<open>The scheduler\<close>

definition scheduler_base :: int where "scheduler_base = 5 * minute"
definition scheduler_max :: int where "scheduler_max = 30 * minute"

definition next_interval :: "bool \<Rightarrow> int \<Rightarrow> int" where
  "next_interval failed interval =
     (if failed then (if interval * 2 > scheduler_max then scheduler_max else interval * 2) else scheduler_base)"

text \<open>One pass: the outbox loop with its results as events, then the next interval.\<close>

definition scheduler_pass ::
  "'k mgr_ext \<Rightarrow> int \<Rightarrow> config \<Rightarrow> (outbox_entry \<Rightarrow> send_ctx) \<Rightarrow> int \<Rightarrow> int \<Rightarrow> 'k manager \<Rightarrow> int \<times> 'k manager" where
  "scheduler_pass x aid cfg ctx t interval g =
     (let (res, lg, d) = process_outbox (e_parse x) (c_SMTPTLS cfg) ctx t aid (w_db g);
          g' = snd (forE (ol_results lg) (\<lambda>(oid, err). emit (SendResultEvent oid (err \<noteq> None)))
                 (g\<lparr>w_db := d, g_delivered := g_delivered g @ ol_delivered lg\<rparr>) :: (sync_error + unit) \<times> 'k manager);
          failed = list_ex (\<lambda>(oid, err). err \<noteq> None) (ol_results lg) \<or> (isl res \<and> res \<noteq> Inl ContextDone)
      in (next_interval failed interval, g'))"

fun scheduler_run ::
  "'k mgr_ext \<Rightarrow> int \<Rightarrow> config \<Rightarrow> ((outbox_entry \<Rightarrow> send_ctx) \<times> int) list \<Rightarrow> int \<Rightarrow> 'k manager \<Rightarrow> int \<times> 'k manager" where
  "scheduler_run x aid cfg [] interval g = (interval, g)"
| "scheduler_run x aid cfg ((ctx, t) # passes) interval g =
     (let (interval', g') = scheduler_pass x aid cfg ctx t interval g in scheduler_run x aid cfg passes interval' g')"

end
