(* ===== verification/AppLock.thy ===== *)
theory AppLock
  imports Keystore StoreLaws
begin

text \<open>
  Package \<open>internal/applock\<close>: the PIN lock with its lockout ladder (\<open>applock.go\<close>) and the
  TOTP second factor (\<open>totp.go\<close>). The manager works on a keystore, through the interface
  \<open>keystore_ops\<close>, and on the settings table of the store; the clock is an argument, in
  nanoseconds. PBKDF2, HMAC-SHA-1 and the JSON decoder of the verifier are fields of
  \<open>lock_env\<close>.
\<close>

section \<open>Data\<close>

datatype lock_error =
    ErrLockedOut
  | ErrBadPIN
  | ErrBadSecret
  | ErrSalt
  | ErrDerive
  | ErrVerifierCorrupt
  | ErrKS ks_error
  | ErrDB store_error

record verifier =
  v_Version :: int
  v_Salt :: bytes
  v_Iterations :: int
  v_Hash :: bytes

record 'k lock_env =
  le_ops :: "'k keystore_ops"
  le_kdf :: "string \<Rightarrow> bytes \<Rightarrow> int \<Rightarrow> nat \<Rightarrow> bytes option"
  le_unmarshal :: "bytes \<Rightarrow> verifier option"
  le_hmac :: "bytes \<Rightarrow> bytes \<Rightarrow> bytes"

record 'k lockman =
  lm_ks :: 'k
  lm_db :: db

definition verifier_alias :: string where "verifier_alias = ''vayumail-applock-v1''"
definition totp_alias :: string where "totp_alias = ''vayumail-applock-totp-v1''"
definition pbkdf2_iterations :: int where "pbkdf2_iterations = 600000"
definition salt_len :: nat where "salt_len = 16"
definition key_len :: nat where "key_len = 32"
definition free_attempts :: int where "free_attempts = 5"
definition lockout_base :: int where "lockout_base = 30 * second"
definition lockout_max :: int where "lockout_max = 15 * minute"
definition setting_failures :: string where "setting_failures = ''applock_failures''"
definition setting_locked_until :: string where "setting_locked_until = ''applock_locked_until''"

text \<open>\<open>json.Marshal\<close> of the verifier; byte slices encode as base64.\<close>

definition marshal_verifier :: "verifier \<Rightarrow> bytes" where
  "marshal_verifier v =
     ''{'' @ [quote_char] @ ''version'' @ [quote_char] @ '':'' @ itoa (v_Version v)
     @ '','' @ [quote_char] @ ''salt'' @ [quote_char] @ '':'' @ [quote_char] @ b64_encode (v_Salt v) @ [quote_char]
     @ '','' @ [quote_char] @ ''iterations'' @ [quote_char] @ '':'' @ itoa (v_Iterations v)
     @ '','' @ [quote_char] @ ''hash'' @ [quote_char] @ '':'' @ [quote_char] @ b64_encode (v_Hash v) @ [quote_char]
     @ ''}''"

section \<open>Bookkeeping\<close>

text \<open>The arithmetic is that of Go's 64-bit \<open>int\<close>: the counter is read from the database, so it
  may hold anything.\<close>

definition lockout_after :: "int \<Rightarrow> int" where
  "lockout_after failures =
     (let steps = wrap64 (wrap64 (failures - free_attempts) - 1)
      in if steps < 0 then 0
         else if steps \<ge> 5 then lockout_max
         else (let d = wrap64 (lockout_base * 2 ^ nat steps)
               in if d > lockout_max then lockout_max else d))"

definition retry_delay :: "int \<Rightarrow> 'k lockman \<Rightarrow> int \<times> 'k lockman" where
  "retry_delay now s =
     (case get_setting setting_locked_until (lm_db s) of
        (r, d) \<Rightarrow>
          ((case r of
              Inl _ \<Rightarrow> 0
            | Inr raw \<Rightarrow>
                if raw = '''' then 0
                else (case parse_int raw of
                        Inl _ \<Rightarrow> 0
                      | Inr sec \<Rightarrow>
                          (let d = time_sub (sec * second) now in if d < 0 then 0 else d))),
           s\<lparr>lm_db := d\<rparr>))"

definition clear_lockout :: "'k lockman \<Rightarrow> (lock_error + unit) \<times> 'k lockman" where
  "clear_lockout s =
     (case set_setting setting_failures '''' (lm_db s) of
        (Inl e, d) \<Rightarrow> (Inl (ErrDB e), s\<lparr>lm_db := d\<rparr>)
      | (Inr _, d) \<Rightarrow>
          (case set_setting setting_locked_until '''' d of
             (Inl e, d) \<Rightarrow> (Inl (ErrDB e), s\<lparr>lm_db := d\<rparr>)
           | (Inr _, d) \<Rightarrow> (Inr (), s\<lparr>lm_db := d\<rparr>)))"

definition record_failure :: "int \<Rightarrow> 'k lockman \<Rightarrow> (lock_error + unit) \<times> 'k lockman" where
  "record_failure now s =
     (case get_setting setting_failures (lm_db s) of
        (Inl e, d) \<Rightarrow> (Inl (ErrDB e), s\<lparr>lm_db := d\<rparr>)
      | (Inr raw, d) \<Rightarrow>
          (let n = wrap64 (atoi_value raw + 1)
           in (case set_setting setting_failures (itoa n) d of
                 (Inl e, d) \<Rightarrow> (Inl (ErrDB e), s\<lparr>lm_db := d\<rparr>)
               | (Inr _, d) \<Rightarrow>
                   (let w = lockout_after n
                    in if w > 0 then
                         (let until = unix_sec (now + w)
                          in (case set_setting setting_locked_until (itoa until) d of
                                (Inl e, d) \<Rightarrow> (Inl (ErrDB e), s\<lparr>lm_db := d\<rparr>)
                              | (Inr _, d) \<Rightarrow> (Inr (), s\<lparr>lm_db := d\<rparr>)))
                       else (Inr (), s\<lparr>lm_db := d\<rparr>)))))"

section \<open>The PIN\<close>

definition valid_pin :: "string \<Rightarrow> bool" where
  "valid_pin pin \<longleftrightarrow> 4 \<le> length pin \<and> length pin \<le> 12 \<and> list_all is_digit pin"

definition lock_enabled :: "'k lock_env \<Rightarrow> 'k lockman \<Rightarrow> bool \<times> 'k lockman" where
  "lock_enabled env s =
     (case ks_fetch (le_ops env) verifier_alias (lm_ks s) of
        (r, k) \<Rightarrow> (\<not> isl r, s\<lparr>lm_ks := k\<rparr>))"

text \<open>\<open>Set\<close>; \<open>salt\<close> is what \<open>rand.Read\<close> gave, if it succeeded.\<close>

definition set_pin :: "'k lock_env \<Rightarrow> bytes option \<Rightarrow> string \<Rightarrow> 'k lockman \<Rightarrow> (lock_error + unit) \<times> 'k lockman" where
  "set_pin env rnd pin s =
     (if \<not> valid_pin pin then (Inl ErrBadPIN, s)
      else (case rnd of
        None \<Rightarrow> (Inl ErrSalt, s)
      | Some bs \<Rightarrow>
          (let salt = take salt_len (bs @ replicate salt_len CHR 0x00)
           in (case le_kdf env pin salt pbkdf2_iterations key_len of
                 None \<Rightarrow> (Inl ErrDerive, s)
               | Some key \<Rightarrow>
                   (let blob = marshal_verifier \<lparr>v_Version = 1, v_Salt = salt,
                                 v_Iterations = pbkdf2_iterations, v_Hash = key\<rparr>
                    in (case ks_store (le_ops env) verifier_alias blob (lm_ks s) of
                          (Inl e, k) \<Rightarrow> (Inl (ErrKS e), s\<lparr>lm_ks := k\<rparr>)
                        | (Inr _, k) \<Rightarrow> clear_lockout (s\<lparr>lm_ks := k\<rparr>)))))))"

definition error_of :: "lock_error + unit \<Rightarrow> lock_error option" where
  "error_of r = (case r of Inl e \<Rightarrow> Some e | Inr _ \<Rightarrow> None)"

text \<open>\<open>Verify\<close> returns a verdict and an error.\<close>

definition verify_pin ::
  "'k lock_env \<Rightarrow> int \<Rightarrow> string \<Rightarrow> 'k lockman \<Rightarrow> (bool \<times> lock_error option) \<times> 'k lockman" where
  "verify_pin env now pin s =
     (case retry_delay now s of (delay, s) \<Rightarrow>
      if delay > 0 then ((False, Some ErrLockedOut), s)
      else (case ks_fetch (le_ops env) verifier_alias (lm_ks s) of
        (Inl e, k) \<Rightarrow> ((False, Some (ErrKS e)), s\<lparr>lm_ks := k\<rparr>)
      | (Inr blob, k) \<Rightarrow>
          (let s = s\<lparr>lm_ks := k\<rparr>
           in (case le_unmarshal env blob of
                 None \<Rightarrow> ((False, Some ErrVerifierCorrupt), s)
               | Some v \<Rightarrow>
                   if v_Iterations v \<le> 0 \<or> length (v_Salt v) = 0 \<or> length (v_Hash v) = 0
                   then ((False, Some ErrVerifierCorrupt), s)
                   else (case le_kdf env pin (v_Salt v) (v_Iterations v) (length (v_Hash v)) of
                           None \<Rightarrow> ((False, Some ErrDerive), s)
                         | Some derived \<Rightarrow>
                             if derived \<noteq> v_Hash v
                             then (case record_failure now s of (r, s) \<Rightarrow> ((False, error_of r), s))
                             else (case clear_lockout s of (_, s) \<Rightarrow> ((True, None), s)))))))"

definition remove_pin :: "'k lock_env \<Rightarrow> 'k lockman \<Rightarrow> (lock_error + unit) \<times> 'k lockman" where
  "remove_pin env s =
     (case ks_delete (le_ops env) verifier_alias (lm_ks s) of
        (Inl e, k) \<Rightarrow> (Inl (ErrKS e), s\<lparr>lm_ks := k\<rparr>)
      | (Inr _, k) \<Rightarrow> clear_lockout (s\<lparr>lm_ks := k\<rparr>))"

section \<open>The second factor\<close>

definition b32_alphabet :: string where
  "b32_alphabet = ''ABCDEFGHIJKLMNOPQRSTUVWXYZ234567''"

text \<open>One quantum of at most eight characters of the unpadded base32 decoder: how many bytes a
  short final quantum yields is the switch of the library.\<close>

definition b32_bytes :: "nat \<Rightarrow> nat" where
  "b32_bytes dlen = (if dlen = 8 then 5 else if dlen = 7 then 4 else if dlen = 5 then 3
     else if dlen = 4 then 2 else if dlen = 2 then 1 else 0)"

definition b32_quantum :: "nat list \<Rightarrow> bytes" where
  "b32_quantum vs =
     (let n = foldl (\<lambda>a v. 32 * a + v) 0 (take 8 (vs @ replicate 8 0))
      in take (b32_bytes (length vs))
           (map (\<lambda>i. char_of (n div 256 ^ i)) [4, 3, 2, 1, 0]))"

function b32_quanta :: "nat list \<Rightarrow> bytes" where
  "b32_quanta vs = (if vs = [] then [] else b32_quantum (take 8 vs) @ b32_quanta (drop 8 vs))"
  by pat_completeness auto
termination
  by (relation "measure length") auto

declare b32_quanta.simps [simp del]

fun b32_values :: "string \<Rightarrow> nat list option" where
  "b32_values [] = Some []"
| "b32_values (c # s) =
     (case (char_index c b32_alphabet, b32_values s) of
        (Some v, Some vs) \<Rightarrow> Some (v # vs) | _ \<Rightarrow> None)"

definition b32_decode :: "string \<Rightarrow> bytes option" where
  "b32_decode s = map_option b32_quanta (b32_values (filter (\<lambda>c. c \<noteq> CHR 0x0D \<and> c \<noteq> CHR 0x0A) s))"

definition decode_totp_secret :: "string \<Rightarrow> lock_error + bytes" where
  "decode_totp_secret s =
     (let s = to_upper (replace_all '' '' '''' (trim_space s));
          s = trim_right_by (\<lambda>c. c = CHR ''='') s
      in if length s < 16 then Inl ErrBadSecret
         else (case b32_decode s of None \<Rightarrow> Inl ErrBadSecret | Some key \<Rightarrow> Inr key))"

definition set_totp :: "'k lock_env \<Rightarrow> string \<Rightarrow> 'k lockman \<Rightarrow> (lock_error + unit) \<times> 'k lockman" where
  "set_totp env secret s =
     (case decode_totp_secret secret of
        Inl e \<Rightarrow> (Inl e, s)
      | Inr key \<Rightarrow>
          (case ks_store (le_ops env) totp_alias key (lm_ks s) of
             (Inl e, k) \<Rightarrow> (Inl (ErrKS e), s\<lparr>lm_ks := k\<rparr>)
           | (Inr _, k) \<Rightarrow> (Inr (), s\<lparr>lm_ks := k\<rparr>)))"

definition totp_enabled :: "'k lock_env \<Rightarrow> 'k lockman \<Rightarrow> bool \<times> 'k lockman" where
  "totp_enabled env s =
     (case ks_fetch (le_ops env) totp_alias (lm_ks s) of (r, k) \<Rightarrow> (\<not> isl r, s\<lparr>lm_ks := k\<rparr>))"

definition remove_totp :: "'k lock_env \<Rightarrow> 'k lockman \<Rightarrow> (lock_error + unit) \<times> 'k lockman" where
  "remove_totp env s =
     (case ks_delete (le_ops env) totp_alias (lm_ks s) of
        (Inl e, k) \<Rightarrow> (Inl (ErrKS e), s\<lparr>lm_ks := k\<rparr>)
      | (Inr _, k) \<Rightarrow> (Inr (), s\<lparr>lm_ks := k\<rparr>))"

definition put_uint64 :: "nat \<Rightarrow> bytes" where
  "put_uint64 n = map (\<lambda>i. char_of (n div 256 ^ i)) [7, 6, 5, 4, 3, 2, 1, 0]"

definition uint32_be :: "bytes \<Rightarrow> nat" where
  "uint32_be bs = foldl (\<lambda>a c. 256 * a + of_char c) 0 (take 4 bs) mod 2 ^ 32"

text \<open>\<open>fmt.Sprintf("%06d", code)\<close>\<close>

definition pad6 :: "nat \<Rightarrow> string" where
  "pad6 n = replicate (6 - length (format_nat n)) CHR ''0'' @ format_nat n"

definition hotp :: "'k lock_env \<Rightarrow> bytes \<Rightarrow> nat \<Rightarrow> string" where
  "hotp env key counter =
     (let sum = le_hmac env key (put_uint64 counter);
          offset = of_char (last sum) mod 16;
          code = (uint32_be (drop offset sum) mod 2 ^ 31) mod 1000000
      in pad6 code)"

text \<open>\<open>uint64(at.Unix()) / 30\<close> for the time \<open>skew\<close> steps away from now.\<close>

definition totp_counter :: "int \<Rightarrow> int \<Rightarrow> nat" where
  "totp_counter now skew = nat (unix_sec (now + skew * (30 * second)) mod 2 ^ 64) div 30"

definition verify_totp ::
  "'k lock_env \<Rightarrow> int \<Rightarrow> string \<Rightarrow> 'k lockman \<Rightarrow> (bool \<times> lock_error option) \<times> 'k lockman" where
  "verify_totp env now code s =
     (case retry_delay now s of (delay, s) \<Rightarrow>
      if delay > 0 then ((False, Some ErrLockedOut), s)
      else (case ks_fetch (le_ops env) totp_alias (lm_ks s) of
        (Inl e, k) \<Rightarrow> ((False, Some (ErrKS e)), s\<lparr>lm_ks := k\<rparr>)
      | (Inr key, k) \<Rightarrow>
          (let s = s\<lparr>lm_ks := k\<rparr>;
               code = trim_space code;
               ok = fold (\<lambda>skew ok. if hotp env key (totp_counter now skew) = code then True else ok)
                      [-1, 0, 1] False
           in if \<not> ok then (case record_failure now s of (r, s) \<Rightarrow> ((False, error_of r), s))
              else (case clear_lockout s of (_, s) \<Rightarrow> ((True, None), s)))))"

section \<open>The settings table as a map\<close>

locale settings_table =
  fixes get :: "string \<Rightarrow> 'd \<Rightarrow> ('e + string) \<times> 'd"
    and put :: "string \<Rightarrow> string \<Rightarrow> 'd \<Rightarrow> ('e + unit) \<times> 'd"
    and val :: "'d \<Rightarrow> string \<Rightarrow> string"
  assumes get_ok: "get k d = (Inr v, d') \<Longrightarrow> v = val d k"
    and get_val: "get k d = (r, d') \<Longrightarrow> val d' = val d"
    and put_ok: "put k v d = (Inr (), d') \<Longrightarrow> val d' = (val d)(k := v)"
    and put_err: "put k v d = (Inl e, d') \<Longrightarrow> val d' = val d"
begin

lemma get_after_put: "put k v d = (Inr (), d1) \<Longrightarrow> get k d1 = (Inr w, d2) \<Longrightarrow> w = v"
  using get_ok put_ok by fastforce

lemma put_other: "put k v d = (r, d') \<Longrightarrow> j \<noteq> k \<Longrightarrow> val d' j = val d j"
  using put_ok put_err by (cases r) fastforce+

end

definition setting :: "db \<Rightarrow> string \<Rightarrow> string" where
  "setting d k = (case map_of (db_settings d) k of None \<Rightarrow> '''' | Some v \<Rightarrow> v)"

lemma map_of_update: "map_of (settings_update k v kvs) j = (if j = k then Some v else map_of kvs j)"
proof (cases "k \<in> fst ` set kvs")
  case True
  then have "map_of (map (\<lambda>(k', v'). (k', if k' = k then v else v')) kvs) j
      = (if j = k then Some v else map_of kvs j)"
  proof (induction kvs)
    case (Cons kv kvs)
    show ?case
    proof (cases "k \<in> fst ` set kvs")
      case True
      with Cons.IH show ?thesis by (cases kv) auto
    next
      case False
      then have "map (\<lambda>(k', v'). (k', if k' = k then v else v')) kvs = kvs"
        by (force intro: map_idI)
      with Cons.prems False show ?thesis by (cases kv) auto
    qed
  qed simp
  with True show ?thesis by (simp add: settings_update_def)
next
  case False
  then have "map_of kvs k = None" by (simp add: map_of_eq_None_iff)
  with False show ?thesis by (auto simp: settings_update_def map_add_def split: option.splits)
qed

lemma map_of_remove: "map_of (filter (\<lambda>kv. fst kv \<noteq> k) kvs) j = (if j = k then None else map_of kvs j)"
  by (induction kvs) auto

interpretation settings: settings_table get_setting set_setting setting
proof (unfold_locales, goal_cases)
  case (1 k d v d')
  then show ?case by (auto simp: get_setting_def setting_def dest!: sql_InrD)
next
  case (2 k d r d')
  then show ?case by (auto simp: get_setting_def setting_def fun_eq_iff dest!: sql_noop)
next
  case (3 k v d d')
  then show ?case
    by (auto simp: set_setting_def setting_def fun_eq_iff map_of_update map_of_remove dest!: sql_InrD split: if_splits)
next
  case (4 k v d e d')
  then show ?case by (auto simp: set_setting_def setting_def fun_eq_iff dest!: sql_InlD)
qed

lemma get_setting_no_fault: "db_faults d = [] \<Longrightarrow> get_setting k d = (Inr (setting d k), d)"
  by (simp add: get_setting_def sql_no_fault setting_def)

lemma set_setting_no_fault:
  assumes "db_faults d = []"
  obtains d' where "set_setting k v d = (Inr (), d')" "setting d' = (setting d)(k := v)" "db_faults d' = []"
proof -
  obtain d' where s: "set_setting k v d = (Inr (), d')" "db_faults d' = []"
    using assms by (simp add: set_setting_def sql_no_fault)
  with settings.put_ok [OF s(1)] that show thesis by blast
qed

section \<open>The lockout schedule\<close>

lemma lockout_after_steps:
  "lockout_after n = (if wrap64 (n - 6) < 0 then 0 else if wrap64 (n - 6) \<ge> 5 then 900 * second
     else 30 * second * 2 ^ nat (wrap64 (n - 6)))"
proof -
  define k where "k = wrap64 (n - 6)"
  have k: "wrap64 (wrap64 (n - free_attempts) - 1) = k"
    unfolding wrap64_diff by (simp add: free_attempts_def k_def)
  show ?thesis
  proof (cases "0 \<le> k \<and> k < 5")
    case True
    then have "k \<in> {0, 1, 2, 3, 4}" by auto
    then show ?thesis
      unfolding lockout_after_def k k_def [symmetric] Let_def
      by (elim insertE emptyE) (simp_all add: lockout_max_def lockout_base_def)
  next
    case False
    then have "k < 0 \<or> 5 \<le> k \<and> \<not> k < 0" by auto
    then show ?thesis
      unfolding lockout_after_def k k_def [symmetric] Let_def
      by (elim disjE conjE) (simp_all add: lockout_max_def)
  qed
qed

lemma lockout_after_bounds: "0 \<le> lockout_after n \<and> lockout_after n \<le> 900 * second"
proof (cases "0 \<le> wrap64 (n - 6) \<and> wrap64 (n - 6) < 5")
  case True
  then have "(2::int) ^ nat (wrap64 (n - 6)) \<le> 2 ^ 4" by (intro power_increasing) auto
  with True show ?thesis by (simp add: lockout_after_steps)
next
  case False
  then show ?thesis by (auto simp: lockout_after_steps)
qed

text \<open>The lockout schedule: five wrong answers are free, the sixth costs 30 s, each further one
  doubles the wait, and from the eleventh on it is 15 minutes. For every value a 64-bit counter
  can have, also one that has overflowed, the wait is between 0 and 15 minutes, and the wrapped
  values take the longest wait.\<close>

theorem lockout_schedule:
  assumes "min_int64 \<le> n" "n \<le> max_int64"
  shows "lockout_after n =
    (if n < min_int64 + 6 then 900 * second
     else if n \<le> 5 then 0
     else if n \<le> 10 then 30 * second * 2 ^ nat (n - 6)
     else 900 * second)"
proof (cases "n < min_int64 + 6")
  case True
  with assms have "wrap64 (n - 6) = n - 6 + 18446744073709551616" by (intro wrap64_low) simp_all
  with True assms show ?thesis by (simp add: lockout_after_steps)
next
  case False
  with assms have "wrap64 (n - 6) = n - 6" by simp
  with False show ?thesis by (simp add: lockout_after_steps)
qed

theorem lockout_schedule_witness: "lockout_after 8 = 120 * second \<and> lockout_after max_int64 = 900 * second"
  using lockout_schedule [of 8] lockout_schedule [of max_int64] by simp

section \<open>Bookkeeping lemmas\<close>

lemma alias_neq [simp]:
  "setting_failures \<noteq> setting_locked_until" "setting_locked_until \<noteq> setting_failures"
  "verifier_alias \<noteq> totp_alias" "totp_alias \<noteq> verifier_alias"
  by (simp_all add: setting_failures_def setting_locked_until_def verifier_alias_def totp_alias_def)

text \<open>The delay the settings ask for.\<close>

definition delay_of :: "int \<Rightarrow> db \<Rightarrow> int" where
  "delay_of now d =
     (case parse_int (setting d setting_locked_until) of
        Inl _ \<Rightarrow> 0
      | Inr sec \<Rightarrow> max 0 (time_sub (sec * second) now))"

lemma parse_int_Nil [simp]: "parse_int [] = Inl ErrSyntax"
  by (simp add: parse_int_def)

lemma retry_delay_no_fault: "db_faults (lm_db s) = [] \<Longrightarrow> retry_delay now s = (delay_of now (lm_db s), s)"
  by (auto simp: retry_delay_def get_setting_no_fault delay_of_def Let_def split: sum.splits)

lemma retry_delay_cases:
  assumes "retry_delay now s = (delay, s')"
  shows "lm_ks s' = lm_ks s" "setting (lm_db s') = setting (lm_db s)" "delay \<noteq> 0 \<Longrightarrow> delay = delay_of now (lm_db s)"
proof -
  obtain r d where g: "get_setting setting_locked_until (lm_db s) = (r, d)" by fastforce
  show "lm_ks s' = lm_ks s" using assms g by (auto simp: retry_delay_def)
  show "setting (lm_db s') = setting (lm_db s)"
    using assms g settings.get_val [OF g] by (auto simp: retry_delay_def)
  show "delay \<noteq> 0 \<Longrightarrow> delay = delay_of now (lm_db s)"
    using assms g settings.get_ok [of setting_locked_until "lm_db s" _ d]
    by (cases r) (auto simp: retry_delay_def delay_of_def Let_def split: sum.splits if_splits)
qed

lemma clear_lockout_no_fault:
  assumes "db_faults (lm_db s) = []"
  obtains d where "clear_lockout s = (Inr (), s\<lparr>lm_db := d\<rparr>)" "db_faults d = []"
    "setting d setting_failures = ''''" "setting d setting_locked_until = ''''"
proof -
  obtain d1 where 1: "set_setting setting_failures '''' (lm_db s) = (Inr (), d1)"
    "setting d1 = (setting (lm_db s))(setting_failures := '''')" "db_faults d1 = []"
    using set_setting_no_fault [OF assms] .
  obtain d2 where 2: "set_setting setting_locked_until '''' d1 = (Inr (), d2)"
    "setting d2 = (setting d1)(setting_locked_until := '''')" "db_faults d2 = []"
    using set_setting_no_fault [OF 1(3)] .
  show thesis by (rule that [of d2]) (simp_all add: clear_lockout_def 1 2)
qed

lemma clear_lockout_ks: "clear_lockout s = (r, s') \<Longrightarrow> lm_ks s' = lm_ks s"
  by (auto simp: clear_lockout_def split: prod.splits sum.splits)

lemma clear_lockout_ok:
  assumes "clear_lockout s = (Inr (), s')"
  shows "setting (lm_db s') setting_failures = ''''" "setting (lm_db s') setting_locked_until = ''''"
proof -
  obtain r1 d1 where 1: "set_setting setting_failures '''' (lm_db s) = (r1, d1)" by fastforce
  obtain r2 d2 where 2: "set_setting setting_locked_until '''' d1 = (r2, d2)" by fastforce
  from assms 1 2 have r: "r1 = Inr ()" "r2 = Inr ()" "s' = s\<lparr>lm_db := d2\<rparr>"
    by (auto simp: clear_lockout_def split: sum.splits)
  show "setting (lm_db s') setting_failures = ''''" "setting (lm_db s') setting_locked_until = ''''"
    using settings.put_ok [OF 1 [unfolded r]] settings.put_ok [OF 2 [unfolded r]] r by simp_all
qed

definition failures :: "db \<Rightarrow> int" where
  "failures d = atoi_value (setting d setting_failures)"

lemma record_failure_no_fault:
  assumes "db_faults (lm_db s) = []"
  obtains d where "record_failure now s = (Inr (), s\<lparr>lm_db := d\<rparr>)" "db_faults d = []"
    "failures d = wrap64 (failures (lm_db s) + 1)"
    "setting d setting_locked_until =
       (if lockout_after (failures d) > 0 then itoa (unix_sec (now + lockout_after (failures d)))
        else setting (lm_db s) setting_locked_until)"
proof -
  let ?n = "wrap64 (failures (lm_db s) + 1)"
  obtain d1 where 1: "set_setting setting_failures (itoa ?n) (lm_db s) = (Inr (), d1)"
    "setting d1 = (setting (lm_db s))(setting_failures := itoa ?n)" "db_faults d1 = []"
    using set_setting_no_fault [OF assms] .
  have n: "atoi_value (itoa ?n) = ?n" using wrap64_range [of "failures (lm_db s) + 1"] by simp
  show thesis
  proof (cases "lockout_after ?n > 0")
    case True
    obtain d2 where 2: "set_setting setting_locked_until (itoa (unix_sec (now + lockout_after ?n))) d1 = (Inr (), d2)"
      "setting d2 = (setting d1)(setting_locked_until := itoa (unix_sec (now + lockout_after ?n)))" "db_faults d2 = []"
      using set_setting_no_fault [OF 1(3)] .
    show thesis
      by (rule that [of d2]) (use True 1 2 n assms in
          \<open>simp_all add: record_failure_def get_setting_no_fault failures_def Let_def\<close>)
  next
    case False
    show thesis
      by (rule that [of d1]) (use False 1 n assms in
          \<open>simp_all add: record_failure_def get_setting_no_fault failures_def Let_def\<close>)
  qed
qed

section \<open>Guessing is throttled\<close>

datatype attempt = TryPIN string | TryTOTP string

fun try_unlock :: "'k lock_env \<Rightarrow> int \<Rightarrow> attempt \<Rightarrow> 'k lockman \<Rightarrow> (bool \<times> lock_error option) \<times> 'k lockman" where
  "try_unlock env now (TryPIN pin) s = verify_pin env now pin s"
| "try_unlock env now (TryTOTP code) s = verify_totp env now code s"

fun try_all :: "'k lock_env \<Rightarrow> (int \<times> attempt) list \<Rightarrow> 'k lockman \<Rightarrow> (bool \<times> lock_error option) list \<times> 'k lockman" where
  "try_all env [] s = ([], s)"
| "try_all env ((now, a) # as) s =
     (case try_unlock env now a s of (r, s1) \<Rightarrow>
      (case try_all env as s1 of (rs, s2) \<Rightarrow> (r # rs, s2)))"

text \<open>What one failing attempt does: either nothing is compared and the settings stay, or the
  answer was compared while no lockout was in force and the failure is recorded.\<close>

lemma failed_attempt:
  assumes nf: "db_faults (lm_db s) = []" and run: "try_unlock env now a s = ((False, err), s')"
  shows "err \<noteq> None \<and> lm_db s' = lm_db s
    \<or> err = None \<and> delay_of now (lm_db s) \<le> 0 \<and> (\<exists>k. record_failure now (s\<lparr>lm_ks := k\<rparr>) = (Inr (), s'))"
proof -
  let ?al = "case a of TryPIN _ \<Rightarrow> verifier_alias | TryTOTP _ \<Rightarrow> totp_alias"
  obtain r k where f: "ks_fetch (le_ops env) ?al (lm_ks s) = (r, k)" by fastforce
  obtain d where rf: "record_failure now (s\<lparr>lm_ks := k\<rparr>) = (Inr (), s\<lparr>lm_ks := k, lm_db := d\<rparr>)"
    using record_failure_no_fault [of "s\<lparr>lm_ks := k\<rparr>" now] nf by force
  obtain d' where cl: "clear_lockout (s\<lparr>lm_ks := k\<rparr>) = (Inr (), s\<lparr>lm_ks := k, lm_db := d'\<rparr>)"
    using clear_lockout_no_fault [of "s\<lparr>lm_ks := k\<rparr>"] nf by force
  show ?thesis
  proof (cases "delay_of now (lm_db s) > 0")
    case True
    with run nf show ?thesis
      by (cases a) (auto simp: verify_pin_def verify_totp_def retry_delay_no_fault)
  next
    case False
    show ?thesis
    proof (cases a)
      case (TryPIN pin)
      with run nf False f rf cl show ?thesis
        by (auto simp: verify_pin_def retry_delay_no_fault Let_def error_of_def
            split: if_splits sum.splits option.splits intro!: exI [of _ k])
    next
      case (TryTOTP code)
      with run nf False f rf cl show ?thesis
        by (auto simp: verify_totp_def retry_delay_no_fault Let_def error_of_def
            split: if_splits sum.splits option.splits intro!: exI [of _ k])
    qed
  qed
qed

text \<open>The ladder: once eleven failures are on record, each further one came more than 899 s after
  the one before, and a lockout set by the last one is in force.\<close>

definition ladder :: "int \<Rightarrow> int \<Rightarrow> db \<Rightarrow> bool" where
  "ladder t0 t d \<longleftrightarrow> db_faults d = [] \<and> 0 \<le> failures d
     \<and> (11 \<le> failures d \<longrightarrow> (\<exists>tf u. tf \<le> t \<and> t0 + (failures d - 11) * (899 * second) \<le> tf
          \<and> setting d setting_locked_until = itoa u \<and> 0 \<le> u \<and> u \<le> max_int64
          \<and> u * second > tf + 899 * second))"

lemma ladder_mono: "ladder t0 t d \<Longrightarrow> t \<le> t' \<Longrightarrow> ladder t0 t' d"
  unfolding ladder_def by (meson order_trans)

lemma lockout_after_late: "11 \<le> n \<Longrightarrow> n \<le> max_int64 \<Longrightarrow> lockout_after n = 900 * second"
  by (simp add: lockout_after_steps)

lemma ladder_bound:
  assumes "ladder t0 t d" "t0 \<le> t"
  shows "failures d \<le> 11 + (t - t0) div (899 * second)"
proof (cases "11 \<le> failures d")
  case True
  with assms have "(failures d - 11) * (899 * second) \<le> t - t0" by (auto simp: ladder_def)
  then have "(failures d - 11) * (899 * second) div (899 * second) \<le> (t - t0) div (899 * second)"
    by (rule zdiv_mono1) simp
  then show ?thesis by simp
next
  case False
  have "0 \<le> (t - t0) div (899 * second)" using assms(2) by simp
  with False show ?thesis by linarith
qed

lemma ladder_step:
  assumes lad: "ladder t0 t (lm_db s)" and t: "0 \<le> t0" "t0 \<le> t" "t \<le> max_int64"
    and rec: "record_failure t (s\<lparr>lm_ks := k\<rparr>) = (Inr (), s')" and open': "delay_of t (lm_db s) \<le> 0"
  shows "ladder t0 t (lm_db s')" "failures (lm_db s') = failures (lm_db s) + 1"
proof -
  let ?d = "lm_db s"
  have nf: "db_faults ?d = []" and n0: "0 \<le> failures ?d" using lad by (simp_all add: ladder_def)
  obtain d where d: "record_failure t (s\<lparr>lm_ks := k\<rparr>) = (Inr (), s\<lparr>lm_ks := k, lm_db := d\<rparr>)" "db_faults d = []"
    "failures d = wrap64 (failures ?d + 1)"
    "setting d setting_locked_until =
       (if lockout_after (failures d) > 0 then itoa (unix_sec (t + lockout_after (failures d)))
        else setting ?d setting_locked_until)"
    by (rule record_failure_no_fault [of "s\<lparr>lm_ks := k\<rparr>" t]) (use nf in auto)
  have d': "lm_db s' = d" using rec d(1) by auto
  have "failures ?d \<le> 11 + (t - t0) div (899 * second)" using lad t(2) by (rule ladder_bound)
  moreover have "(t - t0) div (899 * second) \<le> max_int64 div (899 * second)"
    using t by (intro zdiv_mono1) simp_all
  ultimately have n1: "failures ?d + 1 \<le> max_int64" by simp
  then have n': "failures d = failures ?d + 1" using d(3) n0 by simp
  then show "failures (lm_db s') = failures ?d + 1" by (simp add: d')
  show "ladder t0 t (lm_db s')"
  proof (cases "11 \<le> failures d")
    case False
    with d(2) n' n0 show ?thesis by (simp add: ladder_def d')
  next
    case True
    let ?u = "unix_sec (t + 900 * second)"
    have lo: "lockout_after (failures d) = 900 * second" using True n1 n' by (intro lockout_after_late) simp_all
    have u: "?u * second > t + 899 * second" "0 \<le> ?u" "?u \<le> max_int64"
      using unix_sec_bounds [of "t + 900 * second"] t by linarith+
    have base: "t0 + (failures d - 11) * (899 * second) \<le> t"
    proof (cases "11 \<le> failures ?d")
      case True
      then obtain tf v where v: "t0 + (failures ?d - 11) * (899 * second) \<le> tf"
        "setting ?d setting_locked_until = itoa v" "0 \<le> v" "v \<le> max_int64" "v * second > tf + 899 * second"
        using lad by (auto simp: ladder_def)
      have "v * second \<le> t"
        using open' v(2-4) time_sub_pos_iff [of "v * second" t] by (simp add: delay_of_def)
      with v show ?thesis by (simp add: n' algebra_simps)
    next
      case False
      with True n' t show ?thesis by simp
    qed
    with d(2,4) lo u n' n0 show ?thesis
      unfolding ladder_def d' by (intro conjI impI exI [of _ t] exI [of _ ?u]) simp_all
  qed
qed

lemma try_all_ladder:
  assumes "ladder t0 t (lm_db s)" "sorted (t # map fst as)" "0 \<le> t0" "t0 \<le> t"
    "\<forall>a \<in> set as. fst a \<le> max_int64" "try_all env as s = (rs, s')" "list_all (\<lambda>r. \<not> fst r) rs"
  shows "ladder t0 (last (t # map fst as)) (lm_db s')
    \<and> failures (lm_db s') = failures (lm_db s) + int (length (filter (\<lambda>r. snd r = None) rs))"
  using assms
proof (induction as arbitrary: t s rs)
  case (Cons ta as)
  obtain now a where ta: "ta = (now, a)" by fastforce
  obtain r s1 where 1: "try_unlock env now a s = (r, s1)" by fastforce
  obtain rs' where 2: "try_all env as s1 = (rs', s')" and rs: "rs = r # rs'"
    using Cons.prems(6) by (auto simp: ta 1 split: prod.splits)
  obtain err where r: "r = (False, err)" using Cons.prems(7) rs by (cases r) auto
  have now: "t \<le> now" "t0 \<le> now" "now \<le> max_int64" using Cons.prems(2,4,5) ta by auto
  have lad: "ladder t0 now (lm_db s)" using Cons.prems(1) now(1) by (rule ladder_mono)
  have nf: "db_faults (lm_db s) = []" using lad by (simp add: ladder_def)
  have step: "ladder t0 now (lm_db s1) \<and> failures (lm_db s1) = failures (lm_db s) + (if err = None then 1 else 0)"
    using failed_attempt [OF nf 1 [unfolded r]] lad ladder_step [OF lad Cons.prems(3) now(2,3)] by auto
  have "ladder t0 (last (now # map fst as)) (lm_db s')
    \<and> failures (lm_db s') = failures (lm_db s1) + int (length (filter (\<lambda>r. snd r = None) rs'))"
    using Cons.prems step now 2 rs by (intro Cons.IH) (auto simp: ta)
  with step show ?case by (auto simp: ta rs r)
qed simp


section \<open>The PIN round trip, for every keystore\<close>

definition new_verifier :: "bytes \<Rightarrow> bytes \<Rightarrow> verifier" where
  "new_verifier salt key = \<lparr>v_Version = 1, v_Salt = salt, v_Iterations = pbkdf2_iterations, v_Hash = key\<rparr>"

definition salt_of :: "bytes \<Rightarrow> bytes" where
  "salt_of bs = take salt_len (bs @ replicate salt_len CHR 0x00)"

text \<open>What is assumed of the primitives: the key derived from the PIN has the length asked for, and
  the JSON decoder gives back the verifier that was encoded.\<close>

definition lock_primitives :: "'k lock_env \<Rightarrow> string \<Rightarrow> bytes \<Rightarrow> bool" where
  "lock_primitives env pin bs \<longleftrightarrow>
     (\<forall>key. le_kdf env pin (salt_of bs) pbkdf2_iterations key_len = Some key \<longrightarrow>
        length key = key_len
        \<and> le_unmarshal env (marshal_verifier (new_verifier (salt_of bs) key)) = Some (new_verifier (salt_of bs) key))"

lemma set_pin_ok:
  assumes "set_pin env rnd pin s = (Inr (), s')"
  obtains bs key k where "rnd = Some bs" "valid_pin pin"
    "le_kdf env pin (salt_of bs) pbkdf2_iterations key_len = Some key"
    "ks_store (le_ops env) verifier_alias (marshal_verifier (new_verifier (salt_of bs) key)) (lm_ks s) = (Inr (), k)"
    "clear_lockout (s\<lparr>lm_ks := k\<rparr>) = (Inr (), s')"
proof -
  from assms obtain bs where bs: "rnd = Some bs" "valid_pin pin"
    by (auto simp: set_pin_def split: if_splits option.splits)
  from assms bs obtain key where key: "le_kdf env pin (salt_of bs) pbkdf2_iterations key_len = Some key"
    by (auto simp: set_pin_def salt_of_def Let_def split: option.splits)
  let ?blob = "marshal_verifier (new_verifier (salt_of bs) key)"
  obtain r k where st: "ks_store (le_ops env) verifier_alias ?blob (lm_ks s) = (r, k)" by fastforce
  from assms bs key st have "r = Inr ()" "clear_lockout (s\<lparr>lm_ks := k\<rparr>) = (Inr (), s')"
    by (auto simp: set_pin_def salt_of_def new_verifier_def Let_def split: sum.splits)
  with bs key st that show thesis by blast
qed

context keystore
begin

lemma verify_after_set:
  assumes env: "le_ops env = ks" "lock_primitives env pin bs" and inv: "invar (lm_ks s)"
    and st: "set_pin env (Some bs) pin s = (Inr (), s1)"
    and ve: "verify_pin env now pin' s1 = ((ok, err), s2)"
  shows "(ok \<longrightarrow> le_kdf env pin' (salt_of bs) pbkdf2_iterations key_len
                 = le_kdf env pin (salt_of bs) pbkdf2_iterations key_len)
    \<and> (pin' = pin \<longrightarrow> ok \<or> (\<exists>e. err = Some (ErrKS e) \<and> e \<noteq> ErrKeyNotFound))"
proof -
  obtain key k where key: "le_kdf env pin (salt_of bs) pbkdf2_iterations key_len = Some key"
    and sto: "ks_store ks verifier_alias (marshal_verifier (new_verifier (salt_of bs) key)) (lm_ks s) = (Inr (), k)"
    and cl: "clear_lockout (s\<lparr>lm_ks := k\<rparr>) = (Inr (), s1)"
    using set_pin_ok [OF st] env(1) by (metis option.inject)
  let ?v = "new_verifier (salt_of bs) key"
  have k1: "lm_ks s1 = k" using clear_lockout_ks [OF cl] by simp
  obtain delay s1' where rd: "retry_delay now s1 = (delay, s1')" by fastforce
  have "delay_of now (lm_db s1) = 0" using clear_lockout_ok(2) [OF cl] by (simp add: delay_of_def)
  then have delay: "delay = 0" and k1': "lm_ks s1' = k" using retry_delay_cases [OF rd] k1 by auto
  obtain r k' where f: "ks_fetch ks verifier_alias k = (r, k')" by fastforce
  have fetch: "r = Inr (marshal_verifier ?v) \<or> (\<exists>e. r = Inl e \<and> e \<noteq> ErrKeyNotFound)"
    using fetch_after_store [OF inv sto f] .
  have v: "le_unmarshal env (marshal_verifier ?v) = Some ?v" "length key = key_len"
    using env(2) key by (auto simp: lock_primitives_def)
  have nz: "pbkdf2_iterations > 0" "length (salt_of bs) = salt_len" "salt_len > 0" "key_len > 0"
    by (simp_all add: pbkdf2_iterations_def salt_of_def salt_len_def key_len_def)
  from fetch show ?thesis
  proof
    assume "r = Inr (marshal_verifier ?v)"
    with ve rd delay k1' f env(1) v nz key show ?thesis
      by (auto simp: verify_pin_def new_verifier_def Let_def split: option.splits if_splits prod.splits)
  next
    assume "\<exists>e. r = Inl e \<and> e \<noteq> ErrKeyNotFound"
    with ve rd delay k1' f env(1) show ?thesis by (auto simp: verify_pin_def)
  qed
qed

end

text \<open>Setting a PIN on the sealed keystore and verifying it: the PIN that was set is accepted,
  unless the keystore itself cannot be read, and nothing is accepted that does not derive the
  same key.\<close>

theorem pin_round_trip:
  assumes "le_ops env = sealed_ops" "lock_primitives env pin bs" "sealed_inv (lm_ks s)"
    and "set_pin env (Some bs) pin s = (Inr (), s1)" "verify_pin env now pin' s1 = ((ok, err), s2)"
  shows "(ok \<longrightarrow> le_kdf env pin' (salt_of bs) pbkdf2_iterations key_len
                 = le_kdf env pin (salt_of bs) pbkdf2_iterations key_len)
    \<and> (pin' = pin \<longrightarrow> ok \<or> (\<exists>e. err = Some (ErrKS e) \<and> e \<noteq> ErrKeyNotFound))"
  using assms by (rule sealed.verify_after_set)

text \<open>A PIN is accepted only against a verifier that is present, decodes, and has a positive
  iteration count, a salt and a non-empty hash equal to the derived key; a missing or corrupt
  verifier is refused with an error and without touching the counter.\<close>

theorem verify_fails_closed:
  assumes "verify_pin env now pin s = ((ok, err), s')"
  shows "(ok \<longrightarrow> (\<exists>blob v. fst (ks_fetch (le_ops env) verifier_alias (lm_ks s)) = Inr blob
        \<and> le_unmarshal env blob = Some v \<and> 0 < v_Iterations v \<and> v_Salt v \<noteq> [] \<and> v_Hash v \<noteq> []
        \<and> le_kdf env pin (v_Salt v) (v_Iterations v) (length (v_Hash v)) = Some (v_Hash v) \<and> err = None))
    \<and> (err \<in> {Some ErrVerifierCorrupt, Some ErrLockedOut} \<longrightarrow> \<not> ok \<and> setting (lm_db s') = setting (lm_db s))"
proof -
  obtain delay s0 where rd: "retry_delay now s = (delay, s0)" by fastforce
  note c = retry_delay_cases [OF rd]
  obtain r k where f: "ks_fetch (le_ops env) verifier_alias (lm_ks s) = (r, k)" by fastforce
  let ?s = "s0\<lparr>lm_ks := k\<rparr>"
  obtain rr sr where rf: "record_failure now ?s = (rr, sr)" by fastforce
  have rre: "error_of rr \<notin> {Some ErrVerifierCorrupt, Some ErrLockedOut}"
    using rf by (auto simp: record_failure_def error_of_def Let_def split: sum.splits prod.splits if_splits)
  show ?thesis
    using assms rd f c(1,2) rf rre
    by (auto simp: verify_pin_def Let_def split: if_splits sum.splits option.splits prod.splits)
qed

section \<open>The TOTP window\<close>

lemma format_nat_length: "n < 10 ^ k \<Longrightarrow> 0 < k \<Longrightarrow> length (format_nat n) \<le> k"
proof (induction k arbitrary: n)
  case (Suc k)
  show ?case
  proof (cases "n < 10")
    case True
    then show ?thesis by (subst format_nat.simps) simp
  next
    case False
    then have "0 < k" using Suc.prems(1) by (cases k) auto
    moreover have "n div 10 < 10 ^ k" using Suc.prems(1) by (simp add: less_mult_imp_div_less mult.commute)
    ultimately have "length (format_nat (n div 10)) \<le> k" using Suc.IH by simp
    with False show ?thesis by (subst format_nat.simps) simp
  qed
qed simp

lemma pad6_digits: "n < 1000000 \<Longrightarrow> length (pad6 n) = 6 \<and> list_all is_digit (pad6 n)"
proof -
  assume "n < 1000000"
  then have "length (format_nat n) \<le> 6" using format_nat_length [of n 6] by simp
  moreover have "list_all is_digit (format_nat n)" using format_nat_digits by blast
  moreover have "is_digit CHR ''0''" by (simp add: is_digit_def)
  ultimately show ?thesis by (auto simp: pad6_def list_all_iff)
qed

text \<open>A TOTP code is accepted exactly when, with blanks trimmed, it is one of the six digit codes
  of the enrolled secret for the current time step and the steps before and after; so anything
  that is not six digits is rejected.\<close>

theorem totp_window:
  assumes "db_faults (lm_db s) = []" "delay_of now (lm_db s) \<le> 0"
    and "fst (ks_fetch (le_ops env) totp_alias (lm_ks s)) = Inr key"
    and "verify_totp env now code s = ((ok, err), s')"
  shows "(ok \<longleftrightarrow> trim_space code \<in> (\<lambda>skew. hotp env key (totp_counter now skew)) ` {-1, 0, 1}) \<and> err = None
    \<and> (ok \<longrightarrow> length (trim_space code) = 6 \<and> list_all is_digit (trim_space code))"
proof -
  obtain k where f: "ks_fetch (le_ops env) totp_alias (lm_ks s) = (Inr key, k)"
    using assms(3) by (metis prod.collapse)
  let ?s = "s\<lparr>lm_ks := k\<rparr>"
  obtain d where rf: "record_failure now ?s = (Inr (), ?s\<lparr>lm_db := d\<rparr>)"
    by (rule record_failure_no_fault [of ?s now]) (use assms(1) in auto)
  obtain d' where cl: "clear_lockout ?s = (Inr (), ?s\<lparr>lm_db := d'\<rparr>)"
    by (rule clear_lockout_no_fault [of ?s]) (use assms(1) in auto)
  let ?W = "(\<lambda>skew. hotp env key (totp_counter now skew)) ` {-1, 0, 1}"
  have "(ok \<longleftrightarrow> trim_space code \<in> ?W) \<and> err = None"
    using assms(2,4) f rf cl assms(1)
    by (auto simp: verify_totp_def retry_delay_no_fault Let_def error_of_def split: if_splits)
  moreover have "h \<in> ?W \<Longrightarrow> length h = 6 \<and> list_all is_digit h" for h
    unfolding hotp_def Let_def by (auto intro!: conjunct1 [OF pad6_digits] conjunct2 [OF pad6_digits])
  ultimately show ?thesis by blast
qed

section \<open>The second factor does not slow down a guesser who knows the PIN\<close>

text \<open>The situation: an in-memory keystore with both factors enrolled, the right PIN, and a code that
  is wrong at the time of the attempts.\<close>

definition pin_known :: "memory_keystore lock_env \<Rightarrow> int \<Rightarrow> string \<Rightarrow> string \<Rightarrow> memory_keystore \<Rightarrow> bool" where
  "pin_known env t pin code m \<longleftrightarrow> le_ops env = memory_ops
     \<and> (\<exists>blob v key. m verifier_alias = Some blob \<and> le_unmarshal env blob = Some v
          \<and> 0 < v_Iterations v \<and> v_Salt v \<noteq> [] \<and> v_Hash v \<noteq> []
          \<and> le_kdf env pin (v_Salt v) (v_Iterations v) (length (v_Hash v)) = Some (v_Hash v)
          \<and> m totp_alias = Some key
          \<and> trim_space code \<notin> (\<lambda>skew. hotp env key (totp_counter t skew)) ` {-1, 0, 1})"

definition unlocked_at :: "nat \<Rightarrow> memory_keystore lockman \<Rightarrow> bool" where
  "unlocked_at n s \<longleftrightarrow> db_faults (lm_db s) = [] \<and> failures (lm_db s) = int n
     \<and> setting (lm_db s) setting_locked_until = ''''"

lemma right_pin_clears:
  assumes k: "pin_known env t pin code (lm_ks s)" and nf: "db_faults (lm_db s) = []" "delay_of t (lm_db s) \<le> 0"
  obtains s' where "try_unlock env t (TryPIN pin) s = ((True, None), s')" "unlocked_at 0 s'" "lm_ks s' = lm_ks s"
proof -
  obtain d where cl: "clear_lockout s = (Inr (), s\<lparr>lm_db := d\<rparr>)" "db_faults d = []"
    "setting d setting_failures = ''''" "setting d setting_locked_until = ''''"
    by (rule clear_lockout_no_fault [OF nf(1)])
  show thesis
  proof (rule that [of "s\<lparr>lm_db := d\<rparr>"])
    show "try_unlock env t (TryPIN pin) s = ((True, None), s\<lparr>lm_db := d\<rparr>)"
      using k nf cl
      by (auto simp: pin_known_def verify_pin_def retry_delay_no_fault memory_ops_def mem_fetch_def Let_def)
  qed (use cl in \<open>simp_all add: unlocked_at_def failures_def\<close>)
qed

lemma wrong_code_free:
  assumes k: "pin_known env t pin code (lm_ks s)" and u: "unlocked_at n s" and n: "n < 5"
  obtains s' where "try_unlock env t (TryTOTP code) s = ((False, None), s')" "unlocked_at (Suc n) s'"
    "lm_ks s' = lm_ks s"
proof -
  have nf: "db_faults (lm_db s) = []" using u by (simp add: unlocked_at_def)
  obtain d where rf: "record_failure t s = (Inr (), s\<lparr>lm_db := d\<rparr>)" "db_faults d = []"
    "failures d = wrap64 (failures (lm_db s) + 1)"
    "setting d setting_locked_until =
       (if lockout_after (failures d) > 0 then itoa (unix_sec (t + lockout_after (failures d)))
        else setting (lm_db s) setting_locked_until)"
    by (rule record_failure_no_fault [OF nf])
  have f: "failures d = int (Suc n)" using rf(3) u n by (simp add: unlocked_at_def)
  then have "lockout_after (failures d) = 0" using n by (simp add: lockout_after_steps)
  with rf f u have u': "unlocked_at (Suc n) (s\<lparr>lm_db := d\<rparr>)" by (simp add: unlocked_at_def)
  show thesis
  proof (rule that [of "s\<lparr>lm_db := d\<rparr>"])
    show "try_unlock env t (TryTOTP code) s = ((False, None), s\<lparr>lm_db := d\<rparr>)"
      using k nf u rf(1)
      by (auto simp: pin_known_def verify_totp_def retry_delay_no_fault memory_ops_def mem_fetch_def
          Let_def delay_of_def unlocked_at_def error_of_def)
  qed (use u' in simp_all)
qed

lemma wrong_codes_free:
  assumes "pin_known env t pin code (lm_ks s)" "unlocked_at n s" "n + j \<le> 5"
  shows "\<exists>s'. try_all env (replicate j (t, TryTOTP code)) s = (replicate j (False, None), s')
    \<and> unlocked_at (n + j) s' \<and> lm_ks s' = lm_ks s"
  using assms
proof (induction j arbitrary: s n)
  case (Suc j)
  obtain s1 where 1: "try_unlock env t (TryTOTP code) s = ((False, None), s1)" "unlocked_at (Suc n) s1"
    "lm_ks s1 = lm_ks s"
    using wrong_code_free [OF Suc.prems(1,2)] Suc.prems(3) by auto
  then obtain s2 where "try_all env (replicate j (t, TryTOTP code)) s1 = (replicate j (False, None), s2)"
    "unlocked_at (Suc n + j) s2" "lm_ks s2 = lm_ks s1"
    using Suc.IH [of s1 "Suc n"] Suc.prems by auto
  with 1 show ?case by simp
qed simp

lemma try_all_append:
  "try_all env (as @ bs) s =
     (case try_all env as s of (rs, s1) \<Rightarrow> (case try_all env bs s1 of (rs', s2) \<Rightarrow> (rs @ rs', s2)))"
  by (induction as arbitrary: s) (auto split: prod.splits)

lemma one_round:
  assumes "pin_known env t pin code (lm_ks s)" "db_faults (lm_db s) = []" "delay_of t (lm_db s) \<le> 0"
  shows "\<exists>s'. try_all env ((t, TryPIN pin) # replicate 5 (t, TryTOTP code)) s
      = ((True, None) # replicate 5 (False, None), s')
    \<and> db_faults (lm_db s') = [] \<and> delay_of t (lm_db s') \<le> 0 \<and> lm_ks s' = lm_ks s"
proof -
  obtain s1 where 1: "try_unlock env t (TryPIN pin) s = ((True, None), s1)" "unlocked_at 0 s1" "lm_ks s1 = lm_ks s"
    using right_pin_clears [OF assms] .
  obtain s2 where 2: "try_all env (replicate 5 (t, TryTOTP code)) s1 = (replicate 5 (False, None), s2)"
    "unlocked_at (0 + 5) s2" "lm_ks s2 = lm_ks s1"
    using wrong_codes_free [of env t pin code s1 0 5] 1 assms(1) by auto
  have "db_faults (lm_db s2) = []" "delay_of t (lm_db s2) \<le> 0"
    using 2(2) by (simp_all add: unlocked_at_def delay_of_def)
  with 1 2 show ?thesis by (simp del: replicate.simps replicate_Suc)
qed

text \<open>Because a right PIN clears the shared counter before the second factor is asked for, a
  guesser who knows the PIN can try codes without limit: any number of rounds of the right PIN
  followed by five wrong codes, all at one instant, are all compared and never locked out.\<close>

theorem totp_guessing_unthrottled:
  assumes "pin_known env t pin code (lm_ks s)" "db_faults (lm_db s) = []" "delay_of t (lm_db s) \<le> 0"
  shows "fst (try_all env (concat (replicate n ((t, TryPIN pin) # replicate 5 (t, TryTOTP code)))) s)
    = concat (replicate n ((True, None) # replicate 5 (False, None)))"
  using assms
proof (induction n arbitrary: s)
  case (Suc n)
  obtain s' where 1: "try_all env ((t, TryPIN pin) # replicate 5 (t, TryTOTP code)) s
      = ((True, None) # replicate 5 (False, None), s')"
    "db_faults (lm_db s') = []" "delay_of t (lm_db s') \<le> 0" "lm_ks s' = lm_ks s"
    using one_round [OF Suc.prems] by blast
  have "fst (try_all env (concat (replicate n ((t, TryPIN pin) # replicate 5 (t, TryTOTP code)))) s')
    = concat (replicate n ((True, None) # replicate 5 (False, None)))"
    using Suc.prems 1 by (intro Suc.IH) simp_all
  then show ?case
    by (simp add: try_all_append 1(1) case_prod_beta del: try_all.simps append_Cons)
qed simp

section \<open>Witnesses\<close>

definition toy_verifier :: verifier where
  "toy_verifier = \<lparr>v_Version = 1, v_Salt = ''s'', v_Iterations = 600000, v_Hash = ''1234''\<rparr>"

definition toy_env :: "memory_keystore lock_env" where
  "toy_env = \<lparr>le_ops = memory_ops, le_kdf = (\<lambda>p s i n. Some (take n (p @ replicate n CHR ''x''))),
     le_unmarshal = (\<lambda>b. if b = ''blob'' then Some toy_verifier else None),
     le_hmac = (\<lambda>k m. replicate 20 CHR 0x00)\<rparr>"

definition toy_lock :: "memory_keystore lockman" where
  "toy_lock = \<lparr>lm_ks = [verifier_alias \<mapsto> ''blob'', totp_alias \<mapsto> ''key''], lm_db = empty_db\<rparr>"

lemma toy_lock_clear [simp]:
  "db_faults (lm_db toy_lock) = []" "setting (lm_db toy_lock) k = ''''" "delay_of t (lm_db toy_lock) = 0"
  by (simp_all add: toy_lock_def empty_db_def setting_def delay_of_def)

lemma toy_hotp: "hotp toy_env key c = ''000000''"
proof -
  have hm: "le_hmac toy_env key m = replicate 20 CHR 0x00" for m by (simp add: toy_env_def)
  have "take 4 (replicate 20 CHR 0x00) = [CHR 0x00, CHR 0x00, CHR 0x00, CHR 0x00]" by (simp add: eval_nat_numeral)
  then have u: "uint32_be (replicate 20 CHR 0x00) = 0" by (simp add: uint32_be_def)
  have l: "last (replicate 20 CHR 0x00) = CHR 0x00" by simp
  have "digit_char 0 = CHR ''0''" by code_simp
  then have "format_nat 0 = ''0''" by (subst format_nat.simps) simp
  then have "pad6 0 = ''000000''" by (simp add: pad6_def eval_nat_numeral)
  then show ?thesis by (simp add: hotp_def hm u l Let_def)
qed


theorem totp_guessing_unthrottled_witness:
  "fst (try_all toy_env (concat (replicate 3 ((0, TryPIN ''1234'') # replicate 5 (0, TryTOTP ''9'')))) toy_lock)
     = concat (replicate 3 ((True, None) # replicate 5 (False, None)))"
proof -
  have "trim_space ''9'' \<noteq> ''000000''"
    by (simp add: trim_space_def trim_by_def trim_right_by_def is_space_def)
  then have "pin_known toy_env 0 ''1234'' ''9'' (lm_ks toy_lock)"
    by (auto simp: pin_known_def toy_hotp) (simp_all add: toy_env_def toy_lock_def toy_verifier_def)
  from totp_guessing_unthrottled [OF this] show ?thesis by simp
qed

theorem totp_window_witness: "\<exists>s'. verify_totp toy_env 5 '' 000000 '' toy_lock = ((True, None), s')"
proof -
  have f: "fst (ks_fetch (le_ops toy_env) totp_alias (lm_ks toy_lock)) = Inr ''key''"
    by (simp add: toy_env_def toy_lock_def memory_ops_def mem_fetch_def)
  obtain ok err s' where v: "verify_totp toy_env 5 '' 000000 '' toy_lock = ((ok, err), s')" by (metis surj_pair)
  have "trim_space '' 000000 '' = ''000000''"
    by (simp add: trim_space_def trim_by_def trim_right_by_def is_space_def)
  with totp_window [OF _ _ f v] v show ?thesis by (simp add: toy_hotp)
qed

theorem verify_fails_closed_witness:
  "\<exists>s'. verify_pin toy_env 0 ''1234'' (toy_lock\<lparr>lm_ks := [verifier_alias \<mapsto> ''junk'']\<rparr>)
       = ((False, Some ErrVerifierCorrupt), s')
     \<and> setting (lm_db s') = setting (lm_db toy_lock)"
proof -
  let ?s = "toy_lock\<lparr>lm_ks := [verifier_alias \<mapsto> ''junk'']\<rparr>"
  obtain ok err s' where v: "verify_pin toy_env 0 ''1234'' ?s = ((ok, err), s')" by (metis surj_pair)
  have "err = Some ErrVerifierCorrupt"
    using v by (simp add: verify_pin_def retry_delay_no_fault) (auto simp: toy_env_def memory_ops_def mem_fetch_def Let_def)
  with verify_fails_closed [OF v] v show ?thesis by simp
qed

definition sealed_env :: "sealed lock_env" where
  "sealed_env = \<lparr>le_ops = sealed_ops, le_kdf = (\<lambda>p s i n. Some (take n (p @ replicate n CHR ''x''))),
     le_unmarshal = (\<lambda>b. let v = new_verifier (salt_of ''salt'') (take key_len (''1234'' @ replicate key_len CHR ''x''))
                       in if b = marshal_verifier v then Some v else None),
     le_hmac = (\<lambda>k m. replicate 20 CHR 0x00)\<rparr>"

theorem pin_round_trip_witness:
  "\<exists>s1 ok err s2. set_pin sealed_env (Some ''salt'') ''1234'' \<lparr>lm_ks = toy_sealed, lm_db = empty_db\<rparr> = (Inr (), s1)
     \<and> verify_pin sealed_env 7 ''1234'' s1 = ((ok, err), s2)
     \<and> (ok \<or> (\<exists>e. err = Some (ErrKS e) \<and> e \<noteq> ErrKeyNotFound))"
proof -
  let ?s = "\<lparr>lm_ks = toy_sealed, lm_db = empty_db\<rparr>"
  have p: "lock_primitives sealed_env ''1234'' ''salt''"
    by (simp add: lock_primitives_def sealed_env_def Let_def key_len_def)
  have "fst (sealed_store a b toy_sealed) = Inr ()" for a b
    by (simp add: sealed_store_def toy_sealed_def blank_local_def master_key_def io_def rand_read_def
        persist_locked_def write_file_atomic_def rename_publish.simps Let_def eval_nat_numeral)
  then have ex: "\<exists>k. sealed_store a b toy_sealed = (Inr (), k)" for a b by (metis prod.collapse)
  define H where "H = take key_len (''1234'' @ replicate key_len CHR ''x'')"
  have kd: "le_kdf sealed_env ''1234'' (salt_of ''salt'') pbkdf2_iterations key_len = Some H"
    by (simp add: sealed_env_def H_def key_len_def)
  obtain k where k: "sealed_store verifier_alias (marshal_verifier (new_verifier (salt_of ''salt'') H)) toy_sealed
      = (Inr (), k)"
    using ex by blast
  obtain d where cl: "clear_lockout (?s\<lparr>lm_ks := k\<rparr>) = (Inr (), ?s\<lparr>lm_ks := k, lm_db := d\<rparr>)"
    by (rule clear_lockout_no_fault [of "?s\<lparr>lm_ks := k\<rparr>"]) (auto simp: empty_db_def)
  have v: "valid_pin ''1234''" by (simp add: valid_pin_def is_digit_def)
  have ops: "ks_store (le_ops sealed_env) = sealed_store" by (simp add: sealed_env_def sealed_ops_def)
  have st: "set_pin sealed_env (Some ''salt'') ''1234'' ?s = (Inr (), ?s\<lparr>lm_ks := k, lm_db := d\<rparr>)"
    unfolding set_pin_def ops salt_of_def [symmetric] using k cl v kd
    by (simp add: new_verifier_def Let_def)
  obtain ok err s2 where ve: "verify_pin sealed_env 7 ''1234'' (?s\<lparr>lm_ks := k, lm_db := d\<rparr>) = ((ok, err), s2)"
    by (metis surj_pair)
  have "le_ops sealed_env = sealed_ops" "sealed_inv (lm_ks ?s)"
    by (simp_all add: sealed_env_def toy_sealed_inv)
  from pin_round_trip [OF this(1) p this(2) st ve] st ve show ?thesis by blast
qed

end
