(* ===== verification/LockGate.thy ===== *)
theory LockGate
  imports AppLock
begin

text \<open>
  The lock gate of the user interface (\<open>ui/state/lockstate.go\<close>): the preferences loaded into
  the snapshot, locking on demand and after an idle gap, and the unlock flows by PIN, TOTP code
  and biometrics over the lock manager of \<open>AppLock\<close>. Each handler is the body of the goroutine
  it starts, so a run of the gate is a sequence of handlers; \<open>Refresh\<close> is the event
  \<open>GRefresh\<close>, which the loader serves later.
\<close>

section \<open>State\<close>

record prefs =
  p_NotificationsOn :: bool
  p_NotifyPreviewOn :: bool
  p_MotionReduced :: bool
  p_RichHTMLOn :: bool
  p_AppLockEnabled :: bool
  p_TOTPEnabled :: bool
  p_BiometricAvailable :: bool
  p_BiometricEnabled :: bool
  p_AppLockTimeout :: int

text \<open>\<open>g_wired\<close>: the lock manager is present. \<open>g_locked\<close> is both \<open>AppState.locked\<close> and
  \<open>Snapshot.Locked\<close>, which the code always sets together. \<open>g_refresh\<close> counts the reloads asked
  for, \<open>g_notices\<close> the toasts.\<close>

record 'k gate =
  g_wired :: bool
  g_locked :: bool
  g_snap :: prefs
  g_lock :: "'k lockman"
  g_refresh :: nat
  g_notices :: "string list"

definition setting_is :: "string \<Rightarrow> string \<Rightarrow> db \<Rightarrow> bool \<times> db" where
  "setting_is key v d = (case get_setting key d of (r, d') \<Rightarrow> (r = Inr v, d'))"

text \<open>\<open>loadPrefs\<close>; \<open>bio\<close> is \<open>biometric.Available()\<close>. \<open>p0\<close> is the snapshot under construction,
  whose biometric preference is off.\<close>

definition load_timeout :: "db \<Rightarrow> int \<times> db" where
  "load_timeout d =
     (case get_setting ''applock_timeout'' d of
        (r, d') \<Rightarrow>
          ((case r of
              Inl _ \<Rightarrow> 60
            | Inr v \<Rightarrow>
                if v = '''' then 60
                else (case parse_int v of Inl _ \<Rightarrow> 60 | Inr sec \<Rightarrow> if sec > 0 then sec else 60)), d'))"

definition load_prefs :: "'k lock_env \<Rightarrow> bool \<Rightarrow> 'k gate \<Rightarrow> 'k gate" where
  "load_prefs env bio g =
     (let d0 = lm_db (g_lock g);
          (notifOff, d1) = setting_is ''notifications'' ''0'' d0;
          (prevOff, d2) = setting_is ''notify_preview'' ''0'' d1;
          (reduced, d3) = setting_is ''reduce_motion'' ''1'' d2;
          (rich, d4) = setting_is ''rich_html'' ''1'' d3;
          lm0 = (g_lock g)\<lparr>lm_db := d4\<rparr>;
          (en, lm1) = (if g_wired g then lock_enabled env lm0 else (False, lm0));
          (totp, lm2) = (if g_wired g then totp_enabled env lm1 else (False, lm1));
          (bioOn, d5) = setting_is ''biometric_unlock'' ''1'' (lm_db lm2);
          (tmo, d6) = load_timeout d5
      in g\<lparr>g_snap := \<lparr>p_NotificationsOn = \<not> notifOff, p_NotifyPreviewOn = \<not> prevOff,
             p_MotionReduced = reduced, p_RichHTMLOn = rich, p_AppLockEnabled = en,
             p_TOTPEnabled = totp, p_BiometricAvailable = bio, p_BiometricEnabled = bioOn,
             p_AppLockTimeout = tmo\<rparr>,
           g_lock := lm2\<lparr>lm_db := d6\<rparr>\<rparr>)"

section \<open>Locking\<close>

definition lock_now :: "'k gate \<Rightarrow> 'k gate" where
  "lock_now g = (if \<not> g_wired g \<or> \<not> p_AppLockEnabled (g_snap g) then g else g\<lparr>g_locked := True\<rparr>)"

text \<open>\<open>MaybeAutoLock\<close>; the product of the timeout with a second is a 64-bit duration.\<close>

definition maybe_auto_lock :: "int \<Rightarrow> 'k gate \<Rightarrow> 'k gate" where
  "maybe_auto_lock gap g =
     (if \<not> g_wired g \<or> \<not> p_AppLockEnabled (g_snap g) \<or> g_locked g then g
      else (let limit = wrap64 (p_AppLockTimeout (g_snap g) * second);
                limit = (if limit < 30 * second then 30 * second else limit)
            in if gap \<ge> limit then g\<lparr>g_locked := True\<rparr> else g))"

definition unlock :: "'k gate \<Rightarrow> 'k gate" where
  "unlock g = g\<lparr>g_locked := False\<rparr>"

section \<open>Unlocking\<close>

text \<open>\<open>VerifyPIN\<close>: the answer handed to \<open>done\<close> is \<open>(ok, retryAfter, totpNext)\<close>. The verdict is
  given at \<open>now\<close>, the retry delay is read at \<open>now'\<close>.\<close>

definition gate_verify_pin ::
  "'k lock_env \<Rightarrow> int \<Rightarrow> int \<Rightarrow> string \<Rightarrow> 'k gate \<Rightarrow> (bool \<times> int \<times> bool) \<times> 'k gate" where
  "gate_verify_pin env now now' pin g =
     (case verify_pin env now pin (g_lock g) of
        ((ok, err), lm) \<Rightarrow>
          (let g1 = g\<lparr>g_lock := lm\<rparr>;
               (totpNext, g2) =
                 (if ok then
                    (case totp_enabled env (g_lock g1) of
                       (True, lm) \<Rightarrow> (True, g1\<lparr>g_lock := lm\<rparr>)
                     | (False, lm) \<Rightarrow> (False, unlock (g1\<lparr>g_lock := lm\<rparr>)))
                  else (False, g1));
               (wait, g3) =
                 (if err \<noteq> None \<or> \<not> ok
                  then (case retry_delay now' (g_lock g2) of (w, lm) \<Rightarrow> (w, g2\<lparr>g_lock := lm\<rparr>))
                  else (0, g2))
           in ((ok, wait, totpNext), g3)))"

definition gate_verify_totp ::
  "'k lock_env \<Rightarrow> int \<Rightarrow> int \<Rightarrow> string \<Rightarrow> bool \<Rightarrow> 'k gate \<Rightarrow> (bool \<times> int) \<times> 'k gate" where
  "gate_verify_totp env now now' code unlockOn g =
     (case verify_totp env now code (g_lock g) of
        ((ok, err), lm) \<Rightarrow>
          (let g1 = g\<lparr>g_lock := lm\<rparr>;
               g2 = (if ok \<and> unlockOn then unlock g1 else g1);
               (wait, g3) =
                 (if err \<noteq> None \<or> \<not> ok
                  then (case retry_delay now' (g_lock g2) of (w, lm) \<Rightarrow> (w, g2\<lparr>g_lock := lm\<rparr>))
                  else (0, g2))
           in ((ok, wait), g3)))"

text \<open>\<open>UnlockWithBiometric\<close>; \<open>auth\<close> is the answer of the system's prompt.\<close>

definition unlock_with_biometric ::
  "'k lock_env \<Rightarrow> int \<Rightarrow> bool \<Rightarrow> 'k gate \<Rightarrow> (bool \<times> bool) \<times> 'k gate" where
  "unlock_with_biometric env now auth g =
     (let snap = g_snap g
      in if \<not> g_wired g \<or> \<not> p_AppLockEnabled snap \<or> \<not> p_BiometricEnabled snap \<or> \<not> p_BiometricAvailable snap
         then ((False, False), g)
         else (case retry_delay now (g_lock g) of
           (w, lm) \<Rightarrow>
             (let g1 = g\<lparr>g_lock := lm\<rparr>
              in if w > 0 then ((False, False), g1)
                 else if auth then
                   (case totp_enabled env (g_lock g1) of
                      (True, lm) \<Rightarrow> ((True, True), g1\<lparr>g_lock := lm\<rparr>)
                    | (False, lm) \<Rightarrow> ((True, False), unlock (g1\<lparr>g_lock := lm\<rparr>)))
                 else ((False, False), g1))))"

definition biometric_unlock_ready :: "'k gate \<Rightarrow> bool" where
  "biometric_unlock_ready g \<longleftrightarrow>
     p_AppLockEnabled (g_snap g) \<and> p_BiometricEnabled (g_snap g) \<and> p_BiometricAvailable (g_snap g)"

section \<open>Enrolment and preferences\<close>

definition ask_refresh :: "'k gate \<Rightarrow> 'k gate" where
  "ask_refresh g = g\<lparr>g_refresh := g_refresh g + 1\<rparr>"

definition after_lock_op :: "(lock_error + unit) \<times> 'k lockman \<Rightarrow> 'k gate \<Rightarrow> 'k gate" where
  "after_lock_op rs g =
     (case rs of (Inl _, lm) \<Rightarrow> g\<lparr>g_lock := lm\<rparr> | (Inr _, lm) \<Rightarrow> ask_refresh (g\<lparr>g_lock := lm\<rparr>))"

definition gate_set_pin :: "'k lock_env \<Rightarrow> bytes option \<Rightarrow> string \<Rightarrow> 'k gate \<Rightarrow> 'k gate" where
  "gate_set_pin env rnd pin g = after_lock_op (set_pin env rnd pin (g_lock g)) g"

definition gate_enroll_totp :: "'k lock_env \<Rightarrow> string \<Rightarrow> 'k gate \<Rightarrow> 'k gate" where
  "gate_enroll_totp env secret g = after_lock_op (set_totp env secret (g_lock g)) g"

definition gate_remove_totp :: "'k lock_env \<Rightarrow> 'k gate \<Rightarrow> 'k gate" where
  "gate_remove_totp env g = after_lock_op (remove_totp env (g_lock g)) g"

definition gate_remove_pin :: "'k lock_env \<Rightarrow> 'k gate \<Rightarrow> 'k gate" where
  "gate_remove_pin env g =
     (let (t, lm1) = totp_enabled env (g_lock g);
          lm2 = (if t then snd (remove_totp env lm1) else lm1)
      in (case remove_pin env lm2 of
            (Inl _, lm) \<Rightarrow> g\<lparr>g_lock := lm\<rparr>
          | (Inr _, lm) \<Rightarrow> ask_refresh (g\<lparr>g_lock := lm, g_locked := False\<rparr>)))"

definition save_setting :: "string \<Rightarrow> string \<Rightarrow> 'k gate \<Rightarrow> 'k gate" where
  "save_setting key v g =
     (case set_setting key v (lm_db (g_lock g)) of
        (Inl _, d) \<Rightarrow> g\<lparr>g_lock := (g_lock g)\<lparr>lm_db := d\<rparr>, g_notices := g_notices g @ [''Could not save setting'']\<rparr>
      | (Inr _, d) \<Rightarrow> ask_refresh (g\<lparr>g_lock := (g_lock g)\<lparr>lm_db := d\<rparr>\<rparr>))"

definition bit_of :: "bool \<Rightarrow> string" where
  "bit_of b = (if b then ''1'' else ''0'')"

definition set_notifications :: "bool \<Rightarrow> 'k gate \<Rightarrow> 'k gate" where
  "set_notifications b = save_setting ''notifications'' (bit_of b)"

definition set_notify_preview :: "bool \<Rightarrow> 'k gate \<Rightarrow> 'k gate" where
  "set_notify_preview b = save_setting ''notify_preview'' (bit_of b)"

definition set_biometric :: "bool \<Rightarrow> 'k gate \<Rightarrow> 'k gate" where
  "set_biometric b = save_setting ''biometric_unlock'' (bit_of b)"

definition set_app_lock_timeout :: "int \<Rightarrow> 'k gate \<Rightarrow> 'k gate" where
  "set_app_lock_timeout sec = save_setting ''applock_timeout'' (itoa sec)"

section \<open>Runs of the gate\<close>

datatype gate_event =
    GLockNow
  | GFrame int
  | GVerifyPIN int int string
  | GVerifyTOTP int int string bool
  | GBiometric int bool
  | GSetPIN "bytes option" string
  | GEnrollTOTP string
  | GRemoveTOTP
  | GRemovePIN
  | GNotifications bool
  | GNotifyPreview bool
  | GSetBiometric bool
  | GSetTimeout int
  | GReload bool

fun gate_step :: "'k lock_env \<Rightarrow> gate_event \<Rightarrow> 'k gate \<Rightarrow> 'k gate" where
  "gate_step env GLockNow g = lock_now g"
| "gate_step env (GFrame gap) g = maybe_auto_lock gap g"
| "gate_step env (GVerifyPIN t t' pin) g = snd (gate_verify_pin env t t' pin g)"
| "gate_step env (GVerifyTOTP t t' code u) g = snd (gate_verify_totp env t t' code u g)"
| "gate_step env (GBiometric t auth) g = snd (unlock_with_biometric env t auth g)"
| "gate_step env (GSetPIN rnd pin) g = gate_set_pin env rnd pin g"
| "gate_step env (GEnrollTOTP secret) g = gate_enroll_totp env secret g"
| "gate_step env GRemoveTOTP g = gate_remove_totp env g"
| "gate_step env GRemovePIN g = gate_remove_pin env g"
| "gate_step env (GNotifications b) g = set_notifications b g"
| "gate_step env (GNotifyPreview b) g = set_notify_preview b g"
| "gate_step env (GSetBiometric b) g = set_biometric b g"
| "gate_step env (GSetTimeout sec) g = set_app_lock_timeout sec g"
| "gate_step env (GReload bio) g = load_prefs env bio g"

section \<open>Properties\<close>

lemma unlock_simps [simp]: "g_locked (unlock g) = False"
  by (simp add: unlock_def)

lemma after_lock_op_locked [simp]: "g_locked (after_lock_op rs g) = g_locked g"
  by (auto simp: after_lock_op_def ask_refresh_def split: prod.splits sum.splits)

lemma save_setting_locked [simp]: "g_locked (save_setting k v g) = g_locked g"
  by (auto simp: save_setting_def ask_refresh_def split: prod.splits sum.splits)

lemma load_prefs_locked [simp]: "g_locked (load_prefs env bio g) = g_locked g"
  by (simp add: load_prefs_def Let_def case_prod_beta)

text \<open>When the PIN handler and the biometric handler open the gate.\<close>

lemma pin_opens:
  assumes "g_locked g" "\<not> g_locked (snd (gate_verify_pin env t t' pin g))"
  shows "\<exists>err lm. verify_pin env t pin (g_lock g) = ((True, err), lm) \<and> \<not> fst (totp_enabled env lm)"
proof -
  obtain ok err lm where v: "verify_pin env t pin (g_lock g) = ((ok, err), lm)" by (metis surj_pair)
  obtain te lm' where te: "totp_enabled env lm = (te, lm')" by fastforce
  show ?thesis using assms v te
    by (cases ok; cases te)
      (auto simp: gate_verify_pin_def Let_def unlock_def split: prod.splits if_splits)
qed

lemma biometric_opens:
  assumes "g_locked g" "\<not> g_locked (snd (unlock_with_biometric env t auth g))"
  shows "auth \<and> biometric_unlock_ready g \<and> fst (retry_delay t (g_lock g)) \<le> 0
    \<and> \<not> fst (totp_enabled env (snd (retry_delay t (g_lock g))))"
proof -
  obtain w lm where r: "retry_delay t (g_lock g) = (w, lm)" by fastforce
  obtain te lm' where te: "totp_enabled env lm = (te, lm')" by fastforce
  show ?thesis using assms r te
    by (cases te)
      (auto simp: unlock_with_biometric_def Let_def unlock_def biometric_unlock_ready_def split: if_splits)
qed


text \<open>The idle lock: with the lock on, a gap between frames of at least the configured timeout, and
  never less than 30 s, locks the gate; a shorter gap leaves it as it is.\<close>

theorem auto_lock_after_timeout:
  assumes "g_wired g" "p_AppLockEnabled (g_snap g)"
    and "0 \<le> p_AppLockTimeout (g_snap g)" "p_AppLockTimeout (g_snap g) \<le> 9223372036"
  shows "g_locked (maybe_auto_lock gap g) \<longleftrightarrow>
    g_locked g \<or> max (30 * second) (p_AppLockTimeout (g_snap g) * second) \<le> gap"
proof -
  have "wrap64 (p_AppLockTimeout (g_snap g) * second) = p_AppLockTimeout (g_snap g) * second"
    using assms(3,4) by (intro wrap64_id) simp_all
  then show ?thesis using assms(1,2) by (auto simp: maybe_auto_lock_def Let_def max_def)
qed

text \<open>A second factor that cannot be read is treated as not enrolled: when the keystore answers the
  lookup of the TOTP secret with any error, a right PIN alone opens the gate, although a PIN
  verifier that cannot be read keeps it shut.\<close>

theorem unreadable_totp_fails_open:
  assumes "verify_pin env t pin (g_lock g) = ((True, None), lm)"
    and "fst (ks_fetch (le_ops env) totp_alias (lm_ks lm)) = Inl e"
  shows "\<not> g_locked (snd (gate_verify_pin env t t' pin g))"
proof -
  obtain k where "ks_fetch (le_ops env) totp_alias (lm_ks lm) = (Inl e, k)"
    using assms(2) by (metis prod.collapse)
  then show ?thesis using assms(1) by (simp add: gate_verify_pin_def totp_enabled_def Let_def unlock_def)
qed

section \<open>Witnesses\<close>

definition toy_prefs :: prefs where
  "toy_prefs = \<lparr>p_NotificationsOn = True, p_NotifyPreviewOn = True, p_MotionReduced = False,
     p_RichHTMLOn = False, p_AppLockEnabled = True, p_TOTPEnabled = True, p_BiometricAvailable = True,
     p_BiometricEnabled = False, p_AppLockTimeout = 60\<rparr>"

definition toy_gate :: "memory_keystore gate" where
  "toy_gate = \<lparr>g_wired = True, g_locked = True, g_snap = toy_prefs, g_lock = toy_lock,
     g_refresh = 0, g_notices = []\<rparr>"

lemma toy_totp_opens: "\<exists>s'. verify_totp toy_env 5 ''000000'' toy_lock = ((True, None), s')"
proof -
  have f: "ks_fetch (le_ops toy_env) totp_alias (lm_ks toy_lock) = (Inr ''key'', lm_ks toy_lock)"
    by (simp add: toy_env_def toy_lock_def memory_ops_def mem_fetch_def)
  obtain d where "clear_lockout toy_lock = (Inr (), toy_lock\<lparr>lm_db := d\<rparr>)"
    by (rule clear_lockout_no_fault [of toy_lock]) auto
  moreover have "trim_space ''000000'' = ''000000''"
    by (simp add: trim_space_def trim_by_def trim_right_by_def is_space_def)
  ultimately show ?thesis using f
    by (simp add: verify_totp_def retry_delay_no_fault toy_hotp Let_def)
qed


theorem auto_lock_after_timeout_witness:
  "g_locked (maybe_auto_lock (61 * second) (toy_gate\<lparr>g_locked := False\<rparr>))
   \<and> \<not> g_locked (maybe_auto_lock (59 * second) (toy_gate\<lparr>g_locked := False\<rparr>))"
proof -
  have a: "g_wired (toy_gate\<lparr>g_locked := False\<rparr>)" "p_AppLockEnabled (g_snap (toy_gate\<lparr>g_locked := False\<rparr>))"
    "0 \<le> p_AppLockTimeout (g_snap (toy_gate\<lparr>g_locked := False\<rparr>))"
    "p_AppLockTimeout (g_snap (toy_gate\<lparr>g_locked := False\<rparr>)) \<le> 9223372036"
    by (simp_all add: toy_gate_def toy_prefs_def)
  show ?thesis
    using auto_lock_after_timeout [OF a, of "61 * second"] auto_lock_after_timeout [OF a, of "59 * second"]
    by (simp add: toy_gate_def toy_prefs_def)
qed

text \<open>Both factors are enrolled, and the sealed TOTP entry has become unreadable.\<close>

definition broken_totp_env :: "memory_keystore lock_env" where
  "broken_totp_env = toy_env\<lparr>le_ops := memory_ops\<lparr>ks_fetch :=
     (\<lambda>a m. if a = totp_alias then (Inl ErrUnseal, m) else mem_fetch a m)\<rparr>\<rparr>"

theorem unreadable_totp_fails_open_witness:
  "\<not> g_locked (snd (gate_verify_pin broken_totp_env 0 0 ''1234'' toy_gate))"
proof -
  obtain d where cl: "clear_lockout toy_lock = (Inr (), toy_lock\<lparr>lm_db := d\<rparr>)"
    by (rule clear_lockout_no_fault [of toy_lock]) auto
  have m: "lm_ks toy_lock verifier_alias = Some ''blob''" by (simp add: toy_lock_def)
  have v: "verify_pin broken_totp_env 0 ''1234'' (g_lock toy_gate) = ((True, None), toy_lock\<lparr>lm_db := d\<rparr>)"
    using cl m by (simp add: verify_pin_def retry_delay_no_fault toy_gate_def broken_totp_env_def toy_env_def
        memory_ops_def mem_fetch_def toy_verifier_def Let_def)
  have f: "fst (ks_fetch (le_ops broken_totp_env) totp_alias (lm_ks (toy_lock\<lparr>lm_db := d\<rparr>))) = Inl ErrUnseal"
    by (simp add: broken_totp_env_def)
  show ?thesis using unreadable_totp_fails_open [OF v f] .
qed

end
