(* ===== verification/Compose.thy ===== *)
theory Compose
  imports Smtp Pgp
begin

text \<open>
  Composing mail: the composer's fields and the draft they make (src/ui/widgets/composer.go and composer_draft.go),
  the attachment picker of src/ui/screens/compose.go, the messages \<open>BuildMIME\<close> and \<open>BuildPGPEncrypted\<close> of
  src/internal/mail/smtpsend/compose.go write, and \<open>buildOutbound\<close> of src/ui/state/actions.go, which chooses between
  plain, encrypted and signed mail. What the builders hand to the MIME library is a value of \<open>mime_out\<close>; the library,
  which turns it into bytes, is the function \<open>write\<close>.
\<close>

section \<open>Messages\<close>

datatype mime_part = Inline_part string string | Attachment_part string string bytes | Raw_part string bytes

datatype mime_out = Single_inline draft_header string string | Multipart_out draft_header string "mime_part list"

definition text_utf8 :: string where "text_utf8 = ''text/plain; charset=utf-8''"

definition attachment_out :: "attachment \<Rightarrow> mime_part" where
  "attachment_out a = Attachment_part (at_Filename a) (attachment_type a) (at_Data a)"

definition build_mime :: "draft \<Rightarrow> compose_error + mime_out" where
  "build_mime d =
     (case draft_header_of d of
        Inl e \<Rightarrow> Inl e
      | Inr h \<Rightarrow>
          Inr (if d_Attachments d = [] then Single_inline h text_utf8 (d_TextBody d)
               else Multipart_out h ''multipart/mixed'' (Inline_part text_utf8 (d_TextBody d) # map attachment_out (d_Attachments d))))"

definition build_pgp_encrypted :: "draft \<Rightarrow> bytes \<Rightarrow> compose_error + mime_out" where
  "build_pgp_encrypted d ciphertext =
     (case draft_header_of d of
        Inl e \<Rightarrow> Inl e
      | Inr h \<Rightarrow>
          Inr (Multipart_out h ''multipart/encrypted; protocol=application/pgp-encrypted''
            [Raw_part ''application/pgp-encrypted'' (''Version: 1'' @ crlf),
             Raw_part (''application/octet-stream; name='' @ [quote_char] @ ''encrypted.asc'' @ [quote_char]) ciphertext]))"

section \<open>Outbound mail\<close>

record send_options =
  so_Encrypt :: bool
  so_Sign :: bool

record out_ext =
  ox_pgp :: pgp_ext
  ox_write :: "mime_out \<Rightarrow> bytes option"
  ox_header :: "draft_header \<Rightarrow> string \<Rightarrow> bytes"
  ox_boundary :: "string option"

datatype outbound_error = OutCompose compose_error | OutWrite | OutPgp pgp_error

definition write_out :: "out_ext \<Rightarrow> compose_error + mime_out \<Rightarrow> outbound_error + bytes" where
  "write_out x r = (case r of Inl e \<Rightarrow> Inl (OutCompose e) | Inr m \<Rightarrow> (case ox_write x m of None \<Rightarrow> Inl OutWrite | Some b \<Rightarrow> Inr b))"

text \<open>Everyone the mail goes to, and the sender when the keyring has a key for him.\<close>

definition encrypt_recipients :: "keyring \<Rightarrow> draft \<Rightarrow> string list" where
  "encrypt_recipients k d = recipients d @ (if has_key_for [d_FromAddr d] k then [d_FromAddr d] else [])"

definition build_outbound :: "out_ext \<Rightarrow> keyring \<Rightarrow> draft \<Rightarrow> send_options \<Rightarrow> outbound_error + bytes" where
  "build_outbound x k d opts =
     (if \<not> so_Encrypt opts \<and> \<not> so_Sign opts then write_out x (build_mime d)
      else if so_Encrypt opts
      then (case encrypt (ox_pgp x) (d_TextBody d) (encrypt_recipients k d) (if so_Sign opts then d_FromAddr d else []) k of
              Inl e \<Rightarrow> Inl (OutPgp e)
            | Inr c \<Rightarrow> write_out x (build_pgp_encrypted d c))
      else (case canonical_signed_part d of
              Inl e \<Rightarrow> Inl (OutCompose e)
            | Inr canonical \<Rightarrow>
                (case sign (ox_pgp x) canonical (d_FromAddr d) k of
                   Inl e \<Rightarrow> Inl (OutPgp e)
                 | Inr sig \<Rightarrow>
                     (case build_pgp_signed (ox_header x) (ox_boundary x) d canonical sig of
                        Inl e \<Rightarrow> Inl (OutCompose e) | Inr b \<Rightarrow> Inr b))))"

section \<open>The composer\<close>

record composer =
  cp_to :: string
  cp_cc :: string
  cp_bcc :: string
  cp_subject :: string
  cp_body :: string
  cp_Encrypt :: bool
  cp_Sign :: bool
  cp_attachments :: "attachment list"

definition composer_reset :: composer where
  "composer_reset = \<lparr>cp_to = [], cp_cc = [], cp_bcc = [], cp_subject = [], cp_body = [], cp_Encrypt = False, cp_Sign = False,
     cp_attachments = []\<rparr>"

definition add_attachment :: "string \<Rightarrow> string \<Rightarrow> bytes \<Rightarrow> composer \<Rightarrow> composer" where
  "add_attachment name ctype data c =
     c\<lparr>cp_attachments := cp_attachments c @ [\<lparr>at_Filename = name, at_ContentType = ctype, at_Data = data\<rparr>]\<rparr>"

definition remove_attachment :: "int \<Rightarrow> composer \<Rightarrow> composer" where
  "remove_attachment i c =
     (if i \<ge> 0 \<and> i < int (length (cp_attachments c))
      then c\<lparr>cp_attachments := take (nat i) (cp_attachments c) @ drop (nat i + 1) (cp_attachments c)\<rparr> else c)"

text \<open>\<open>strings.FieldsFunc\<close>.\<close>

function fields_by :: "(char \<Rightarrow> bool) \<Rightarrow> string \<Rightarrow> string list" where
  "fields_by p s =
     (case dropWhile p s of
        [] \<Rightarrow> []
      | c # r \<Rightarrow> (c # takeWhile (\<lambda>a. \<not> p a) r) # fields_by p (dropWhile (\<lambda>a. \<not> p a) r))"
  by pat_completeness auto
termination
proof (relation "measure (length \<circ> snd)")
  show "dropWhile p s = c # r \<Longrightarrow> ((p, dropWhile (\<lambda>a. \<not> p a) r), p, s) \<in> measure (length \<circ> snd)" for p s c r
    using length_dropWhile_le [of p s] length_dropWhile_le [of "\<lambda>a. \<not> p a" r] by simp
qed simp

declare fields_by.simps [simp del]

definition addr_sep :: "char \<Rightarrow> bool" where
  "addr_sep c \<longleftrightarrow> c = CHR '','' \<or> c = CHR '';'' \<or> c = CHR '' ''"

definition split_addrs :: "string \<Rightarrow> string list" where
  "split_addrs s = filter (\<lambda>f. CHR ''@'' \<in> set f) (fields_by addr_sep s)"

definition recipient_list :: "composer \<Rightarrow> string list" where
  "recipient_list c = split_addrs (cp_to c) @ split_addrs (cp_cc c) @ split_addrs (cp_bcc c)"

definition missing_key_count :: "(string \<Rightarrow> bool) option \<Rightarrow> composer \<Rightarrow> nat" where
  "missing_key_count hasKey c =
     (case hasKey of None \<Rightarrow> 0 | Some has \<Rightarrow> length (filter (\<lambda>a. \<not> has a) (recipient_list c)))"

definition composer_draft :: "string \<Rightarrow> string \<Rightarrow> composer \<Rightarrow> draft" where
  "composer_draft fromName fromAddr c =
     \<lparr>d_FromName = fromName, d_FromAddr = fromAddr, d_To = split_addrs (cp_to c), d_Cc = split_addrs (cp_cc c),
      d_Bcc = split_addrs (cp_bcc c), d_Subject = trim_space (cp_subject c), d_TextBody = cp_body c,
      d_Attachments = cp_attachments c\<rparr>"

definition prefill_reply :: "string \<Rightarrow> string \<Rightarrow> composer" where
  "prefill_reply to subject =
     composer_reset\<lparr>cp_to := to,
       cp_subject := (if subject \<noteq> [] \<and> \<not> has_prefix ''re:'' (to_lower subject) then ''Re: '' @ subject else subject)\<rparr>"

definition trim_prefix :: "string \<Rightarrow> string \<Rightarrow> string" where
  "trim_prefix p s = (if has_prefix p s then drop (length p) s else s)"

definition prefill_forward :: "string \<Rightarrow> string \<Rightarrow> string \<Rightarrow> string \<Rightarrow> string \<Rightarrow> composer" where
  "prefill_forward subject fromName fromAddr date body =
     (let subject = (if subject \<noteq> [] \<and> \<not> has_prefix ''fwd:'' (to_lower subject) then ''Fwd: '' @ subject else subject);
          sender = (if fromName = [] then fromAddr else if fromAddr \<noteq> [] then fromName @ '' <'' @ fromAddr @ ''>'' else fromName)
      in composer_reset\<lparr>cp_subject := subject,
           cp_body := lf @ lf @ ''---------- Forwarded message ----------'' @ lf @ ''From: '' @ sender @ lf
             @ (if date \<noteq> [] then ''Date: '' @ date @ lf else [])
             @ ''Subject: '' @ trim_prefix ''Fwd: '' subject @ lf @ lf @ body\<rparr>)"

definition max_attach_bytes :: nat where "max_attach_bytes = 50 * 2 ^ 20"

text \<open>What of a picked file is attached; \<open>None\<close> when nothing is.\<close>

definition picked_data :: "bytes \<Rightarrow> bool \<Rightarrow> bytes option" where
  "picked_data file ok =
     (let data = take (max_attach_bytes + 1) file
      in if \<not> ok \<or> data = [] then None
         else Some (if length data > max_attach_bytes then take max_attach_bytes data else data))"

section \<open>Properties\<close>

lemma draft_header_frame [simp]:
  "draft_header_of (d\<lparr>d_Attachments := as\<rparr>) = draft_header_of d" "draft_header_of (d\<lparr>d_TextBody := b\<rparr>) = draft_header_of d"
  by (simp_all add: draft_header_of_def cong: option.case_cong)

text \<open>Attachments reach only plain mail. An encrypted or signed message is built from the text alone, so the files the
  user attached are not sent, and the send still succeeds. The screen turns encryption on by itself whenever every
  recipient has a known key.\<close>

theorem protected_mail_drops_attachments:
  assumes "so_Encrypt opts \<or> so_Sign opts"
  shows "build_outbound x k d opts = build_outbound x k (d\<lparr>d_Attachments := []\<rparr>) opts"
proof -
  have "build_pgp_encrypted (d\<lparr>d_Attachments := []\<rparr>) c = build_pgp_encrypted d c" for c
    by (simp add: build_pgp_encrypted_def)
  moreover have "build_pgp_signed w b (d\<lparr>d_Attachments := []\<rparr>) c s = build_pgp_signed w b d c s" for w b c s
    by (simp add: build_pgp_signed_def)
  ultimately show ?thesis
    using assms
    by (auto simp: build_outbound_def encrypt_recipients_def recipients_def canonical_signed_part_def cong: sum.case_cong)
qed

lemma recipients_of_keys:
  "recipients_of emails k = Inr es \<Longrightarrow> list_all2 (\<lambda>email e. entity_by_email email k = Inr e) emails es"
proof (induction emails arbitrary: es)
  case (Cons a emails)
  then show ?case by (cases "recipients_of emails k") (auto split: sum.splits)
qed simp

text \<open>C10. Confidentiality of encrypted mail: the bytes that leave carry the text only inside what the OpenPGP library made
  of it, for exactly the recipients of the draft and the sender, each with the first key of the keyring for the address.
  Two drafts that differ in their texts give the same bytes when the library's ciphertexts agree.\<close>

theorem encrypted_mail_confidential:
  assumes "so_Encrypt opts" and "build_outbound x k d opts = Inr raw"
  shows "\<exists>es signer c h. list_all2 (\<lambda>email e. entity_by_email email k = Inr e) (encrypt_recipients k d) es
    \<and> pg_encrypt (ox_pgp x) es signer (d_TextBody d) = Some c
    \<and> draft_header_of d = Inr h \<and> build_pgp_encrypted (d\<lparr>d_TextBody := []\<rparr>) c = build_pgp_encrypted d c
    \<and> (\<exists>m. build_pgp_encrypted d c = Inr m \<and> ox_write x m = Some raw)"
proof -
  from assms obtain c where c: "encrypt (ox_pgp x) (d_TextBody d) (encrypt_recipients k d) (if so_Sign opts then d_FromAddr d else []) k = Inr c"
    "write_out x (build_pgp_encrypted d c) = Inr raw"
    by (auto simp: build_outbound_def split: sum.splits)
  from c(1) obtain es signer where "recipients_of (encrypt_recipients k d) k = Inr es" "pg_encrypt (ox_pgp x) es signer (d_TextBody d) = Some c"
    unfolding encrypt_def by (fastforce split: sum.splits option.splits if_splits)
  moreover from c(2) obtain m where m: "build_pgp_encrypted d c = Inr m" "ox_write x m = Some raw"
    by (auto simp: write_out_def split: sum.splits option.splits)
  moreover from m(1) obtain h where "draft_header_of d = Inr h" by (auto simp: build_pgp_encrypted_def split: sum.splits)
  moreover have "build_pgp_encrypted (d\<lparr>d_TextBody := []\<rparr>) c = build_pgp_encrypted d c"
    by (simp add: build_pgp_encrypted_def)
  ultimately show ?thesis by (blast dest: recipients_of_keys)
qed

section \<open>Witnesses\<close>

definition toy_out :: out_ext where
  "toy_out = \<lparr>ox_pgp = toy_pgp\<lparr>pg_ring := (\<lambda>b. Some [sample_key b ''alice@example.org'', sample_key ''M'' ''bob@bank.example'']),
     pg_public_block := (\<lambda>e. Some ''PUBLIC'')\<rparr>, ox_write = (\<lambda>_. Some plain_raw), ox_header = (\<lambda>_ _. []), ox_boundary = None\<rparr>"

definition plain_draft :: draft where
  "plain_draft = \<lparr>d_FromName = [], d_FromAddr = ''a@x'', d_To = [''b@y''], d_Cc = [], d_Bcc = [''s@z''], d_Subject = [], d_TextBody = ''hi'',
     d_Attachments = []\<rparr>"

definition secret_draft :: draft where
  "secret_draft = plain_draft\<lparr>d_To := [''alice@example.org''], d_Bcc := [],
     d_Attachments := [\<lparr>at_Filename = ''report.pdf'', at_ContentType = ''application/pdf'', at_Data = ''secret''\<rparr>]\<rparr>"

theorem protected_mail_drops_attachments_witness:
  "build_outbound toy_out toy_ring secret_draft \<lparr>so_Encrypt = True, so_Sign = False\<rparr>
     = build_outbound toy_out toy_ring (secret_draft\<lparr>d_Attachments := []\<rparr>) \<lparr>so_Encrypt = True, so_Sign = False\<rparr>"
  by (rule protected_mail_drops_attachments) simp

theorem encrypted_mail_confidential_witness:
  "\<exists>es signer c. pg_encrypt toy_pgp es signer ''hi'' = Some c \<and> length es = length (encrypt_recipients toy_ring secret_draft)"
proof -
  have "isl (build_outbound toy_out toy_ring secret_draft \<lparr>so_Encrypt = True, so_Sign = False\<rparr>) = False" by code_simp
  then obtain raw where "build_outbound toy_out toy_ring secret_draft \<lparr>so_Encrypt = True, so_Sign = False\<rparr> = Inr raw"
    by (cases "build_outbound toy_out toy_ring secret_draft \<lparr>so_Encrypt = True, so_Sign = False\<rparr>") auto
  from encrypted_mail_confidential [OF _ this] obtain es signer c where
    "list_all2 (\<lambda>email e. entity_by_email email toy_ring = Inr e) (encrypt_recipients toy_ring secret_draft) es"
    "pg_encrypt (ox_pgp toy_out) es signer (d_TextBody secret_draft) = Some c" by auto
  then have "pg_encrypt toy_pgp es signer ''hi'' = Some c" "length es = length (encrypt_recipients toy_ring secret_draft)"
    by (simp_all add: toy_out_def secret_draft_def plain_draft_def list_all2_lengthD)
  then show ?thesis by blast
qed

end
