(* ===== verification/AppData.thy ===== *)
theory AppData
  imports SyncManager LockGate ChatState Compose
begin

text \<open>
  The state behind the screens, the type \<open>AppState\<close> of src/ui/state/appstate.go with its \<open>Snapshot\<close>, and the text a
  snapshot carries for a row and for a message (src/ui/widgets/messagelist_row.go and threadview.go).

  The application owns the sync manager, the lock gate and the keyring; database and keystore are those of the
  manager, and \<open>with_gate\<close> lends them to the lock gate while one of its handlers runs. The two queues of the loader
  hold at most one request each, so they are flags. Goroutines that are started and have not run yet are the
  entries of \<open>ap_jobs\<close>, undo and commit actions of snackbars that can still run those of \<open>ap_undo\<close> and
  \<open>ap_commit\<close>, callers that wait for an account those of
  \<open>ap_waiters\<close>. Calls of the chat holder are recorded in \<open>ap_chat\<close>, in the operations of \<open>cs_run\<close>.
\<close>

section \<open>Display bodies\<close>

record message_body =
  mb_Visible :: string
  mb_Quoted :: string
  mb_HasBody :: bool
  mb_Rich :: "rich_para list"
  mb_Attachments :: "attachment_ref list"

definition em_dash :: string where "em_dash = [CHR 0xE2, CHR 0x80, CHR 0x94]"

definition row_line :: "message \<Rightarrow> string" where
  "row_line m =
     (let subject = trim_space (m_Subject m);
          subject = (if subject = [] then ''(no subject)'' else subject);
          snip = trim_space (m_Snippet m)
      in if snip \<noteq> [] then subject @ '' '' @ em_dash @ '' '' @ snip else subject)"

definition attribution_line :: "string \<Rightarrow> bool" where
  "attribution_line trimmed \<longleftrightarrow> has_suffix '':'' trimmed \<and> (has_prefix ''On '' trimmed \<or> has_prefix ''Am '' trimmed)"

text \<open>The loop of \<open>splitQuoted\<close> from the last line upwards; the argument is the number of lines above.\<close>

fun quote_start :: "string list \<Rightarrow> nat \<Rightarrow> nat \<Rightarrow> nat" where
  "quote_start lines 0 start = start"
| "quote_start lines (Suc i) start =
     (let trimmed = trim_space (lines ! i)
      in if trimmed = [] \<or> quote_depth (lines ! i) > 0 then quote_start lines i i
         else if start = Suc i \<and> attribution_line trimmed then i
         else start)"

definition split_quoted :: "string \<Rightarrow> string \<times> string" where
  "split_quoted body =
     (let lines = split_on (CHR 0x0A) body;
          start = quote_start lines (length lines) (length lines)
      in if start \<ge> length lines then (body, [])
         else (let visible = trim_space (join_with [CHR 0x0A] (take start lines));
                   quoted = trim_space (join_with [CHR 0x0A] (drop start lines))
               in if visible = [] then (quoted, []) else (visible, quoted)))"

text \<open>The tokenizer and the tree parser of HTML and the decoder of the attachment list are outside.\<close>

record body_ext =
  bx_tokens :: "string \<Rightarrow> html_token list"
  bx_lit :: "string \<Rightarrow> string option"
  bx_parse :: "string \<Rightarrow> html_node list option"
  bx_refs :: "string \<Rightarrow> attachment_ref list option"

definition parse_message_body :: "body_ext \<Rightarrow> message \<Rightarrow> bool \<Rightarrow> message_body" where
  "parse_message_body x m rich =
     (let (visible, quoted) = split_quoted (display_text (bx_tokens x) (m_BodyText m) (m_BodyHTML m))
      in \<lparr>mb_Visible = visible, mb_Quoted = quoted, mb_HasBody = (visible \<noteq> [] \<or> quoted \<noteq> []),
          mb_Rich = (if rich \<and> trim_space (m_BodyText m) = [] \<and> trim_space (m_BodyHTML m) \<noteq> []
                     then rich_paragraphs (sanitize_html (bx_lit x) (bx_parse x) (m_BodyHTML m)) else []),
          mb_Attachments = (if m_Attachments m \<noteq> [] then case bx_refs x (m_Attachments m) of Some rs \<Rightarrow> rs | None \<Rightarrow> [] else [])\<rparr>)"

section \<open>The state\<close>

record snapshot =
  sp_Accounts :: "account list"
  sp_Folders :: "folder list"
  sp_Unread :: "int \<rightharpoonup> nat"
  sp_CurrentFolder :: "folder option"
  sp_Messages :: "message list"
  sp_Thread :: "message list"
  sp_ThreadBodies :: "int \<rightharpoonup> message_body"
  sp_SearchResults :: "message list"
  sp_RowText :: "int \<rightharpoonup> string"
  sp_Online :: bool
  sp_SyncDone :: nat
  sp_SyncTotal :: nat
  sp_ManualSyncing :: bool
  sp_AuthError :: bool
  sp_PGPKeys :: "pgp_key list"
  sp_PGPKeyDirURL :: string
  sp_AutoWKD :: bool
  sp_SelectedAccount :: int

text \<open>The preferences and the lock flag of the snapshot are those of the gate. \<open>sp_CurrentFolder\<close> is \<open>None\<close> for the
  zero value.\<close>

definition empty_snapshot :: snapshot where
  "empty_snapshot = \<lparr>sp_Accounts = [], sp_Folders = [], sp_Unread = Map.empty, sp_CurrentFolder = None, sp_Messages = [],
     sp_Thread = [], sp_ThreadBodies = Map.empty, sp_SearchResults = [], sp_RowText = Map.empty, sp_Online = False,
     sp_SyncDone = 0, sp_SyncTotal = 0, sp_ManualSyncing = False, sp_AuthError = False, sp_PGPKeys = [],
     sp_PGPKeyDirURL = [], sp_AutoWKD = False, sp_SelectedAccount = 0\<rparr>"

text \<open>What the loader goroutine has taken from its queues and not finished: the selection it read.\<close>

datatype load = Load_all int int string string | Load_search int string

datatype job = DiscoverContacts | ImportPrivate string string

record 'k core =
  ap_mgr :: "'k manager"
  ap_gate :: "'k gate"
  ap_keyring :: keyring
  ap_snap :: snapshot
  ap_refresh :: bool
  ap_jobs :: "job list"
  ap_notes :: "string list"
  ap_chat :: "cs_op list"
  ap_requests :: "request list"
  ap_trace :: "cmd list"

record 'k app = "'k core" +
  ap_selAccount :: int
  ap_selFolder :: int
  ap_selThread :: string
  ap_searchQuery :: string
  ap_searchQueue :: bool
  ap_searchTimer :: bool
  ap_refetching :: "int \<Rightarrow> bool"
  ap_refetched :: "int \<Rightarrow> bool"
  ap_autoWKD :: bool
  ap_lastAutoWKD :: "int option"
  ap_waiters :: "nat list"
  ap_answers :: "(nat \<times> bool) list"
  ap_undo :: "int list"
  ap_commit :: "int list"
  ap_load :: "load option"

text \<open>\<open>ap_trace\<close> are the commands the manager's queue has accepted.\<close>

record 'k app_ext =
  ax_mgr :: "'k mgr_ext"
  ax_lock :: "'k lock_env"
  ax_out :: out_ext
  ax_body :: body_ext
  ax_render :: "url \<Rightarrow> string \<Rightarrow> string option \<Rightarrow> string"
  ax_directory :: "bytes \<Rightarrow> (string \<times> string) list option"
  ax_fts :: "string \<Rightarrow> (message \<Rightarrow> int option) option"
  ax_morning :: "int \<Rightarrow> int"

abbreviation ax_pgp :: "'k app_ext \<Rightarrow> pgp_ext" where "ax_pgp x \<equiv> ox_pgp (ax_out x)"

abbreviation ap_db :: "'k app \<Rightarrow> db" where "ap_db s \<equiv> w_db (ap_mgr s)"
abbreviation ap_ks :: "'k app \<Rightarrow> 'k" where "ap_ks s \<equiv> g_ks (ap_mgr s)"

definition app_notify :: "string \<Rightarrow> 'k app \<Rightarrow> 'k app" where
  "app_notify msg s = s\<lparr>ap_notes := ap_notes s @ [msg]\<rparr>"

definition app_refresh :: "'k app \<Rightarrow> 'k app" where
  "app_refresh s = s\<lparr>ap_refresh := True\<rparr>"

definition set_db :: "db \<Rightarrow> 'k app \<Rightarrow> 'k app" where
  "set_db d s = s\<lparr>ap_mgr := (ap_mgr s)\<lparr>w_db := d\<rparr>\<rparr>"

definition set_ks :: "'k \<Rightarrow> 'k app \<Rightarrow> 'k app" where
  "set_ks k s = s\<lparr>ap_mgr := (ap_mgr s)\<lparr>g_ks := k\<rparr>\<rparr>"

definition app_db_call :: "(db \<Rightarrow> (store_error + 'a) \<times> db) \<Rightarrow> 'k app \<Rightarrow> (store_error + 'a) \<times> 'k app" where
  "app_db_call f s = (case f (ap_db s) of (r, d) \<Rightarrow> (r, set_db d s))"

definition app_send :: "cmd \<Rightarrow> 'k app \<Rightarrow> 'k app" where
  "app_send c s =
     (case mgr_send c (ap_mgr s) of
        (True, g) \<Rightarrow> s\<lparr>ap_mgr := g, ap_trace := ap_trace s @ [c]\<rparr>
      | (False, g) \<Rightarrow> app_notify ''Busy'' (s\<lparr>ap_mgr := g\<rparr>))"

definition with_gate :: "('k gate \<Rightarrow> 'k gate) \<Rightarrow> 'k app \<Rightarrow> 'k app" where
  "with_gate f s =
     (let g = f ((ap_gate s)\<lparr>g_lock := \<lparr>lm_ks = ap_ks s, lm_db = ap_db s\<rparr>\<rparr>)
      in s\<lparr>ap_gate := g, ap_mgr := (ap_mgr s)\<lparr>w_db := lm_db (g_lock g), g_ks := lm_ks (g_lock g)\<rparr>\<rparr>)"

end
