(* ===== verification/PgpState.thy ===== *)
theory PgpState
  imports AppData
begin

text \<open>
  Keys in the application, src/ui/state/pgpstate.go, pgpstate_compose.go and decrypt.go: loading the stored keys,
  importing, discovering, synchronising, trusting and deleting them, and decrypting a conversation for display.

  Each operation is the body of the goroutine it starts. A keystore is always present, as in the application. The
  texts of the snackbars leave out the error they quote. \<open>n\<close> in the sweeps is the number of addresses after which
  their overall timeout has passed.
\<close>

section \<open>Small texts\<close>

text \<open>\<open>itoa\<close> of this package fills a buffer of eight digits from the right.\<close>

function digits_into :: "nat \<Rightarrow> string \<Rightarrow> string" where
  "digits_into n b = (if n > 0 then digits_into (n div 10) (digit_char (n mod 10) # b) else b)"
  by pat_completeness auto
termination by (relation "measure fst") auto

declare digits_into.simps [simp del]

definition small_itoa :: "nat \<Rightarrow> string" where
  "small_itoa n = (if n = 0 then ''0'' else digits_into n [])"

definition plural :: "nat \<Rightarrow> string \<Rightarrow> string" where
  "plural n noun = (if n = 1 then ''1 '' @ noun else join_with '' '' [small_itoa n, noun @ ''s''])"

lemma digits_into_eq: "0 < n \<Longrightarrow> digits_into n b = format_nat n @ b"
proof (induction n b rule: digits_into.induct)
  case (1 n b)
  then show ?case
    by (cases "n < 10") (simp_all add: digits_into.simps [of n b] digits_into.simps [of 0] format_nat.simps [of n])
qed

lemma small_itoa_eq: "small_itoa n = itoa (int n)"
proof -
  have "format_nat 0 = ''0''" by code_simp
  then show ?thesis by (simp add: small_itoa_def itoa_def digits_into_eq)
qed

section \<open>Storing keys\<close>

definition store_key_row :: "'k app_ext \<Rightarrow> int \<Rightarrow> string \<Rightarrow> string \<Rightarrow> bool \<Rightarrow> 'k app \<Rightarrow> 'k app" where
  "store_key_row x t fp armored priv s =
     (let email = (case email_for_fingerprint fp (ap_keyring s) of Inr e \<Rightarrow> e | Inl _ \<Rightarrow> [])
      in if priv
         then (case seal_private_key (e_ks (ax_mgr x)) fp armored (ap_ks s) of
                 (Inl _, k) \<Rightarrow> set_ks k s
               | (Inr _, k) \<Rightarrow> set_db (snd (upsert_pgp_key t (key_row fp email [] True) (ap_db s))) (set_ks k s))
         else set_db (snd (upsert_pgp_key t (key_row fp email armored False) (ap_db s))) s)"

definition app_import :: "'k app_ext \<Rightarrow> string \<Rightarrow> 'k app \<Rightarrow> (pgp_error + string list) \<times> 'k app" where
  "app_import x armored s =
     (case import_armored (ax_pgp x) armored (ap_keyring s) of (r, kr) \<Rightarrow> (r, s\<lparr>ap_keyring := kr\<rparr>))"

definition app_export :: "'k app_ext \<Rightarrow> string \<Rightarrow> 'k app \<Rightarrow> pgp_error + string" where
  "app_export x fp s = export_public_armored (ax_pgp x) fp (ap_keyring s)"

definition persist_keyring :: "'k app_ext \<Rightarrow> int \<Rightarrow> string list \<Rightarrow> string \<Rightarrow> 'k app \<Rightarrow> 'k app" where
  "persist_keyring x t fps armored s =
     (let priv = is_private_armored armored
      in fold (\<lambda>fp s.
           let stored = (if priv then armored else case app_export x fp s of Inr pub \<Rightarrow> pub | Inl _ \<Rightarrow> armored)
           in store_key_row x t fp stored priv s) fps s)"

definition import_pgp_key :: "'k app_ext \<Rightarrow> int \<Rightarrow> string \<Rightarrow> 'k app \<Rightarrow> 'k app" where
  "import_pgp_key x t armored s =
     (case app_import x armored s of
        (Inl _, s) \<Rightarrow> app_notify ''Key import failed'' s
      | (Inr fps, s) \<Rightarrow> app_refresh (app_notify (''Imported '' @ plural (length fps) ''key'') (persist_keyring x t fps armored s)))"

definition import_private_key :: "'k app_ext \<Rightarrow> int \<Rightarrow> string \<Rightarrow> 'k app \<Rightarrow> 'k app" where
  "import_private_key x t armored s =
     (case app_import x armored s of
        (Inl _, s) \<Rightarrow> app_notify ''Could not import your key'' s
      | (Inr fps, s) \<Rightarrow>
          app_refresh (app_notify ''Your encryption key is ready'' (fold (\<lambda>fp. store_key_row x t fp armored True) fps s)))"

section \<open>Loading at startup\<close>

definition migrate_legacy_private_key :: "'k app_ext \<Rightarrow> int \<Rightarrow> pgp_key \<Rightarrow> 'k app \<Rightarrow> 'k app" where
  "migrate_legacy_private_key x t k s =
     (case seal_private_key (e_ks (ax_mgr x)) (k_Fingerprint k) (k_Armored k) (ap_ks s) of
        (Inl _, ks) \<Rightarrow> set_ks ks s
      | (Inr _, ks) \<Rightarrow> set_db (snd (upsert_pgp_key t (k\<lparr>k_Armored := []\<rparr>) (ap_db s))) (set_ks ks s))"

definition key_material :: "'k app_ext \<Rightarrow> int \<Rightarrow> pgp_key \<Rightarrow> 'k app \<Rightarrow> string \<times> 'k app" where
  "key_material x t k s =
     (if k_IsPrivate k
      then (case open_private_key (e_ks (ax_mgr x)) (k_Fingerprint k) (ap_ks s) of
              (r, ks) \<Rightarrow>
                (case r of
                   Inr sealed \<Rightarrow>
                     if sealed \<noteq> [] then (sealed, set_ks ks s)
                     else (k_Armored k, if is_private_armored (k_Armored k) then migrate_legacy_private_key x t k (set_ks ks s) else set_ks ks s)
                 | Inl _ \<Rightarrow>
                     (k_Armored k, if is_private_armored (k_Armored k) then migrate_legacy_private_key x t k (set_ks ks s) else set_ks ks s)))
      else (k_Armored k, s))"

definition load_key :: "'k app_ext \<Rightarrow> int \<Rightarrow> pgp_key \<Rightarrow> 'k app \<Rightarrow> 'k app" where
  "load_key x t k s =
     (let (armored, s) = key_material x t k s
      in case app_import x armored s of
           (Inl _, s) \<Rightarrow> s
         | (Inr _, s) \<Rightarrow> s\<lparr>ap_keyring := snd (set_trust (k_Fingerprint k) (k_TrustLevel k) (ap_keyring s))\<rparr>)"

definition load_pgp_keys :: "'k app_ext \<Rightarrow> int \<Rightarrow> 'k app \<Rightarrow> 'k app" where
  "load_pgp_keys x t s =
     (case app_db_call list_pgp_keys s of
        (Inl _, s) \<Rightarrow> s
      | (Inr keys, s) \<Rightarrow> fold (load_key x t) keys s)"

section \<open>Discovering keys\<close>

definition wkd_lookup :: "'k app_ext \<Rightarrow> string \<Rightarrow> 'k app \<Rightarrow> (pgp_error + entity list) \<times> 'k app" where
  "wkd_lookup x email s =
     (case discover_wkd (e_http (ax_mgr x)) (ax_pgp x) email of
        (log, r) \<Rightarrow> (r, s\<lparr>ap_requests := ap_requests s @ log\<rparr>))"

text \<open>\<open>ImportEntities\<close> and the loop that stores what was found; the number is how many keys were stored.\<close>

fun store_found :: "'k app_ext \<Rightarrow> int \<Rightarrow> string list \<Rightarrow> 'k app \<Rightarrow> nat \<times> 'k app" where
  "store_found x t [] s = (0, s)"
| "store_found x t (fp # fps) s =
     (case app_export x fp s of
        Inl _ \<Rightarrow> store_found x t fps s
      | Inr armored \<Rightarrow> (let (n, s) = store_found x t fps (store_key_row x t fp armored False s) in (Suc n, s)))"

definition import_found :: "'k app_ext \<Rightarrow> int \<Rightarrow> entity list \<Rightarrow> 'k app \<Rightarrow> nat \<times> 'k app" where
  "import_found x t es s =
     (let (fps, kr) = import_entities es (ap_keyring s) in store_found x t fps (s\<lparr>ap_keyring := kr\<rparr>))"

definition discover_pgp_key :: "'k app_ext \<Rightarrow> int \<Rightarrow> string \<Rightarrow> 'k app \<Rightarrow> 'k app" where
  "discover_pgp_key x t email s =
     (case wkd_lookup x email s of
        (Inl _, s) \<Rightarrow> app_notify (''No key found for '' @ email) s
      | (Inr es, s) \<Rightarrow> app_refresh (app_notify (''Key found and imported for '' @ email) (snd (import_found x t es s))))"

fun sweep :: "'k app_ext \<Rightarrow> int \<Rightarrow> nat \<Rightarrow> string list \<Rightarrow> 'k app \<Rightarrow> nat \<times> 'k app" where
  "sweep x t 0 emails s = (0, s)"
| "sweep x t (Suc n) [] s = (0, s)"
| "sweep x t (Suc n) (email # emails) s =
     (if has_key_for [email] (ap_keyring s) then sweep x t n emails s
      else case wkd_lookup x email s of
             (Inl _, s) \<Rightarrow> sweep x t n emails s
           | (Inr es, s) \<Rightarrow>
               (let (found, s) = import_found x t es s; (rest, s) = sweep x t n emails s in (found + rest, s)))"

definition discover_contact_keys :: "'k app_ext \<Rightarrow> int \<Rightarrow> nat \<Rightarrow> 'k app \<Rightarrow> 'k app" where
  "discover_contact_keys x t n s =
     (case app_db_call (correspondent_emails 200) s of
        (Inl _, s) \<Rightarrow> app_notify ''Could not read contacts'' s
      | (Inr emails, s) \<Rightarrow>
          (let (r, s) = app_db_call list_accounts s;
               emails = (case r of Inr accounts \<Rightarrow> map a_EmailAddress accounts @ emails | Inl _ \<Rightarrow> emails);
               (found, s) = sweep x t n emails s
           in app_refresh (app_notify (''Found '' @ plural found ''key'' @ '' via WKD'') s)))"

definition missing_keys :: "string list \<Rightarrow> 'k app \<Rightarrow> string list" where
  "missing_keys addrs s =
     filter (\<lambda>a. a \<noteq> [] \<and> \<not> has_key_for [a] (ap_keyring s)) (map trim_space addrs)"

fun fetch_missing :: "'k app_ext \<Rightarrow> int \<Rightarrow> nat \<Rightarrow> string list \<Rightarrow> 'k app \<Rightarrow> string list \<times> 'k app" where
  "fetch_missing x t n [] s = ([], s)"
| "fetch_missing x t n (email # emails) s =
     (case n of
        0 \<Rightarrow> (let (missing, s) = fetch_missing x t 0 emails s in (email # missing, s))
      | Suc n' \<Rightarrow>
          (case wkd_lookup x email s of
             (Inl _, s) \<Rightarrow> (let (missing, s) = fetch_missing x t n' emails s in (email # missing, s))
           | (Inr es, s) \<Rightarrow>
               (let s = snd (import_found x t es s); absent = \<not> has_key_for [email] (ap_keyring s);
                    (missing, s) = fetch_missing x t n' emails s
                in (if absent then email # missing else missing, s))))"

definition ensure_keys_for :: "'k app_ext \<Rightarrow> int \<Rightarrow> nat \<Rightarrow> string list \<Rightarrow> 'k app \<Rightarrow> string list \<times> 'k app" where
  "ensure_keys_for x t n addrs s =
     (let (missing, s) = fetch_missing x t n (missing_keys addrs s) s in (missing, app_refresh s))"

section \<open>The key directory\<close>

definition directory_setting :: string where "directory_setting = ''pgp_key_directory_url''"

definition set_key_directory_url :: "string \<Rightarrow> 'k app \<Rightarrow> 'k app" where
  "set_key_directory_url raw s =
     (case app_db_call (set_setting directory_setting (trim_space raw)) s of
        (Inl _, s) \<Rightarrow> app_notify ''Could not save key-directory URL'' s
      | (Inr _, s) \<Rightarrow> app_refresh (app_notify ''Key-directory URL saved'' s))"

definition store_directory_key :: "'k app_ext \<Rightarrow> int \<Rightarrow> string \<Rightarrow> string \<Rightarrow> 'k app \<Rightarrow> 'k app" where
  "store_directory_key x t raw fp s =
     (let armored = (case app_export x fp s of Inr pub \<Rightarrow> pub | Inl _ \<Rightarrow> raw) in store_key_row x t fp armored False s)"

fun import_directory :: "'k app_ext \<Rightarrow> int \<Rightarrow> (string \<times> string) list \<Rightarrow> 'k app \<Rightarrow> nat \<times> 'k app" where
  "import_directory x t [] s = (0, s)"
| "import_directory x t ((email, armored) # keys) s =
     (case app_import x armored s of
        (Inl _, s) \<Rightarrow> import_directory x t keys s
      | (Inr fps, s) \<Rightarrow>
          (let (n, s) = import_directory x t keys (fold (store_directory_key x t armored) fps s) in (length fps + n, s)))"

definition sync_from_directory :: "'k app_ext \<Rightarrow> int \<Rightarrow> 'k app \<Rightarrow> 'k app" where
  "sync_from_directory x t s =
     (case app_db_call (get_setting directory_setting) s of
        (Inl _, s) \<Rightarrow> app_notify ''Set a VayuPress key-directory URL first'' s
      | (Inr base, s) \<Rightarrow>
          if base = [] then app_notify ''Set a VayuPress key-directory URL first'' s
          else (case fetch_key_directory (e_http (ax_mgr x)) (ax_render x) (ax_directory x) base of
                  (log, Inl _) \<Rightarrow> app_notify ''Key sync failed'' (s\<lparr>ap_requests := ap_requests s @ log\<rparr>)
                | (log, Inr keys) \<Rightarrow>
                    (let (n, s) = import_directory x t keys (s\<lparr>ap_requests := ap_requests s @ log\<rparr>)
                     in app_refresh (app_notify (''Synced '' @ plural n ''key'' @ '' from VayuPress'') s))))"

section \<open>Trust, deletion and the automatic sweep\<close>

definition app_set_trust :: "string \<Rightarrow> int \<Rightarrow> 'k app \<Rightarrow> 'k app" where
  "app_set_trust fp level s =
     app_refresh (snd (app_db_call (set_pgp_trust fp level) (s\<lparr>ap_keyring := snd (set_trust fp level (ap_keyring s))\<rparr>)))"

definition app_delete_key :: "'k app_ext \<Rightarrow> string \<Rightarrow> 'k app \<Rightarrow> 'k app" where
  "app_delete_key x fp s =
     (case app_db_call (delete_pgp_key fp) s of
        (Inl _, s) \<Rightarrow> app_notify ''Could not delete key'' s
      | (Inr _, s) \<Rightarrow>
          app_refresh (app_notify ''Key deleted'' (set_ks (delete_sealed_private_key (e_ks (ax_mgr x)) fp (ap_ks s)) s)))"

definition set_auto_wkd :: "bool \<Rightarrow> 'k app \<Rightarrow> 'k app" where
  "set_auto_wkd on s =
     (let s = s\<lparr>ap_autoWKD := on, ap_lastAutoWKD := None\<rparr>;
          s = (case app_db_call (set_setting ''auto_wkd'' (if on then ''1'' else ''0'')) s of
                 (Inl _, s) \<Rightarrow> app_notify ''Could not save setting'' s
               | (Inr _, s) \<Rightarrow> app_refresh s)
      in if on then s\<lparr>ap_jobs := ap_jobs s @ [DiscoverContacts]\<rparr> else s)"

section \<open>Decrypting a conversation\<close>

definition lock_glyph :: string where "lock_glyph = [CHR 0xF0, CHR 0x9F, CHR 0x94, CHR 0x92]"

text \<open>The three notices, shortened to their first sentence.\<close>

definition no_private_key_notice :: string where
  "no_private_key_notice = lock_glyph @ '' Encrypted message. Your private key isn't on this device yet''"

definition refetching_notice :: string where
  "refetching_notice = lock_glyph @ '' Encrypted message - fetching the locked copy from your server''"

definition unreadable_notice :: string where
  "unreadable_notice = lock_glyph @ '' Encrypted message. This copy couldn't be opened on the device''"

definition is_junk_encrypted_body :: "string \<Rightarrow> bool" where
  "is_junk_encrypted_body body \<longleftrightarrow> body = [] \<or> body = ''Version: 1'' \<or> length body < 8"

definition is_encrypted_status :: "string \<Rightarrow> bool" where
  "is_encrypted_status status \<longleftrightarrow> status = ''encrypted'' \<or> status = ''signed+encrypted''"

datatype refetch_phase = RefetchIdle | RefetchInFlight | RefetchDone

definition refetch_state :: "int \<Rightarrow> 'k app \<Rightarrow> refetch_phase" where
  "refetch_state mid s =
     (if ap_refetching s mid then RefetchInFlight else if ap_refetched s mid then RefetchDone else RefetchIdle)"

definition request_refetch :: "int \<Rightarrow> int \<Rightarrow> 'k app \<Rightarrow> 'k app" where
  "request_refetch acct mid s =
     (if ap_refetching s mid \<or> ap_refetched s mid then s
      else app_send (RefetchMessageCmd acct mid) (s\<lparr>ap_refetching := (ap_refetching s)(mid := True)\<rparr>))"

definition decrypt_message :: "'k app_ext \<Rightarrow> message \<Rightarrow> 'k app \<Rightarrow> message \<times> 'k app" where
  "decrypt_message x m s =
     (if \<not> is_encrypted_status (m_PGPStatus m) then (m, s)
      else (let body = trim_space (m_BodyText m)
            in if contains_str ''BEGIN PGP MESSAGE'' body
               then (case decrypt_from (ax_pgp x) body (m_FromAddr m) (ap_keyring s) of
                       Inl _ \<Rightarrow> (m\<lparr>m_BodyText := no_private_key_notice, m_BodyHTML := []\<rparr>, s)
                     | Inr res \<Rightarrow>
                         if r_Plaintext res = [] then (m\<lparr>m_BodyText := no_private_key_notice, m_BodyHTML := []\<rparr>, s)
                         else (m\<lparr>m_BodyText := r_Plaintext res, m_BodyHTML := [], m_PGPSigVerified := r_SenderVerified res\<rparr>, s))
               else if is_junk_encrypted_body body
               then (case refetch_state (m_ID m) s of
                       RefetchIdle \<Rightarrow>
                         (m\<lparr>m_BodyText := refetching_notice, m_BodyHTML := []\<rparr>, request_refetch (m_AccountID m) (m_ID m) s)
                     | RefetchInFlight \<Rightarrow> (m\<lparr>m_BodyText := refetching_notice, m_BodyHTML := []\<rparr>, s)
                     | RefetchDone \<Rightarrow> (m\<lparr>m_BodyText := unreadable_notice, m_BodyHTML := []\<rparr>, s))
               else (m, s)))"

fun decrypt_thread :: "'k app_ext \<Rightarrow> message list \<Rightarrow> 'k app \<Rightarrow> message list \<times> 'k app" where
  "decrypt_thread x [] s = ([], s)"
| "decrypt_thread x (m # ms) s =
     (let (m', s) = decrypt_message x m s; (ms', s) = decrypt_thread x ms s in (m' # ms', s))"

end
