(* ===== verification/AppState.thy ===== *)
theory AppState
  imports PgpState
begin

text \<open>
  The application state machine, src/ui/state/appstate.go, appstate_loader.go, appstate_nav.go, actions.go and
  prefsetters.go: the fold of the manager's events, the reload of the snapshot, selection, search, sending with its
  undo window, and the other actions of the screens.

  The loader goroutine works in two steps, between which any other step can happen: it takes a request and reads the
  selection (\<open>load_begin\<close>), and it reads the store and replaces the snapshot (\<open>load_finish\<close>). The pause between two
  reloads, which only delays the first step, is not modelled, and neither are the wake-ups of the window. The full-text
  index, the local time of tomorrow morning and the availability of biometrics are arguments.
\<close>

section \<open>Selection\<close>

definition current_account :: "'k app \<Rightarrow> account option" where
  "current_account s = find (\<lambda>a. a_ID a = ap_selAccount s \<or> ap_selAccount s = 0) (sp_Accounts (ap_snap s))"

definition select_account :: "int \<Rightarrow> 'k app \<Rightarrow> 'k app" where
  "select_account i s = app_refresh (s\<lparr>ap_selAccount := i, ap_selFolder := 0\<rparr>)"

definition select_folder :: "int \<Rightarrow> 'k app \<Rightarrow> 'k app" where
  "select_folder i s =
     (let acct = ap_selAccount s; s = app_refresh (s\<lparr>ap_selFolder := i\<rparr>)
      in if i > 0 \<and> acct > 0 then app_send (SyncFolderCmd acct i) s else s)"

definition sync_now :: "'k app \<Rightarrow> 'k app" where
  "sync_now s = (case current_account s of None \<Rightarrow> s | Some a \<Rightarrow> app_send (SyncNowCmd (a_ID a)) s)"

definition open_thread :: "string \<Rightarrow> 'k app \<Rightarrow> 'k app" where
  "open_thread tid s = app_refresh (s\<lparr>ap_selThread := tid\<rparr>)"

definition set_search :: "string \<Rightarrow> 'k app \<Rightarrow> 'k app" where
  "set_search query s =
     (let changed = (ap_searchQuery s \<noteq> query);
          s = s\<lparr>ap_searchQuery := query\<rparr>;
          s = (if changed then s\<lparr>ap_searchTimer := (query \<noteq> [])\<rparr> else s)
      in if changed \<and> query = [] then s\<lparr>ap_snap := (ap_snap s)\<lparr>sp_SearchResults := []\<rparr>\<rparr> else s)"

definition search_timer :: "'k app \<Rightarrow> 'k app" where
  "search_timer s = (if ap_searchTimer s then s\<lparr>ap_searchTimer := False, ap_searchQueue := True\<rparr> else s)"

section \<open>The loader\<close>

definition unified_folder_id :: int where "unified_folder_id = -1"

definition row_texts :: "message list \<Rightarrow> int \<rightharpoonup> string" where
  "row_texts ms = fold (\<lambda>m t. t(m_ID m \<mapsto> row_line m)) ms Map.empty"

fun count_unread :: "folder list \<Rightarrow> (int \<rightharpoonup> nat) \<Rightarrow> 'k app \<Rightarrow> (int \<rightharpoonup> nat) \<times> 'k app" where
  "count_unread [] u s = (u, s)"
| "count_unread (f # fs) u s =
     (case app_db_call (unread_count (f_ID f)) s of
        (Inl _, s) \<Rightarrow> count_unread fs u s
      | (Inr n, s) \<Rightarrow> count_unread fs (u(f_ID f \<mapsto> n)) s)"

definition unified_folder :: folder where
  "unified_folder = \<lparr>f_ID = unified_folder_id, f_AccountID = 0, f_Name = ''All inboxes'', f_FullName = [], f_Delimiter = [],
     f_UIDValidity = 0, f_HighestModSeq = 0, f_IsInbox = False, f_IsSent = False, f_IsDrafts = False, f_IsTrash = False,
     f_IsArchive = False\<rparr>"

text \<open>A read whose failure ends the reload, and one whose failure leaves a default.\<close>

definition load_or_stop :: "(db \<Rightarrow> (store_error + 'a) \<times> db) \<Rightarrow> ('a \<Rightarrow> 'k app \<Rightarrow> 'k app) \<Rightarrow> 'k app \<Rightarrow> 'k app" where
  "load_or_stop f next s = (case app_db_call f s of (Inl _, s) \<Rightarrow> s | (Inr a, s) \<Rightarrow> next a s)"

definition load_or :: "'a \<Rightarrow> (db \<Rightarrow> (store_error + 'a) \<times> db) \<Rightarrow> 'k app \<Rightarrow> 'a \<times> 'k app" where
  "load_or dflt f s = (case app_db_call f s of (Inl _, s) \<Rightarrow> (dflt, s) | (Inr a, s) \<Rightarrow> (a, s))"

definition app_load_prefs :: "'k app_ext \<Rightarrow> bool \<Rightarrow> 'k app \<Rightarrow> prefs \<times> 'k app" where
  "app_load_prefs x bio s =
     (let s' = with_gate (load_prefs (ax_lock x) bio) s
      in (g_snap (ap_gate s'), s'\<lparr>ap_gate := (ap_gate s')\<lparr>g_snap := g_snap (ap_gate s)\<rparr>\<rparr>))"

definition commit :: "prefs \<Rightarrow> snapshot \<Rightarrow> 'k app \<Rightarrow> 'k app" where
  "commit p next s =
     (let old = ap_snap s
      in s\<lparr>ap_snap := next\<lparr>sp_Online := sp_Online old, sp_AuthError := sp_AuthError old, sp_SyncDone := sp_SyncDone old,
                           sp_SyncTotal := sp_SyncTotal old, sp_ManualSyncing := sp_ManualSyncing old\<rparr>,
           ap_gate := (ap_gate s)\<lparr>g_snap := p\<rparr>\<rparr>)"

text \<open>\<open>reload\<close> in its parts: the messages of the current folder, then what is read around them.\<close>

definition show_thread :: "'k app_ext \<Rightarrow> prefs \<Rightarrow> int \<Rightarrow> string \<Rightarrow> snapshot \<Rightarrow> 'k app \<Rightarrow> snapshot \<times> 'k app" where
  "show_thread x p selAccount selThread next s =
     (if selThread = [] then (next, s)
      else case app_db_call (list_thread selAccount selThread) s of
             (Inl _, s) \<Rightarrow> (next, s)
           | (Inr thread, s) \<Rightarrow>
               (let (thread, s) = decrypt_thread x thread s
                in (next\<lparr>sp_Thread := thread,
                         sp_ThreadBodies := fold (\<lambda>m b. b(m_ID m \<mapsto> parse_message_body (ax_body x) m (p_RichHTMLOn p)))
                           thread Map.empty\<rparr>, s)))"

definition show_results :: "'k app_ext \<Rightarrow> int \<Rightarrow> string \<Rightarrow> snapshot \<Rightarrow> 'k app \<Rightarrow> snapshot \<times> 'k app" where
  "show_results x selAccount query next s =
     (if query = [] then (next, s)
      else case app_db_call (search (ax_fts x) selAccount query 50) s of
             (Inl _, s) \<Rightarrow> (next, s)
           | (Inr results, s) \<Rightarrow>
               (next\<lparr>sp_SearchResults := map fst results,
                     sp_RowText := fold (\<lambda>m t. t(m_ID m \<mapsto> row_line m)) (map fst results) (sp_RowText next)\<rparr>, s))"

definition reload_tail :: "'k app_ext \<Rightarrow> prefs \<Rightarrow> int \<Rightarrow> string \<Rightarrow> string \<Rightarrow> snapshot \<Rightarrow> 'k app \<Rightarrow> 'k app" where
  "reload_tail x p selAccount selThread query next s =
     (let next = next\<lparr>sp_RowText := row_texts (sp_Messages next)\<rparr>;
          (keys, s) = load_or [] list_pgp_keys s;
          (url, s) = load_or [] (get_setting directory_setting) s;
          next = next\<lparr>sp_PGPKeys := keys, sp_PGPKeyDirURL := url, sp_SelectedAccount := selAccount, sp_AutoWKD := ap_autoWKD s\<rparr>;
          (next, s) = show_thread x p selAccount selThread next s;
          (next, s) = show_results x selAccount query next s
      in commit p next s)"

definition reload_folders :: "'k app_ext \<Rightarrow> int \<Rightarrow> prefs \<Rightarrow> account list \<Rightarrow> int \<Rightarrow> int \<Rightarrow> string \<Rightarrow> string \<Rightarrow> 'k app \<Rightarrow> 'k app" where
  "reload_folders x t p accounts selAccount selFolder selThread query =
     load_or_stop (list_folders selAccount) (\<lambda>folders s.
       let (unread, s) = count_unread folders Map.empty s;
           current = last_such (\<lambda>f. selFolder = 0 \<and> f_IsInbox f \<or> f_ID f = selFolder) folders;
           (unread, s) = (case app_db_call unified_unread_count s of
                            (Inl _, s) \<Rightarrow> (unread, s) | (Inr n, s) \<Rightarrow> (unread(unified_folder_id \<mapsto> n), s));
           next = empty_snapshot\<lparr>sp_Accounts := accounts, sp_Folders := folders, sp_Unread := unread\<rparr>;
           finish = (\<lambda>folder ms. reload_tail x p selAccount selThread query (next\<lparr>sp_CurrentFolder := folder, sp_Messages := ms\<rparr>))
       in if selFolder = unified_folder_id
          then load_or_stop (list_unified_inbox t 0 200) (finish (Some unified_folder)) s
          else case current of
                 Some f \<Rightarrow>
                   if f_ID f \<noteq> 0 then load_or_stop (list_messages t (f_ID f) 0 200) (finish current) s else finish current [] s
               | None \<Rightarrow> finish None [] s)"

definition reload :: "'k app_ext \<Rightarrow> int \<Rightarrow> bool \<Rightarrow> int \<Rightarrow> int \<Rightarrow> string \<Rightarrow> string \<Rightarrow> 'k app \<Rightarrow> 'k app" where
  "reload x t bio selAccount selFolder selThread query =
     load_or_stop list_accounts (\<lambda>accounts s.
       let (p, s) = app_load_prefs x bio s
       in if accounts = [] then commit p (empty_snapshot\<lparr>sp_Accounts := accounts\<rparr>) s
          else (let selAccount = (if selAccount = 0 then a_ID (hd accounts) else selAccount);
                    s = (case find (\<lambda>a. a_ID a = selAccount) accounts of
                           Some a \<Rightarrow> s\<lparr>ap_chat := ap_chat s @ [CsEnsure a]\<rparr> | None \<Rightarrow> s)
                in reload_folders x t p accounts selAccount selFolder selThread query s))"

definition reload_search :: "'k app_ext \<Rightarrow> int \<Rightarrow> string \<Rightarrow> 'k app \<Rightarrow> 'k app" where
  "reload_search x selAccount query s =
     (let patch = (\<lambda>ms s.
            if ap_searchQuery s = query
            then s\<lparr>ap_snap := (ap_snap s)\<lparr>sp_SearchResults := ms,
                     sp_RowText := fold (\<lambda>m t. t(m_ID m \<mapsto> row_line m)) ms (sp_RowText (ap_snap s))\<rparr>\<rparr>
            else s)
      in if query = [] then patch [] s
         else load_or_stop (search (ax_fts x) selAccount query 50) (patch \<circ> map fst) s)"

text \<open>Taking a request; the search reads the account of the snapshot when none is selected.\<close>

definition load_begin :: "bool \<Rightarrow> 'k app \<Rightarrow> 'k app" where
  "load_begin full s =
     (if ap_load s \<noteq> None then s
      else if full
      then (if ap_refresh s
            then s\<lparr>ap_refresh := False,
                   ap_load := Some (Load_all (ap_selAccount s) (ap_selFolder s) (ap_selThread s) (ap_searchQuery s))\<rparr> else s)
      else (if ap_searchQueue s
            then s\<lparr>ap_searchQueue := False,
                   ap_load := Some (Load_search (if ap_selAccount s = 0 \<and> sp_Accounts (ap_snap s) \<noteq> []
                                                 then a_ID (hd (sp_Accounts (ap_snap s))) else ap_selAccount s) (ap_searchQuery s))\<rparr> else s))"

definition load_finish :: "'k app_ext \<Rightarrow> int \<Rightarrow> bool \<Rightarrow> 'k app \<Rightarrow> 'k app" where
  "load_finish x t bio s =
     (case ap_load s of
        None \<Rightarrow> s
      | Some (Load_all acct folder thread query) \<Rightarrow> reload x t bio acct folder thread query (s\<lparr>ap_load := None\<rparr>)
      | Some (Load_search acct query) \<Rightarrow> reload_search x acct query (s\<lparr>ap_load := None\<rparr>))"

section \<open>Events\<close>

definition auto_wkd_interval :: int where "auto_wkd_interval = 10 * minute"

definition patch_snap :: "(snapshot \<Rightarrow> snapshot) \<Rightarrow> 'k app \<Rightarrow> 'k app" where
  "patch_snap f s = s\<lparr>ap_snap := f (ap_snap s)\<rparr>"

definition resolve_add_waiters :: "bool \<Rightarrow> 'k app \<Rightarrow> 'k app" where
  "resolve_add_waiters err s = s\<lparr>ap_waiters := [], ap_answers := ap_answers s @ map (\<lambda>w. (w, err)) (ap_waiters s)\<rparr>"

fun apply_sync_event :: "int \<Rightarrow> event \<Rightarrow> 'k app \<Rightarrow> 'k app" where
  "apply_sync_event t (ConnectionEvent _ online) s = patch_snap (\<lambda>n. n\<lparr>sp_Online := online\<rparr>) s"
| "apply_sync_event t (SyncProgressEvent _ i n) s = patch_snap (\<lambda>v. v\<lparr>sp_SyncDone := i, sp_SyncTotal := n\<rparr>) s"
| "apply_sync_event t (AuthErrorEvent _) s = patch_snap (\<lambda>n. n\<lparr>sp_AuthError := True\<rparr>) s"
| "apply_sync_event t (SyncStartedEvent _) s = patch_snap (\<lambda>n. n\<lparr>sp_ManualSyncing := True\<rparr>) s"
| "apply_sync_event t (SyncFinishedEvent _ _) s = app_refresh (patch_snap (\<lambda>n. n\<lparr>sp_ManualSyncing := False\<rparr>) s)"
| "apply_sync_event t (NewMessageEvent _ _ _) s =
     app_refresh
       (if ap_autoWKD s \<and> (case ap_lastAutoWKD s of None \<Rightarrow> True | Some l \<Rightarrow> t - l > auto_wkd_interval)
        then s\<lparr>ap_lastAutoWKD := Some t, ap_jobs := ap_jobs s @ [DiscoverContacts]\<rparr> else s)"
| "apply_sync_event t (SendResultEvent _ err) s = app_refresh (app_notify (if err then ''Send failed'' else ''Sent'') s)"
| "apply_sync_event t (AttachmentSavedEvent _ _ path err) s =
     app_notify (if err then ''Attachment download failed'' else ''Saved: '' @ path) s"
| "apply_sync_event t (PrivateKeyEvent _ email armored err) s =
     (if \<not> err \<and> armored \<noteq> [] then s\<lparr>ap_jobs := ap_jobs s @ [ImportPrivate armored email]\<rparr> else s)"
| "apply_sync_event t (MessageRefetchedEvent _ mid _) s =
     app_refresh (s\<lparr>ap_refetching := (ap_refetching s)(mid := False), ap_refetched := (ap_refetched s)(mid := True)\<rparr>)"
| "apply_sync_event t (CredentialUpdatedEvent _ err) s =
     app_refresh (app_notify (if err then ''Could not update password'' else ''Password updated'')
       (patch_snap (\<lambda>n. n\<lparr>sp_AuthError := False\<rparr>) s))"
| "apply_sync_event t (AccountAddedEvent _ email err) s =
     app_refresh (let s = resolve_add_waiters err s in if err then app_notify (''Could not finish setting up '' @ email) s else s)"
| "apply_sync_event t (AccountRemovedEvent aid err) s =
     (let s = app_notify (if err then ''Could not sign out'' else ''Signed out'') s;
          s = (if ap_selAccount s = aid then s\<lparr>ap_selAccount := 0, ap_selFolder := 0\<rparr> else s)
      in app_refresh (s\<lparr>ap_chat := ap_chat s @ [CsStop]\<rparr>))"
| "apply_sync_event t (FlagChangeEvent _ _ _) s = app_refresh s"
| "apply_sync_event t (FolderListEvent _ _) s = app_refresh s"

definition pump_event :: "int \<Rightarrow> 'k app \<Rightarrow> 'k app" where
  "pump_event t s =
     (case w_events (ap_mgr s) of
        [] \<Rightarrow> s
      | ev # evs \<Rightarrow> apply_sync_event t ev (s\<lparr>ap_mgr := (ap_mgr s)\<lparr>w_events := evs\<rparr>\<rparr>))"

section \<open>Adding an account\<close>

definition add_account_await :: "nat \<Rightarrow> config \<Rightarrow> bytes \<Rightarrow> 'k app \<Rightarrow> 'k app" where
  "add_account_await w cfg secret s =
     (case mgr_send (AddAccountCmd cfg secret) (ap_mgr s) of
        (True, g) \<Rightarrow> s\<lparr>ap_mgr := g, ap_trace := ap_trace s @ [AddAccountCmd cfg secret], ap_waiters := ap_waiters s @ [w]\<rparr>
      | (False, g) \<Rightarrow> s\<lparr>ap_mgr := g, ap_answers := ap_answers s @ [(w, True)]\<rparr>)"

definition await_timeout :: "nat \<Rightarrow> 'k app \<Rightarrow> 'k app" where
  "await_timeout w s =
     (if w \<in> set (ap_waiters s) then s\<lparr>ap_waiters := remove1 w (ap_waiters s), ap_answers := ap_answers s @ [(w, True)]\<rparr> else s)"

section \<open>Sending\<close>

definition enqueue_draft :: "'k app_ext \<Rightarrow> int \<Rightarrow> draft \<Rightarrow> send_options \<Rightarrow> 'k app \<Rightarrow> 'k app" where
  "enqueue_draft x t d opts s =
     (case current_account s of
        None \<Rightarrow> app_notify ''No account configured'' s
      | Some acct \<Rightarrow>
          (case build_outbound (ax_out x) (ap_keyring s) d opts of
             Inl _ \<Rightarrow> app_notify ''Could not build message'' s
           | Inr raw \<Rightarrow>
               (case app_db_call (enqueue_outbox t (a_ID acct) raw) s of
                  (Inl _, s) \<Rightarrow> app_notify ''Could not queue message'' s
                | (Inr oid, s) \<Rightarrow> s\<lparr>ap_undo := ap_undo s @ [oid], ap_commit := ap_commit s @ [oid]\<rparr>)))"

text \<open>The two actions of the snackbar. Undo takes the commit away; the expiry leaves Undo in place while the bar slides
  out.\<close>

definition undo_send :: "int \<Rightarrow> 'k app \<Rightarrow> 'k app" where
  "undo_send oid s =
     (if oid \<in> set (ap_undo s)
      then (case app_db_call (mark_outbox_sent oid) (s\<lparr>ap_undo := remove1 oid (ap_undo s), ap_commit := remove1 oid (ap_commit s)\<rparr>) of
              (Inl _, s) \<Rightarrow> app_notify ''Could not recall'' s
            | (Inr _, s) \<Rightarrow> app_notify ''Send cancelled'' s)
      else s)"

definition undo_expired :: "int \<Rightarrow> 'k app \<Rightarrow> 'k app" where
  "undo_expired oid s =
     (if oid \<in> set (ap_commit s) then app_send (SendCmd oid) (s\<lparr>ap_commit := remove1 oid (ap_commit s)\<rparr>) else s)"

text \<open>\<open>send\<close> of src/ui/screens/compose.go: the guard on missing keys and the encryption that turns itself on.\<close>

definition compose_send :: "'k app_ext \<Rightarrow> int \<Rightarrow> composer \<Rightarrow> 'k app \<Rightarrow> composer \<times> 'k app" where
  "compose_send x t c s =
     (case current_account s of
        None \<Rightarrow> (c, app_notify ''No account configured'' s)
      | Some acct \<Rightarrow>
          (let d = composer_draft (a_DisplayName acct) (a_EmailAddress acct) c
           in if cp_Encrypt c \<and> missing_keys (recipients d) s \<noteq> []
              then (c, app_notify (''Can't encrypt, no key for '' @ join_with '', '' (missing_keys (recipients d) s)) s)
              else (let auto = (\<not> cp_Encrypt c \<and> has_key_for (recipients d) (ap_keyring s));
                        c = (if auto then c\<lparr>cp_Encrypt := True\<rparr> else c);
                        s = (if auto then app_notify ''Encrypted, all recipients have keys'' s else s)
                    in (c, enqueue_draft x t d \<lparr>so_Encrypt = cp_Encrypt c, so_Sign = cp_Sign c\<rparr> s))))"

section \<open>Other actions\<close>

definition app_snooze :: "'k app_ext \<Rightarrow> int \<Rightarrow> message \<Rightarrow> 'k app \<Rightarrow> 'k app" where
  "app_snooze x t m s = app_refresh (app_notify ''Snoozed until tomorrow 8:00'' (app_send (SnoozeCmd (m_ID m) (ax_morning x t)) s))"

definition angle_char :: "char \<Rightarrow> bool" where "angle_char c \<longleftrightarrow> c = CHR ''<'' \<or> c = CHR ''>''"

fun unsubscribe_scan :: "string list \<Rightarrow> string \<times> string \<Rightarrow> string \<times> string" where
  "unsubscribe_scan [] (mailto, url) = (mailto, url)"
| "unsubscribe_scan (p # ps) (mailto, url) =
     (let part = trim_space (trim_by angle_char (trim_space p)); low = to_lower part
      in if has_prefix ''mailto:'' low \<and> mailto = []
         then (let addr = drop 7 part
               in unsubscribe_scan ps (case char_index CHR ''?'' addr of Some i \<Rightarrow> take i addr | None \<Rightarrow> addr, url))
         else if has_prefix ''https://'' low \<and> url = [] then unsubscribe_scan ps (mailto, part)
         else unsubscribe_scan ps (mailto, url))"

definition unsubscribe_targets :: "string \<Rightarrow> string \<times> string" where
  "unsubscribe_targets header = unsubscribe_scan (split_on CHR '','' header) ([], [])"

definition app_unsubscribe :: "message \<Rightarrow> 'k app \<Rightarrow> string \<times> 'k app" where
  "app_unsubscribe m s =
     (let (mailto, url) = unsubscribe_targets (m_ListUnsubscribe m)
      in if mailto \<noteq> [] then ([], app_notify ''Unsubscribe request sent'' (app_send (UnsubscribeCmd (m_ID m)) s)) else (url, s))"

definition download_attachment :: "int \<Rightarrow> int \<Rightarrow> 'k app \<Rightarrow> 'k app" where
  "download_attachment mid i s = app_notify ''Downloading attachment'' (app_send (FetchAttachmentCmd mid i) s)"

definition set_device_id :: "string \<Rightarrow> string \<Rightarrow> 'k app \<Rightarrow> 'k app" where
  "set_device_id email dev s = snd (app_db_call (set_setting (''device-id:'' @ email) dev) s)"

definition set_flag_setting :: "string \<Rightarrow> bool \<Rightarrow> 'k app \<Rightarrow> 'k app" where
  "set_flag_setting key on s =
     (case app_db_call (set_setting key (if on then ''1'' else ''0'')) s of
        (Inl _, s) \<Rightarrow> app_notify ''Could not save setting'' s
      | (Inr _, s) \<Rightarrow> app_refresh s)"

definition set_motion_reduced :: "bool \<Rightarrow> 'k app \<Rightarrow> 'k app" where
  "set_motion_reduced = set_flag_setting ''reduce_motion''"

definition set_rich_html :: "bool \<Rightarrow> 'k app \<Rightarrow> 'k app" where
  "set_rich_html = set_flag_setting ''rich_html''"

definition sync_private_key :: "int \<Rightarrow> 'k app \<Rightarrow> 'k app" where
  "sync_private_key acct s = app_send (SyncPrivateKeyCmd acct) s"

section \<open>Start and runs\<close>

definition startup :: "'k app_ext \<Rightarrow> int \<Rightarrow> 'k app \<Rightarrow> 'k app" where
  "startup x t s =
     (let s = load_pgp_keys x t s;
          s = (case app_db_call (get_setting ''auto_wkd'') s of
                 (Inl _, s) \<Rightarrow> s | (Inr v, s) \<Rightarrow> s\<lparr>ap_autoWKD := (v \<noteq> ''0'')\<rparr>)
      in with_gate (\<lambda>g. if g_wired g
           then (case lock_enabled (ax_lock x) (g_lock g) of
                   (en, lm) \<Rightarrow> if en then g\<lparr>g_lock := lm, g_locked := True, g_snap := (g_snap g)\<lparr>p_AppLockEnabled := True\<rparr>\<rparr>
                               else g\<lparr>g_lock := lm\<rparr>)
           else g) s)"

definition run_job :: "'k app_ext \<Rightarrow> int \<Rightarrow> nat \<Rightarrow> nat \<Rightarrow> 'k app \<Rightarrow> 'k app" where
  "run_job x t n i s =
     (if i < length (ap_jobs s)
      then (let s' = s\<lparr>ap_jobs := take i (ap_jobs s) @ drop (Suc i) (ap_jobs s)\<rparr>
            in case ap_jobs s ! i of
                 DiscoverContacts \<Rightarrow> discover_contact_keys x t n s'
               | ImportPrivate armored email \<Rightarrow> import_private_key x t armored s')
      else s)"

datatype app_op =
    OpStartup int
  | OpJob int nat nat
  | OpPump int
  | OpLoop
  | OpSession config int "wake list list"
  | OpScheduler int config "outbox_entry \<Rightarrow> send_ctx" int
  | OpGate gate_event
  | OpLoadBegin bool
  | OpLoadFinish int bool
  | OpImport int string
  | OpDiscover int string
  | OpEnsureKeys int nat "string list"
  | OpDirectoryURL string
  | OpDirectorySync int
  | OpTrust string int
  | OpDeleteKey string
  | OpAutoWKD bool
  | OpSelectAccount int
  | OpSelectFolder int
  | OpSyncNow
  | OpOpenThread string
  | OpSearch string
  | OpSearchTimer
  | OpAddAccount nat config bytes
  | OpAwaitTimeout nat
  | OpCompose int composer
  | OpUndo int
  | OpUndoExpired int
  | OpSnooze int message
  | OpUnsubscribe message
  | OpDownload int int
  | OpDeviceID string string
  | OpMotion bool
  | OpRich bool
  | OpSyncKey int

text \<open>A handler of the lock gate that asks for a reload asks the loader.\<close>

definition app_gate :: "'k app_ext \<Rightarrow> gate_event \<Rightarrow> 'k app \<Rightarrow> 'k app" where
  "app_gate x ev s =
     (let s' = with_gate (gate_step (ax_lock x) ev) s
      in if g_refresh (ap_gate s') \<noteq> g_refresh (ap_gate s) then app_refresh s' else s')"

definition on_mgr :: "('k manager \<Rightarrow> 'k manager) \<Rightarrow> 'k app \<Rightarrow> 'k app" where
  "on_mgr f s = s\<lparr>ap_mgr := f (ap_mgr s)\<rparr>"

fun app_step :: "'k app_ext \<Rightarrow> app_op \<Rightarrow> 'k app \<Rightarrow> 'k app" where
  "app_step x (OpStartup t) s = startup x t s"
| "app_step x (OpJob t n i) s = run_job x t n i s"
| "app_step x (OpPump t) s = pump_event t s"
| "app_step x OpLoop s = on_mgr (mgr_step (ax_mgr x) LoopStep) s"
| "app_step x (OpSession cfg aid scripts) s = on_mgr (mgr_step (ax_mgr x) (Session cfg aid scripts)) s"
| "app_step x (OpScheduler aid cfg ctx t) s = on_mgr (\<lambda>g. snd (scheduler_pass (ax_mgr x) aid cfg ctx t scheduler_base g)) s"
| "app_step x (OpGate ev) s = app_gate x ev s"
| "app_step x (OpLoadBegin full) s = load_begin full s"
| "app_step x (OpLoadFinish t bio) s = load_finish x t bio s"
| "app_step x (OpImport t armored) s = import_pgp_key x t armored s"
| "app_step x (OpDiscover t email) s = discover_pgp_key x t email s"
| "app_step x (OpEnsureKeys t n addrs) s = snd (ensure_keys_for x t n addrs s)"
| "app_step x (OpDirectoryURL raw) s = set_key_directory_url raw s"
| "app_step x (OpDirectorySync t) s = sync_from_directory x t s"
| "app_step x (OpTrust fp level) s = app_set_trust fp level s"
| "app_step x (OpDeleteKey fp) s = app_delete_key x fp s"
| "app_step x (OpAutoWKD on) s = set_auto_wkd on s"
| "app_step x (OpSelectAccount i) s = select_account i s"
| "app_step x (OpSelectFolder i) s = select_folder i s"
| "app_step x OpSyncNow s = sync_now s"
| "app_step x (OpOpenThread tid) s = open_thread tid s"
| "app_step x (OpSearch query) s = set_search query s"
| "app_step x OpSearchTimer s = search_timer s"
| "app_step x (OpAddAccount w cfg secret) s = add_account_await w cfg secret s"
| "app_step x (OpAwaitTimeout w) s = await_timeout w s"
| "app_step x (OpCompose t c) s = snd (compose_send x t c s)"
| "app_step x (OpUndo oid) s = undo_send oid s"
| "app_step x (OpUndoExpired oid) s = undo_expired oid s"
| "app_step x (OpSnooze t m) s = app_snooze x t m s"
| "app_step x (OpUnsubscribe m) s = snd (app_unsubscribe m s)"
| "app_step x (OpDownload mid i) s = download_attachment mid i s"
| "app_step x (OpDeviceID email dev) s = set_device_id email dev s"
| "app_step x (OpMotion on) s = set_motion_reduced on s"
| "app_step x (OpRich on) s = set_rich_html on s"
| "app_step x (OpSyncKey acct) s = sync_private_key acct s"

definition app_run :: "'k app_ext \<Rightarrow> app_op list \<Rightarrow> 'k app \<Rightarrow> 'k app" where
  "app_run x ops s = fold (app_step x) ops s"

text \<open>\<open>New\<close>, before its goroutine runs.\<close>

definition new_app :: "'k manager \<Rightarrow> 'k gate \<Rightarrow> 'k app" where
  "new_app g gate =
     \<lparr>ap_mgr = g, ap_gate = gate, ap_keyring = new_keyring, ap_snap = empty_snapshot\<lparr>sp_Online := True\<rparr>, ap_refresh = False,
      ap_jobs = [], ap_notes = [], ap_chat = [], ap_requests = [], ap_trace = [], ap_selAccount = 0, ap_selFolder = 0,
      ap_selThread = [], ap_searchQuery = [], ap_searchQueue = False, ap_searchTimer = False, ap_refetching = (\<lambda>_. False),
      ap_refetched = (\<lambda>_. False), ap_autoWKD = False, ap_lastAutoWKD = None, ap_waiters = [], ap_answers = [], ap_undo = [],
      ap_commit = [], ap_load = None\<rparr>"

end
