(* ===== verification/SyncLaws.thy ===== *)
theory SyncLaws
  imports ImapSync
begin

text \<open>
  Properties of \<open>internal/mail/imapsync\<close>: every action of the package keeps the integrity of the store and the
  bound of the event channel, whatever the server answers; what a folder sync stores and what it skips;
  threads; the settings message; the reconnect schedule and its end.
\<close>

section \<open>Invariants of every action\<close>

lemma keeps_reply [keeps_intros]:
  assumes "\<And>s. keeps I (f1 s)" "keeps I f2" "\<And>d. keeps I (f3 d)" "\<And>bs. keeps I (f4 bs)" "\<And>b. keeps I (f5 b)" "\<And>l. keeps I (f6 l)"
  shows "keeps I (case r of IErr s \<Rightarrow> f1 s | IOk \<Rightarrow> f2 | ISelected d \<Rightarrow> f3 d | IFetched bs \<Rightarrow> f4 bs | IBody b \<Rightarrow> f5 b | IListed l \<Rightarrow> f6 l)"
  using assms by (cases r) auto

lemma keeps_wake [keeps_intros]:
  "keeps I a \<Longrightarrow> keeps I b \<Longrightarrow> (\<And>ok n. keeps I (f ok n)) \<Longrightarrow> keeps I (case wk of IdleEnded \<Rightarrow> a | IdleFailed \<Rightarrow> b | Notified ok n \<Rightarrow> f ok n)"
  by (cases wk) auto

lemmas read_defs = list_folders_def get_folder_by_full_name_def get_folder_def get_account_def get_message_def
  folder_flags_def highest_uid_def list_accounts_def get_outbox_entry_def

text \<open>The statements the engine issues: all but the one that stores a PGP key, which only the user interface does.\<close>

fun engine_op :: "store_op \<Rightarrow> bool" where
  "engine_op (UpsertPGPKey _ _) = False"
| "engine_op _ = True"

text \<open>The contract between the actions and an invariant \<open>I\<close> of the world whose part on the store is \<open>D\<close>: every
  statement of the engine keeps \<open>D\<close>, and \<open>I\<close> allows the changes the actions make to the other fields. Inside, every action of
  the package is shown to keep \<open>I\<close>.\<close>

locale sync_invariant = guarded run_op D engine_op for D +
  fixes I :: "'x world_scheme \<Rightarrow> bool"
  assumes D_faults: "D d \<Longrightarrow> D (d\<lparr>db_faults := fs\<rparr>)"
    and I_D: "I w \<Longrightarrow> D (w_db w)"
    and I_db: "I w \<Longrightarrow> D d \<Longrightarrow> I (w\<lparr>w_db := d\<rparr>)"
    and I_emit: "I w \<Longrightarrow> I (w\<lparr>w_events := snd (try_send event_cap ev (w_events w))\<rparr>)"
    and I_io: "I w \<Longrightarrow> I (w\<lparr>w_log := l, w_replies := rs\<rparr>)"
    and I_dial: "I w \<Longrightarrow> I (w\<lparr>w_dials := ds, w_opened := n\<rparr>)"
    and I_fuse: "I w \<Longrightarrow> w_fuse w = Some (Suc k) \<Longrightarrow> I (w\<lparr>w_fuse := Some k\<rparr>)"
    and I_cancel: "I w \<Longrightarrow> I (w\<lparr>w_fuse := Some 0\<rparr>)"
begin

lemma I_log: "I w \<Longrightarrow> I (w\<lparr>w_log := l\<rparr>)"
  using I_io [of w "w_replies w" l] by simp

lemma I_dials: "I w \<Longrightarrow> I (w\<lparr>w_dials := ds\<rparr>)"
  using I_dial [of w "w_opened w" ds] by simp

lemma keeps_emit [keeps_intros]: "keeps I (emit ev)"
  by (auto simp: emit_def keeps_def modifyE_def I_emit)

lemma keeps_on_db:
  assumes "\<And>d. D d \<Longrightarrow> D (snd (stmt d))"
  shows "keeps I (on_db stmt)"
proof (rule keepsI)
  fix w assume I: "I w"
  show "I (snd (on_db stmt w))"
    using assms [OF I_D [OF I]] I by (cases "stmt (w_db w)") (auto simp: on_db_def I_db split: sum.splits)
qed

lemma keeps_op: "(\<And>d. snd (stmt d) = run_op p d) \<Longrightarrow> engine_op p \<Longrightarrow> keeps I (on_db stmt)"
  by (rule keeps_on_db) (simp add: guarded_inv)

lemma keeps_store [keeps_intros]:
  "keeps I (on_db (insert_account now a))" "keeps I (on_db (delete_account i))"
  "keeps I (on_db (upsert_folder f))" "keeps I (on_db (set_folder_sync_state i u ms))"
  "keeps I (on_db (clear_folder_messages i))" "keeps I (on_db (upsert_message m))"
  "keeps I (on_db (set_read i b))" "keeps I (on_db (set_flagged i b))"
  "keeps I (on_db (set_deleted i b))" "keeps I (on_db (set_snooze i t))"
  "keeps I (on_db (delete_local_message i))" "keeps I (on_db (update_message_flags m))"
  "keeps I (on_db (delete_messages_not_in i live))" "keeps I (on_db (mark_outbox_sent i))"
  "keeps I (on_db (mark_outbox_failed i err t))" "keeps I (on_db (enqueue_outbox now i raw))"
  by (rule keeps_op, rule run_op.simps [symmetric], simp)+

lemma sql_read_D:
  "D d \<Longrightarrow> (\<And>a e. stmt (d\<lparr>db_faults := tl (db_faults d)\<rparr>) = Inr (a, e) \<Longrightarrow> e = d\<lparr>db_faults := tl (db_faults d)\<rparr>) \<Longrightarrow>
     D (snd (sql stmt d))"
  by (auto simp: sql_def Let_def D_faults split: sum.splits prod.splits)

lemma keeps_reads [keeps_intros]:
  "keeps I (on_db (list_folders a))" "keeps I (on_db (get_folder_by_full_name a s))" "keeps I (on_db (get_folder i))"
  "keeps I (on_db (get_account i))" "keeps I (on_db (get_message i))" "keeps I (on_db (folder_flags i))"
  "keeps I (on_db (highest_uid i))" "keeps I (on_db list_accounts)" "keeps I (on_db (get_outbox_entry i))"
  unfolding read_defs by (auto intro!: keeps_on_db sql_read_D split: option.splits if_splits)

lemma I_send: "I w \<Longrightarrow> I (snd (imap_send c cmd w))"
  by (simp add: imap_send_def I_io)

lemma keeps_imap_call [keeps_intros]: "keeps I (imap_call c cmd)"
proof (rule keepsI)
  fix w assume "I w"
  moreover have "snd (imap_call c cmd w) = snd (imap_send c cmd w)"
    by (auto simp: imap_call_def Let_def case_prod_beta split: imap_reply.splits)
  ultimately show "I (snd (imap_call c cmd w))" by (simp add: I_send)
qed

lemma keeps_check_ctx [keeps_intros]: "keeps I check_ctx"
  by (auto simp: keeps_def check_ctx_def ctx_err_def I_fuse split: option.splits nat.splits)

lemma keeps_cancel_ctx [keeps_intros]: "keeps I cancel_ctx"
  by (auto simp: keeps_def cancel_ctx_def modifyE_def I_cancel)

lemma keeps_log [keeps_intros]: "keeps I (modifyE (log_cmd c cmd))"
  by (auto simp: keeps_def log_cmd_def modifyE_def I_log)

lemma keeps_close_conn [keeps_intros]: "keeps I (close_conn c)"
  unfolding close_conn_def by (rule keeps_log)

lemma I_opened: "I w \<Longrightarrow> I (log_cmd c cmd (w\<lparr>w_dials := ds, w_opened := n\<rparr>))"
  using I_log [OF I_dial] by (simp add: log_cmd_def)

lemma I_log_cmd: "I w \<Longrightarrow> I (log_cmd c cmd w)"
  by (simp add: log_cmd_def I_log)

lemma keeps_dial [keeps_intros]: "keeps I (dial cfg s)"
  by (rule keepsI)
    (auto simp: dial_def Let_def I_dials I_opened I_log_cmd
       split: list.splits dial_reply.splits option.splits auth_reply.splits)

lemmas message_action_defs = select_folder_def store_flag_def move_uid_def set_flag_uid_def delete_uid_def
  imap_append_def fetch_raw_def sync_folders_def fetch_and_attach_body_def refetch_message_def fetch_body_def

lemma keeps_message_actions [keeps_intros]:
  "keeps I (select_folder c name)"
  "keeps I (store_flag c uid flag st)"
  "keeps I (fetch_raw c uid)"
  "keeps I (imap_append c name raw flags)"
  unfolding message_action_defs by (auto intro!: keeps_intros)

lemma keeps_message_ops [keeps_intros]:
  "keeps I (move_uid c src uid dest)"
  "keeps I (set_flag_uid c name uid flag st)"
  "keeps I (delete_uid c name uid)"
  "keeps I (sync_folders c acct)"
  "keeps I (fetch_and_attach_body mx c uid msg)"
  unfolding move_uid_def set_flag_uid_def delete_uid_def sync_folders_def fetch_and_attach_body_def by (auto intro!: keeps_intros)

lemma keeps_sync_envelope [keeps_intros]: "keeps I (sync_envelope mx c acct fid highest n p)"
  unfolding sync_envelope_def by (intro keeps_intros)

lemma keeps_sync [keeps_intros]:
  "keeps I (sync_folder mx c acct f sel)"
  "keeps I (refetch_message mx c f msg)"
  "keeps I (fetch_body mx c msg)"
  "keeps I (reconcile_expunged c acct name)"
  unfolding sync_folder_def refetch_message_def fetch_body_def reconcile_expunged_def by (auto intro!: keeps_intros)

lemma keeps_refresh_flag [keeps_intros]: "keeps I (refresh_flag acct fid cached buf)"
  unfolding refresh_flag_def by (intro keeps_intros)

lemma keeps_refresh [keeps_intros]:
  "keeps I (refresh_flags c acct name)"
  "keeps I (delta_sync mx c acct name)"
  unfolding refresh_flags_def refresh_from_def delta_sync_def by (auto intro!: keeps_intros)

lemma keeps_with_close [keeps_intros]: "keeps I act \<Longrightarrow> keeps I (with_close c act)"
  unfolding with_close_def by (intro keeps_intros)

lemma keeps_notification [keeps_intros]: "keeps I (handle_notification mx c acct name n)"
  unfolding handle_notification_def by (intro keeps_intros)

lemma keeps_logout [keeps_intros]: "keeps I (logout_cancelled c)"
  unfolding logout_cancelled_def by (intro keeps_intros)

lemma keeps_loops [keeps_intros]:
  "keeps I (idle_loop mx c acct name wks)" "keeps I (poll_loop mx c acct name wks)"
  by (induction wks) (auto intro!: keeps_intros)

lemma keeps_run_session [keeps_intros]: "keeps I cred \<Longrightarrow> keeps I (run_session mx cfg cred name acct wks)"
  unfolding run_session_def folders_event_def by (intro keeps_intros)

end

definition world_inv :: "'x world_scheme \<Rightarrow> bool" where
  "world_inv w \<longleftrightarrow> db_inv (w_db w) \<and> length (w_events w) \<le> event_cap"

interpretation integrity: sync_invariant db_inv world_inv
  by unfold_locales (auto simp: world_inv_def try_send_bounded store.step_inv)

interpretation fused: sync_invariant "\<lambda>_. True" "\<lambda>w. \<exists>j \<le> k. w_fuse w = Some j" for k
  by unfold_locales auto

interpretation waited: sync_invariant "\<lambda>_. True" "\<lambda>w. w_waits w = ws" for ws
  by unfold_locales auto

section \<open>Reconnecting\<close>

lemma keeps_given [keeps_intros]: "keeps I (Pair r)"
  by (simp add: keeps_def)

lemma session_fuse:
  "w_fuse w = Some k \<Longrightarrow> \<exists>j \<le> k. w_fuse (snd (run_session mx cfg (Pair cr) name acct wks w)) = Some j"
  using fused.keeps_run_session [OF keeps_given, THEN keepsD] by blast

lemma session_waits [simp]: "w_waits (snd (run_session mx cfg (Pair cr) name acct wks w)) = w_waits w"
  by (rule waited.keeps_run_session [OF keeps_given, THEN keepsD]) simp

text \<open>One round of \<open>RunIDLE\<close> after its session: it ends, or it has waited and goes on.\<close>

definition after_session ::
  "int \<Rightarrow> int \<Rightarrow> sync_error + unit \<Rightarrow> (int \<Rightarrow> ('x world_scheme, sync_error, unit) action) \<Rightarrow> ('x world_scheme, sync_error, unit) action" where
  "after_session b acct r rest =
     seqE check_ctx (\<lambda>_.
       if r = Inl E_Auth then seqE (emit (AuthErrorEvent acct)) (\<lambda>_. failE E_Auth)
       else seqE (emit (ConnectionEvent acct False)) (\<lambda>_.
              seqE (modifyE (\<lambda>w. w\<lparr>w_waits := w_waits w @ [b]\<rparr>)) (\<lambda>_.
                seqE check_ctx (\<lambda>_. rest (next_backoff b)))))"

lemma run_idle_Cons:
  "run_idle_from b mx cfg cred name acct (wks # scripts) w =
     (let (r, v) = run_session mx cfg cred name acct wks w
      in after_session b acct r (\<lambda>b'. run_idle_from b' mx cfg cred name acct scripts) v)"
  by (simp add: after_session_def tryE_def)

lemmas round_defs = after_session_def seqE_def check_ctx_def ctx_err_def emit_def modifyE_def failE_def

lemma after_session_cases:
  obtains (ends) e where "e \<in> {E_Ctx, E_Auth}" "fst (after_session b acct r rest w) = Inl e"
      "w_waits (snd (after_session b acct r rest w)) = w_waits w"
    | (cancelled) "fst (after_session b acct r rest w) = Inl E_Ctx" "w_fuse w = Some 1"
      "w_waits (snd (after_session b acct r rest w)) = w_waits w @ [b]"
    | (goes_on) v where "after_session b acct r rest w = rest (next_backoff b) v" "w_waits v = w_waits w @ [b]"
      "w_fuse v = map_option (\<lambda>k. k - 2) (w_fuse w)" "w_fuse w = None \<or> (\<exists>k. w_fuse w = Some (Suc (Suc k)))"
proof (cases "w_fuse w")
  case None
  then show ?thesis
    using ends goes_on by (cases "r = Inl E_Auth") (auto simp: round_defs)
next
  case (Some k)
  consider "k = 0" | "k = 1" | j where "k = Suc (Suc j)"
    by (metis One_nat_def nat.exhaust)
  then show ?thesis
  proof cases
    case 1
    then show ?thesis using Some ends by (auto simp: round_defs)
  next
    case 2
    then show ?thesis using Some ends cancelled by (cases "r = Inl E_Auth") (auto simp: round_defs)
  next
    case 3
    then show ?thesis using Some ends goes_on by (cases "r = Inl E_Auth") (auto simp: round_defs)
  qed
qed

lemma next_backoff_min: "0 < b \<Longrightarrow> b \<le> 300 \<Longrightarrow> next_backoff b = min 300 (b * 2) \<and> 0 < next_backoff b \<and> next_backoff b \<le> 300"
  by (auto simp: next_backoff_def backoff_max_def)

lemma min_double: "0 < (b::int) \<Longrightarrow> b \<le> 300 \<Longrightarrow> min 300 (min 300 (b * 2) * 2 ^ i) = min 300 (b * 2 ^ Suc i)"
proof -
  assume b: "0 < b" "b \<le> 300"
  have p: "(1::int) \<le> 2 ^ i" by simp
  have big: "300 \<le> c * 2 ^ i" if "300 \<le> c" for c :: int
    using that mult_mono [OF that p] by simp
  show ?thesis
  proof (cases "b * 2 \<le> 300")
    case True
    then show ?thesis by (simp add: mult.assoc)
  next
    case False
    then show ?thesis using big [of 300] big [of "b * 2"] by (simp add: mult.assoc)
  qed
qed

lemma run_idle_from_schedule:
  "0 < b \<Longrightarrow> b \<le> 300 \<Longrightarrow>
     \<exists>n. w_waits (snd (run_idle_from b mx cfg (Pair cr) name acct scripts w)) = w_waits w @ map (\<lambda>i. min 300 (b * 2 ^ i)) [0..<n]"
proof (induction scripts arbitrary: b w)
  case Nil
  have "w_waits (snd (run_idle_from b mx cfg (Pair cr) name acct [] w)) = w_waits w"
    by (simp add: seqE_def cancel_ctx_def modifyE_def failE_def)
  then show ?case by (metis append_Nil2 list.simps(8) upt_0)
next
  case (Cons wks scripts)
  obtain r v where rv: "run_session mx cfg (Pair cr) name acct wks w = (r, v)" by fastforce
  then have v: "w_waits v = w_waits w" by (metis session_waits snd_conv)
  let ?next = "\<lambda>b'. run_idle_from b' mx cfg (Pair cr) name acct scripts"
  have run: "run_idle_from b mx cfg (Pair cr) name acct (wks # scripts) w = after_session b acct r ?next v"
    by (simp add: run_idle_Cons rv del: run_idle_from.simps)
  show ?case
  proof (cases rule: after_session_cases [of b acct r ?next v])
    case ends
    then show ?thesis using v run by (intro exI [of _ 0]) simp
  next
    case cancelled
    then show ?thesis using v run Cons.prems by (intro exI [of _ 1]) simp
  next
    case (goes_on u)
    obtain n where n: "w_waits (snd (?next (next_backoff b) u)) = w_waits u @ map (\<lambda>i. min 300 (next_backoff b * 2 ^ i)) [0..<n]"
      using Cons.IH next_backoff_min Cons.prems by meson
    have "map (\<lambda>i. min 300 (next_backoff b * 2 ^ i)) [0..<n] = map (\<lambda>i. min 300 (b * 2 ^ Suc i)) [0..<n]"
      using next_backoff_min [OF Cons.prems] min_double [OF Cons.prems] by simp
    then show ?thesis
      using goes_on(1,2) v run n Cons.prems
      by (intro exI [of _ "Suc n"]) (simp add: map_upt_Suc del: upt_Suc power_Suc)
  qed
qed

text \<open>The k-th reconnect of one RunIDLE call waits min(300, 5 * 2^k) seconds, for all servers and all sessions:
  the delay never goes back to its start after a session that worked.\<close>

theorem reconnect_schedule:
  "\<exists>n. w_waits (snd (run_idle mx cfg (Pair cr) name acct scripts w)) = w_waits w @ map (\<lambda>i. min 300 (5 * 2 ^ i)) [0..<n]"
  unfolding run_idle_def backoff_initial_def by (rule run_idle_from_schedule) simp_all

lemma run_idle_from_stops:
  "w_fuse w = Some k \<Longrightarrow> run_idle_from b mx cfg (Pair cr) name acct scripts w = (r, w') \<Longrightarrow>
     r \<in> {Inl E_Ctx, Inl E_Auth} \<and> length (w_waits w') \<le> length (w_waits w) + k"
proof (induction scripts arbitrary: b w k)
  case Nil
  then show ?case by (auto simp: seqE_def cancel_ctx_def modifyE_def failE_def)
next
  case (Cons wks scripts)
  obtain s v where sv: "run_session mx cfg (Pair cr) name acct wks w = (s, v)" by fastforce
  then have v: "w_waits v = w_waits w" by (metis session_waits snd_conv)
  obtain j where j: "j \<le> k" "w_fuse v = Some j" using session_fuse Cons.prems(1) sv by (metis snd_conv)
  let ?next = "\<lambda>b'. run_idle_from b' mx cfg (Pair cr) name acct scripts"
  have run: "after_session b acct s ?next v = (r, w')"
    using Cons.prems(2) by (simp add: run_idle_Cons sv del: run_idle_from.simps)
  show ?case
  proof (cases rule: after_session_cases [of b acct s ?next v])
    case ends
    then show ?thesis using v run by auto
  next
    case cancelled
    then show ?thesis using v run j by auto
  next
    case (goes_on u)
    then obtain i where i: "j = Suc (Suc i)" "w_fuse u = Some i" using j(2) by auto
    show ?thesis using Cons.IH [OF i(2)] goes_on(1,2) run v j(1) i(1) by fastforce
  qed
qed


section \<open>What a folder sync stores\<close>

definition folder_uids :: "db \<Rightarrow> int \<Rightarrow> nat set" where
  "folder_uids d fid = set (map m_UID (filter (\<lambda>m. m_FolderID m = fid) (db_messages d)))"

lemma fetch_world [simp]:
  "w_db (snd (fetch_and_attach_body mx c uid msg w)) = w_db w"
  by (auto simp: fetch_and_attach_body_def fetch_raw_def seqE_def imap_call_def imap_send_def retE_def failE_def Let_def
      split: list.splits imap_reply.splits option.splits)

definition same_key :: "message \<Rightarrow> message \<Rightarrow> bool" where
  "same_key a b \<longleftrightarrow> m_AccountID a = m_AccountID b \<and> m_FolderID a = m_FolderID b \<and> m_UID a = m_UID b"

lemma attach_parsed_key: "same_key (attach_parsed mx p msg) msg"
  by (simp add: attach_parsed_def same_key_def Let_def)

lemma buffer_key:
  "m_AccountID (message_from_buffer acct fid buf) = acct" "m_FolderID (message_from_buffer acct fid buf) = fid"
  "m_UID (message_from_buffer acct fid buf) = b_UID buf"
  by (auto simp: message_from_buffer_def Let_def split: option.splits list.splits prod.splits)

lemma fetch_attach_key: "fetch_and_attach_body mx c uid msg w = (Inr m, w') \<Longrightarrow> same_key m msg"
  by (auto simp: fetch_and_attach_body_def seqE_def retE_def failE_def attach_parsed_key
      split: sum.splits option.splits prod.splits)

text \<open>The message a new envelope is stored as: with its body, or the envelope alone.\<close>

definition envelope_message :: "mime_ext \<Rightarrow> conn \<Rightarrow> int \<Rightarrow> int \<Rightarrow> fetch_buf \<Rightarrow> ('x world_scheme, sync_error, message) action" where
  "envelope_message mx c acct fid buf =
     (let msg = message_from_buffer acct fid buf
      in if b_Size buf \<le> max_inline_body_bytes
         then tryE (fetch_and_attach_body mx c (b_UID buf) msg) (\<lambda>r. retE (case r of Inr m \<Rightarrow> m | Inl _ \<Rightarrow> msg\<lparr>m_Snippet := []\<rparr>))
         else retE msg)"

lemma envelope_message_ok:
  obtains m v where "envelope_message mx c acct fid buf w = (Inr m, v)" "w_db v = w_db w"
    "m_AccountID m = acct" "m_FolderID m = fid" "m_UID m = b_UID buf"
proof (cases "b_Size buf \<le> max_inline_body_bytes")
  case True
  let ?msg = "message_from_buffer acct fid buf"
  obtain r v where rv: "fetch_and_attach_body mx c (b_UID buf) ?msg w = (r, v)" by fastforce
  have db: "w_db v = w_db w" using fetch_world rv by (metis snd_conv)
  have em: "envelope_message mx c acct fid buf w = (Inr (case r of Inr m \<Rightarrow> m | Inl _ \<Rightarrow> ?msg\<lparr>m_Snippet := []\<rparr>), v)"
    using True rv by (simp add: envelope_message_def tryE_def retE_def Let_def)
  show ?thesis
  proof (cases r)
    case (Inl e)
    then show ?thesis using that [OF em db] by (simp add: buffer_key)
  next
    case (Inr m)
    then have "same_key m ?msg" using rv fetch_attach_key by blast
    then show ?thesis using that [OF em db] Inr by (simp add: same_key_def buffer_key)
  qed
next
  case False
  then show ?thesis
    using that [of "message_from_buffer acct fid buf" w] by (simp add: envelope_message_def retE_def buffer_key Let_def)
qed

lemma sync_envelope_alt:
  "sync_envelope mx c acct fid highest n (i, buf) =
     seqE check_ctx (\<lambda>_. if b_UID buf \<le> highest then retE ()
       else seqE (envelope_message mx c acct fid buf) (\<lambda>m. seqE (on_db (upsert_message m)) (\<lambda>_.
              seqE (emit (NewMessageEvent acct fid (b_UID buf))) (\<lambda>_. emit (SyncProgressEvent acct (i + 1) n)))))"
  by (simp add: sync_envelope_def envelope_message_def Let_def)

lemma check_ctx_db: "check_ctx w = (r, v) \<Longrightarrow> w_db v = w_db w"
  by (auto simp: check_ctx_def ctx_err_def split: option.splits nat.splits)

text \<open>On the store, one envelope is nothing or one upsert of a message of the folder above the highest UID.\<close>

lemma sync_envelope_db:
  assumes "sync_envelope mx c acct fid highest n (i, buf) w = (r, w')"
  obtains (unchanged) "w_db w' = w_db w" "r = Inr () \<Longrightarrow> b_UID buf \<le> highest"
  | (upsert) m where "highest < b_UID buf" "m_AccountID m = acct" "m_FolderID m = fid" "m_UID m = b_UID buf"
      "w_db w' = snd (upsert_message m (w_db w))" "r = Inr () \<Longrightarrow> \<exists>rid. fst (upsert_message m (w_db w)) = Inr rid"
proof -
  obtain s v where ctx: "check_ctx w = (s, v)" by fastforce
  show ?thesis
  proof (cases "s = Inr () \<and> highest < b_UID buf")
    case False
    then have "w_db w' = w_db w \<and> (r = Inr () \<longrightarrow> b_UID buf \<le> highest)"
      using assms ctx check_ctx_db [OF ctx] unfolding sync_envelope_alt
      by (auto simp: seqE_def retE_def split: sum.splits)
    then show ?thesis using unchanged by blast
  next
    case True
    obtain m u where m: "envelope_message mx c acct fid buf v = (Inr m, u)" "w_db u = w_db v"
      "m_AccountID m = acct" "m_FolderID m = fid" "m_UID m = b_UID buf"
      by (rule envelope_message_ok)
    obtain q d where up: "upsert_message m (w_db u) = (q, d)" by fastforce
    have "w_db w' = d \<and> (r = Inr () \<longrightarrow> (\<exists>rid. q = Inr rid))"
      using assms True ctx m(1) up unfolding sync_envelope_alt
      by (cases q) (auto simp: seqE_def on_db_def emit_def modifyE_def)
    then show ?thesis
      using upsert [of m] m up True check_ctx_db [OF ctx] by simp
  qed
qed

lemma folder_uids_map:
  assumes "db_messages d' = map g (db_messages d)"
    and "\<And>r. m_FolderID (g r) = m_FolderID r" "\<And>r. m_UID (g r) = m_UID r"
  shows "folder_uids d' fid = folder_uids d fid"
  using assms by (simp add: folder_uids_def filter_map comp_def image_image)

lemma upsert_uids:
  assumes "upsert_message m d = (Inr rid, d')"
  shows "folder_uids d' (m_FolderID m) = insert (m_UID m) (folder_uids d (m_FolderID m))"
proof (cases "message_key m \<in> message_key ` set (db_messages d)")
  case True
  obtain old where old: "find (\<lambda>r. message_key r = message_key m) (db_messages d) = Some old"
    using True by (metis (mono_tags, lifting) find_None imageE not_Some_eq)
  then have hit: "old \<in> set (db_messages d)" "m_FolderID old = m_FolderID m" "m_UID old = m_UID m"
    by (auto dest!: find_Some simp: message_key_def)
  have ms: "db_messages d' = map (\<lambda>r. if m_ID r = m_ID old then merged_message m r else r) (db_messages d)"
    using assms old by (auto dest!: sql_InrD simp: upsert_message_def)
  have same: "m_FolderID (merged_message m r) = m_FolderID r" "m_UID (merged_message m r) = m_UID r" for r
    by (simp_all add: merged_message_def)
  have "folder_uids d' (m_FolderID m) = folder_uids d (m_FolderID m)"
    by (rule folder_uids_map [OF ms]) (simp_all add: same)
  moreover have "m_UID m \<in> folder_uids d (m_FolderID m)"
    using hit by (auto simp: folder_uids_def image_iff)
  ultimately show ?thesis by auto
next
  case False
  have "m_FolderID (inserted_message rid m) = m_FolderID m" "m_UID (inserted_message rid m) = m_UID m"
    by (simp_all add: inserted_message_def)
  then show ?thesis unfolding folder_uids_def upsert_message_miss [OF assms False] by auto
qed

lemma upsert_frame:
  assumes inv: "db_inv d" and r: "r \<in> set (db_messages d)" "message_key r \<noteq> message_key m"
  shows "r \<in> set (db_messages (snd (upsert_message m d)))"
proof -
  have ids: "distinct (map m_ID (db_messages d))" using inv by (simp add: db_inv_def messages_ok_def)
  have "m_ID r \<noteq> m_ID old" if "find (\<lambda>x. message_key x = message_key m) (db_messages d) = Some old" for old
    using find_Some [OF that] r distinct_map_unique [OF ids] by auto
  then show ?thesis using r(1)
    by (auto simp: upsert_message_def sql_def Let_def image_iff split: option.splits)
qed

lemma forE_Inr:
  "forE (x # xs) f w = (Inr (), w') \<longleftrightarrow> (\<exists>v. f x w = (Inr (), v) \<and> forE xs f v = (Inr (), w'))"
  by (auto simp: seqE_Inr)

lemma envelopes_uids:
  "forE (enumerate i bufs) (sync_envelope mx c acct fid highest n) w = (Inr (), w') \<Longrightarrow>
     folder_uids (w_db w') fid = folder_uids (w_db w) fid \<union> {u \<in> b_UID ` set bufs. highest < u}"
proof (induction bufs arbitrary: i w)
  case Nil
  then show ?case by (simp add: retE_def)
next
  case (Cons buf bufs)
  obtain v where v: "sync_envelope mx c acct fid highest n (i, buf) w = (Inr (), v)"
    "forE (enumerate (Suc i) bufs) (sync_envelope mx c acct fid highest n) v = (Inr (), w')"
    using Cons.prems by (auto simp: seqE_Inr)
  have "folder_uids (w_db v) fid = folder_uids (w_db w) fid \<union> {u. u = b_UID buf \<and> highest < u}"
  proof (cases rule: sync_envelope_db [OF v(1)])
    case 1
    then show ?thesis by auto
  next
    case (2 m)
    then obtain rid where "upsert_message m (w_db w) = (Inr rid, w_db v)" by (metis prod.collapse)
    then show ?thesis using upsert_uids 2 by fastforce
  qed
  then show ?case using Cons.IH [OF v(2)] by auto
qed

definition cached_rows :: "message set \<Rightarrow> 'x world_scheme \<Rightarrow> bool" where
  "cached_rows M w \<longleftrightarrow> db_inv (w_db w) \<and> M \<subseteq> set (db_messages (w_db w))"

lemma keeps_envelope_rows:
  assumes "\<And>r. r \<in> M \<Longrightarrow> m_FolderID r = fid \<Longrightarrow> m_UID r \<le> highest"
  shows "keeps (cached_rows M) (sync_envelope mx c acct fid highest n p)"
proof (rule keepsI)
  fix w assume rows: "cached_rows M w"
  obtain i buf where p: "p = (i, buf)" by fastforce
  obtain r w' where run: "sync_envelope mx c acct fid highest n (i, buf) w = (r, w')" by fastforce
  have "cached_rows M w'"
  proof (cases rule: sync_envelope_db [OF run])
    case 1
    then show ?thesis using rows by (simp add: cached_rows_def)
  next
    case (2 m)
    have "message_key r \<noteq> message_key m" if "r \<in> M" for r
      using assms [OF that] 2 by (auto simp: message_key_def)
    then show ?thesis
      using rows 2(5) upsert_frame upsert_message_inv by (auto simp: cached_rows_def)
  qed
  then show "cached_rows M (snd (sync_envelope mx c acct fid highest n p w))" using run p by simp
qed

lemma on_db_run: "on_db stmt w = (r, w') \<Longrightarrow> w_db w' = snd (stmt (w_db w)) \<and> w_replies w' = w_replies w \<and> (\<forall>a. r = Inr a \<longrightarrow> fst (stmt (w_db w)) = Inr a)"
  by (auto simp: on_db_def split: sum.splits prod.splits)

text \<open>The two statements before the fetch: what is left of the folder.\<close>

definition validity_changed :: "folder \<Rightarrow> select_data \<Rightarrow> bool" where
  "validity_changed f sel \<longleftrightarrow> f_UIDValidity f \<noteq> 0 \<and> sd_UIDValidity sel \<noteq> f_UIDValidity f"

definition prepare_folder :: "folder \<Rightarrow> select_data \<Rightarrow> ('x world_scheme, sync_error, nat) action" where
  "prepare_folder f sel =
     seqE (if validity_changed f sel then on_db (clear_folder_messages (f_ID f)) else retE ()) (\<lambda>_.
       seqE (on_db (set_folder_sync_state (f_ID f) (sd_UIDValidity sel) (sd_HighestModSeq sel))) (\<lambda>_.
         on_db (highest_uid (f_ID f))))"

definition fetch_envelopes :: "mime_ext \<Rightarrow> conn \<Rightarrow> int \<Rightarrow> int \<Rightarrow> select_data \<Rightarrow> nat \<Rightarrow> ('x world_scheme, sync_error, unit) action" where
  "fetch_envelopes mx c acct fid sel highest =
     (if sd_NumMessages sel = 0 then retE ()
      else seqE (imap_call c (C_FetchEnvelopes ((highest + 1) mod 4294967296))) (\<lambda>r.
        case r of
          IFetched bufs \<Rightarrow> forE (enumerate 0 bufs) (sync_envelope mx c acct fid highest (length bufs))
        | _ \<Rightarrow> failE E_Imap))"

lemma seqE_assoc: "seqE (seqE m f) g = seqE m (\<lambda>a. seqE (f a) g)"
  by (auto simp: seqE_def fun_eq_iff split: prod.splits sum.splits)

lemma sync_folder_alt: "sync_folder mx c acct f sel = seqE (prepare_folder f sel) (fetch_envelopes mx c acct (f_ID f) sel)"
  by (simp add: sync_folder_def prepare_folder_def fetch_envelopes_def [abs_def] seqE_assoc validity_changed_def cong: if_cong)

lemma clear_rows:
  "db_messages (snd (clear_folder_messages fid d)) = db_messages d
   \<or> db_messages (snd (clear_folder_messages fid d)) = filter (\<lambda>m. m_FolderID m \<noteq> fid) (db_messages d)"
  by (auto simp: clear_folder_messages_def sql_def Let_def)

lemma clear_rows_ok:
  "fst (clear_folder_messages fid d) = Inr () \<Longrightarrow>
     db_messages (snd (clear_folder_messages fid d)) = filter (\<lambda>m. m_FolderID m \<noteq> fid) (db_messages d)"
  by (auto simp: clear_folder_messages_def sql_def Let_def split: if_splits)

lemma state_rows: "db_messages (snd (set_folder_sync_state fid u ms d)) = db_messages d"
  by (auto simp: set_folder_sync_state_def sql_def Let_def)

lemma highest_rows: "db_messages (snd (highest_uid fid d)) = db_messages d"
  by (auto simp: highest_uid_def sql_def Let_def)

lemma foldr_max_bound: "x \<in> set xs \<Longrightarrow> x \<le> foldr max xs (0::nat)"
  by (induction xs) auto

lemma foldr_max_less: "foldr max xs (0::nat) < u \<longleftrightarrow> 0 < u \<and> (\<forall>x \<in> set xs. x < u)"
  by (induction xs) auto

lemma highest_value: "fst (highest_uid fid d) = Inr h \<Longrightarrow> h < u \<longleftrightarrow> 0 < u \<and> (\<forall>x \<in> folder_uids d fid. x < u)"
  by (auto simp: highest_uid_def sql_def Let_def folder_uids_def foldr_max_less split: if_splits)

lemma prepare_rows:
  assumes "prepare_folder f sel w = (r, v)" and "m \<in> set (db_messages (w_db w))"
    and "m_FolderID m \<noteq> f_ID f \<or> \<not> validity_changed f sel"
  shows "m \<in> set (db_messages (w_db v))"
proof -
  have rows: "m \<in> set (db_messages (snd (clear_folder_messages (f_ID f) d)))"
    if "m \<in> set (db_messages d)" "validity_changed f sel" for d
    using clear_rows [of "f_ID f" d] that assms(3) by auto
  show ?thesis
    using assms(1,2) rows unfolding prepare_folder_def
    by (auto simp: seqE_def retE_def state_rows highest_rows split: sum.splits prod.splits if_splits dest!: on_db_run)
qed

lemma prepare_uids:
  assumes "prepare_folder f sel w = (Inr h, v)"
  shows "folder_uids (w_db v) (f_ID f) = (if validity_changed f sel then {} else folder_uids (w_db w) (f_ID f))"
    and "h < u \<longleftrightarrow> 0 < u \<and> (\<forall>x \<in> folder_uids (w_db v) (f_ID f). x < u)"
    and "w_replies v = w_replies w"
proof -
  obtain w1 w2 where s:
    "(if validity_changed f sel then on_db (clear_folder_messages (f_ID f)) else retE ()) w = (Inr (), w1)"
    "on_db (set_folder_sync_state (f_ID f) (sd_UIDValidity sel) (sd_HighestModSeq sel)) w1 = (Inr (), w2)"
    "on_db (highest_uid (f_ID f)) w2 = (Inr h, v)"
    using assms unfolding prepare_folder_def seqE_Inr by auto
  have w1: "db_messages (w_db w1) = (if validity_changed f sel then filter (\<lambda>m. m_FolderID m \<noteq> f_ID f) (db_messages (w_db w)) else db_messages (w_db w))"
    "w_replies w1 = w_replies w"
    using s(1) clear_rows_ok by (auto simp: retE_def split: if_splits dest!: on_db_run)
  have w2: "db_messages (w_db w2) = db_messages (w_db w1)" "w_replies w2 = w_replies w1"
    using on_db_run [OF s(2)] by (simp_all add: state_rows)
  have v: "db_messages (w_db v) = db_messages (w_db w2)" "w_replies v = w_replies w2" "fst (highest_uid (f_ID f) (w_db w2)) = Inr h"
    using on_db_run [OF s(3)] by (simp_all add: highest_rows)
  then show "w_replies v = w_replies w" using w1 w2 by simp
  show "folder_uids (w_db v) (f_ID f) = (if validity_changed f sel then {} else folder_uids (w_db w) (f_ID f))"
    using v w1 w2 by (simp add: folder_uids_def)
  show "h < u \<longleftrightarrow> 0 < u \<and> (\<forall>x \<in> folder_uids (w_db v) (f_ID f). x < u)"
    using highest_value [OF v(3)] v(1) by (simp add: folder_uids_def)
qed

interpretation stored: sync_invariant db_inv "\<lambda>w. db_inv (w_db w)"
  by unfold_locales (auto simp: store.step_inv)

lemma prepare_inv: "prepare_folder f sel w = (r, v) \<Longrightarrow> db_inv (w_db w) \<Longrightarrow> db_inv (w_db v)"
proof -
  have "keeps (\<lambda>w. db_inv (w_db w)) (prepare_folder f sel)"
    unfolding prepare_folder_def by (intro keeps_seqE keeps_if keeps_retE stored.keeps_store stored.keeps_reads)
  then show "prepare_folder f sel w = (r, v) \<Longrightarrow> db_inv (w_db w) \<Longrightarrow> db_inv (w_db v)"
    by (metis keepsD snd_conv)
qed

lemma keeps_call_rows: "keeps (cached_rows M) (imap_call c cmd)"
  by (rule keepsI) (auto simp: cached_rows_def imap_call_def imap_send_def Let_def split: list.splits imap_reply.splits)

lemma keeps_fetch_rows:
  assumes "\<And>r. r \<in> M \<Longrightarrow> m_FolderID r = fid \<Longrightarrow> m_UID r \<le> highest"
  shows "keeps (cached_rows M) (fetch_envelopes mx c acct fid sel highest)"
  unfolding fetch_envelopes_def
  by (intro keeps_if keeps_retE keeps_seqE keeps_call_rows keeps_reply keeps_failE keeps_forE keeps_envelope_rows [OF assms])

lemma sync_folder_rows:
  assumes inv: "db_inv (w_db w)" and m: "m \<in> set (db_messages (w_db w))"
    and keep: "m_FolderID m \<noteq> f_ID f \<or> \<not> validity_changed f sel"
  shows "m \<in> set (db_messages (w_db (snd (sync_folder mx c acct f sel w))))"
proof -
  obtain r v where pre: "prepare_folder f sel w = (r, v)" by fastforce
  note kept = prepare_rows [OF pre m keep]
  show ?thesis
  proof (cases r)
    case (Inl e)
    then show ?thesis using pre kept by (simp add: sync_folder_alt seqE_def)
  next
    case (Inr h)
    have low: "m_UID x \<le> h" if "x \<in> {m}" "m_FolderID x = f_ID f" for x
      using prepare_uids(2) [OF pre [unfolded Inr], of "m_UID m"] kept that
      by (force simp: folder_uids_def)
    have "cached_rows {m} v" using kept prepare_inv [OF pre inv] by (simp add: cached_rows_def)
    then have "cached_rows {m} (snd (fetch_envelopes mx c acct (f_ID f) sel h v))"
      by (rule keepsD [rotated]) (rule keeps_fetch_rows, rule low)
    then show ?thesis using pre Inr by (simp add: sync_folder_alt seqE_def cached_rows_def)
  qed
qed

lemma sync_folder_uids:
  assumes run: "sync_folder mx c acct f sel w = (Inr (), w')" and n: "sd_NumMessages sel \<noteq> 0"
  obtains bufs rest where "w_replies w = IFetched bufs # rest"
    "folder_uids (w_db w') (f_ID f) =
       (let old = (if validity_changed f sel then {} else folder_uids (w_db w) (f_ID f))
        in old \<union> {u \<in> b_UID ` set bufs. 0 < u \<and> (\<forall>x \<in> old. x < u)})"
proof -
  obtain h v where pre: "prepare_folder f sel w = (Inr h, v)" and fetch: "fetch_envelopes mx c acct (f_ID f) sel h v = (Inr (), w')"
    using run unfolding sync_folder_alt seqE_Inr by auto
  obtain r v' where call: "imap_call c (C_FetchEnvelopes ((h + 1) mod 4294967296)) v = (Inr r, v')"
    and rest: "(case r of IFetched bufs \<Rightarrow> forE (enumerate 0 bufs) (sync_envelope mx c acct (f_ID f) h (length bufs)) | _ \<Rightarrow> failE E_Imap) v' = (Inr (), w')"
    using fetch n unfolding fetch_envelopes_def by (auto simp: seqE_Inr)
  obtain bufs where r: "r = IFetched bufs" using rest by (cases r) (auto simp: failE_def)
  have v': "w_db v' = w_db v" "w_replies v = IFetched bufs # w_replies v'"
    using call r by (auto simp: imap_call_def imap_send_def Let_def split: list.splits imap_reply.splits)
  show thesis
  proof
    show "w_replies w = IFetched bufs # w_replies v'" using v' prepare_uids(3) [OF pre] by simp
    show "folder_uids (w_db w') (f_ID f) =
       (let old = (if validity_changed f sel then {} else folder_uids (w_db w) (f_ID f))
        in old \<union> {u \<in> b_UID ` set bufs. 0 < u \<and> (\<forall>x \<in> old. x < u)})"
      using envelopes_uids [OF rest [unfolded r imap_reply.case]] prepare_uids(1,2) [OF pre] v'(1) by (simp add: Let_def)
  qed
qed

text \<open>C18. An incremental sync of a folder, for every server. Whatever it ends with, it keeps every cached row of
  the other folders, and of the folder itself unless its UIDVALIDITY changed. When it succeeds the folder holds the
  UIDs it had (none after a change of UIDVALIDITY) and the fetched ones above all of them.\<close>

theorem folder_sync_exact:
  assumes "db_inv (w_db w)" and "sync_folder mx c acct f sel w = (r, w')"
    and "old = (if validity_changed f sel then {} else folder_uids (w_db w) (f_ID f))"
  shows "(\<forall>m \<in> set (db_messages (w_db w)).
            m_FolderID m \<noteq> f_ID f \<or> \<not> validity_changed f sel \<longrightarrow> m \<in> set (db_messages (w_db w')))
    \<and> (r = Inr () \<and> sd_NumMessages sel \<noteq> 0 \<longrightarrow>
        (\<exists>bufs rest. w_replies w = IFetched bufs # rest
           \<and> folder_uids (w_db w') (f_ID f) = old \<union> {u \<in> b_UID ` set bufs. 0 < u \<and> (\<forall>x \<in> old. x < u)}))"
proof (intro conjI impI ballI)
  fix m assume "m \<in> set (db_messages (w_db w))" "m_FolderID m \<noteq> f_ID f \<or> \<not> validity_changed f sel"
  then show "m \<in> set (db_messages (w_db w'))"
    using sync_folder_rows [OF assms(1), of m f sel mx c acct] assms(2) by simp
next
  assume "r = Inr () \<and> sd_NumMessages sel \<noteq> 0"
  then have run: "sync_folder mx c acct f sel w = (Inr (), w')" and n: "sd_NumMessages sel \<noteq> 0"
    using assms(2) by simp_all
  obtain bufs rest where "w_replies w = IFetched bufs # rest"
    "folder_uids (w_db w') (f_ID f) = old \<union> {u \<in> b_UID ` set bufs. 0 < u \<and> (\<forall>x \<in> old. x < u)}"
    using sync_folder_uids [OF run n] unfolding Let_def assms(3) .
  then show "\<exists>bufs rest. w_replies w = IFetched bufs # rest
       \<and> folder_uids (w_db w') (f_ID f) = old \<union> {u \<in> b_UID ` set bufs. 0 < u \<and> (\<forall>x \<in> old. x < u)}"
    by (intro exI conjI)
qed

section \<open>Threads\<close>

lemma re_space_is_space: "re_space c \<Longrightarrow> is_space c"
  by (auto simp: re_space_def is_space_def)

lemma trim_skip_sp: "trim_space (skip_sp s) = trim_space s"
proof -
  have "dropWhile is_space (dropWhile re_space s) = dropWhile is_space s"
    by (induction s) (auto simp: re_space_is_space)
  then show ?thesis by (simp add: trim_space_def trim_by_def)
qed

lemma strip_subject_markers: "trim_space (strip_subject s) = trim_space (strip_markers (skip_sp s))"
  by (subst strip_markers.simps) (simp add: strip_subject_def trim_skip_sp split: option.splits)

lemma colon_facts [simp]: "\<not> re_space (CHR '':'')" "\<not> is_digit (CHR '':'')"
  by (simp_all add: re_space_def is_digit_def)

lemma skip_sp_colon: "CHR '':'' \<in> set u \<Longrightarrow> skip_sp (u @ s) = skip_sp u @ s"
  by (rule dropWhile_append1) auto

lemma has_prefix_append: "length p \<le> length u \<Longrightarrow> has_prefix p (u @ s) = has_prefix p u"
  by (simp add: has_prefix_def)

lemma skip_counter_colon: "CHR '':'' \<in> set u \<Longrightarrow> skip_counter (u @ s) = skip_counter u @ s"
proof (cases u)
  case (Cons x r)
  assume colon: "CHR '':'' \<in> set u"
  show ?thesis
  proof (cases "x = CHR ''[''")
    case True
    with colon Cons have r: "CHR '':'' \<in> set r" by simp
    then have "takeWhile is_digit (r @ s) = takeWhile is_digit r" "dropWhile is_digit (r @ s) = dropWhile is_digit r @ s"
      using takeWhile_append1 [OF r] dropWhile_append1 [OF r] by simp_all
    moreover have "dropWhile is_digit r \<noteq> []" using r by (metis colon_facts(2) dropWhile_eq_Nil_conv)
    ultimately show ?thesis
      using Cons True by (cases "dropWhile is_digit r") (simp_all add: skip_counter_def Let_def has_prefix_def)
  qed (simp add: Cons skip_counter_def Let_def)
qed simp

lemma in_set_tl: "x \<in> set (tl xs) \<Longrightarrow> x \<in> set xs"
  by (cases xs) auto

lemma skip_counter_set: "set (skip_counter u) \<subseteq> set u"
proof (cases u)
  case (Cons x r)
  then show ?thesis
    by (auto simp: skip_counter_def Let_def dest!: in_set_tl set_dropWhileD split: if_splits)
qed (simp add: skip_counter_def)

lemma reply_word_append:
  assumes "reply_word p = Some r" and "r \<noteq> []"
  shows "reply_word (p @ s) = Some (r @ s)"
proof -
  have "r = drop 3 p \<or> r = drop 2 p"
    using assms(1) unfolding reply_word_def Let_def by (force split: if_splits)
  then have len: "3 \<le> length p" using assms(2) by auto
  have same: "has_prefix w (to_lower (p @ s)) = has_prefix w (to_lower p)" if "length w \<le> 3" for w
    using that len by (simp add: to_lower_def has_prefix_append)
  have same_words: "has_prefix ''fwd'' (to_lower (p @ s)) = has_prefix ''fwd'' (to_lower p)"
    "has_prefix ''re'' (to_lower (p @ s)) = has_prefix ''re'' (to_lower p)" "has_prefix ''fw'' (to_lower (p @ s)) = has_prefix ''fw'' (to_lower p)"
    "has_prefix ''aw'' (to_lower (p @ s)) = has_prefix ''aw'' (to_lower p)" "has_prefix ''sv'' (to_lower (p @ s)) = has_prefix ''sv'' (to_lower p)"
    by (rule same, simp)+
  show ?thesis
    using assms(1) len unfolding reply_word_def Let_def same_words by (simp split: if_splits)
qed

text \<open>A text that is one reply or forward marker: \<open>Re: \<close>, \<open>RE:\<close>, \<open>Fwd: \<close>, \<open>AW[2]: \<close> and so on.\<close>

definition reply_mark :: "string \<Rightarrow> bool" where
  "reply_mark p \<longleftrightarrow> strip_marker p = Some []"

lemma strip_mark:
  assumes "reply_mark p"
  shows "strip_marker (p @ s) = Some (skip_sp s)"
proof -
  obtain r where r: "reply_word p = Some r"
    using assms by (cases "reply_word p") (simp_all add: reply_mark_def strip_marker_def)
  let ?t = "skip_sp (skip_counter (skip_sp r))"
  have "(if has_prefix '':'' ?t then Some (skip_sp (tl ?t)) else None) = Some []"
    using assms unfolding reply_mark_def strip_marker_def Let_def r option.case .
  then have t: "has_prefix '':'' ?t \<and> skip_sp (tl ?t) = []"
    by (metis option.distinct(1) option.inject)
  obtain v where v: "skip_sp (skip_counter (skip_sp r)) = CHR '':'' # v"
    using t by (cases "skip_sp (skip_counter (skip_sp r))") (auto simp: has_prefix_def)
  have c1: "CHR '':'' \<in> set (skip_counter (skip_sp r))"
    using v by (metis list.set_intros(1) set_dropWhileD)
  then have c2: "CHR '':'' \<in> set (skip_sp r)" using skip_counter_set by blast
  then have c3: "CHR '':'' \<in> set r" by (rule set_dropWhileD)
  have "reply_word (p @ s) = Some (r @ s)" using reply_word_append [OF r] c3 by fastforce
  moreover have "skip_sp (skip_counter (skip_sp (r @ s))) = CHR '':'' # v @ s"
    using c1 c2 c3 v by (simp add: skip_sp_colon skip_counter_colon)
  moreover have "skip_sp (v @ s) = skip_sp s" using t v by (simp add: dropWhile_append)
  ultimately show ?thesis by (simp add: strip_marker_def Let_def has_prefix_def)
qed

lemma reply_mark_start: "reply_mark p \<Longrightarrow> skip_sp (p @ s) = p @ s"
proof -
  assume "reply_mark p"
  then obtain r where "reply_word p = Some r" by (auto simp: reply_mark_def strip_marker_def split: option.splits)
  then show ?thesis
    by (cases p) (auto simp: reply_word_def re_space_def Let_def to_lower_def has_prefix_def lower_char_def split: if_splits)
qed

text \<open>A reply or a forward joins the thread of the message it answers, however many markers its subject has,
  unless the bare subject is empty; then the thread is that of the message answered.\<close>

theorem reply_joins_thread:
  assumes "list_all reply_mark ps"
  shows "thread_id (concat ps @ s) mid' irt' =
    (if trim_space (strip_markers (skip_sp s)) \<noteq> [] then thread_id s mid irt
     else if irt' \<noteq> [] then ''ref:'' @ irt' else ''msg:'' @ mid')"
proof -
  have mark: "strip_markers (skip_sp (p @ t)) = strip_markers (skip_sp t)" if "reply_mark p" for p t
    using strip_mark [OF that] strip_markers.simps [of "p @ t"] reply_mark_start [OF that] by simp
  have "strip_markers (skip_sp (concat ps @ s)) = strip_markers (skip_sp s)"
    using assms by (induction ps) (simp_all add: mark)
  then show ?thesis by (simp add: thread_id_def strip_subject_markers to_lower_def)
qed

theorem reply_joins_thread_witness:
  "list_all reply_mark [''Re: '', ''FWD:'', ''aw [12] : '']
   \<and> thread_id (concat [''Re: '', ''FWD:'', ''aw [12] : ''] @ ''Lunch'') ''m2'' ''m1'' = thread_id ''Lunch'' ''m1'' []"
proof -
  have marks: "list_all reply_mark [''Re: '', ''FWD:'', ''aw [12] : '']" by code_simp
  have "trim_space (strip_markers (skip_sp ''Lunch'')) \<noteq> []" by code_simp
  then show ?thesis using marks reply_joins_thread [OF marks, of "''Lunch''" "''m2''" "''m1''" "''m1''" "[]"] by simp
qed

section \<open>The settings message\<close>

lemma str_index_skip: "\<not> has_prefix p (x # s) \<Longrightarrow> str_index p (x # s) = map_option Suc (str_index p s)"
  by simp

lemma settings_raw_eq:
  "settings_raw sealed = (''From: vayumail@localhost'' @ crlf @ ''Subject: vayumail-settings'' @ crlf
     @ ''Content-Type: application/octet-stream'') @ (crlf @ crlf) @ b64_encode sealed"
  by (simp add: settings_raw_def)

lemma settings_index: "str_index (crlf @ crlf) (settings_raw sealed) = Some 92"
  unfolding settings_raw_eq by (simp add: crlf_def has_prefix_def)

lemma settings_body_raw: "settings_body (settings_raw sealed) = Inr sealed"
proof -
  have "drop 96 (settings_raw sealed) = b64_encode sealed"
    unfolding settings_raw_eq by (simp add: crlf_def)
  then show ?thesis by (simp add: settings_body_def settings_index)
qed

lemma imap_call_Inr:
  "imap_call c cmd w = (Inr r, w') \<Longrightarrow> w_log w' = w_log w @ [(cn_id c, cmd)] \<and> w_replies w = r # w_replies w' \<and> w_db w' = w_db w"
  by (cases "w_replies w"; cases "hd (w_replies w)") (auto simp: imap_call_def imap_send_def)

text \<open>Settings saved to the mailbox come back: when the folder's newest message is the one that was appended,
  loading returns the sealed bytes that were saved.\<close>

theorem settings_round_trip:
  assumes "save_settings_blob c sealed w = (Inr (), w1)"
    and "last (w_log w1) = (i, C_Append mbox raw flags)"
    and "w_replies w1 = ISelected sel # IFetched bufs # IBody (Some raw) # rest"
    and "sd_NumMessages sel \<noteq> 0" and "bufs \<noteq> []"
  shows "fst (load_settings_blob c w1) = Inr (Some sealed)"
proof -
  have "raw = settings_raw sealed"
    using assms(1,2) unfolding save_settings_blob_def imap_append_def
    by (auto simp: seqE_Inr retE_def dest!: imap_call_Inr)
  then show ?thesis
    using assms(3-5) settings_body_raw
    by (simp add: load_settings_blob_def fetch_newest_raw_def fetch_raw_def tryE_def seqE_def imap_call_def imap_send_def retE_def)
qed

section \<open>Flags and the sync anchor\<close>

definition anchored :: "nat \<Rightarrow> (nat \<times> imap_cmd) set \<Rightarrow> 'x world_scheme \<Rightarrow> bool" where
  "anchored a old w \<longleftrightarrow> (\<forall>x \<in> set (w_log w). x \<in> old \<or> (\<forall>n. snd x = C_FetchFlags n \<longrightarrow> n = a))"

lemma keeps_anchored_call: "(\<And>n. cmd = C_FetchFlags n \<Longrightarrow> n = a) \<Longrightarrow> keeps (anchored a old) (imap_call c cmd)"
  by (rule keepsI) (auto simp: anchored_def imap_call_def imap_send_def Let_def split: list.splits imap_reply.splits)

lemma on_db_log [simp]: "w_log (snd (on_db stmt w)) = w_log w"
  by (auto simp: on_db_def split: prod.splits sum.splits)

lemma keeps_anchored_rest:
  "keeps (anchored a old) (on_db stmt)" "keeps (anchored a old) (emit ev)" "keeps (anchored a old) check_ctx"
  by (auto simp: keeps_def anchored_def emit_def modifyE_def check_ctx_def ctx_err_def split: option.splits nat.splits)

lemmas keeps_anchored = keeps_anchored_rest keeps_seqE keeps_tryE keeps_retE keeps_failE keeps_if keeps_option
  keeps_let keeps_forE keeps_reply keeps_prod keeps_anchored_call

lemma keeps_anchored_sync: "keeps (anchored a old) (sync_folder mx c acct f sel)"
  unfolding sync_folder_def sync_envelope_def fetch_and_attach_body_def fetch_raw_def
  by (intro keeps_anchored) simp_all

lemma keeps_folders_fetch: "keeps (\<lambda>w. db_folders (w_db w) = fs) (fetch_envelopes mx c acct fid sel h)"
proof -
  have up: "db_folders (snd (upsert_message m d)) = db_folders d" for m d
    by (auto simp: upsert_message_def sql_def Let_def split: option.splits)
  have env: "keeps (\<lambda>w. db_folders (w_db w) = fs) (sync_envelope mx c acct fid h n p)" for n p
  proof (rule keepsI)
    fix w assume w: "db_folders (w_db w) = fs"
    obtain i buf where p: "p = (i, buf)" by fastforce
    obtain r w' where run: "sync_envelope mx c acct fid h n (i, buf) w = (r, w')" by fastforce
    show "db_folders (w_db (snd (sync_envelope mx c acct fid h n p w))) = fs"
      using w run p up by (cases rule: sync_envelope_db [OF run]) simp_all
  qed
  have call: "keeps (\<lambda>w. db_folders (w_db w) = fs) (imap_call c cmd)" for cmd
    by (rule keepsI) (auto simp: imap_call_def imap_send_def Let_def split: list.splits imap_reply.splits)
  show ?thesis unfolding fetch_envelopes_def
    by (intro keeps_if keeps_retE keeps_seqE call keeps_reply keeps_failE keeps_forE env)
qed

lemma sync_folder_anchor:
  assumes "sync_folder mx c acct f sel w = (Inr (), w1)" and "f' \<in> set (db_folders (w_db w1))" and "f_ID f' = f_ID f"
  shows "f_HighestModSeq f' = sd_HighestModSeq sel"
proof -
  obtain h v where pre: "prepare_folder f sel w = (Inr h, v)" and fetch: "fetch_envelopes mx c acct (f_ID f) sel h v = (Inr (), w1)"
    using assms(1) unfolding sync_folder_alt seqE_Inr by auto
  obtain u1 u2 where s: "on_db (set_folder_sync_state (f_ID f) (sd_UIDValidity sel) (sd_HighestModSeq sel)) u1 = (Inr (), u2)"
    "on_db (highest_uid (f_ID f)) u2 = (Inr h, v)"
    using pre unfolding prepare_folder_def seqE_Inr by auto
  have "\<forall>g \<in> set (db_folders (w_db u2)). f_ID g = f_ID f \<longrightarrow> f_HighestModSeq g = sd_HighestModSeq sel"
    using on_db_run [OF s(1)] by (auto simp: set_folder_sync_state_def sql_def Let_def split: if_splits)
  moreover have "db_folders (w_db v) = db_folders (w_db u2)"
    using on_db_run [OF s(2)] by (auto simp: highest_uid_def sql_def Let_def)
  moreover have "db_folders (w_db w1) = db_folders (w_db v)"
    using keepsD [OF keeps_folders_fetch refl, of mx c acct "f_ID f" sel h v] fetch by simp
  ultimately show ?thesis using assms(2,3) by auto
qed

text \<open>The flag anchor moves past changes nobody read: after a folder sync on a CONDSTORE server whose SELECT
  reported MODSEQ n, neither the sync nor the flag refresh after it asks the server for flag changes since
  anything but n, so a flag that changed elsewhere while the app was offline stays stale.\<close>

theorem flag_anchor_skips_changes:
  assumes "sync_folder mx c acct f sel w = (Inr (), w1)"
    and "get_folder_by_full_name acct (f_FullName f) (w_db w1) = (Inr f', d)" and "f_ID f' = f_ID f"
    and "has_cap c ''CONDSTORE''" and "sd_HighestModSeq sel > 0"
    and "refresh_flags c acct (f_FullName f) w1 = (r, w2)"
    and "x \<in> set (w_log w2)" and "x \<notin> set (w_log w)" and "snd x = C_FetchFlags n"
  shows "n = sd_HighestModSeq sel"
proof -
  let ?J = "anchored (sd_HighestModSeq sel) (set (w_log w))"
  have "?J w" by (simp add: anchored_def)
  then have J: "?J w1" using keepsD [OF keeps_anchored_sync] assms(1) by (metis snd_conv)
  have "f' \<in> set (db_folders (w_db w1))"
    using assms(2) unfolding get_folder_by_full_name_def
    by (auto dest!: sql_InrD find_Some split: option.splits)
  then have a: "f_HighestModSeq f' = sd_HighestModSeq sel" using sync_folder_anchor assms(1,3) by blast
  have keep: "keeps ?J (refresh_from c acct f')"
    unfolding refresh_from_def refresh_flag_def
    by (intro keeps_anchored) (use a assms(4,5) in simp_all)
  have "refresh_flags c acct (f_FullName f) w1 = refresh_from c acct f' (w1\<lparr>w_db := d\<rparr>)"
    unfolding refresh_flags_def seqE_def by (simp add: on_db_def assms(2))
  moreover have "?J (w1\<lparr>w_db := d\<rparr>)" using J by (simp add: anchored_def)
  ultimately have "?J w2" using keepsD [OF keep] assms(6) by (metis snd_conv)
  then show ?thesis using assms(7-9) by (auto simp: anchored_def)
qed

section \<open>Witnesses\<close>

definition sample_mx :: mime_ext where
  "sample_mx = \<lparr>mx_tokens = (\<lambda>s. []), mx_reader = sample_reader, mx_json = (\<lambda>refs. ''[]'')\<rparr>"

definition sample_conn :: conn where "sample_conn = \<lparr>cn_id = 0, cn_caps = [''CONDSTORE'']\<rparr>"

definition sample_world :: "imap_reply list \<Rightarrow> world" where
  "sample_world rs = \<lparr>w_db = sample_db, w_replies = rs, w_log = [], w_events = [], w_fuse = Some 3,
     w_dials = [], w_opened = 1, w_waits = []\<rparr>"

definition sample_buf :: fetch_buf where
  "sample_buf = \<lparr>b_UID = 9, b_Size = 600000, b_Flags = [], b_ModSeq = 0, b_Envelope = None\<rparr>"

definition sample_select :: select_data where
  "sample_select = \<lparr>sd_UIDValidity = 7, sd_HighestModSeq = 40, sd_NumMessages = 1\<rparr>"

lemma sample_world_facts [simp]: "w_db (sample_world rs) = sample_db" "w_replies (sample_world rs) = rs" "w_fuse (sample_world rs) = Some 3"
    "w_log (sample_world rs) = []" "w_waits (sample_world rs) = []"
  by (simp_all add: sample_world_def)

definition sample_sync :: "(sync_error + unit) \<times> world" where
  "sample_sync = sync_folder sample_mx sample_conn 1 sample_folder sample_select (sample_world [IFetched [sample_buf]])"

lemmas run_defs = seqE_def tryE_def retE_def failE_def modifyE_def on_db_def emit_def imap_call_def imap_send_def
  check_ctx_def ctx_err_def try_send_def event_cap_def sql_def

definition synced_db :: db where
  "synced_db = sample_db\<lparr>db_folders := [sample_folder\<lparr>f_HighestModSeq := 40\<rparr>],
     db_messages := db_messages sample_db @ [inserted_message 3 (message_from_buffer 1 1 sample_buf)]\<rparr>"

lemma sample_upsert:
  "upsert_message (message_from_buffer 1 1 sample_buf) (sample_db\<lparr>db_folders := [sample_folder\<lparr>f_HighestModSeq := 40\<rparr>]\<rparr>) = (Inr 3, synced_db)"
  by (simp add: upsert_message_def sql_no_fault sample_defs synced_db_def message_key_def buffer_key sample_buf_def new_id_def)

lemma sample_prepare:
  "prepare_folder sample_folder sample_select (sample_world rs) =
     (Inr 5, (sample_world rs)\<lparr>w_db := sample_db\<lparr>db_folders := [sample_folder\<lparr>f_HighestModSeq := 40\<rparr>]\<rparr>\<rparr>)"
  by (simp add: prepare_folder_def validity_changed_def run_defs set_folder_sync_state_def highest_uid_def
      sample_world_def sample_defs sample_select_def)

lemma sample_fields: "b_UID sample_buf = 9" "\<not> b_Size sample_buf \<le> 524288" "f_ID sample_folder = 1"
  by (simp_all add: sample_buf_def sample_folder_def)

lemma sample_sync_run:
  "sample_sync = (Inr (), (sample_world [])\<lparr>w_db := synced_db, w_log := [(0, C_FetchEnvelopes 6)], w_fuse := Some 2,
     w_events := [NewMessageEvent 1 1 9, SyncProgressEvent 1 1 1]\<rparr>)"
  by (simp add: sample_sync_def sync_folder_alt seqE_def [of "prepare_folder f sel" for f sel] sample_prepare)
    (simp add: fetch_envelopes_def run_defs sync_envelope_def sample_upsert sample_select_def sample_conn_def sample_world_def
      sample_fields max_inline_body_bytes_def Let_def)

lemma sample_sync_facts:
  "fst sample_sync = Inr ()"
  "get_folder_by_full_name 1 ''INBOX'' (w_db (snd sample_sync)) = (Inr (sample_folder\<lparr>f_HighestModSeq := 40\<rparr>), synced_db)"
  by (simp_all add: sample_sync_run get_folder_by_full_name_def sql_def synced_db_def sample_defs)

definition sample_imap_cfg :: config where
  "sample_imap_cfg = \<lparr>c_DisplayName = ''A'', c_EmailAddress = ''a@x'', c_IMAPHost = ''h'', c_IMAPPort = 993, c_IMAPTLS = ''tls'',
     c_SMTPHost = ''h'', c_SMTPPort = 465, c_SMTPTLS = ''tls'', c_Username = ''a'', c_KeystoreAlias = ''k'', c_PinnedSPKI = [],
     c_AuthMech = []\<rparr>"


theorem folder_sync_exact_witness:
  "folder_uids (w_db (snd sample_sync)) (f_ID sample_folder) = {4, 5} \<union> {9}"
proof -
  have run: "sync_folder sample_mx sample_conn 1 sample_folder sample_select (sample_world [IFetched [sample_buf]]) = (Inr (), snd sample_sync)"
    using sample_sync_facts(1) by (simp add: sample_sync_def prod_eq_iff)
  have inv: "db_inv (w_db (sample_world [IFetched [sample_buf]]))" by (simp add: sample_db_inv)
  have n: "sd_NumMessages sample_select \<noteq> 0" by (simp add: sample_select_def)
  obtain bufs rest where b: "w_replies (sample_world [IFetched [sample_buf]]) = IFetched bufs # rest"
    "folder_uids (w_db (snd sample_sync)) (f_ID sample_folder) = {4, 5} \<union> {u \<in> b_UID ` set bufs. 0 < u \<and> (\<forall>x \<in> {4, 5}. x < u)}"
  proof -
    have old: "{4, 5} = (if validity_changed sample_folder sample_select then {}
        else folder_uids (w_db (sample_world [IFetched [sample_buf]])) (f_ID sample_folder))"
      by (auto simp: validity_changed_def sample_select_def sample_defs folder_uids_def)
    show thesis using folder_sync_exact [OF inv run old] n that by blast
  qed
  then show ?thesis by (auto simp: sample_buf_def)
qed

theorem settings_round_trip_witness:
  "\<exists>w1. save_settings_blob sample_conn ''sealed'' (sample_world [IErr ''Mailbox already exists'', IOk, ISelected sample_select, IFetched [sample_buf],
      IBody (Some (settings_raw ''sealed''))]) = (Inr (), w1)
     \<and> fst (load_settings_blob sample_conn w1) = Inr (Some ''sealed'')"
proof -
  let ?w = "sample_world [IErr ''Mailbox already exists'', IOk, ISelected sample_select, IFetched [sample_buf], IBody (Some (settings_raw ''sealed''))]"
  define w1 where "w1 = snd (save_settings_blob sample_conn ''sealed'' ?w)"
  have exists: "contains_str ''exist'' (to_lower ''Mailbox already exists'')" by code_simp
  have s: "save_settings_blob sample_conn ''sealed'' ?w = (Inr (), w1)"
    using exists by (simp add: w1_def save_settings_blob_def ensure_meta_folder_def imap_append_def seqE_def imap_call_def imap_send_def retE_def)
  moreover have "last (w_log w1) = (0, C_Append meta_folder (settings_raw ''sealed'') [sys_flag ''Seen''])"
    and "w_replies w1 = [ISelected sample_select, IFetched [sample_buf], IBody (Some (settings_raw ''sealed''))]"
    using exists
    by (simp_all add: w1_def save_settings_blob_def ensure_meta_folder_def imap_append_def seqE_def imap_call_def imap_send_def retE_def sample_conn_def)
  ultimately have "fst (load_settings_blob sample_conn w1) = Inr (Some ''sealed'')"
    by (rule settings_round_trip) (simp_all add: sample_select_def)
  with s show ?thesis by blast
qed

definition sample_refresh :: "(sync_error + unit) \<times> world" where
  "sample_refresh = refresh_flags sample_conn 1 ''INBOX'' (snd sample_sync)"

theorem flag_anchor_skips_changes_witness:
  "(0, C_FetchFlags 40) \<in> set (w_log (snd sample_refresh)) \<and> {n. (0, C_FetchFlags n) \<in> set (w_log (snd sample_refresh))} \<subseteq> {40}"
proof
  show "(0, C_FetchFlags 40) \<in> set (w_log (snd sample_refresh))"
    by (simp add: sample_refresh_def refresh_flags_def refresh_from_def seqE_def on_db_def sample_sync_facts)
      (simp add: sample_sync_run run_defs folder_flags_def synced_db_def sample_conn_def has_cap_def sample_world_def)
  have run: "sync_folder sample_mx sample_conn 1 sample_folder sample_select (sample_world [IFetched [sample_buf]]) = (Inr (), snd sample_sync)"
    using sample_sync_facts(1) by (simp add: sample_sync_def prod_eq_iff)
  obtain d where get: "get_folder_by_full_name 1 (f_FullName sample_folder) (w_db (snd sample_sync)) = (Inr (sample_folder\<lparr>f_HighestModSeq := 40\<rparr>), d)"
    using sample_sync_facts(2) by (simp add: sample_folder_def)
  have ref: "refresh_flags sample_conn 1 (f_FullName sample_folder) (snd sample_sync) = (fst sample_refresh, snd sample_refresh)"
    by (simp add: sample_refresh_def sample_folder_def)
  show "{n. (0, C_FetchFlags n) \<in> set (w_log (snd sample_refresh))} \<subseteq> {40}"
  proof
    fix n assume "n \<in> {n. (0, C_FetchFlags n) \<in> set (w_log (snd sample_refresh))}"
    with flag_anchor_skips_changes [OF run get _ _ _ ref, of "(0, C_FetchFlags n)" n]
    show "n \<in> {40}" by (simp add: has_cap_def sample_conn_def sample_select_def)
  qed
qed

end
