(* ===== verification/ManagerLaws.thy ===== *)
theory ManagerLaws
  imports SyncManager SyncLaws
begin

text \<open>
  Properties of \<open>internal/syncmanager\<close>. The locale \<open>mgr_invariant\<close> extends \<open>sync_invariant\<close> by the changes the
  commands make to the manager's own fields; every command is shown once to keep such an invariant, and the
  locale is interpreted for the integrity of the whole manager and for the files it writes.
\<close>

section \<open>Invariants of every command\<close>

definition written_name :: "message \<Rightarrow> string \<Rightarrow> string" where
  "written_name msg filename = itoa (m_ID msg) @ ''-'' @ sanitize_filename filename"

locale mgr_invariant = sync_invariant D I for D :: "db \<Rightarrow> bool" and I :: "'k manager \<Rightarrow> bool" +
  assumes I_ks: "I g \<Longrightarrow> I (g\<lparr>g_ks := k\<rparr>)"
    and I_pool: "I g \<Longrightarrow> I (g\<lparr>g_pool := p\<rparr>)"
    and I_start: "I g \<Longrightarrow> a \<notin> set (g_runners g) \<Longrightarrow> I (g\<lparr>g_runners := a # g_runners g, g_started := st\<rparr>)"
    and I_stop: "I g \<Longrightarrow> I (g\<lparr>g_runners := removeAll a (g_runners g)\<rparr>)"
    and I_send_cmd: "I g \<Longrightarrow> I (g\<lparr>g_cmds := snd (try_send cmd_cap c (g_cmds g))\<rparr>)"
    and I_clock: "I g \<Longrightarrow> I (g\<lparr>g_clock := ts\<rparr>)"
    and I_smtp: "I g \<Longrightarrow> I (g\<lparr>g_smtp := os, g_delivered := ds\<rparr>)"
    and I_faults: "I g \<Longrightarrow> I (g\<lparr>g_file_faults := fs\<rparr>)"
    and I_file: "I g \<Longrightarrow> I (g\<lparr>g_files := g_files g @ [(attachments_dir g @ ''/'' @ written_name msg name, data)]\<rparr>)"
    and I_publish: "I g \<Longrightarrow> I (g\<lparr>g_published := ps\<rparr>)"
    and I_waits: "I g \<Longrightarrow> I (g\<lparr>w_waits := ws\<rparr>)"
    and I_next_cmd: "I g \<Longrightarrow> g_cmds g = c # cs \<Longrightarrow> I (g\<lparr>g_cmds := cs\<rparr>)"
    and I_next_event: "I g \<Longrightarrow> I (g\<lparr>w_events := tl (w_events g)\<rparr>)"
begin

lemma keeps_now [keeps_intros]: "keeps I now"
  by (rule keepsI) (auto simp: now_def I_clock split: list.splits)

lemma keeps_ks_call [keeps_intros]: "keeps I (ks_call f)"
  by (rule keepsI) (auto simp: ks_call_def I_ks split: prod.splits sum.splits)

lemma keeps_cred_for [keeps_intros]: "keeps I (cred_for x alias)"
  unfolding cred_for_def by (auto intro!: keeps_intros)

lemma keeps_start [keeps_intros]: "keeps I (start_account a)"
  by (rule keepsI) (auto simp: start_account_def modifyE_def I_start)

lemma keeps_stop [keeps_intros]: "keeps I (stop_account i)"
  by (rule keepsI) (auto simp: stop_account_def modifyE_def I_stop)

lemma keeps_set_pool [keeps_intros]: "keeps I (set_pool key cc)"
  by (rule keepsI) (auto simp: set_pool_def modifyE_def I_pool)

lemma keeps_pooled_conn [keeps_intros]: "keeps I (pooled_conn key)"
  unfolding pooled_conn_def by (auto intro!: keeps_intros)

lemma keeps_drop_suspect [keeps_intros]: "keeps I (drop_suspect key c)"
  unfolding drop_suspect_def
  by (intro keeps_seqE keeps_close_conn keepsI) (auto simp: modifyE_def I_pool split: option.splits)

lemma keeps_park_conn [keeps_intros]: "keeps I (park_conn key c)"
  unfolding park_conn_def by (auto intro!: keeps_intros)

lemma keeps_fresh_command [keeps_intros]:
  "keeps I cred \<Longrightarrow> (\<And>c. keeps I (fn c)) \<Longrightarrow> keeps I (fresh_command cfg cred fn)"
  unfolding fresh_command_def by (auto intro!: keeps_intros)

lemma keeps_with_command_conn [keeps_intros]:
  "keeps I cred \<Longrightarrow> (\<And>c. keeps I (fn c)) \<Longrightarrow> keeps I (with_command_conn cfg cred fn)"
  unfolding with_command_conn_def by (auto intro!: keeps_intros)

lemma keeps_drop_command_conn [keeps_intros]: "keeps I (drop_command_conn alias)"
  unfolding drop_command_conn_def by (auto intro!: keeps_intros)

lemma keeps_on_server [keeps_intros]: "(\<And>c. keeps I (fn c)) \<Longrightarrow> keeps I (on_server x a fn)"
  unfolding on_server_def by (auto intro!: keeps_intros)

lemma keeps_move_on [keeps_intros]: "keeps I (move_on x acct msg src dest c)"
  unfolding move_on_def by (auto intro!: keeps_intros)

lemma keeps_exec_move [keeps_intros]: "keeps I (exec_move x mid dest)"
  unfolding exec_move_def by (auto intro!: keeps_intros)

lemma keeps_expunge_on [keeps_intros]: "keeps I (expunge_on msg f c)"
  unfolding expunge_on_def by (auto intro!: keeps_intros)

lemma keeps_exec_delete [keeps_intros]: "keeps I (exec_delete x mid)"
  unfolding exec_delete_def delete_forever_def by (auto intro!: keeps_intros)

lemma keeps_exec_mark [keeps_intros]: "keeps I (exec_mark x mid flag st)"
  unfolding exec_mark_def by (auto intro!: keeps_intros)

lemma keeps_send_now [keeps_intros]: "keeps I (send_now x acct e)"
  unfolding send_now_def
  by (intro keeps_seqE keeps_if keeps_tryE keeps_cred_for keeps_retE keepsI)
    (auto simp: Let_def case_prod_beta I_smtp)

lemma keeps_append_to_sent [keeps_intros]: "keeps I (append_to_sent x aid raw)"
  unfolding append_to_sent_def by (auto intro!: keeps_intros)

lemma keeps_exec_send [keeps_intros]: "keeps I (exec_send x oid)"
  unfolding exec_send_def by (auto intro!: keeps_intros)

lemma keeps_sync_one [keeps_intros]: "keeps I (sync_one x acct c f)"
  unfolding sync_one_def by (auto intro!: keeps_intros)

lemma keeps_exec_sync_now [keeps_intros]: "keeps I (exec_sync_now x aid)"
  unfolding exec_sync_now_def by (auto intro!: keeps_intros)

lemma keeps_reported [keeps_intros]: "keeps I act \<Longrightarrow> keeps I (reported ev act)"
  unfolding reported_def by (auto intro!: keeps_intros)

lemma keeps_exec_refetch [keeps_intros]: "keeps I (exec_refetch_message x aid mid)"
  unfolding exec_refetch_message_def by (auto intro!: keeps_intros)

lemma keeps_exec_sync_folder [keeps_intros]: "keeps I (exec_sync_folder x aid fid)"
  unfolding exec_sync_folder_def by (auto intro!: keeps_intros)

lemma keeps_queue [keeps_intros]: "keeps I (modifyE (\<lambda>g. snd (mgr_send c g)))"
  by (rule keepsI) (auto simp: modifyE_def mgr_send_def Let_def case_prod_beta I_send_cmd)

lemma keeps_exec_add [keeps_intros]: "keeps I (exec_add_account x cfg credential)"
  unfolding exec_add_account_def add_account_def by (auto intro!: keeps_intros)

lemma keeps_exec_update [keeps_intros]: "keeps I (exec_update_credential x aid credential)"
  unfolding exec_update_credential_def by (auto intro!: keeps_intros)

lemma keeps_publish: "keeps I (modifyE (\<lambda>g. if b then g\<lparr>g_published := f g\<rparr> else g))"
  by (rule keepsI) (auto simp: modifyE_def I_publish)

lemma keeps_key_events [keeps_intros]: "keeps I (key_event aid email k)" "keeps I (key_error aid email e)"
  unfolding key_event_def key_error_def by (auto intro!: keeps_intros)

lemma keeps_generate_key [keeps_intros]: "keeps I (generate_key x aid acct alias)"
  unfolding generate_key_def by (auto intro!: keeps_intros keeps_publish)

lemma keeps_obtain_key [keeps_intros]: "keeps I (obtain_key x aid acct alias)"
  unfolding obtain_key_def by (auto intro!: keeps_intros)

lemma keeps_exec_key [keeps_intros]: "keeps I (exec_sync_private_key x aid)"
  unfolding exec_sync_private_key_def by (auto intro!: keeps_intros)

lemma keeps_exec_remove [keeps_intros]: "keeps I (exec_remove_account x aid)"
  unfolding exec_remove_account_def by (auto intro!: keeps_intros)

lemma keeps_folder_name [keeps_intros]: "keeps I (folder_name aid fid)"
  unfolding folder_name_def by (auto intro!: keeps_intros)

lemma keeps_write:
  fixes msg :: message
  shows "keeps I (seqE (readE attachments_dir) (\<lambda>dir.
     let path = dir @ ''/'' @ itoa (m_ID msg) @ ''-'' @ sanitize_filename name
     in seqE (file_call (\<lambda>g. g)) (\<lambda>_.
          seqE (file_call (\<lambda>g. g\<lparr>g_files := g_files g @ [(path, data)]\<rparr>)) (\<lambda>_. retE path))))"
proof (rule keepsI)
  have dir: "attachments_dir (h\<lparr>g_file_faults := fs\<rparr>) = attachments_dir h" for h :: "'k manager" and fs
    by (simp add: attachments_dir_def)
  fix g assume I: "I g"
  have "I (g\<lparr>g_file_faults := fs, g_files := g_files g @ [(attachments_dir g @ ''/'' @ written_name msg name, data)]\<rparr>)" for fs
    using I_file [OF I_faults [OF I, of fs], of msg name data] by (simp add: dir)
  then show "I (snd (seqE (readE attachments_dir) (\<lambda>dir.
     let path = dir @ ''/'' @ itoa (m_ID msg) @ ''-'' @ sanitize_filename name
     in seqE (file_call (\<lambda>g. g)) (\<lambda>_.
          seqE (file_call (\<lambda>g. g\<lparr>g_files := g_files g @ [(path, data)]\<rparr>)) (\<lambda>_. retE path))) g))"
    using I_faults [OF I]
    by (auto simp: seqE_def readE_def file_call_def retE_def Let_def written_name_def)
qed

lemma keeps_save_attachment [keeps_intros]: "keeps I (save_attachment x msg name i c)"
  unfolding save_attachment_def
  by (intro keeps_seqE keeps_message_actions keeps_sum keeps_failE keeps_prod keeps_write)

lemma keeps_exec_attachment [keeps_intros]: "keeps I (exec_fetch_attachment x mid i)"
  unfolding exec_fetch_attachment_def by (auto intro!: keeps_intros)

lemma keeps_exec_rest [keeps_intros]:
  "keeps I (exec_save_draft x aid raw)" "keeps I (exec_snooze mid t)" "keeps I (exec_unsubscribe x mid)"
  unfolding exec_save_draft_def exec_snooze_def exec_unsubscribe_def by (auto intro!: keeps_intros)

lemma keeps_handle_cmd: "keeps I (handle_cmd x c)"
  by (cases c) (auto intro: keeps_intros)

lemma keeps_run_idle: "keeps I cred \<Longrightarrow> keeps I (run_idle_from b mx cfg cred name aid scripts)"
proof (induction scripts arbitrary: b)
  case Nil
  show ?case by (simp add: keeps_seqE keeps_failE keeps_cancel_ctx)
next
  case (Cons wks scripts)
  have wait: "keeps I (modifyE (\<lambda>w. w\<lparr>w_waits := w_waits w @ [b]\<rparr>))"
    by (rule keepsI) (simp add: modifyE_def I_waits)
  show ?case
    by (simp, intro keeps_tryE keeps_seqE keeps_if keeps_run_session keeps_check_ctx keeps_emit keeps_failE wait Cons)
qed

lemma step_keeps: "I g \<Longrightarrow> I (mgr_step x p g)"
proof (cases p)
  case LoopStep
  assume "I g"
  then show ?thesis using LoopStep keepsD [OF keeps_handle_cmd I_next_cmd] by (simp split: list.splits)
next
  case (Session cfg aid scripts)
  assume "I g"
  then show ?thesis using Session keepsD [OF keeps_run_idle [OF keeps_cred_for]] by (simp add: run_idle_def)
qed (simp_all add: mgr_send_def case_prod_beta I_send_cmd I_next_event)

lemma D_entries: "D d \<Longrightarrow> D (snd (snd (process_entries parse tls ctx acct es lg d)))"
proof (induction es arbitrary: lg d)
  case (Cons e es)
  have sent: "D (snd (mark_outbox_sent i d))" and failed: "D (snd (mark_outbox_failed i err t d))" for i err t
    using guarded_inv [OF Cons.prems, of "MarkOutboxSent i"] guarded_inv [OF Cons.prems, of "MarkOutboxFailed i err t"] by simp_all
  have "mark_outbox_sent i d = (r, d') \<Longrightarrow> D d'" "mark_outbox_failed i err t d = (r, d') \<Longrightarrow> D d'" for i err t r d'
    using sent [of i] failed [of i err t] by simp_all
  then show ?case using Cons by (auto simp: Let_def split: prod.splits sum.splits option.splits)
qed simp

lemma scheduler_keeps: "I g \<Longrightarrow> I (snd (scheduler_pass x aid cfg ctx t interval g))"
proof -
  assume I: "I g"
  define lg where "lg = fst (snd (process_outbox (e_parse x) (c_SMTPTLS cfg) ctx t aid (w_db g)))"
  define d where "d = snd (snd (process_outbox (e_parse x) (c_SMTPTLS cfg) ctx t aid (w_db g)))"
  have "D (snd (due_outbox (unix_sec t) (w_db g)))"
    unfolding due_outbox_def by (rule sql_read_D [OF I_D [OF I]]) auto
  then have "D d" using D_entries by (auto simp: d_def process_outbox_def split: prod.splits sum.splits)
  then have "I (g\<lparr>w_db := d, g_delivered := g_delivered g @ ol_delivered lg\<rparr>)"
    using I_smtp [OF I_db [OF I], where d1 = d and os = "g_smtp g"] by simp
  moreover have "keeps I (forE rs (\<lambda>(oid, err). emit (SendResultEvent oid (err \<noteq> None))) :: ('k, unit) mgr_action)"
    for rs :: "(int \<times> send_error option) list"
    by (rule keeps_forE) (simp only: split_beta keeps_emit)
  ultimately show ?thesis
    by (simp add: scheduler_pass_def Let_def case_prod_beta lg_def [symmetric] d_def [symmetric] keepsD del: not_None_eq)
qed

end

section \<open>Integrity of the manager\<close>

definition mgr_inv :: "'k manager \<Rightarrow> bool" where
  "mgr_inv g \<longleftrightarrow> db_inv (w_db g) \<and> length (w_events g) \<le> 256 \<and> length (g_cmds g) \<le> 64 \<and> distinct (g_runners g)"

lemma distinct_removeAll: "distinct xs \<Longrightarrow> distinct (removeAll a xs)"
  by (simp add: removeAll_filter_not_eq)

lemma try_send_caps: "length q \<le> 256 \<Longrightarrow> length (snd (try_send event_cap ev q)) \<le> 256"
    "length r \<le> 64 \<Longrightarrow> length (snd (try_send cmd_cap c r)) \<le> 64"
  using try_send_bounded [of q event_cap ev] try_send_bounded [of r cmd_cap c] by (simp_all add: event_cap_def cmd_cap_def)

interpretation manager: mgr_invariant db_inv mgr_inv
  by unfold_locales (auto simp: mgr_inv_def try_send_caps distinct_removeAll store.step_inv)

interpretation manager_steps: preserving "mgr_step x" mgr_inv for x
  by unfold_locales (rule manager.step_keeps)

text \<open>\<open>New\<close>: the schedules of the environment are those of \<open>env\<close>.\<close>

definition new_manager :: "db \<Rightarrow> 'k \<Rightarrow> 'k manager \<Rightarrow> 'k manager" where
  "new_manager d k env = env\<lparr>w_db := d, g_ks := k, w_events := [], g_cmds := [], g_runners := [], g_pool := Map.empty\<rparr>"

text \<open>Whatever the UI sends, whatever servers, keystore, files and database do, and however commands and sync
  sessions follow each other, the manager keeps the integrity of the store, never exceeds the capacity of its two
  channels and never runs two sync loops for one account.\<close>

theorem manager_integrity:
  assumes "db_inv d" and "g = fold (mgr_step x) ops (new_manager d k env)"
  shows "db_inv (w_db g) \<and> length (w_events g) \<le> 256 \<and> length (g_cmds g) \<le> 64 \<and> distinct (g_runners g)"
proof -
  have "mgr_inv (new_manager d k env)" using assms(1) by (simp add: mgr_inv_def new_manager_def)
  from manager_steps.run_inv [OF this, of x ops] show ?thesis by (simp add: assms(2) mgr_inv_def)
qed

section \<open>Files\<close>

definition safe_name :: "string \<Rightarrow> bool" where
  "safe_name name \<longleftrightarrow> (\<forall>c \<in> set name. \<not> bad_char c) \<and> name \<notin> {[], ''.'', ''..''}"

definition files_inv :: "string \<Rightarrow> (string \<times> bytes) set \<Rightarrow> 'k manager \<Rightarrow> bool" where
  "files_inv dir old g \<longleftrightarrow> attachments_dir g = dir
     \<and> (\<forall>(p, d) \<in> set (g_files g). (p, d) \<in> old \<or> (\<exists>name. p = dir @ ''/'' @ name \<and> safe_name name))"

lemma digit_chars: "c \<in> set (itoa i) \<Longrightarrow> is_digit c \<or> c = CHR ''-''"
  using format_nat_digits by (auto simp: itoa_def list_all_iff split: if_splits)

lemma digit_not_bad: "is_digit c \<or> c = CHR ''-'' \<Longrightarrow> \<not> bad_char c"
  by (auto simp: is_digit_def bad_char_def less_eq_char_def)

lemma sanitized_not_bad: "c \<in> set (sanitize_filename name) \<Longrightarrow> \<not> bad_char c"
  by (auto simp: sanitize_filename_def bad_char_def)

lemma written_name_safe: "safe_name (written_name msg name)"
proof -
  have "CHR ''-'' \<in> set (written_name msg name)" by (simp add: written_name_def)
  moreover have "\<not> bad_char c" if "c \<in> set (written_name msg name)" for c
  proof -
    have "\<not> bad_char (CHR ''-'')" by (rule digit_not_bad) simp
    then show ?thesis
      using that digit_chars digit_not_bad sanitized_not_bad by (auto simp: written_name_def)
  qed
  ultimately show ?thesis by (auto simp: safe_name_def)
qed

interpretation files: mgr_invariant "\<lambda>_. True" "files_inv dir old" for dir old
  by unfold_locales (auto simp: files_inv_def attachments_dir_def written_name_safe)

text \<open>C25. Whatever a mail calls its attachment, a command of the manager writes only files that lie directly in the
  attachments directory, with a name free of path separators and control characters.\<close>

theorem attachment_path_confined:
  assumes "(p, data) \<in> set (g_files (snd (handle_cmd x c g)))" and "(p, data) \<notin> set (g_files g)"
  shows "\<exists>name. p = attachments_dir g @ ''/'' @ name \<and> name \<notin> {[], ''.'', ''..''} \<and> CHR ''/'' \<notin> set name
    \<and> (\<forall>ch \<in> set name. 32 \<le> (of_char ch :: nat))"
proof -
  have "files_inv (attachments_dir g) (set (g_files g)) g" by (auto simp: files_inv_def)
  then have "files_inv (attachments_dir g) (set (g_files g)) (snd (handle_cmd x c g))"
    by (rule files.keeps_handle_cmd [THEN keepsD])
  then obtain name where "p = attachments_dir g @ ''/'' @ name" "safe_name name"
    using assms by (auto simp: files_inv_def)
  then show ?thesis by (force simp: safe_name_def bad_char_def)
qed

section \<open>Deleting offline\<close>

lemma cred_for_run:
  "cred_for x alias g =
     (let (s, k) = ks_fetch (e_ks x) alias (g_ks g) in (case s of Inl _ \<Rightarrow> Inl E_Cred | Inr a \<Rightarrow> Inr a, g\<lparr>g_ks := k\<rparr>))"
  by (cases "ks_fetch (e_ks x) alias (g_ks g)"; cases "fst (ks_fetch (e_ks x) alias (g_ks g))")
    (simp_all add: cred_for_def tryE_def ks_call_def failE_def retE_def)

lemma fresh_offline:
  assumes "w_dials g = []" and "fresh_command cfg (cred_for x alias) fn g = (r, g')"
  shows "isl r \<and> w_log g' = w_log g \<and> w_db g' = w_db g"
proof -
  obtain s k where f: "ks_fetch (e_ks x) alias (g_ks g) = (s, k)" by fastforce
  show ?thesis
    using assms by (cases s) (auto simp: fresh_command_def seqE_def cred_for_run f dial_def split: if_splits)
qed

text \<open>A message deleted for good while the server cannot be reached stays hidden: the command fails, nothing is sent to
  the server, and the row keeps its deleted mark, because only a failing IMAP command restores it.\<close>

theorem offline_delete_hides_message:
  assumes no_fault: "db_faults (w_db g) = []"
    and msg: "find (\<lambda>m. m_ID m = mid) (db_messages (w_db g)) = Some msg"
    and fs: "fst (list_folders (m_AccountID msg) (w_db g)) = Inr fs"
    and cur: "last_such (\<lambda>f. f_ID f = m_FolderID msg) fs = Some current" "f_IsTrash current"
    and acct: "find (\<lambda>a. a_ID a = m_AccountID msg) (db_accounts (w_db g)) = Some acct"
    and offline: "g_pool g (a_KeystoreAlias acct) = None" "w_dials g = []"
    and run: "exec_delete x mid g = (r, g')"
  shows "isl r \<and> w_log g' = w_log g \<and> (\<exists>m \<in> set (db_messages (w_db g')). m_ID m = mid \<and> m_IsDeleted m)"
proof -
  obtain trash where trash: "last_such f_IsTrash fs = Some trash"
    using cur find_Some [of "\<lambda>f. f_ID f = m_FolderID msg" "rev fs"] find_None [of f_IsTrash "rev fs"]
    by (auto simp: last_such_def)
  have id: "m_ID msg = mid" "msg \<in> set (db_messages (w_db g))" using find_Some [OF msg] by simp_all
  let ?d = "(w_db g)\<lparr>db_messages := map (\<lambda>m. if m_ID m = mid then m\<lparr>m_IsDeleted := True\<rparr> else m) (db_messages (w_db g))\<rparr>"
  have reads: "get_message mid (w_db g) = (Inr (scan_message msg), w_db g)"
    "get_account (m_AccountID msg) (w_db g) = (Inr acct, w_db g)"
    "list_folders (m_AccountID msg) (w_db g) = (Inr fs, w_db g)"
    using msg acct fs no_fault by (auto simp: get_message_def get_account_def list_folders_def sql_no_fault)
  have upd: "set_deleted mid True (w_db g) = (Inr (), ?d)"
    using id no_fault by (auto simp: set_deleted_def update_message_row_def sql_no_fault)
  have row: "m_AccountID (scan_message msg) = m_AccountID msg" "m_FolderID (scan_message msg) = m_FolderID msg" "m_ID (scan_message msg) = mid"
    by (simp_all add: scan_message_def id)
  have "exec_delete x mid g = on_server x acct (expunge_on (scan_message msg) current) (g\<lparr>w_db := ?d\<rparr>)"
    using cur trash by (simp add: exec_delete_def delete_forever_def seqE_def on_db_def reads upd row id(1))
  also have "\<dots> = fresh_command (config_from_store acct) (cred_for x (a_KeystoreAlias acct)) (expunge_on (scan_message msg) current) (g\<lparr>w_db := ?d\<rparr>)"
    using offline by (simp add: on_server_def with_command_conn_def pooled_conn_def seqE_def readE_def retE_def config_from_store_def)
  finally have run': "fresh_command (config_from_store acct) (cred_for x (a_KeystoreAlias acct)) (expunge_on (scan_message msg) current) (g\<lparr>w_db := ?d\<rparr>) = (r, g')"
    using run by simp
  have "isl r \<and> w_log g' = w_log g \<and> w_db g' = ?d"
    using fresh_offline [OF _ run'] offline(2) by simp
  moreover have "\<exists>m \<in> set (db_messages ?d). m_ID m = mid \<and> m_IsDeleted m"
  proof
    show "msg\<lparr>m_IsDeleted := True\<rparr> \<in> set (db_messages ?d)"
      using imageI [OF id(2), of "\<lambda>m. if m_ID m = mid then m\<lparr>m_IsDeleted := True\<rparr> else m"] id(1) by simp
  qed (simp add: id(1))
  ultimately show ?thesis by simp
qed

section \<open>Accounts\<close>

lemma emit_last:
  "length (w_events g) < 256 \<Longrightarrow> emit ev g = (Inr (), g\<lparr>w_events := w_events g @ [ev]\<rparr>)"
  by (simp add: emit_def modifyE_def try_send_def event_cap_def)

lemma add_account_run:
  assumes "add_account x cfg credential g = (r, g')"
  shows "w_events g' = w_events g
    \<and> (\<forall>i. r = Inr i \<longrightarrow> i \<in> set (g_runners g') \<and> (\<exists>a \<in> set (db_accounts (w_db g')). a_ID a = i \<and> a_EmailAddress a = c_EmailAddress cfg))"
proof (cases "config_validate cfg")
  case (Some e)
  then show ?thesis using assms by (auto simp: add_account_def failE_def)
next
  case None
  have now_fields: "w_events (snd (now h)) = w_events h" "w_db (snd (now h)) = w_db h" "\<exists>t. fst (now h) = Inr t" for h :: "'a manager"
    by (auto simp: now_def split: list.splits)
  obtain k1 s where st: "ks_store (e_ks x) (c_KeystoreAlias cfg) credential (g_ks g) = (s, k1)" by fastforce
  show ?thesis
  proof (cases s)
    case (Inl e)
    then show ?thesis using assms None st by (auto simp: add_account_def seqE_def ks_call_def)
  next
    case (Inr u)
    let ?g1 = "g\<lparr>g_ks := k1\<rparr>"
    obtain t g2 where t: "now ?g1 = (Inr t, g2)" using now_fields(3) [of ?g1] by (metis prod.collapse)
    have g2: "w_events g2 = w_events g" "w_db g2 = w_db g" using now_fields [of ?g1] t by simp_all
    obtain q d where ins: "insert_account (unix_sec t) (account_row cfg) (w_db g) = (q, d)" by fastforce
    have add: "add_account x cfg credential g =
      seqE (on_db (insert_account (unix_sec t) (account_row cfg))) (\<lambda>(i, row).
        seqE (start_account row) (\<lambda>_. seqE (modifyE (\<lambda>g. snd (mgr_send (SyncPrivateKeyCmd i) g))) (\<lambda>_. retE i))) g2"
      using None st Inr t by (simp add: add_account_def seqE_def ks_call_def)
    show ?thesis
    proof (cases q)
      case (Inl e)
      then show ?thesis using assms ins g2 unfolding add by (auto simp: seqE_def on_db_def)
    next
      case (Inr ir)
      obtain i row where ir: "ir = (i, row)" by fastforce
      have "a_ID row = i \<and> (\<exists>a \<in> set (db_accounts d). a_ID a = i \<and> a_EmailAddress a = c_EmailAddress cfg)"
        using ins unfolding Inr ir insert_account_def
        by (auto dest!: sql_InrD simp: Let_def account_row_def split: if_splits)
      then show ?thesis
        using assms ins g2 unfolding add Inr ir
        by (auto simp: seqE_def on_db_def start_account_def modifyE_def mgr_send_def case_prod_beta retE_def)
    qed
  qed
qed

text \<open>Adding an account always reports: when the event channel has room the last event says whether the command
  succeeded, and it says so only when the account's row exists and its sync loop is running.\<close>

theorem add_account_reported:
  assumes "exec_add_account x cfg credential g = (r, g')" and "length (w_events g) < 256"
  shows "\<exists>i. w_events g' = w_events g @ [AccountAddedEvent i (c_EmailAddress cfg) (isl r)]
    \<and> (isl r \<or> (i \<in> set (g_runners g') \<and> (\<exists>a \<in> set (db_accounts (w_db g')). a_ID a = i \<and> a_EmailAddress a = c_EmailAddress cfg)))"
proof -
  obtain s h where add: "add_account x cfg credential g = (s, h)" by fastforce
  note facts = add_account_run [OF add]
  then have room: "length (w_events h) < 256" using assms(2) by simp
  show ?thesis
  proof (cases s)
    case (Inl e)
    then show ?thesis
      using assms(1) add facts by (auto simp: exec_add_account_def tryE_def seqE_def failE_def emit_last [OF room])
  next
    case (Inr i)
    then show ?thesis
      using assms(1) add facts by (auto simp: exec_add_account_def tryE_def emit_last [OF room])
  qed
qed

text \<open>A failed change of the password leaves the account without a sync loop: the loop is stopped before the keystore is
  asked, and nothing starts it again when the keystore refuses.\<close>

theorem failed_update_stops_sync:
  assumes "exec_update_credential x aid credential g = (Inl e, g')" and "fst (get_account aid (w_db g)) = Inr acct"
  shows "aid \<notin> set (g_runners g')"
proof -
  have "on_db (get_account aid) g = (Inr acct, g\<lparr>w_db := snd (get_account aid (w_db g))\<rparr>)"
    using assms(2) by (auto simp: on_db_def split: prod.splits sum.splits)
  then have "exec_update_credential x aid credential g = reported (CredentialUpdatedEvent aid)
      (\<lambda>_. (seqE (stop_account aid) (\<lambda>_.
           seqE (ks_call (ks_store (e_ks x) (a_KeystoreAlias acct) credential)) (\<lambda>_. start_account acct)))
             (g\<lparr>w_db := snd (get_account aid (w_db g))\<rparr>)) g"
    by (simp add: exec_update_credential_def reported_def tryE_def seqE_def)
  then show ?thesis
    using assms(1)
    by (cases "ks_store (e_ks x) (a_KeystoreAlias acct) credential (g_ks g)";
        cases "fst (ks_store (e_ks x) (a_KeystoreAlias acct) credential (g_ks g))")
      (auto simp: reported_def tryE_def seqE_def stop_account_def start_account_def modifyE_def ks_call_def
        emit_def failE_def retE_def)
qed

section \<open>Removing an account\<close>

context keystore
begin

lemma remove_account_view:
  assumes ks: "e_ks x = ks" and inv: "invar (g_ks g)" and acct: "fst (get_account aid (w_db g)) = Inr acct"
    and run: "exec_remove_account x aid g = (Inr (), g')"
  shows "g_pool g' (a_KeystoreAlias acct) = None \<and> aid \<notin> set (g_runners g') \<and> aid \<notin> a_ID ` set (db_accounts (w_db g'))
    \<and> g_ks g' = snd (ks_delete (e_ks x) (a_KeystoreAlias acct) (g_ks g))
    \<and> (\<forall>alias. alias \<noteq> a_KeystoreAlias acct \<longrightarrow> view (g_ks g') alias = view (g_ks g) alias)"
proof -
  let ?d = "snd (get_account aid (w_db g))" and ?al = "a_KeystoreAlias acct"
  let ?g1 = "g\<lparr>w_db := ?d, g_runners := removeAll aid (g_runners g)\<rparr>"
  have get: "on_db (get_account aid) g = (Inr acct, g\<lparr>w_db := ?d\<rparr>)"
    using acct by (auto simp: on_db_def split: prod.splits sum.splits)
  define g2 where "g2 = snd (drop_command_conn ?al ?g1)"
  have drop: "drop_command_conn ?al ?g1 = (Inr (), g2)"
    by (cases "g_pool g ?al") (simp_all add: g2_def drop_command_conn_def seqE_def readE_def retE_def close_conn_def set_pool_def modifyE_def)
  have g2: "g_pool g2 ?al = None" "g_runners g2 = removeAll aid (g_runners g)" "g_ks g2 = g_ks g" "w_db g2 = ?d"
    by (cases "g_pool g ?al"; simp add: g2_def drop_command_conn_def seqE_def readE_def retE_def close_conn_def set_pool_def modifyE_def log_cmd_def)+
  let ?g3 = "g2\<lparr>g_ks := snd (ks_delete (e_ks x) ?al (g_ks g))\<rparr>"
  have del: "tryE (ks_call (ks_delete (e_ks x) ?al)) (\<lambda>_. on_db (delete_account aid)) g2 = on_db (delete_account aid) ?g3"
    using g2(3) by (cases "ks_delete (e_ks x) ?al (g_ks g)"; cases "fst (ks_delete (e_ks x) ?al (g_ks g))")
      (simp_all add: tryE_def ks_call_def)
  have "exec_remove_account x aid g = reported (AccountRemovedEvent aid) (\<lambda>_. on_db (delete_account aid) ?g3) g"
    by (simp add: exec_remove_account_def reported_def tryE_def [of "seqE m f" for m f] seqE_def get stop_account_def modifyE_def drop del tryE_def [of "\<lambda>_. c" for c])
  then have run': "reported (AccountRemovedEvent aid) (\<lambda>_. on_db (delete_account aid) ?g3) g = (Inr (), g')" using run by simp
  obtain q d where da: "delete_account aid ?d = (q, d)" by fastforce
  have q: "q = Inr ()"
    using run' da g2(4) by (cases q) (auto simp: reported_def tryE_def on_db_def seqE_def emit_def modifyE_def failE_def)
  have "g_pool g' = g_pool g2" "g_runners g' = g_runners g2" "g_ks g' = g_ks ?g3" "w_db g' = d"
    using run' da g2(4) q by (auto simp: reported_def tryE_def on_db_def seqE_def emit_def modifyE_def retE_def)
  moreover have "aid \<notin> a_ID ` set (db_accounts d)"
    using da unfolding q delete_account_def by (auto dest!: sql_InrD simp: Let_def split: if_splits)
  ultimately show ?thesis using g2 delete_other [OF inv, of _ ?al] ks by auto
qed

end

text \<open>Signing out. On the sealed keystore a successful removal leaves no pooled connection, no sync loop and no row of
  the account; its credential is gone when the keystore deleted it; but the account's PGP private key stays sealed
  under its own alias.\<close>

theorem remove_account_leaves_pgp_key:
  assumes "e_ks x = sealed_ops" and "sealed_inv (g_ks g)" and "fst (get_account aid (w_db g)) = Inr acct"
    and "exec_remove_account x aid g = (Inr (), g')"
    and "a_KeystoreAlias acct \<noteq> pgp_key_alias_prefix @ a_EmailAddress acct"
  shows "g_pool g' (a_KeystoreAlias acct) = None \<and> aid \<notin> set (g_runners g') \<and> aid \<notin> a_ID ` set (db_accounts (w_db g'))
    \<and> (fst (sealed_delete (a_KeystoreAlias acct) (g_ks g)) = Inr () \<longrightarrow> sealed_view (g_ks g') (a_KeystoreAlias acct) = None)
    \<and> sealed_view (g_ks g') (pgp_key_alias_prefix @ a_EmailAddress acct) = sealed_view (g_ks g) (pgp_key_alias_prefix @ a_EmailAddress acct)"
proof -
  note facts = sealed.remove_account_view [OF assms(1-4)]
  have del: "ks_delete (e_ks x) = sealed_delete" by (simp add: assms(1) sealed_ops_def)
  have "sealed_view (snd (sealed_delete (a_KeystoreAlias acct) (g_ks g))) (a_KeystoreAlias acct) = None"
    if "fst (sealed_delete (a_KeystoreAlias acct) (g_ks g)) = Inr ()"
    using sealed.delete_ok [OF assms(2), of "a_KeystoreAlias acct" "snd (sealed_delete (a_KeystoreAlias acct) (g_ks g))"] that
    by (simp add: sealed_ops_def prod_eq_iff)
  then show ?thesis using facts assms(5) unfolding del by auto
qed

section \<open>The account's PGP key\<close>

text \<open>C40. An outage replaces the account's PGP key: when no key is sealed on the device and the key server cannot be
  reached (or answers anything but 200), the command does not fail but generates, seals and publishes a new key,
  although the server may hold the account's key.\<close>

theorem outage_replaces_pgp_key:
  assumes acct: "get_account aid (w_db g) = (Inr acct, d)"
    and none: "ks_fetch (e_ks x) (pgp_key_alias_prefix @ a_EmailAddress acct) (g_ks g) = (Inl e, k1)"
    and cred: "ks_fetch (e_ks x) (a_KeystoreAlias acct) k1 = (Inr secret, k2)"
    and outage: "\<And>rq. x_net (e_http x) rq \<in> {No_reply} \<union> {Reply status body ok |status body ok. status \<noteq> 200}"
    and url: "url_parse (x_lit (e_http x)) (''https://'' @ domain_of (a_EmailAddress acct) @ ''/api/v1/members/vayumail-privkey'') \<noteq> None"
    and gen: "e_genkey x (a_DisplayName acct) (a_EmailAddress acct) = Some (pub, priv)"
    and seal: "ks_store (e_ks x) (pgp_key_alias_prefix @ a_EmailAddress acct) priv k2 = (Inr (), k3)"
    and room: "length (w_events g) < 256" and publish: "e_publish x"
    and run: "exec_sync_private_key x aid g = (r, g')"
  shows "r = Inr () \<and> g_ks g' = k3 \<and> w_events g' = w_events g @ [PrivateKeyEvent aid (a_EmailAddress acct) priv False]
    \<and> g_published g' = g_published g @ [(a_EmailAddress acct, pub)]"
proof -
  let ?slot = "pgp_key_alias_prefix @ a_EmailAddress acct"
  define rq where "rq = \<lparr>rq_method = ''POST'',
      rq_url = ''https://'' @ domain_of (a_EmailAddress acct) @ ''/api/v1/members/vayumail-privkey'',
      rq_accept = ''application/json'',
      rq_body = marshal_map (e_http x) [(''email'', JStr (a_EmailAddress acct)), (''password'', JStr secret)], rq_follow = False\<rparr>"
  have sent: "send_request (e_http x) rq = ([rq], Some (x_net (e_http x) rq))"
    using url by (simp add: send_request_def rq_def)
  have lost: "snd (fetch_private_key (e_http x) (a_EmailAddress acct) secret) = Inl ErrNoPrivateKey"
    unfolding fetch_private_key_def rq_def [symmetric] sent using outage [of rq] by auto
  have got: "on_db (get_account aid) g = (Inr acct, g\<lparr>w_db := d\<rparr>)" using acct by (simp add: on_db_def)
  have miss: "ks_call (ks_fetch (e_ks x) ?slot) (g\<lparr>w_db := d\<rparr>) = (Inl E_Key, g\<lparr>w_db := d, g_ks := k1\<rparr>)"
    using none by (simp add: ks_call_def)
  have obt: "exec_sync_private_key x aid g = obtain_key x aid acct ?slot (g\<lparr>w_db := d, g_ks := k1\<rparr>)"
    by (simp add: exec_sync_private_key_def tryE_def got miss Let_def)
  also have "\<dots> = generate_key x aid acct ?slot (g\<lparr>w_db := d, g_ks := k2\<rparr>)"
    using cred lost by (simp add: obtain_key_def tryE_def cred_for_run)
  also have "\<dots> = (Inr (), g\<lparr>w_db := d, g_ks := k3, g_published := g_published g @ [(a_EmailAddress acct, pub)],
      w_events := w_events g @ [PrivateKeyEvent aid (a_EmailAddress acct) priv False]\<rparr>)"
    using gen seal room publish
    by (simp add: generate_key_def tryE_def ks_call_def seqE_def modifyE_def key_event_def emit_last)
  finally show ?thesis using run by simp
qed

section \<open>The scheduler's cadence\<close>

text \<open>Whether one pass failed: a delivery failed, or the loop did for another reason than the context.\<close>

definition pass_failed :: "'k mgr_ext \<Rightarrow> int \<Rightarrow> config \<Rightarrow> (outbox_entry \<Rightarrow> send_ctx) \<Rightarrow> int \<Rightarrow> 'k manager \<Rightarrow> bool" where
  "pass_failed x aid cfg ctx t g =
     (let (res, lg, d) = process_outbox (e_parse x) (c_SMTPTLS cfg) ctx t aid (w_db g)
      in list_ex (\<lambda>(oid, err). err \<noteq> None) (ol_results lg) \<or> (isl res \<and> res \<noteq> Inl ContextDone))"

fun failures :: "'k mgr_ext \<Rightarrow> int \<Rightarrow> config \<Rightarrow> ((outbox_entry \<Rightarrow> send_ctx) \<times> int) list \<Rightarrow> 'k manager \<Rightarrow> bool list" where
  "failures x aid cfg [] g = []"
| "failures x aid cfg ((ctx, t) # passes) g =
     pass_failed x aid cfg ctx t g # failures x aid cfg passes (snd (scheduler_pass x aid cfg ctx t 0 g))"

lemma scheduler_pass_alt:
  "scheduler_pass x aid cfg ctx t i g = (next_interval (pass_failed x aid cfg ctx t g) i, snd (scheduler_pass x aid cfg ctx t 0 g))"
  by (simp add: scheduler_pass_def pass_failed_def Let_def case_prod_beta)

definition interval_after :: "bool list \<Rightarrow> int" where
  "interval_after fs = min (30 * minute) (5 * minute * 2 ^ length (takeWhile (\<lambda>b. b) (rev fs)))"

lemma next_interval_after: "next_interval b (interval_after fs) = interval_after (fs @ [b])"
proof (cases b)
  case True
  let ?p = "2 ^ length (takeWhile (\<lambda>b. b) (rev fs)) :: int"
  have "interval_after (fs @ [b]) = min (30 * minute) (5 * minute * ?p * 2)"
    using True by (simp add: interval_after_def)
  then show ?thesis
    using True unfolding next_interval_def scheduler_max_def interval_after_def [of fs] by (simp add: min_def)
next
  case False
  then show ?thesis by (simp add: next_interval_def interval_after_def scheduler_base_def)
qed

lemma scheduler_run_interval:
  "fst (scheduler_run x aid cfg passes (interval_after fs) g) = interval_after (fs @ failures x aid cfg passes g)"
proof (induction passes arbitrary: fs g)
  case (Cons p passes)
  obtain ctx t where p: "p = (ctx, t)" by fastforce
  show ?case
    using Cons [of "fs @ [pass_failed x aid cfg ctx t g]" "snd (scheduler_pass x aid cfg ctx t 0 g)"]
    by (simp add: p scheduler_pass_alt [of x aid cfg ctx t "interval_after fs"] next_interval_after)
qed simp

text \<open>The cadence of the outbox scheduler: after any sequence of passes the next one is due in
  min(30 min, 5 min * 2^k), where k counts the passes that failed since the last one that did not.\<close>

theorem scheduler_cadence:
  "fst (scheduler_run x aid cfg passes scheduler_base g) =
     min (30 * minute) (5 * minute * 2 ^ length (takeWhile (\<lambda>b. b) (rev (failures x aid cfg passes g))))"
  using scheduler_run_interval [of x aid cfg passes "[]" g]
  by (simp add: interval_after_def scheduler_base_def)

section \<open>Witnesses\<close>

definition sample_http :: ext where
  "sample_http = \<lparr>x_net = (\<lambda>rq. No_reply), x_lit = (\<lambda>h. None), x_object = (\<lambda>m. ''{}''), x_payload = (\<lambda>s. None), x_creds = (\<lambda>s. None),
     x_doc = (\<lambda>s. None), x_register = (\<lambda>s. None), x_status = (\<lambda>s. None), x_reason = (\<lambda>s. None), x_privkey = (\<lambda>s. None),
     x_verify = (\<lambda>k m s. False), x_sha256 = (\<lambda>b. [])\<rparr>"

definition sample_mgr_ext :: "memory_keystore mgr_ext" where
  "sample_mgr_ext = \<lparr>e_ks = memory_ops, e_mime = sample_mx, e_parse = (\<lambda>raw. None), e_build = (\<lambda>d. None), e_http = sample_http,
     e_genkey = (\<lambda>n e. Some (''PUB'', ''PRIV'')), e_publish = True\<rparr>"

definition sample_mgr :: "'k \<Rightarrow> 'k manager" where
  "sample_mgr k = \<lparr>w_db = sample_db, w_replies = [], w_log = [], w_events = [], w_fuse = None, w_dials = [], w_opened = 0, w_waits = [],
     g_ks = k, g_pool = Map.empty, g_runners = [1], g_started = [], g_cmds = [], g_clock = [0], g_smtp = [], g_delivered = [],
     g_attach_dir = ''/data'', g_files = [], g_file_faults = [], g_published = []\<rparr>"

definition sample_keys :: memory_keystore where "sample_keys = [''k'' \<mapsto> ''pw'']"

theorem manager_integrity_witness:
  "length (w_events (fold (mgr_step sample_mgr_ext) [UISend (SyncNowCmd 1), LoopStep] (new_manager sample_db sample_keys (sample_mgr sample_keys)))) \<le> 256"
  using manager_integrity [OF sample_db_inv refl, of sample_mgr_ext "[UISend (SyncNowCmd 1), LoopStep]" sample_keys "sample_mgr sample_keys"] by simp

text \<open>A server that hands out a mail whose attachment is called \<open>../x\<close>.\<close>

definition evil_reader :: "bytes \<Rightarrow> mail_reader option" where
  "evil_reader raw = Some \<lparr>mr_ContentType = None, mr_XVayuPGP = [], mr_ListID = [], mr_ListUnsubscribe = [],
     mr_Parts = [AttachmentPart (Some ''text/plain'') (Some ''../x'') ''data'' True]\<rparr>"

definition evil_ext :: "memory_keystore mgr_ext" where
  "evil_ext = sample_mgr_ext\<lparr>e_mime := sample_mx\<lparr>mx_reader := evil_reader\<rparr>\<rparr>"

definition pooled_mgr :: "memory_keystore manager" where
  "pooled_mgr = (sample_mgr sample_keys)\<lparr>g_pool := [''k'' \<mapsto> \<lparr>cc_client = sample_conn, cc_usedAt = 0\<rparr>],
     w_replies := [ISelected sample_select, IBody (Some [])]\<rparr>"

lemma evil_attachment: "extract_attachment evil_reader raw 0 = Inr (\<lparr>a_Filename = ''../x'', a_ContentType = ''text/plain''\<rparr>, ''data'')"
  by (simp add: extract_attachment_def evil_reader_def)

lemma evil_path: "itoa (m_ID (scan_message sample_message)) @ ''-'' @ sanitize_filename ''../x'' = ''1-x''"
  by code_simp

lemma pooled_reads:
  "get_message 1 sample_db = (Inr (scan_message sample_message), sample_db)" "get_account 1 sample_db = (Inr sample_account, sample_db)"
  "list_folders 1 sample_db = (Inr [sample_folder], sample_db)"
  by (simp_all add: get_message_def get_account_def list_folders_def sql_no_fault sample_defs)

lemma pooled_fields: "m_AccountID (scan_message sample_message) = 1" "m_FolderID (scan_message sample_message) = 1"
    "a_KeystoreAlias sample_account = ''k''" "f_ID sample_folder = 1"
  by (simp_all add: scan_message_def sample_defs)

lemma pooled_save:
  obtains g where "save_attachment evil_ext (scan_message sample_message) name 0 sample_conn pooled_mgr = (Inr ''/data/1-x'', g)"
    "g_files g = [(''/data/1-x'', ''data'')]"
  using evil_path
  by (simp add: save_attachment_def select_folder_def fetch_raw_def run_defs pooled_mgr_def sample_mgr_def evil_ext_def evil_attachment
      readE_def file_call_def attachments_dir_def Let_def)

lemma pooled_files: "g_files (snd (handle_cmd evil_ext (FetchAttachmentCmd 1 0) pooled_mgr)) = [(''/data/1-x'', ''data'')]"
proof -
  have pool: "pooled_conn ''k'' pooled_mgr = (Inr (Some sample_conn), pooled_mgr)"
    by (simp add: pooled_conn_def seqE_def readE_def now_def pooled_mgr_def sample_mgr_def max_cmd_idle_def set_pool_def modifyE_def retE_def)
  obtain g where g: "save_attachment evil_ext (scan_message sample_message) ''INBOX'' 0 sample_conn pooled_mgr = (Inr ''/data/1-x'', g)"
    "g_files g = [(''/data/1-x'', ''data'')]" by (rule pooled_save)
  have on: "on_server evil_ext sample_account (save_attachment evil_ext (scan_message sample_message) ''INBOX'' 0) pooled_mgr
      = (Inr ''/data/1-x'', g)"
    by (simp add: on_server_def with_command_conn_def config_from_store_def pooled_fields seqE_def pool tryE_def retE_def g)
  have db: "on_db stmt pooled_mgr = (case stmt sample_db of (Inl e, d) \<Rightarrow> (Inl (E_Store e), pooled_mgr\<lparr>w_db := d\<rparr>) | (Inr a, d) \<Rightarrow> (Inr a, pooled_mgr\<lparr>w_db := d\<rparr>))"
    for stmt :: "db \<Rightarrow> (store_error + 'b) \<times> db"
  proof -
    have "w_db pooled_mgr = sample_db" by (simp add: pooled_mgr_def sample_mgr_def)
    then show ?thesis by (simp add: on_db_def)
  qed
  have same: "pooled_mgr\<lparr>w_db := sample_db\<rparr> = pooled_mgr" by (simp add: pooled_mgr_def sample_mgr_def)
  show ?thesis
    using g(2)
    by (simp add: exec_fetch_attachment_def tryE_def seqE_def db pooled_reads same pooled_fields folder_name_def on retE_def emit_def modifyE_def)
      (simp add: sample_folder_def on emit_def modifyE_def)
qed

theorem attachment_path_confined_witness:
  "\<exists>name. ''/data/1-x'' = attachments_dir pooled_mgr @ ''/'' @ name \<and> CHR ''/'' \<notin> set name"
  using attachment_path_confined [of "''/data/1-x''" "''data''" evil_ext "FetchAttachmentCmd 1 0" pooled_mgr] pooled_files
  by (auto simp: pooled_mgr_def sample_mgr_def)

definition trash_db :: db where
  "trash_db = sample_db\<lparr>db_folders := [sample_folder\<lparr>f_IsInbox := False, f_IsTrash := True\<rparr>]\<rparr>"

theorem offline_delete_hides_message_witness:
  "\<exists>m \<in> set (db_messages (w_db (snd (exec_delete sample_mgr_ext 1 ((sample_mgr sample_keys)\<lparr>w_db := trash_db\<rparr>))))). m_ID m = 1 \<and> m_IsDeleted m"
proof -
  let ?g = "(sample_mgr sample_keys)\<lparr>w_db := trash_db\<rparr>"
  have "\<exists>m \<in> set (db_messages (w_db (snd (exec_delete sample_mgr_ext 1 ?g)))). m_ID m = 1 \<and> m_IsDeleted m"
    using offline_delete_hides_message [of ?g 1 sample_message "[sample_folder\<lparr>f_IsInbox := False, f_IsTrash := True\<rparr>]"
        "sample_folder\<lparr>f_IsInbox := False, f_IsTrash := True\<rparr>" sample_account sample_mgr_ext
        "fst (exec_delete sample_mgr_ext 1 ?g)" "snd (exec_delete sample_mgr_ext 1 ?g)"]
    by (simp add: trash_db_def sample_mgr_def list_folders_def sql_def sample_defs last_such_def)
  then show ?thesis .
qed

theorem add_account_reported_witness:
  "\<exists>i. w_events (snd (exec_add_account sample_mgr_ext sample_imap_cfg ''pw'' (sample_mgr sample_keys)))
     = [AccountAddedEvent i ''a@x'' (isl (fst (exec_add_account sample_mgr_ext sample_imap_cfg ''pw'' (sample_mgr sample_keys))))]"
  using add_account_reported [of sample_mgr_ext sample_imap_cfg "''pw''" "sample_mgr sample_keys", OF surjective_pairing]
  by (auto simp: sample_mgr_def sample_imap_cfg_def)

theorem failed_update_stops_sync_witness:
  "1 \<notin> set (g_runners (snd (exec_update_credential (sample_mgr_ext\<lparr>e_ks := memory_ops\<lparr>ks_store := (\<lambda>a s k. (Inl ErrNoPlatformKeystore, k))\<rparr>\<rparr>) 1 ''pw'' (sample_mgr sample_keys))))"
proof -
  let ?x = "sample_mgr_ext\<lparr>e_ks := memory_ops\<lparr>ks_store := (\<lambda>a s k. (Inl ErrNoPlatformKeystore, k))\<rparr>\<rparr>" and ?g = "sample_mgr sample_keys"
  have "exec_update_credential ?x 1 ''pw'' ?g = (Inl E_Key, snd (exec_update_credential ?x 1 ''pw'' ?g))"
    by (simp add: exec_update_credential_def reported_def tryE_def seqE_def on_db_def sample_mgr_def pooled_reads stop_account_def
        modifyE_def ks_call_def emit_def failE_def)
  from failed_update_stops_sync [OF this, of sample_account] show ?thesis
    by (simp add: sample_mgr_def pooled_reads)
qed

lemma key_url_parses: "url_parse (\<lambda>h. None) ''https://example.org/api/v1/members/vayumail-privkey'' \<noteq> None"
  by code_simp

definition key_db :: db where
  "key_db = sample_db\<lparr>db_accounts := [sample_account\<lparr>a_EmailAddress := ''ada@example.org''\<rparr>]\<rparr>"

theorem outage_replaces_pgp_key_witness:
  "w_events (snd (exec_sync_private_key sample_mgr_ext 1 ((sample_mgr sample_keys)\<lparr>w_db := key_db\<rparr>)))
     = [PrivateKeyEvent 1 ''ada@example.org'' ''PRIV'' False]"
proof -
  let ?g = "(sample_mgr sample_keys)\<lparr>w_db := key_db\<rparr>" and ?a = "sample_account\<lparr>a_EmailAddress := ''ada@example.org''\<rparr>"
  have fields: "a_EmailAddress ?a = ''ada@example.org''" "a_KeystoreAlias ?a = ''k''" by (simp_all add: sample_account_def)
  have dom: "domain_of ''ada@example.org'' = ''example.org''" by code_simp
  have acct: "get_account 1 (w_db ?g) = (Inr ?a, key_db)"
    by (simp add: get_account_def sql_def key_db_def sample_defs)
  have none: "ks_fetch (e_ks sample_mgr_ext) (pgp_key_alias_prefix @ a_EmailAddress ?a) (g_ks ?g) = (Inl ErrKeyNotFound, sample_keys)"
    by (simp add: sample_mgr_ext_def memory_ops_def mem_fetch_def sample_keys_def pgp_key_alias_prefix_def sample_mgr_def)
  have cred: "ks_fetch (e_ks sample_mgr_ext) (a_KeystoreAlias ?a) sample_keys = (Inr ''pw'', sample_keys)"
    by (simp add: sample_mgr_ext_def memory_ops_def mem_fetch_def sample_keys_def sample_account_def)
  have net: "x_net (e_http sample_mgr_ext) rq \<in> {No_reply} \<union> {Reply status body ok |status body ok. status \<noteq> 200}" for rq
    by (simp add: sample_mgr_ext_def sample_http_def)
  have url: "url_parse (x_lit (e_http sample_mgr_ext)) (''https://'' @ domain_of (a_EmailAddress ?a) @ ''/api/v1/members/vayumail-privkey'') \<noteq> None"
    using key_url_parses by (simp add: sample_mgr_ext_def sample_http_def fields dom)
  have gen: "e_genkey sample_mgr_ext (a_DisplayName ?a) (a_EmailAddress ?a) = Some (''PUB'', ''PRIV'')"
    by (simp add: sample_mgr_ext_def)
  have seal: "ks_store (e_ks sample_mgr_ext) (pgp_key_alias_prefix @ a_EmailAddress ?a) ''PRIV'' sample_keys
      = (Inr (), sample_keys(pgp_key_alias_prefix @ a_EmailAddress ?a \<mapsto> ''PRIV''))"
    by (simp add: sample_mgr_ext_def memory_ops_def mem_store_def)
  have room: "length (w_events ?g) < 256" "e_publish sample_mgr_ext" by (simp_all add: sample_mgr_def sample_mgr_ext_def)
  from outage_replaces_pgp_key [OF acct none cred net url gen seal room surjective_pairing]
  show ?thesis by (simp add: fields sample_mgr_def)
qed

definition sealed_sample_ext :: "sealed mgr_ext" where
  "sealed_sample_ext = \<lparr>e_ks = sealed_ops, e_mime = sample_mx, e_parse = (\<lambda>raw. None), e_build = (\<lambda>d. None), e_http = sample_http,
     e_genkey = (\<lambda>n e. None), e_publish = False\<rparr>"

theorem remove_account_leaves_pgp_key_witness:
  "sealed_view (g_ks (snd (exec_remove_account sealed_sample_ext 1 (sample_mgr toy_sealed)))) ''pgppriv:a@x'' = sealed_view toy_sealed ''pgppriv:a@x''"
proof -
  let ?g = "sample_mgr toy_sealed"
  have inv: "sealed_inv (g_ks ?g)" by (simp add: sample_mgr_def toy_sealed_inv)
  have "fst (exec_remove_account sealed_sample_ext 1 ?g) = Inr ()"
  proof -
    obtain q k where del: "sealed_delete ''k'' toy_sealed = (q, k)" by fastforce
    have gone: "fst (delete_account 1 sample_db) = Inr ()" by (simp add: delete_account_def sql_no_fault sample_defs)
    then obtain d where d: "delete_account 1 sample_db = (Inr (), d)" by (metis prod.collapse)
    show ?thesis
      by (cases q) (simp_all add: exec_remove_account_def reported_def tryE_def seqE_def on_db_def sample_mgr_def pooled_reads pooled_fields
          stop_account_def modifyE_def drop_command_conn_def readE_def retE_def ks_call_def sealed_sample_ext_def sealed_ops_def del d emit_def)
  qed
  then have run: "exec_remove_account sealed_sample_ext 1 ?g = (Inr (), snd (exec_remove_account sealed_sample_ext 1 ?g))"
    by (metis prod.collapse)
  have ks: "e_ks sealed_sample_ext = sealed_ops" by (simp add: sealed_sample_ext_def)
  have acct: "fst (get_account 1 (w_db ?g)) = Inr sample_account" by (simp add: sample_mgr_def pooled_reads)
  from remove_account_leaves_pgp_key [OF ks inv acct run] show ?thesis
    by (simp add: sample_account_def pgp_key_alias_prefix_def sample_mgr_def)
qed

end
