(* ===== verification/AppInvariant.thy ===== *)
theory AppInvariant
  imports AppState ManagerLaws
begin

text \<open>
  The contract every step of the application keeps. The locale \<open>settings_invariant\<close> covers what the lock gate does to
  the database, \<open>app_invariant\<close> extends the manager's \<open>mgr_invariant\<close> by the keys the user interface stores and shows
  once that every operation of \<open>app_step\<close> keeps such an invariant. It is interpreted for the integrity of the whole
  application and for the absence of private key material from the database.
\<close>

section \<open>The lock gate and the database\<close>

text \<open>What the lock and its gate do to the database is reading and writing settings.\<close>

locale settings_invariant =
  fixes D :: "db \<Rightarrow> bool"
  assumes get_D: "D d \<Longrightarrow> D (snd (get_setting key d))"
    and set_D: "D d \<Longrightarrow> D (snd (set_setting key v d))"
begin

lemma delay_D: "D (lm_db lm) \<Longrightarrow> D (lm_db (snd (retry_delay t lm)))"
  by (simp add: retry_delay_def split_beta get_D)

lemma clear_D: "D (lm_db lm) \<Longrightarrow> D (lm_db (snd (clear_lockout lm)))"
  by (simp add: clear_lockout_def split_beta set_D split: sum.split)

lemma failure_D: "D (lm_db lm) \<Longrightarrow> D (lm_db (snd (record_failure t lm)))"
  by (simp add: record_failure_def Let_def split_beta set_D get_D split: sum.split)

lemma verify_pin_D: "D (lm_db lm) \<Longrightarrow> D (lm_db (snd (verify_pin env t pin lm)))"
  by (simp add: verify_pin_def Let_def split_beta delay_D clear_D failure_D split: sum.split option.split)

lemma verify_totp_D: "D (lm_db lm) \<Longrightarrow> D (lm_db (snd (verify_totp env t code lm)))"
  unfolding verify_totp_def Let_def split_beta
  by (simp add: delay_D clear_D failure_D del: fold_simps split: sum.split)

lemma enrol_D [simp]:
  "D (lm_db lm) \<Longrightarrow> D (lm_db (snd (set_pin env rnd pin lm)))"
  "D (lm_db lm) \<Longrightarrow> D (lm_db (snd (remove_pin env lm)))"
  "D (lm_db lm) \<Longrightarrow> D (lm_db (snd (set_totp env secret lm)))"
  "D (lm_db lm) \<Longrightarrow> D (lm_db (snd (remove_totp env lm)))"
  "D (lm_db lm) \<Longrightarrow> D (lm_db (snd (totp_enabled env lm)))"
  "D (lm_db lm) \<Longrightarrow> D (lm_db (snd (lock_enabled env lm)))"
  by (simp_all add: set_pin_def remove_pin_def set_totp_def remove_totp_def totp_enabled_def lock_enabled_def Let_def
      split_beta clear_D split: sum.split option.split)

lemma prefs_D: "D (lm_db (g_lock g)) \<Longrightarrow> D (lm_db (g_lock (load_prefs env bio g)))"
proof -
  have flag: "D d \<Longrightarrow> D (snd (setting_is k v d))" for d k v by (simp add: setting_is_def split_beta get_D)
  have tmo: "D d \<Longrightarrow> D (snd (load_timeout d))" for d by (simp add: load_timeout_def split_beta get_D)
  assume "D (lm_db (g_lock g))"
  then show ?thesis by (simp add: load_prefs_def Let_def split_beta flag tmo)
qed

lemma op_D: "D (lm_db (snd rs)) \<Longrightarrow> D (lm_db (g_lock (after_lock_op rs g)))"
  by (simp add: after_lock_op_def ask_refresh_def split_beta split: sum.split)

lemma save_D: "D (lm_db (g_lock g)) \<Longrightarrow> D (lm_db (g_lock (save_setting k v g)))"
  by (simp add: save_setting_def ask_refresh_def split_beta set_D split: sum.split)

lemma gate_D: "D (lm_db (g_lock g)) \<Longrightarrow> D (lm_db (g_lock (gate_step env ev g)))"
  by (cases ev)
    (simp_all add: lock_now_def maybe_auto_lock_def Let_def gate_set_pin_def gate_enroll_totp_def gate_remove_totp_def op_D
      set_notifications_def set_notify_preview_def set_biometric_def set_app_lock_timeout_def save_D prefs_D
      gate_verify_pin_def gate_verify_totp_def unlock_with_biometric_def gate_remove_pin_def unlock_def ask_refresh_def
      verify_pin_D verify_totp_D delay_D split_beta split: sum.split bool.split)

end

section \<open>Invariants of every step of the application\<close>

lemma store_key_row_keyring [simp]: "ap_keyring (store_key_row x t fp armored priv s) = ap_keyring s"
  by (simp add: store_key_row_def Let_def split_beta set_db_def set_ks_def split: sum.split)

lemma fingerprint_lower: "to_lower (fingerprint_of e) = fingerprint_of e"
  by (simp add: fingerprint_of_def)

lemma import_armored_finds:
  "fst (import_armored px armored k) = Inr fps \<Longrightarrow>
     list_all (\<lambda>fp. by_fingerprint fp (snd (import_armored px armored k)) \<noteq> None) fps"
proof -
  assume *: "fst (import_armored px armored k) = Inr fps"
  then obtain es where es: "pg_armored_ring px armored = Some es" "fps = map fingerprint_of es"
    "kr_entities (snd (import_armored px armored k)) = kr_entities k @ es"
    by (auto simp: import_armored_def Let_def split_beta split: option.splits)
  have "\<exists>e'. by_fingerprint (fingerprint_of e) (snd (import_armored px armored k)) = Some e'" if "e \<in> set es" for e
    unfolding by_fingerprint_def es(3) using that
    by (auto simp: fingerprint_lower find_None_iff not_None_eq [symmetric] simp del: not_None_eq)
  then show ?thesis by (auto simp: es(2) list_all_iff)
qed

text \<open>The contract between the steps of the application and an invariant \<open>M\<close> of the manager whose part on the store
  is \<open>D\<close>. The user interface stores keys on its own; \<open>ok\<close> is what may stand in the key column, and the assumptions on
  it say where the stored text comes from: an empty pointer, a text without private key, an export of the public part,
  or the text of the key directory when the export fails.\<close>

locale app_invariant = mgr_invariant D M for D and M :: "'k manager \<Rightarrow> bool" +
  fixes x :: "'k app_ext" and ok :: "string \<Rightarrow> bool"
  assumes store_key: "D d \<Longrightarrow> ok (k_Armored k) \<Longrightarrow> D (snd (upsert_pgp_key t k d))"
    and ok_blank: "ok []"
    and ok_public: "\<not> is_private_armored a \<Longrightarrow> ok a"
    and ok_export: "pg_public_block (ax_pgp x) e = Some b \<Longrightarrow> ok b"
    and ok_raw: "pg_public_block (ax_pgp x) e = None \<Longrightarrow> ok a"
begin

abbreviation A :: "'k app \<Rightarrow> bool" where "A s \<equiv> M (ap_mgr s)"

lemma reads_D:
  "D d \<Longrightarrow> D (snd (list_pgp_keys d))" "D d \<Longrightarrow> D (snd (correspondent_emails n d))" "D d \<Longrightarrow> D (snd (list_accounts d))"
  "D d \<Longrightarrow> D (snd (get_setting k d))" "D d \<Longrightarrow> D (snd (list_folders i d))" "D d \<Longrightarrow> D (snd (unread_count i d))"
  "D d \<Longrightarrow> D (snd (unified_unread_count d))" "D d \<Longrightarrow> D (snd (list_unified_inbox t i n d))"
  "D d \<Longrightarrow> D (snd (list_messages t i j n d))" "D d \<Longrightarrow> D (snd (list_thread i tid d))"
  unfolding list_pgp_keys_def correspondent_emails_def list_accounts_def get_setting_def list_folders_def unread_count_def
    unified_unread_count_def list_unified_inbox_def list_messages_def list_thread_def Let_def
  by (rule sql_read_D; auto)+

lemma search_D: "D d \<Longrightarrow> D (snd (search fts i q n d))"
  unfolding search_def Let_def by (auto intro!: sql_read_D split: option.splits if_splits)

lemma writes_D:
  "D d \<Longrightarrow> D (snd (set_setting k v d))" "D d \<Longrightarrow> D (snd (delete_pgp_key fp d))" "D d \<Longrightarrow> D (snd (set_pgp_trust fp l d))"
  "D d \<Longrightarrow> D (snd (enqueue_outbox t i raw d))" "D d \<Longrightarrow> D (snd (mark_outbox_sent i d))"
  using guarded_inv [of d "SetSetting k v"] guarded_inv [of d "DeletePGPKey fp"] guarded_inv [of d "SetPGPTrust fp l"]
    guarded_inv [of d "EnqueueOutbox t i raw"] guarded_inv [of d "MarkOutboxSent i"] by simp_all

lemma A_simps [simp]:
  "A (app_notify msg s) = A s" "A (app_refresh s) = A s" "A (patch_snap f s) = A s" "A (resolve_add_waiters e s) = A s"
  by (simp_all add: app_notify_def app_refresh_def patch_snap_def resolve_add_waiters_def)

lemma A_db: "A s \<Longrightarrow> D d \<Longrightarrow> A (set_db d s)" and A_ks: "A s \<Longrightarrow> A (set_ks k s)"
  by (simp_all add: set_db_def set_ks_def I_db I_ks)

lemma A_call: "(\<And>d. D d \<Longrightarrow> D (snd (f d))) \<Longrightarrow> A s \<Longrightarrow> A (snd (app_db_call f s))"
  by (simp add: app_db_call_def split_beta A_db I_D)

lemmas A_calls = reads_D [THEN A_call] search_D [THEN A_call] writes_D [THEN A_call]

lemma A_send: "A s \<Longrightarrow> A (app_send c s)"
  by (cases "length (g_cmds (ap_mgr s)) < cmd_cap")
    (use I_send_cmd [of "ap_mgr s" c] in \<open>auto simp: app_send_def mgr_send_def try_send_def app_notify_def\<close>)

lemma A_store_row: "A s \<Longrightarrow> priv \<or> ok armored \<Longrightarrow> A (store_key_row x t fp armored priv s)"
  by (auto simp: store_key_row_def Let_def split_beta key_row_def A_ks A_db I_D store_key ok_blank set_ks_def set_db_def
      I_ks I_db split: sum.split)

lemma A_import [simp]: "A (snd (app_import x armored s)) = A s"
  by (simp add: app_import_def split_beta)

lemma export_ok: "app_export x fp s = Inr b \<Longrightarrow> ok b"
  by (auto simp: app_export_def export_public_armored_def ok_export split: option.splits)

lemma A_fold: "(\<And>a s. A s \<Longrightarrow> A (f a s)) \<Longrightarrow> A s \<Longrightarrow> A (fold f as s)"
  by (induction as arbitrary: s) auto

lemma A_persist: "A s \<Longrightarrow> A (persist_keyring x t fps armored s)"
  unfolding persist_keyring_def Let_def
  by (rule A_fold) (auto intro!: A_store_row intro: ok_public export_ok split: sum.splits)

lemma A_import_key: "A s \<Longrightarrow> A (import_pgp_key x t armored s)"
  by (simp add: import_pgp_key_def split_beta A_persist split: sum.split)

lemma A_import_private: "A s \<Longrightarrow> A (import_private_key x t armored s)"
  by (simp add: import_private_key_def split_beta A_fold A_store_row split: sum.split)

lemma A_migrate: "A s \<Longrightarrow> A (migrate_legacy_private_key x t k s)"
  by (auto simp: migrate_legacy_private_key_def split_beta A_ks A_db I_D store_key ok_blank set_ks_def set_db_def I_ks I_db
      split: sum.split)

lemma A_load_key: "A s \<Longrightarrow> A (load_key x t k s)"
proof -
  assume "A s"
  then have "A (snd (key_material x t k s))"
    by (simp add: key_material_def split_beta A_ks A_migrate split: sum.split)
  then show ?thesis by (simp add: load_key_def Let_def split_beta split: sum.split)
qed

lemma A_load_keys: "A s \<Longrightarrow> A (load_pgp_keys x t s)"
  by (simp add: load_pgp_keys_def split_beta A_calls A_fold A_load_key split: sum.split)

lemma A_found: "A s \<Longrightarrow> A (snd (store_found x t fps s))"
proof (induction fps arbitrary: s)
  case (Cons fp fps)
  then show ?case by (auto simp: Let_def split_beta A_store_row export_ok split: sum.split)
qed simp

lemma A_import_found: "A s \<Longrightarrow> A (snd (import_found x t es s))"
  by (simp add: import_found_def split_beta A_found)

lemma A_lookup [simp]: "A (snd (wkd_lookup x email s)) = A s"
  by (simp add: wkd_lookup_def split_beta)

lemma A_discover: "A s \<Longrightarrow> A (discover_pgp_key x t email s)"
  by (simp add: discover_pgp_key_def split_beta A_import_found split: sum.split)

lemma A_sweep: "A s \<Longrightarrow> A (snd (sweep x t n emails s))"
proof (induction n arbitrary: emails s)
  case (Suc n)
  then show ?case by (cases emails) (auto simp: Let_def split_beta A_import_found split: sum.split)
qed simp

lemma A_contacts: "A s \<Longrightarrow> A (discover_contact_keys x t n s)"
  by (simp add: discover_contact_keys_def Let_def split_beta A_calls A_sweep split: sum.split)

lemma A_missing: "A s \<Longrightarrow> A (snd (fetch_missing x t n emails s))"
proof (induction emails arbitrary: n s)
  case (Cons email emails)
  then show ?case by (auto simp: Let_def split_beta A_import_found split: sum.split nat.split)
qed simp

lemma A_directory_keys:
  "A s \<Longrightarrow> list_all (\<lambda>fp. by_fingerprint fp (ap_keyring s) \<noteq> None) fps \<Longrightarrow> A (fold (store_directory_key x t raw) fps s)"
proof (induction fps arbitrary: s)
  case (Cons fp fps)
  then obtain e where e: "by_fingerprint fp (ap_keyring s) = Some e" by auto
  have "ok (case app_export x fp s of Inr pub \<Rightarrow> pub | Inl _ \<Rightarrow> raw)"
    using ok_raw [of e] by (auto simp: app_export_def export_public_armored_def e ok_export split: option.split)
  then have "A (store_directory_key x t raw fp s)"
    using Cons.prems(1) by (simp add: store_directory_key_def Let_def A_store_row)
  then show ?case using Cons by (simp add: store_directory_key_def Let_def store_key_row_keyring)
qed simp

lemma A_directory: "A s \<Longrightarrow> A (snd (import_directory x t keys s))"
proof (induction keys arbitrary: s)
  case (Cons key keys)
  have "list_all (\<lambda>fp. by_fingerprint fp (ap_keyring (snd (app_import x a s))) \<noteq> None) fps"
    if "fst (app_import x a s) = Inr fps" for a fps
    using that import_armored_finds by (auto simp: app_import_def split_beta)
  then show ?case using Cons by (cases key) (auto simp: Let_def split_beta A_directory_keys split: sum.split)
qed simp

lemma A_directory_sync: "A s \<Longrightarrow> A (sync_from_directory x t s)"
  by (simp add: sync_from_directory_def Let_def split_beta A_calls A_directory split: sum.split)

end

sublocale app_invariant \<subseteq> gate: settings_invariant D
  by unfold_locales (rule reads_D(4), assumption, rule writes_D(1), assumption)

context app_invariant
begin

lemma A_gate: "(\<And>g. D (lm_db (g_lock g)) \<Longrightarrow> D (lm_db (g_lock (f g)))) \<Longrightarrow> A s \<Longrightarrow> A (with_gate f s)"
  by (simp add: with_gate_def Let_def I_db I_ks I_D)

lemma A_startup: "A s \<Longrightarrow> A (startup x t s)"
proof -
  have *: "D (lm_db (g_lock g)) \<Longrightarrow> D (lm_db (g_lock (if g_wired g
      then (case lock_enabled (ax_lock x) (g_lock g) of
              (en, lm) \<Rightarrow> if en then g\<lparr>g_lock := lm, g_locked := True, g_snap := (g_snap g)\<lparr>p_AppLockEnabled := True\<rparr>\<rparr>
                          else g\<lparr>g_lock := lm\<rparr>)
      else g)))" for g :: "'k gate"
    by (simp add: split_beta)
  assume "A s"
  then show ?thesis unfolding startup_def Let_def
    by (intro A_gate *) (auto simp: split_beta A_calls A_load_keys split: sum.split)
qed

lemma A_app_gate: "A s \<Longrightarrow> A (app_gate x ev s)"
  by (simp add: app_gate_def Let_def A_gate gate.gate_D)

lemma A_stop: "(\<And>d. D d \<Longrightarrow> D (snd (f d))) \<Longrightarrow> (\<And>a s. A s \<Longrightarrow> A (next a s)) \<Longrightarrow> A s \<Longrightarrow> A (load_or_stop f next s)"
  by (simp add: load_or_stop_def split_beta A_call split: sum.split)

lemma A_load_or: "(\<And>d. D d \<Longrightarrow> D (snd (f d))) \<Longrightarrow> A s \<Longrightarrow> A (snd (load_or dflt f s))"
  by (simp add: load_or_def split_beta A_call split: sum.split)

lemma A_commit [simp]: "A (commit p next s) = A s"
  by (simp add: commit_def Let_def)

lemma A_decrypt: "A s \<Longrightarrow> A (snd (decrypt_message x m s))"
  by (simp add: decrypt_message_def Let_def request_refetch_def A_send split: sum.split refetch_phase.split)

lemma A_thread: "A s \<Longrightarrow> A (snd (decrypt_thread x ms s))"
  by (induction ms arbitrary: s) (simp_all add: Let_def split_beta A_decrypt)

lemma A_unread: "A s \<Longrightarrow> A (snd (count_unread fs u s))"
  by (induction fs arbitrary: u s) (simp_all add: split_beta A_calls split: sum.split)

lemma A_tail: "A s \<Longrightarrow> A (reload_tail x p i tid q next s)"
  by (simp add: reload_tail_def show_thread_def show_results_def Let_def split_beta A_load_or reads_D search_D A_call A_thread
      split: sum.split)

lemma A_folders: "A s \<Longrightarrow> A (reload_folders x t p accounts i f tid q s)"
  unfolding reload_folders_def Let_def split_beta
  by (rule A_stop, erule reads_D) (auto simp: A_stop reads_D A_tail A_unread A_call split: sum.split option.split)

lemma A_prefs: "A s \<Longrightarrow> A (snd (app_load_prefs x bio s))"
  by (simp add: app_load_prefs_def Let_def A_gate gate.prefs_D)

lemma A_reload: "A s \<Longrightarrow> A (reload x t bio i f tid q s)"
  unfolding reload_def Let_def split_beta
  by (rule A_stop, erule reads_D) (auto simp: A_prefs intro!: A_folders split: option.split)

lemma A_search: "A s \<Longrightarrow> A (reload_search x i q s)"
  unfolding reload_search_def Let_def by (auto intro!: A_stop search_D)

lemma A_finish: "A s \<Longrightarrow> A (load_finish x t bio s)"
  by (simp add: load_finish_def A_reload A_search split: option.split load.split)

lemma A_event: "A s \<Longrightarrow> A (apply_sync_event t ev s)"
  by (cases ev) (simp_all add: Let_def)

lemma A_pump: "A s \<Longrightarrow> A (pump_event t s)"
  using I_next_event [of "ap_mgr s"] by (cases "w_events (ap_mgr s)") (simp_all add: pump_event_def A_event)

lemma A_enqueue: "A s \<Longrightarrow> A (enqueue_draft x t d opts s)"
  by (simp add: enqueue_draft_def split_beta A_calls split: option.split sum.split)

lemma A_compose: "A s \<Longrightarrow> A (snd (compose_send x t c s))"
  by (simp add: compose_send_def Let_def A_enqueue split: option.split)

lemma A_undo: "A s \<Longrightarrow> A (undo_send i s)" "A s \<Longrightarrow> A (undo_expired i s)"
  by (simp_all add: undo_send_def undo_expired_def split_beta A_calls A_send split: sum.split)

lemma A_add: "A s \<Longrightarrow> A (add_account_await w cfg secret s)"
  using I_send_cmd [of "ap_mgr s" "AddAccountCmd cfg secret"]
  by (auto simp: add_account_await_def mgr_send_def try_send_def split: bool.splits)

lemma A_setting: "A s \<Longrightarrow> A (set_flag_setting key on s)" "A s \<Longrightarrow> A (set_auto_wkd on s)" "A s \<Longrightarrow> A (set_key_directory_url raw s)"
  by (simp_all add: set_flag_setting_def set_auto_wkd_def set_key_directory_url_def Let_def split_beta A_calls split: sum.split)

lemma A_select: "A s \<Longrightarrow> A (select_folder i s)" "A s \<Longrightarrow> A (sync_now s)" "A s \<Longrightarrow> A (set_search q s)"
    "A (load_begin full s) = A s"
  by (simp_all add: select_folder_def sync_now_def set_search_def load_begin_def Let_def app_refresh_def A_send split: option.split)

lemma A_keys: "A s \<Longrightarrow> A (app_set_trust fp l s)" "A s \<Longrightarrow> A (app_delete_key x fp s)"
  by (simp_all add: app_set_trust_def app_delete_key_def split_beta A_calls A_ks split: sum.split)

lemma A_job: "A s \<Longrightarrow> A (run_job x t n i s)"
  by (simp add: run_job_def Let_def A_contacts A_import_private split: job.split)

lemma A_step: "A s \<Longrightarrow> A (app_step x op s)"
proof (cases op)
  case (OpUnsubscribe m)
  assume "A s"
  then show ?thesis by (simp add: OpUnsubscribe app_unsubscribe_def Let_def split_beta A_send)
next
  case (OpScheduler aid cfg ctx t)
  assume "A s"
  then show ?thesis by (simp add: OpScheduler on_mgr_def scheduler_keeps)
qed (simp_all del: mgr_step.simps add: on_mgr_def step_keeps A_startup A_job A_pump A_app_gate A_select A_finish A_import_key A_discover
    ensure_keys_for_def Let_def split_beta A_missing A_setting A_directory_sync A_keys select_account_def app_refresh_def
    open_thread_def search_timer_def A_add await_timeout_def A_compose A_undo app_snooze_def app_notify_def A_send
    download_attachment_def set_device_id_def A_calls set_motion_reduced_def set_rich_html_def sync_private_key_def)

lemma A_run: "A s \<Longrightarrow> A (app_run x ops s)"
  by (induction ops arbitrary: s) (simp_all add: app_run_def A_step)

end

section \<open>Interpretations\<close>

interpretation whole: app_invariant db_inv mgr_inv x "\<lambda>_. True" for x
  by unfold_locales (use store.step_inv [of _ "UpsertPGPKey t k" for t k] in simp_all)

lemma sql_keys:
  "(\<And>d a d'. stmt d = Inr (a, d') \<Longrightarrow> db_pgp_keys d' = db_pgp_keys d) \<Longrightarrow> db_pgp_keys (snd (sql stmt d)) = db_pgp_keys d"
  by (fastforce simp: sql_def Let_def split: sum.split)

lemma rows_public_cong: "db_pgp_keys d' = db_pgp_keys d \<Longrightarrow> rows_public d' = rows_public d"
  by (simp add: rows_public_def)

lemma sql_read_keys [simp]: "db_pgp_keys (snd (sql (\<lambda>d. Inr (f d, d)) d)) = db_pgp_keys d"
  by (rule sql_keys) simp

lemma rows_public_faults [simp]: "rows_public (d\<lparr>db_faults := fs\<rparr>) = rows_public d"
  by (simp add: rows_public_def)

lemma delete_stale_keys: "db_pgp_keys (snd (delete_stale rids d)) = db_pgp_keys d"
  by (induction rids arbitrary: d) (auto simp: split_beta intro!: sql_keys split: sum.split)

lemma delete_not_in_keys: "db_pgp_keys (snd (delete_messages_not_in i live d)) = db_pgp_keys d"
  by (simp add: delete_messages_not_in_def sql_tx_def rollback_to_def Let_def split_beta delete_stale_keys split: sum.split)

lemma op_keys:
  assumes "engine_op p" and "\<And>fp. p \<noteq> DeletePGPKey fp" and "\<And>fp l. p \<noteq> SetPGPTrust fp l"
  shows "db_pgp_keys (run_op p d) = db_pgp_keys d"
  using assms
  by (cases p)
    (auto simp: insert_account_def delete_account_def set_pinned_spki_def upsert_folder_def set_folder_sync_state_def
      clear_folder_messages_def set_setting_def upsert_message_def set_read_def set_flagged_def set_deleted_def set_snooze_def
      delete_local_message_def delete_message_by_uid_def update_message_flags_def
      delete_not_in_keys enqueue_outbox_def mark_outbox_sent_def mark_outbox_failed_def update_message_row_def Let_def
      intro!: sql_keys split: if_splits option.splits)

lemma op_rows_public: "engine_op p \<Longrightarrow> rows_public d \<Longrightarrow> rows_public (run_op p d)"
proof (cases "(\<exists>fp. p = DeletePGPKey fp) \<or> (\<exists>fp l. p = SetPGPTrust fp l)")
  case True
  assume "rows_public d"
  then show ?thesis using True
    by (auto simp: delete_pgp_key_def set_pgp_trust_def sql_def rows_public_def Let_def split: if_splits)
next
  case False
  assume "engine_op p" "rows_public d"
  then show ?thesis using False rows_public_cong [OF op_keys [of p d]] by auto
qed

interpretation key_rows: mgr_invariant rows_public "\<lambda>g. rows_public (w_db g)"
  by unfold_locales (auto simp: op_rows_public)

text \<open>What the OpenPGP library promises of the export of a public key: it succeeds, and its armor is that of a
  public key.\<close>

definition exports_public :: "pgp_ext \<Rightarrow> bool" where
  "exports_public px \<longleftrightarrow> (\<forall>e. \<exists>b. pg_public_block px e = Some b \<and> \<not> is_private_armored b)"

lemma sealed_keys:
  "exports_public (ax_pgp x) \<Longrightarrow> app_invariant rows_public (\<lambda>g. rows_public (w_db g)) x (\<lambda>a. \<not> is_private_armored a)"
proof unfold_locales
  assume *: "exports_public (ax_pgp x)"
  show "pg_public_block (ax_pgp x) e = Some b \<Longrightarrow> \<not> is_private_armored b" for e b
    using * unfolding exports_public_def by (metis option.inject)
  show "pg_public_block (ax_pgp x) e = None \<Longrightarrow> \<not> is_private_armored a" for e a
    using * unfolding exports_public_def by (metis option.distinct(1))
qed (simp_all add: upsert_rows_public)

end
