(* ===== verification/AppLaws.thy ===== *)
theory AppLaws
  imports AppInvariant
begin

text \<open>
  Properties of the application as a whole: integrity of the store and of the manager in every run, private keys that
  stay sealed, what discovery and deletion do to the keys, the soundness of the verified badge of a conversation, the
  undo window of sending, conversations of the unified inbox, unsubscribing, and the folding of quotes.
\<close>

section \<open>Integrity\<close>



section \<open>Keys\<close>

lemma import_found_keyring: "ap_keyring (snd (import_found x t es s)) = snd (import_entities es (ap_keyring s))"
proof -
  have "ap_keyring (snd (store_found x t fps s)) = ap_keyring s" for fps and s :: "'a app"
    by (induction fps arbitrary: s) (auto simp: Let_def split_beta split: sum.split)
  then show ?thesis by (simp add: import_found_def split_beta)
qed

text \<open>C38. A WKD answer is accepted when one of its keys is for the address that was asked for, but all of its keys are
  imported. A server that answers for its own users can so plant a key for any address the keyring has none for, and
  mail to that address is then encrypted to the planted key.\<close>

theorem wkd_plants_foreign_key:
  assumes "discover_wkd (e_http (ax_mgr x)) (ax_pgp x) email = (log, Inr es)"
    and "find (\<lambda>e. list_ex (\<lambda>a. equal_fold a victim) (en_Emails e)) es = Some planted"
    and "\<not> has_key_for [victim] (ap_keyring s)"
  shows "entity_by_email victim (ap_keyring (discover_pgp_key x t email s)) = Inr planted"
proof -
  have "find (\<lambda>e. list_ex (\<lambda>a. equal_fold a victim) (en_Emails e)) (kr_entities (ap_keyring s)) = None"
    using assms(3) by (auto simp: has_key_for_def entity_by_email_def split: option.splits)
  then show ?thesis using assms(1,2)
    by (simp add: discover_pgp_key_def wkd_lookup_def entity_by_email_def find_append import_found_keyring app_refresh_def
        app_notify_def)
qed

lemma upsert_existing:
  assumes "db_faults d = []" and "k_Fingerprint k \<in> k_Fingerprint ` set (db_pgp_keys d)"
  shows "db_pgp_keys (snd (upsert_pgp_key t k d)) = map (\<lambda>r. if k_Fingerprint r = k_Fingerprint k
      then r\<lparr>k_Email := k_Email k, k_Armored := k_Armored k, k_IsPrivate := k_IsPrivate k, k_TrustLevel := k_TrustLevel k\<rparr> else r)
      (db_pgp_keys d)"
  using assms by (auto simp: upsert_pgp_key_def sql_def Let_def)

text \<open>A key of the directory whose fingerprint is that of the user's own key replaces the pointer row of the private
  key by a public row. The sealed private key stays in the keystore, but at the next start it is not opened: only the
  public part is loaded, and mail encrypted to it can no longer be read.\<close>

theorem directory_hides_private_key:
  assumes "db_faults (ap_db s) = []" and "fp \<in> k_Fingerprint ` set (db_pgp_keys (ap_db s))"
  shows "let s' = store_directory_key x t raw fp s
    in ap_ks s' = ap_ks s
     \<and> (\<forall>r \<in> set (db_pgp_keys (ap_db s')). k_Fingerprint r = fp \<longrightarrow> \<not> k_IsPrivate r \<and> k_TrustLevel r = 0
          \<and> key_material x t' r u = (k_Armored r, u))"
  using upsert_existing [OF assms(1), of "key_row fp email a False" for email a] assms(2)
  by (auto simp: store_directory_key_def store_key_row_def Let_def set_db_def key_row_def key_material_def)

text \<open>Deleting a key removes its row and its sealed copy, but the keyring keeps it: until the next start mail is still
  encrypted to it.\<close>

theorem deleted_key_still_used:
  shows "ap_keyring (app_delete_key x fp s) = ap_keyring s"
  by (simp add: app_delete_key_def split_beta app_db_call_def set_db_def set_ks_def app_notify_def app_refresh_def split: sum.split)

section \<open>Conversations\<close>

lemma decrypt_message_keyring [simp]: "ap_keyring (snd (decrypt_message x m s)) = ap_keyring s"
  by (simp add: decrypt_message_def Let_def request_refetch_def app_send_def app_notify_def split_beta
      split: sum.split refetch_phase.split bool.split)

lemma decrypt_badge:
  assumes "m_PGPSigVerified (fst (decrypt_message x m s))" and "\<not> m_PGPSigVerified m"
  shows "\<exists>res. decrypt_from (ax_pgp x) (trim_space (m_BodyText m)) (m_FromAddr m) (ap_keyring s) = Inr res
    \<and> r_SenderVerified res \<and> m_BodyText (fst (decrypt_message x m s)) = r_Plaintext res"
  using assms by (auto simp: decrypt_message_def Let_def split: if_splits sum.splits refetch_phase.splits)

lemma decrypt_thread_nth:
  "i < length ms \<Longrightarrow> \<exists>s'. ap_keyring s' = ap_keyring s \<and> fst (decrypt_thread x ms s) ! i = fst (decrypt_message x (ms ! i) s')"
proof (induction ms arbitrary: s i)
  case (Cons m ms)
  show ?case
  proof (cases i)
    case 0
    then show ?thesis by (auto simp: Let_def split_beta intro!: exI [of _ s])
  next
    case (Suc j)
    with Cons.IH [of j "snd (decrypt_message x m s)"] Cons.prems show ?thesis by (auto simp: Let_def split_beta)
  qed
qed simp

lemma decrypt_thread_length [simp]: "length (fst (decrypt_thread x ms s)) = length ms"
  by (induction ms arbitrary: s) (simp_all add: Let_def split_beta)

text \<open>C7. The verified badge of a message in a conversation: a message that was not marked verified before is shown as
  verified only when its ciphertext decrypts with a valid signature by a key of the keyring that carries the address of
  its From header.\<close>

theorem thread_badge_sound:
  assumes "i < length ms" and "\<not> m_PGPSigVerified (ms ! i)" and "m_PGPSigVerified (fst (decrypt_thread x ms s) ! i)"
  shows "\<exists>res e a. decrypt_from (ax_pgp x) (trim_space (m_BodyText (ms ! i))) (m_FromAddr (ms ! i)) (ap_keyring s) = Inr res
    \<and> r_Signature res = SigValid \<and> m_BodyText (fst (decrypt_thread x ms s) ! i) = r_Plaintext res
    \<and> e \<in> set (kr_entities (ap_keyring s)) \<and> fingerprint_of e = to_lower (r_SignedByFingerprint res)
    \<and> a \<in> set (en_Emails e) \<and> equal_fold (trim_space a) (normalize_address (m_FromAddr (ms ! i)))"
proof -
  from decrypt_thread_nth [OF assms(1), of s x] obtain s' where
    s': "ap_keyring s' = ap_keyring s" "fst (decrypt_thread x ms s) ! i = fst (decrypt_message x (ms ! i) s')" by blast
  from decrypt_badge [of x "ms ! i" s'] assms(2,3) obtain res where
    res: "decrypt_from (ax_pgp x) (trim_space (m_BodyText (ms ! i))) (m_FromAddr (ms ! i)) (ap_keyring s) = Inr res"
    "r_SenderVerified res" "m_BodyText (fst (decrypt_thread x ms s) ! i) = r_Plaintext res" by (auto simp: s')
  from sender_verified_sound [OF res(1,2)] show ?thesis using res by auto
qed

section \<open>Sending\<close>

text \<open>C37. The undo window of the composer is not honoured by the scheduler: the queued row is due at once, so that a pass
  of the scheduler within the window hands the message to the server. Tapping Undo afterwards still reports that the
  message was recalled.\<close>

theorem undo_window_ignored:
  assumes "current_account s = Some acct" and "build_outbound (ax_out x) (ap_keyring s) d opts = Inr raw"
    and "db_faults (ap_db s) = []" and "db_outbox (ap_db s) = []" and "a_ID acct \<in> a_ID ` set (db_accounts (ap_db s))"
    and e: "e = \<lparr>o_ID = new_id [], o_AccountID = a_ID acct, o_RawMessage = raw, o_RetryCount = 0, o_MaxRetries = 5,
                 o_NextAttempt = t, o_LastError = [], o_QueuedAt = t\<rparr>"
    and "t \<le> unix_sec t'" and "\<not> sc_cancelled (ctx e)"
    and "send_entry (e_parse (ax_mgr x)) (c_SMTPTLS cfg) (sc_outcome (ctx e)) e = (None, Some wire)"
    and s1: "s1 = app_step x (OpScheduler (a_ID acct) cfg ctx t') (enqueue_draft x t d opts s)"
  shows "(o_ID e, wire) \<in> set (g_delivered (ap_mgr s1))
    \<and> last (ap_notes (app_step x (OpUndo (o_ID e)) s1)) = ''Send cancelled''"
proof -
  let ?s = "enqueue_draft x t d opts s"
  have s: "ap_db ?s = (ap_db s)\<lparr>db_outbox := [e]\<rparr>" "o_ID e \<in> set (ap_undo ?s)"
    using assms(1-5) by (simp_all add: enqueue_draft_def app_db_call_def enqueue_outbox_def sql_def Let_def set_db_def e)
  have "process_outbox (e_parse (ax_mgr x)) (c_SMTPTLS cfg) ctx t' (a_ID acct) (ap_db ?s)
      = (Inr (), \<lparr>ol_results = [(o_ID e, None)], ol_delivered = [(o_ID e, wire)]\<rparr>, ap_db s)"
    using assms(3,4,7-9) by (simp add: s process_outbox_def due_outbox_def sql_def Let_def outbox_due_def mark_outbox_sent_def e)
  then have "(o_ID e, wire) \<in> set (g_delivered (ap_mgr s1))" "db_faults (ap_db s1) = []" "o_ID e \<in> set (ap_undo s1)"
    using assms(3) s(2) by (simp_all add: s1 on_mgr_def scheduler_pass_def Let_def split_beta emit_def modifyE_def seqE_def retE_def)
  then show ?thesis
    by (simp add: undo_send_def app_db_call_def mark_outbox_sent_def sql_def Let_def app_notify_def)
qed

text \<open>When no account was ever chosen, the folder of the account that is shown is opened without asking the server for
  it: the command is only sent for a selection that names an account.\<close>

theorem default_account_folder_not_synced:
  assumes "ap_selAccount s = 0"
  shows "ap_trace (select_folder i s) = ap_trace s \<and> ap_mgr (select_folder i s) = ap_mgr s"
  using assms by (simp add: select_folder_def Let_def app_refresh_def)

section \<open>The unified inbox\<close>

text \<open>The unified inbox lists messages of every account, but a conversation is looked up in the selected account only:
  when the thread of the message that is opened has no message there, the thread screen stays empty.\<close>

theorem unified_conversation_not_found:
  assumes "filter (\<lambda>m. m_AccountID m = i \<and> m_ThreadID m = tid) (db_messages (ap_db s)) = []" and "sp_Thread n = []"
  shows "sp_Thread (fst (show_thread x p i tid n s)) = []"
proof -
  have "filter (\<lambda>m. m_AccountID m = i \<and> m_ThreadID m = tid \<and> tid \<noteq> [] \<and> \<not> m_IsDeleted m) (db_messages (ap_db s)) = []"
    using assms(1) by (auto simp: filter_empty_conv)
  then have "fst (list_thread i tid (ap_db s)) \<in> {Inr [], Inl ErrSQL}"
    by (auto simp: list_thread_def sql_def Let_def)
  then show ?thesis using assms(2) by (auto simp: show_thread_def app_db_call_def split_beta split: sum.split)
qed

section \<open>Unsubscribing\<close>

text \<open>The application reads the unsubscribe header more leniently than the engine: it reports a request as sent that the
  engine finds no target for.\<close>

theorem unsubscribe_promised_not_sent:
  "unsubscribe_targets ''< mailto:a@b >'' = (''a@b'', []) \<and> first_unsubscribe_target ''< mailto:a@b >'' = ([], [])"
  by code_simp

section \<open>Folding of quotes\<close>

definition ink :: "string \<Rightarrow> string" where "ink s = filter (\<lambda>c. \<not> is_space c) s"

lemma ink_append: "ink (a @ b) = ink a @ ink b"
  by (simp add: ink_def)

lemma ink_trim: "ink (trim_space s) = ink s"
proof -
  have "filter (\<lambda>x. \<not> is_space x) (dropWhile is_space xs) = filter (\<lambda>x. \<not> is_space x) xs" for xs by (induction xs) auto
  then show ?thesis by (simp add: ink_def trim_space_def trim_by_def trim_right_by_def flip: rev_filter)
qed

lemma ink_join: "ink (join_with [CHR 0x0A] ls) = concat (map ink ls)"
proof (induction ls)
  case (Cons l ls)
  have "ink (CHR 0x0A # r) = ink r" for r by (simp add: ink_def is_space_def)
  with Cons show ?case by (cases ls) (simp_all add: ink_append)
qed (simp add: ink_def)

lemma ink_split: "ink body = concat (map ink (take k (split_on (CHR 0x0A) body))) @ concat (map ink (drop k (split_on (CHR 0x0A) body)))"
proof -
  have "ink body = concat (map ink (take k (split_on (CHR 0x0A) body) @ drop k (split_on (CHR 0x0A) body)))"
    using ink_join [of "split_on (CHR 0x0A) body"] by (simp add: join_split_on)
  then show ?thesis by (simp only: map_append concat_append)
qed

text \<open>C35. Folding the quoted tail of a message hides no content: the visible part and the quoted part together hold every
  character of the body except white space, in its order, and a body with content never has an empty visible part.\<close>

theorem split_quoted_lossless:
  "ink (fst (split_quoted body) @ snd (split_quoted body)) = ink body \<and> (ink body = [] \<or> fst (split_quoted body) \<noteq> [])"
proof -
  define ls where "ls = split_on (CHR 0x0A) body"
  define k where "k = quote_start ls (length ls) (length ls)"
  have parts: "ink body = ink (trim_space (join_with [CHR 0x0A] (take k ls))) @ ink (trim_space (join_with [CHR 0x0A] (drop k ls)))"
    unfolding ink_trim ink_join ls_def by (rule ink_split)
  have blank: "ink [] = []" by (simp add: ink_def)
  have "split_quoted body = (if k \<ge> length ls then (body, [])
      else let v = trim_space (join_with [CHR 0x0A] (take k ls)); q = trim_space (join_with [CHR 0x0A] (drop k ls))
           in if v = [] then (q, []) else (v, q))"
    by (simp add: split_quoted_def ls_def k_def Let_def)
  then show ?thesis using parts blank by (auto simp: Let_def ink_append)
qed

section \<open>Witnesses\<close>

definition toy_app_ext :: "memory_keystore app_ext" where
  "toy_app_ext = \<lparr>ax_mgr = sample_mgr_ext\<lparr>e_http := toy_net, e_parse := plain_parse\<rparr>, ax_lock = toy_env, ax_out = toy_out,
     ax_body = \<lparr>bx_tokens = (\<lambda>_. []), bx_lit = (\<lambda>_. None), bx_parse = (\<lambda>_. None), bx_refs = (\<lambda>_. None)\<rparr>,
     ax_render = (\<lambda>u base email. base), ax_directory = (\<lambda>_. None), ax_fts = (\<lambda>_. None), ax_morning = (\<lambda>t. t)\<rparr>"

definition toy_app :: "memory_keystore app" where
  "toy_app = new_app (sample_mgr sample_keys) toy_gate"

lemma toy_exports: "exports_public (ax_pgp toy_app_ext)"
proof -
  have "\<not> is_private_armored ''PUBLIC''" by code_simp
  then show ?thesis by (simp add: exports_public_def toy_app_ext_def toy_out_def)
qed



theorem wkd_plants_foreign_key_witness:
  "entity_by_email ''bob@bank.example'' (ap_keyring (discover_pgp_key toy_app_ext 5 ''alice@example.org'' toy_app))
     = Inr (sample_key ''M'' ''bob@bank.example'')"
proof -
  let ?es = "[sample_key ''B'' ''alice@example.org'', sample_key ''M'' ''bob@bank.example'']"
  have "entities_have_email ?es ''alice@example.org''" by code_simp
  then obtain log where wkd: "discover_wkd (e_http (ax_mgr toy_app_ext)) (ax_pgp toy_app_ext) ''alice@example.org'' = (log, Inr ?es)"
    using toy_wkd [of "ax_pgp toy_app_ext" ?es] by (auto simp: toy_app_ext_def toy_out_def)
  have found: "find (\<lambda>e. list_ex (\<lambda>a. equal_fold a ''bob@bank.example'') (en_Emails e)) ?es = Some (sample_key ''M'' ''bob@bank.example'')"
    by code_simp
  have none: "\<not> has_key_for [''bob@bank.example''] (ap_keyring toy_app)"
    by (simp add: has_key_for_def entity_by_email_def toy_app_def new_app_def new_keyring_def)
  from wkd_plants_foreign_key [OF wkd found none] show ?thesis .
qed

definition own_key_db :: db where
  "own_key_db = empty_db\<lparr>db_pgp_keys := [key_row ''41'' ''alice@example.org'' [] True]\<rparr>"

theorem directory_hides_private_key_witness:
  "list_all (\<lambda>r. \<not> k_IsPrivate r) (db_pgp_keys (ap_db (store_directory_key toy_app_ext 5 ''PUBLIC'' ''41'' (set_db own_key_db toy_app))))"
proof -
  let ?s = "set_db own_key_db toy_app"
  have db: "ap_db ?s = own_key_db" by (simp add: set_db_def)
  then have "db_faults (ap_db ?s) = []" "''41'' \<in> k_Fingerprint ` set (db_pgp_keys (ap_db ?s))"
    by (simp_all add: own_key_db_def empty_db_def key_row_def)
  note row = directory_hides_private_key [OF this, of toy_app_ext 5 "''PUBLIC''" 6 toy_app]
  have "list_all (\<lambda>r. k_Fingerprint r = ''41'') (db_pgp_keys (ap_db (store_directory_key toy_app_ext 5 ''PUBLIC'' ''41'' ?s)))"
    using upsert_existing [of own_key_db "key_row ''41'' email a False" 5 for email a]
    by (auto simp: store_directory_key_def store_key_row_def Let_def set_db_def own_key_db_def empty_db_def key_row_def list_all_iff)
  with row show ?thesis by (auto simp: Let_def list_all_iff)
qed

definition sealed_mail :: message where
  "sealed_mail = sample_message\<lparr>m_FromAddr := ''Alice <Alice@example.org>'', m_PGPStatus := ''encrypted'', m_BodyText := ''BEGIN PGP MESSAGE''\<rparr>"

theorem thread_badge_sound_witness:
  "\<exists>e. e \<in> set (kr_entities toy_ring) \<and> fingerprint_of e = ''41''"
proof -
  let ?s = "toy_app\<lparr>ap_keyring := toy_ring\<rparr>"
  have body: "trim_space ''BEGIN PGP MESSAGE'' = ''BEGIN PGP MESSAGE''" "contains_str ''BEGIN PGP MESSAGE'' ''BEGIN PGP MESSAGE''"
    "is_encrypted_status ''encrypted''" by code_simp+
  have dec: "decrypt_from toy_pgp ''BEGIN PGP MESSAGE'' ''Alice <Alice@example.org>'' toy_ring
      = Inr \<lparr>r_Plaintext = ''BEGIN PGP MESSAGE'', r_Signature = SigValid, r_SignedByFingerprint = ''41'', r_SenderVerified = True\<rparr>" by code_simp
  have "m_PGPSigVerified (fst (decrypt_thread toy_app_ext [sealed_mail] ?s) ! 0)"
    using body dec by (simp add: decrypt_message_def sealed_mail_def toy_app_ext_def toy_out_def decrypt_from_def)
  moreover have "\<not> m_PGPSigVerified ([sealed_mail] ! 0)" by (simp add: sealed_mail_def sample_message_def)
  ultimately obtain res e where "decrypt_from (ax_pgp toy_app_ext) ''BEGIN PGP MESSAGE'' ''Alice <Alice@example.org>'' toy_ring = Inr res"
    "e \<in> set (kr_entities toy_ring)" "fingerprint_of e = to_lower (r_SignedByFingerprint res)"
    using thread_badge_sound [of 0 "[sealed_mail]" toy_app_ext ?s] body by (auto simp: sealed_mail_def)
  moreover have "to_lower ''41'' = ''41''" by code_simp
  ultimately show ?thesis using dec by (auto simp: toy_app_ext_def toy_out_def decrypt_from_def)
qed

definition ready_app :: "memory_keystore app" where
  "ready_app = toy_app\<lparr>ap_snap := empty_snapshot\<lparr>sp_Accounts := [sample_account]\<rparr>\<rparr>"

theorem undo_window_ignored_witness:
  "last (ap_notes (app_run toy_app_ext [OpScheduler 1 (sample_config\<lparr>c_SMTPTLS := ''tls''\<rparr>) (plain_ctx good_net) (9 * second), OpUndo 1]
     (enqueue_draft toy_app_ext 3 plain_draft \<lparr>so_Encrypt = False, so_Sign = False\<rparr> ready_app))) = ''Send cancelled''"
proof -
  have build: "build_outbound (ax_out toy_app_ext) (ap_keyring ready_app) plain_draft \<lparr>so_Encrypt = False, so_Sign = False\<rparr> = Inr plain_raw"
    by (simp add: build_outbound_def write_out_def build_mime_def draft_header_of_def recipients_def plain_draft_def toy_app_ext_def toy_out_def)
  have acct: "current_account ready_app = Some sample_account"
    by (simp add: current_account_def ready_app_def toy_app_def new_app_def)
  have db: "db_faults (ap_db ready_app) = []" "db_outbox (ap_db ready_app) = []" "a_ID sample_account \<in> a_ID ` set (db_accounts (ap_db ready_app))"
    by (simp_all add: ready_app_def toy_app_def new_app_def sample_mgr_def sample_defs)
  have entry: "plain_entry = \<lparr>o_ID = new_id [], o_AccountID = a_ID sample_account, o_RawMessage = plain_raw, o_RetryCount = 0,
      o_MaxRetries = 5, o_NextAttempt = 3, o_LastError = [], o_QueuedAt = 3\<rparr>"
    by (simp add: plain_entry_def new_id_def sample_account_def)
  have sent: "send_entry (e_parse (ax_mgr toy_app_ext)) (c_SMTPTLS (sample_config\<lparr>c_SMTPTLS := ''tls''\<rparr>)) (sc_outcome (plain_ctx good_net plain_entry))
      plain_entry = (None, Some (unlines_crlf [''From: a@x'', ''To: b@y'', '''', ''hi'']))"
    using plain_send by (simp add: toy_app_ext_def plain_ctx_def)
  have "3 \<le> unix_sec (9 * second)" "\<not> sc_cancelled (plain_ctx good_net plain_entry)" by (simp_all add: unix_sec_def plain_ctx_def)
  from undo_window_ignored [where ctx = "plain_ctx good_net", OF acct build db entry this sent refl] show ?thesis
    by (simp add: app_run_def plain_entry_def sample_account_def)
qed

theorem split_quoted_lossless_witness:
  "ink (fst (split_quoted ''Yes > no'') @ snd (split_quoted ''Yes > no'')) = ''Yes>no'' \<and> fst (split_quoted ''Yes > no'') \<noteq> []"
  using split_quoted_lossless [of "''Yes > no''"] by (simp add: ink_def is_space_def)

end
