(* ===== verification/AppView.thy ===== *)
theory AppView
  imports AppInvariant
begin

text \<open>
  What the screens show and what the application asks the manager for, in every run. The locale \<open>view_invariant\<close> is the
  contract of a property of the snapshot, of the commands sent and of the refetch marks: it holds in every state once
  the few changes to them keep it. It is interpreted for the consistency of the snapshot and for the rule that a damaged
  message is fetched again at most once.
\<close>

section \<open>What is shown and what was asked for\<close>

record view =
  vw_snap :: snapshot
  vw_trace :: "cmd list"
  vw_refetching :: "int \<Rightarrow> bool"
  vw_refetched :: "int \<Rightarrow> bool"

definition view_of :: "'k app \<Rightarrow> view" where
  "view_of s = \<lparr>vw_snap = ap_snap s, vw_trace = ap_trace s, vw_refetching = ap_refetching s, vw_refetched = ap_refetched s\<rparr>"

lemma view_frame [simp]:
  "view_of (s\<lparr>ap_mgr := g\<rparr>) = view_of s" "view_of (s\<lparr>ap_gate := h\<rparr>) = view_of s" "view_of (s\<lparr>ap_keyring := k\<rparr>) = view_of s"
  "view_of (s\<lparr>ap_refresh := b\<rparr>) = view_of s" "view_of (s\<lparr>ap_jobs := js\<rparr>) = view_of s" "view_of (s\<lparr>ap_notes := ns\<rparr>) = view_of s"
  "view_of (s\<lparr>ap_chat := cs\<rparr>) = view_of s" "view_of (s\<lparr>ap_requests := rs\<rparr>) = view_of s" "view_of (s\<lparr>ap_selAccount := i\<rparr>) = view_of s"
  "view_of (s\<lparr>ap_selFolder := i\<rparr>) = view_of s" "view_of (s\<lparr>ap_selThread := q\<rparr>) = view_of s" "view_of (s\<lparr>ap_searchQuery := q\<rparr>) = view_of s"
  "view_of (s\<lparr>ap_searchQueue := b\<rparr>) = view_of s" "view_of (s\<lparr>ap_searchTimer := b\<rparr>) = view_of s" "view_of (s\<lparr>ap_autoWKD := b\<rparr>) = view_of s"
  "view_of (s\<lparr>ap_lastAutoWKD := l\<rparr>) = view_of s" "view_of (s\<lparr>ap_waiters := ws\<rparr>) = view_of s" "view_of (s\<lparr>ap_answers := as\<rparr>) = view_of s"
  "view_of (s\<lparr>ap_undo := us\<rparr>) = view_of s" "view_of (s\<lparr>ap_commit := us\<rparr>) = view_of s"
  "view_of (s\<lparr>ap_load := ld\<rparr>) = view_of s"
  by (simp_all add: view_of_def)

lemma view_calls [simp]:
  "view_of (set_db d s) = view_of s" "view_of (set_ks k s) = view_of s" "view_of (app_notify msg s) = view_of s"
  "view_of (app_refresh s) = view_of s" "view_of (snd (app_db_call f s)) = view_of s" "view_of (with_gate f' s) = view_of s"
  "view_of (on_mgr h s) = view_of s" "view_of (store_key_row x t fp a b s) = view_of s"
  "view_of (snd (app_import x a s)) = view_of s" "view_of (snd (wkd_lookup x e s)) = view_of s"
  by (simp_all add: set_db_def set_ks_def app_notify_def app_refresh_def app_db_call_def with_gate_def on_mgr_def store_key_row_def
      app_import_def wkd_lookup_def Let_def split_beta split: sum.split)

lemma view_fold: "(\<And>a s. view_of (f a s) = view_of s) \<Longrightarrow> view_of (fold f as s) = view_of s"
  by (induction as arbitrary: s) auto

lemma view_loads [simp]:
  "view_of (snd (load_or dflt f s)) = view_of s" "view_of (snd (count_unread fs u s)) = view_of s"
  "view_of (snd (app_load_prefs x bio s)) = view_of s"
proof -
  show "view_of (snd (count_unread fs u s)) = view_of s"
    by (induction fs arbitrary: u s) (simp_all add: split_beta split: sum.split)
qed (simp_all add: load_or_def app_load_prefs_def Let_def split_beta split: sum.split)

lemma view_keys [simp]:
  "view_of (persist_keyring x t fps a s) = view_of s"
  "view_of (load_pgp_keys x t s) = view_of s"
  "view_of (snd (store_found x t fps s)) = view_of s" "view_of (fold (store_directory_key x t raw) fps s) = view_of s"
proof -
  show "view_of (persist_keyring x t fps a s) = view_of s"
    by (simp add: persist_keyring_def Let_def view_fold)
  have "view_of (snd (key_material x t k s)) = view_of s" for k and s :: "'a app"
    by (simp add: key_material_def migrate_legacy_private_key_def split_beta split: sum.split)
  then have "view_of (load_key x t k s) = view_of s" for k and s :: "'a app"
    by (simp add: load_key_def Let_def split_beta split: sum.split)
  then show "view_of (load_pgp_keys x t s) = view_of s"
    by (simp add: load_pgp_keys_def split_beta view_fold split: sum.split)
  show "view_of (snd (store_found x t fps s)) = view_of s"
    by (induction fps arbitrary: s) (simp_all add: Let_def split_beta split: sum.split)
  show "view_of (fold (store_directory_key x t raw) fps s) = view_of s"
    by (rule view_fold) (simp add: store_directory_key_def Let_def)
qed

lemma view_import_found [simp]: "view_of (snd (import_found x t es s)) = view_of s"
  by (simp add: import_found_def split_beta)

lemma view_sweeps [simp]:
  "view_of (snd (sweep x t n emails s)) = view_of s" "view_of (snd (fetch_missing x t n emails s)) = view_of s"
  "view_of (snd (import_directory x t keys s)) = view_of s"
proof -
  show "view_of (snd (sweep x t n emails s)) = view_of s"
  proof (induction n arbitrary: emails s)
    case (Suc n)
    then show ?case by (cases emails) (simp_all add: Let_def split_beta split: sum.split)
  qed simp
  show "view_of (snd (fetch_missing x t n emails s)) = view_of s"
    by (induction emails arbitrary: n s) (simp_all add: Let_def split_beta split: sum.split nat.split)
  show "view_of (snd (import_directory x t keys s)) = view_of s"
  proof (induction keys arbitrary: s)
    case (Cons key keys)
    then show ?case by (cases key) (simp add: Let_def split_beta split: sum.split)
  qed simp
qed

lemma view_actions [simp]:
  "view_of (import_pgp_key x t a s) = view_of s" "view_of (import_private_key x t a s) = view_of s"
  "view_of (discover_pgp_key x t e s) = view_of s" "view_of (discover_contact_keys x t n s) = view_of s"
  "view_of (snd (ensure_keys_for x t n as s)) = view_of s" "view_of (set_key_directory_url raw s) = view_of s"
  "view_of (sync_from_directory x t s) = view_of s" "view_of (app_set_trust fp l s) = view_of s"
  "view_of (app_delete_key x fp s) = view_of s" "view_of (set_auto_wkd b s) = view_of s" "view_of (set_flag_setting key b s) = view_of s"
  "view_of (startup x t s) = view_of s" "view_of (run_job x t n i s) = view_of s" "view_of (app_gate x ev s) = view_of s"
  "view_of (load_begin b s) = view_of s" "view_of (enqueue_draft x t d opts s) = view_of s" "view_of (undo_send oid s) = view_of s"
  "view_of (await_timeout w s) = view_of s" "view_of (search_timer s) = view_of s" "view_of (snd (compose_send x t c s)) = view_of s"
  by (simp_all add: import_pgp_key_def import_private_key_def discover_pgp_key_def discover_contact_keys_def ensure_keys_for_def
      set_key_directory_url_def sync_from_directory_def app_set_trust_def app_delete_key_def set_auto_wkd_def set_flag_setting_def
      startup_def run_job_def app_gate_def load_begin_def enqueue_draft_def undo_send_def await_timeout_def search_timer_def
      compose_send_def Let_def split_beta view_fold split: sum.split option.split job.split)

section \<open>What a snapshot promises\<close>

text \<open>The list is one folder of the selected account, or the inboxes of all of them, the conversation belongs to that
  account, nothing deleted is shown, and every row and every message of the conversation has its text.\<close>

definition snap_consistent :: "snapshot \<Rightarrow> bool" where
  "snap_consistent n \<longleftrightarrow>
     list_all (\<lambda>f. f_AccountID f = sp_SelectedAccount n) (sp_Folders n)
   \<and> (case sp_CurrentFolder n of
        None \<Rightarrow> sp_Messages n = []
      | Some f \<Rightarrow> f = unified_folder \<or> f \<in> set (sp_Folders n) \<and> list_all (\<lambda>m. m_FolderID m = f_ID f) (sp_Messages n))
   \<and> list_all (\<lambda>m. \<not> m_IsDeleted m \<and> m_ID m \<in> dom (sp_RowText n)) (sp_Messages n) \<and> length (sp_Messages n) \<le> 200
   \<and> list_all (\<lambda>m. m_AccountID m = sp_SelectedAccount n \<and> \<not> m_IsDeleted m \<and> m_ID m \<in> dom (sp_ThreadBodies n)) (sp_Thread n)"

text \<open>The loader replaces the snapshot, the event pump and the search change its other fields.\<close>

definition snap_content :: "snapshot \<Rightarrow> account list \<times> folder list \<times> folder option \<times> message list \<times> message list \<times> (int \<rightharpoonup> message_body) \<times> int" where
  "snap_content n = (sp_Accounts n, sp_Folders n, sp_CurrentFolder n, sp_Messages n, sp_Thread n, sp_ThreadBodies n, sp_SelectedAccount n)"

definition restyled :: "snapshot \<Rightarrow> snapshot \<Rightarrow> bool" where
  "restyled n n' \<longleftrightarrow> snap_content n' = snap_content n \<and> dom (sp_RowText n) \<subseteq> dom (sp_RowText n')"

lemma consistent_restyled: "restyled n n' \<Longrightarrow> snap_consistent n \<Longrightarrow> snap_consistent n'"
proof -
  assume *: "restyled n n'" and n: "snap_consistent n"
  have "list_all (\<lambda>m. \<not> m_IsDeleted m \<and> m_ID m \<in> dom (sp_RowText n')) (sp_Messages n)"
    using * n unfolding restyled_def snap_consistent_def list_all_iff by blast
  with * n show ?thesis by (simp add: restyled_def snap_content_def snap_consistent_def cong: option.case_cong)
qed

lemma map_of_fold: "dom (fold (\<lambda>m t. t(k m \<mapsto> v m)) ms t) = k ` set ms \<union> dom t"
  by (induction ms arbitrary: t) auto

lemma row_texts_dom: "dom (row_texts ms) = m_ID ` set ms"
  by (simp add: row_texts_def map_of_fold)

lemma decrypt_message_meta:
  "m_ID (fst (decrypt_message x m s)) = m_ID m \<and> m_AccountID (fst (decrypt_message x m s)) = m_AccountID m
   \<and> m_IsDeleted (fst (decrypt_message x m s)) = m_IsDeleted m"
  by (simp add: decrypt_message_def Let_def split: sum.split refetch_phase.split)

lemma decrypt_thread_meta:
  "list_all (\<lambda>m. m_AccountID m = i \<and> \<not> m_IsDeleted m) ms \<Longrightarrow>
   list_all (\<lambda>m. m_AccountID m = i \<and> \<not> m_IsDeleted m) (fst (decrypt_thread x ms s))"
  by (induction ms arbitrary: s) (simp_all add: Let_def split_beta decrypt_message_meta)

lemma list_thread_meta:
  "list_thread i tid d = (Inr ths, d') \<Longrightarrow> list_all (\<lambda>m. m_AccountID m = i \<and> \<not> m_IsDeleted m) ths"
  by (auto simp: list_thread_def list_all_iff scan_message_def dest!: sql_InrD)

text \<open>The snapshot while it is built: the account it will be for, and no conversation yet.\<close>

definition snap_listed :: "int \<Rightarrow> snapshot \<Rightarrow> bool" where
  "snap_listed i n \<longleftrightarrow> snap_consistent (n\<lparr>sp_SelectedAccount := i, sp_RowText := row_texts (sp_Messages n)\<rparr>) \<and> sp_Thread n = []"

lemma snap_listed_fields:
  "snap_listed i n \<Longrightarrow>
   snap_consistent (n\<lparr>sp_RowText := row_texts (sp_Messages n), sp_PGPKeys := ks, sp_PGPKeyDirURL := u, sp_SelectedAccount := i, sp_AutoWKD := b\<rparr>)"
  by (rule consistent_restyled [of "n\<lparr>sp_SelectedAccount := i, sp_RowText := row_texts (sp_Messages n)\<rparr>"])
    (simp_all add: snap_listed_def restyled_def snap_content_def)

lemma shown_results: "snap_consistent n \<Longrightarrow> snap_consistent (fst (show_results x i q n s))"
  by (rule consistent_restyled [of n])
    (auto simp: show_results_def restyled_def snap_content_def split_beta map_of_fold split: sum.split)

lemma shown_thread:
  assumes "snap_consistent n" and "sp_SelectedAccount n = i"
  shows "snap_consistent (fst (show_thread x p i tid n s))"
proof -
  have "snap_consistent (n\<lparr>sp_Thread := ths, sp_ThreadBodies := bodies\<rparr>)"
    if "list_all (\<lambda>m. m_AccountID m = i \<and> \<not> m_IsDeleted m) ths" "dom bodies = m_ID ` set ths" for ths bodies
    using assms that unfolding snap_consistent_def list_all_iff by (auto split: option.splits)
  then show ?thesis
    using assms(1) by (auto simp: show_thread_def app_db_call_def Let_def split_beta map_of_fold decrypt_thread_meta
        list_thread_meta prod_eq_iff split: sum.split)
qed

lemma restyle_flags [simp]:
  "restyled n (n\<lparr>sp_Online := b\<rparr>)" "restyled n (n\<lparr>sp_SyncDone := i, sp_SyncTotal := j\<rparr>)" "restyled n (n\<lparr>sp_AuthError := b\<rparr>)"
  "restyled n (n\<lparr>sp_ManualSyncing := b\<rparr>)" "restyled n (n\<lparr>sp_SearchResults := ms\<rparr>)"
  "restyled n (n\<lparr>sp_SearchResults := ms, sp_RowText := fold (\<lambda>m t. t(m_ID m \<mapsto> row_line m)) ms (sp_RowText n)\<rparr>)"
  by (auto simp: restyled_def snap_content_def map_of_fold)

section \<open>Invariants of the view\<close>

locale view_invariant =
  fixes V :: "view \<Rightarrow> bool"
  assumes V_cmd: "V w \<Longrightarrow> (\<And>a i. c \<noteq> RefetchMessageCmd a i) \<Longrightarrow> V (w\<lparr>vw_trace := vw_trace w @ [c]\<rparr>)"
    and V_refetch: "V w \<Longrightarrow> \<not> vw_refetching w i \<Longrightarrow> \<not> vw_refetched w i \<Longrightarrow>
      V (w\<lparr>vw_trace := vw_trace w @ [RefetchMessageCmd a i], vw_refetching := (vw_refetching w)(i := True)\<rparr>)"
    and V_asked: "V w \<Longrightarrow> V (w\<lparr>vw_refetching := (vw_refetching w)(i := True)\<rparr>)"
    and V_refetched: "V w \<Longrightarrow> V (w\<lparr>vw_refetching := (vw_refetching w)(i := False), vw_refetched := (vw_refetched w)(i := True)\<rparr>)"
    and V_restyle: "V w \<Longrightarrow> restyled (vw_snap w) n \<Longrightarrow> V (w\<lparr>vw_snap := n\<rparr>)"
    and V_show: "V w \<Longrightarrow> snap_consistent n \<Longrightarrow> V (w\<lparr>vw_snap := n\<rparr>)"
begin

abbreviation W :: "'k app \<Rightarrow> bool" where "W s \<equiv> V (view_of s)"

lemma W_send: "W s \<Longrightarrow> (\<And>a i. c \<noteq> RefetchMessageCmd a i) \<Longrightarrow> W (app_send c s)"
  using V_cmd [of "view_of s" c] by (auto simp: app_send_def view_of_def app_notify_def split: prod.split bool.split)

lemma W_decrypt: "W s \<Longrightarrow> W (snd (decrypt_message x m s))"
proof -
  assume "W s"
  then have "W (request_refetch a i s)" for a i
    using V_refetch [of "view_of s" i a] V_asked [of "view_of s" i]
    by (auto simp: request_refetch_def app_send_def app_notify_def view_of_def split: prod.split bool.split)
  with \<open>W s\<close> show ?thesis by (simp add: decrypt_message_def Let_def split: sum.split refetch_phase.split)
qed

lemma W_thread: "W s \<Longrightarrow> W (snd (decrypt_thread x ms s))"
  by (induction ms arbitrary: s) (simp_all add: Let_def split_beta W_decrypt)

lemma W_stop: "(\<And>a d d'. f d = (Inr a, d') \<Longrightarrow> P a) \<Longrightarrow> (\<And>a s. P a \<Longrightarrow> W s \<Longrightarrow> W (next a s)) \<Longrightarrow> W s \<Longrightarrow> W (load_or_stop f next s)"
  by (auto simp: load_or_stop_def app_db_call_def split: prod.split sum.split)

lemma W_patch: "W s \<Longrightarrow> restyled (ap_snap s) n \<Longrightarrow> W (s\<lparr>ap_snap := n\<rparr>)"
  using V_restyle [of "view_of s" n] by (simp add: view_of_def)

lemma W_commit: "W s \<Longrightarrow> snap_consistent n \<Longrightarrow> W (commit p n s)"
proof -
  assume "W s" and n: "snap_consistent n"
  let ?n = "n\<lparr>sp_Online := sp_Online (ap_snap s), sp_AuthError := sp_AuthError (ap_snap s), sp_SyncDone := sp_SyncDone (ap_snap s),
    sp_SyncTotal := sp_SyncTotal (ap_snap s), sp_ManualSyncing := sp_ManualSyncing (ap_snap s)\<rparr>"
  have "snap_consistent ?n" by (rule consistent_restyled [OF _ n]) (simp add: restyled_def snap_content_def)
  with V_show [OF \<open>W s\<close>, of ?n] show ?thesis by (simp add: commit_def Let_def view_of_def)
qed

lemma W_show_thread: "W s \<Longrightarrow> W (snd (show_thread x p i tid n s))"
  by (simp add: show_thread_def split_beta W_thread split: sum.split)

lemma W_show_results: "W s \<Longrightarrow> W (snd (show_results x i q n s))"
  by (simp add: show_results_def split_beta split: sum.split)

lemma W_tail:
  assumes "W s" and "snap_listed i n"
  shows "W (reload_tail x p i tid q n s)"
  unfolding reload_tail_def Let_def split_beta
  by (intro W_commit W_show_results W_show_thread shown_results shown_thread snap_listed_fields) (simp_all add: assms)

end

section \<open>The loader shows consistent snapshots\<close>

lemma list_messages_meta:
  "list_messages t f 0 200 d = (Inr ms, d') \<Longrightarrow> list_all (\<lambda>m. m_FolderID m = f \<and> \<not> m_IsDeleted m) ms \<and> length ms \<le> 200"
  "list_unified_inbox t 0 200 d = (Inr ms, d') \<Longrightarrow> list_all (\<lambda>m. \<not> m_IsDeleted m) ms \<and> length ms \<le> 200"
  by (auto simp: list_messages_def list_unified_inbox_def sql_page_def list_all_iff scan_message_def header_cols_def newest_first_def
      dest!: sql_InrD in_set_takeD)

lemma list_folders_meta: "list_folders i d = (Inr fs, d') \<Longrightarrow> list_all (\<lambda>f. f_AccountID f = i) fs"
  by (auto simp: list_folders_def list_all_iff dest!: sql_InrD)

lemma listed_folder:
  assumes "list_all (\<lambda>f. f_AccountID f = i) fs" and "list_all (\<lambda>m. \<not> m_IsDeleted m) ms" and "length ms \<le> 200"
    and "case cur of None \<Rightarrow> ms = [] | Some f \<Rightarrow> f = unified_folder \<or> f \<in> set fs \<and> list_all (\<lambda>m. m_FolderID m = f_ID f) ms"
  shows "snap_listed i (empty_snapshot\<lparr>sp_Accounts := as, sp_Folders := fs, sp_Unread := u, sp_CurrentFolder := cur, sp_Messages := ms\<rparr>)"
  using assms by (auto simp: snap_listed_def snap_consistent_def row_texts_dom list_all_iff empty_snapshot_def split: option.splits)

context view_invariant
begin

lemma W_list:
  assumes "W s" and "list_all (\<lambda>f. f_AccountID f = i) fs" and "cur = Some unified_folder \<or> (\<exists>f \<in> set fs. cur = Some f)"
    and "\<And>d ms d'. list d = (Inr ms, d') \<Longrightarrow>
      list_all (\<lambda>m. \<not> m_IsDeleted m \<and> (cur = Some unified_folder \<or> m_FolderID m = f_ID (the cur))) ms \<and> length ms \<le> 200"
  shows "W (load_or_stop list (\<lambda>ms. reload_tail x p i tid q
      (empty_snapshot\<lparr>sp_Accounts := as, sp_Folders := fs, sp_Unread := u, sp_CurrentFolder := cur, sp_Messages := ms\<rparr>)) s)"
  by (rule W_stop [OF assms(4)], assumption, rule W_tail, assumption, rule listed_folder)
    (use assms(1-3) in \<open>auto simp: list_all_iff\<close>)

lemma W_folders: "W s \<Longrightarrow> W (reload_folders x t p accounts i f tid q s)"
proof -
  assume "W s"
  have empty: "W s' \<Longrightarrow> list_all (\<lambda>f. f_AccountID f = i) fs \<Longrightarrow> cur = None \<or> cur \<in> Some ` set fs \<Longrightarrow> W (reload_tail x p i tid q
      (empty_snapshot\<lparr>sp_Accounts := as, sp_Folders := fs, sp_Unread := u, sp_CurrentFolder := cur, sp_Messages := []\<rparr>) s')"
    for s' fs cur as u
    by (rule W_tail, assumption, rule listed_folder) auto
  show ?thesis unfolding reload_folders_def Let_def split_beta
  proof (rule W_stop [OF list_folders_meta _ \<open>W s\<close>], assumption, goal_cases)
    case (1 fs s')
    have cur: "last_such P fs = Some g \<Longrightarrow> g \<in> set fs" for P g by (auto simp: last_such_def dest: find_props)
    from 1 cur show ?case
      by (cases "last_such (\<lambda>g. f = 0 \<and> f_IsInbox g \<or> f_ID g = f) fs")
        (auto simp: list_all_iff split_beta split: sum.split intro!: W_list empty dest!: list_messages_meta)
  qed
qed

lemma W_reload: "W s \<Longrightarrow> W (reload x t bio i f tid q s)"
  unfolding reload_def Let_def split_beta
  by (rule W_stop [of _ "\<lambda>_. True"])
    (auto intro!: W_folders W_commit simp: snap_consistent_def empty_snapshot_def split: option.split)

lemma W_search: "W s \<Longrightarrow> W (reload_search x i q s)"
  unfolding reload_search_def Let_def
  by (auto intro!: W_stop [of _ "\<lambda>_. True"] W_patch)

lemma W_finish: "W s \<Longrightarrow> W (load_finish x t bio s)"
  by (simp add: load_finish_def W_reload W_search split: option.split load.split)

lemma W_event: "W s \<Longrightarrow> W (apply_sync_event t ev s)"
proof (cases ev)
  case (MessageRefetchedEvent a mid err)
  assume "W s"
  with V_refetched [of "view_of s" mid] show ?thesis by (simp add: MessageRefetchedEvent view_of_def app_refresh_def)
qed (simp_all add: Let_def patch_snap_def W_patch resolve_add_waiters_def)

lemma W_pump: "W s \<Longrightarrow> W (pump_event t s)"
  by (simp add: pump_event_def W_event split: list.split)

lemma W_step: "W s \<Longrightarrow> W (app_step x op s)"
proof (cases op)
  case (OpSearch q)
  assume "W s"
  have "W (s\<lparr>ap_searchQuery := q, ap_searchTimer := b, ap_snap := (ap_snap s)\<lparr>sp_SearchResults := []\<rparr>\<rparr>)" for b
    using W_patch [of "s\<lparr>ap_searchQuery := q, ap_searchTimer := b\<rparr>" "(ap_snap s)\<lparr>sp_SearchResults := []\<rparr>"] \<open>W s\<close> by simp
  then show ?thesis using \<open>W s\<close> by (auto simp: OpSearch set_search_def Let_def)
next
  case (OpAddAccount w cfg secret)
  assume "W s"
  with V_cmd [of "view_of s" "AddAccountCmd cfg secret"] show ?thesis
    by (auto simp: OpAddAccount add_account_await_def view_of_def split: prod.split bool.split)
next
  case (OpUnsubscribe m)
  assume "W s"
  then show ?thesis by (simp add: OpUnsubscribe app_unsubscribe_def Let_def split_beta W_send)
qed (simp_all del: mgr_step.simps add: W_pump W_finish select_account_def select_folder_def sync_now_def open_thread_def Let_def
    undo_expired_def app_snooze_def download_attachment_def set_device_id_def set_motion_reduced_def set_rich_html_def
    sync_private_key_def W_send split: option.split)

lemma W_run: "W s \<Longrightarrow> W (app_run x ops s)"
  by (induction ops arbitrary: s) (simp_all add: app_run_def W_step)

end

section \<open>Interpretations\<close>

definition refetches :: "int \<Rightarrow> cmd \<Rightarrow> bool" where
  "refetches i c \<longleftrightarrow> (case c of RefetchMessageCmd _ mid \<Rightarrow> mid = i | _ \<Rightarrow> False)"

interpretation shown: view_invariant "\<lambda>w. snap_consistent (vw_snap w)"
  by unfold_locales (auto intro: consistent_restyled)

definition asked_once :: "view \<Rightarrow> bool" where
  "asked_once w \<longleftrightarrow> (\<forall>i. length (filter (refetches i) (vw_trace w)) \<le> 1
     \<and> (vw_refetching w i \<or> vw_refetched w i \<or> filter (refetches i) (vw_trace w) = []))"

interpretation asked: view_invariant asked_once
proof unfold_locales
  fix w :: view and c assume "\<And>a i. c \<noteq> RefetchMessageCmd a i"
  then have "\<not> refetches i c" for i by (cases c) (auto simp: refetches_def)
  then show "asked_once w \<Longrightarrow> asked_once (w\<lparr>vw_trace := vw_trace w @ [c]\<rparr>)" by (simp add: asked_once_def)
qed (auto simp: asked_once_def refetches_def split: if_splits)

section \<open>The view in every run\<close>

text \<open>C13. Whatever happens in whatever order, what the screens show fits together: the folders, the open folder and the
  conversation belong to the one selected account (or the list is the unified inbox), the list holds only messages of
  the open folder and at most 200 of them, no deleted message is shown, and every row and every message of the
  conversation has its prepared text.\<close>

theorem snapshot_consistent:
  "snap_consistent (ap_snap (app_run x ops (new_app g gate)))"
proof -
  have "snap_consistent (ap_snap (new_app g gate))"
    by (simp add: new_app_def empty_snapshot_def snap_consistent_def)
  with shown.W_run [of "new_app g gate" x ops] show ?thesis by (simp add: view_of_def)
qed

text \<open>C31. The damaged copy of an encrypted message is asked for at most once in a run, however often its conversation
  is reloaded and whatever the server answers, so that a reload never turns into a loop of fetches.\<close>

theorem refetch_at_most_once:
  "length (filter (refetches i) (ap_trace (app_run x ops (new_app g gate)))) \<le> 1"
proof -
  have "asked_once (view_of (new_app g gate))" by (simp add: asked_once_def view_of_def new_app_def)
  from asked.W_run [OF this, of x ops] show ?thesis by (simp add: asked_once_def view_of_def)
qed

end
