(* ===== verification/Avatar.thy ===== *)
theory Avatar
  imports Pgp Store
begin

text \<open>
  Pictures of correspondents, src/internal/avatarimg/cache.go, and the list of domains the application lets it contact
  (\<open>accountDomains\<close> of src/ui/app.go).

  The digest of an address, the decoders and rasteriser of images are arguments; an image is its bounds. A fetch that
  was started and has not answered is an entry of \<open>ac_pending\<close>, and every request that was sent is in \<open>ac_log\<close>.
  \<open>ac_sig\<close> is the signature of the list that the frame loop applied last.
\<close>

section \<open>Images\<close>

record rect =
  x_min :: int
  y_min :: int
  x_max :: int
  y_max :: int

definition dx :: "rect \<Rightarrow> int" where "dx b = x_max b - x_min b"
definition dy :: "rect \<Rightarrow> int" where "dy b = y_max b - y_min b"

text \<open>The part of the source that \<open>squareCrop\<close> copies; \<open>None\<close> when the image is returned as it is.\<close>

definition square_crop :: "rect \<Rightarrow> rect option" where
  "square_crop b =
     (let w = dx b; h = dy b
      in if w = h then None
         else (let s = (if h < w then h else w);
                   x0 = x_min b + (w - s) div 2;
                   y0 = y_min b + (h - s) div 2
               in Some \<lparr>x_min = x0, y_min = y0, x_max = x0 + s, y_max = y0 + s\<rparr>))"

definition looks_svg :: "bytes \<Rightarrow> bool" where
  "looks_svg raw \<longleftrightarrow> has_prefix ''<svg'' (trim_space raw) \<or> has_prefix ''<?xml'' (trim_space raw)"

record image_ext =
  im_md5 :: "string \<Rightarrow> bytes"
  im_svg :: "bytes \<Rightarrow> bool"
  im_decode :: "bytes \<Rightarrow> rect option"

definition raster_px :: int where "raster_px = 128"

definition decode_avatar :: "image_ext \<Rightarrow> bytes \<Rightarrow> rect option" where
  "decode_avatar x raw =
     (if looks_svg raw
      then (if im_svg x raw then Some \<lparr>x_min = 0, y_min = 0, x_max = raster_px, y_max = raster_px\<rparr> else None)
      else case im_decode x raw of
             None \<Rightarrow> None
           | Some b \<Rightarrow> (case square_crop b of
                          None \<Rightarrow> Some b
                        | Some c \<Rightarrow> Some \<lparr>x_min = 0, y_min = 0, x_max = dx c, y_max = dy c\<rparr>))"

section \<open>The cache\<close>

datatype avatar_state = StateUnknown | StateLoading | StateLoaded | StateMissing

record avatar_entry =
  ae_img :: "rect option"
  ae_state :: avatar_state
  ae_stamp :: int

record avatar_cache =
  ac_entries :: "string \<rightharpoonup> avatar_entry"
  ac_allowed :: "string list"
  ac_pending :: "(string \<times> string) list"
  ac_log :: "request list"
  ac_sig :: string

definition new_cache :: avatar_cache where
  "new_cache = \<lparr>ac_entries = Map.empty, ac_allowed = [], ac_pending = [], ac_log = [], ac_sig = []\<rparr>"

definition miss_retry :: int where "miss_retry = 15 * minute"
definition max_avatar_bytes :: nat where "max_avatar_bytes = 1048576"

definition set_allowed_domains :: "string list \<Rightarrow> avatar_cache \<Rightarrow> avatar_cache" where
  "set_allowed_domains domains c =
     c\<lparr>ac_allowed := filter (\<lambda>d. d \<noteq> []) (map (\<lambda>d. to_lower (trim_space d)) domains),
       ac_entries := (\<lambda>k. map_option (\<lambda>e. if ae_state e = StateMissing then e\<lparr>ae_state := StateUnknown\<rparr> else e) (ac_entries c k))\<rparr>"

text \<open>The lower-case address and its domain, for an address that has both parts.\<close>

definition avatar_domain :: "string \<Rightarrow> (string \<times> string) option" where
  "avatar_domain email =
     (let key = to_lower (trim_space email)
      in case last_char_index CHR ''@'' key of
           None \<Rightarrow> None
         | Some at \<Rightarrow> if at = 0 \<or> at = length key - 1 then None else Some (key, drop (Suc at) key))"

definition entry_of :: "string \<Rightarrow> avatar_cache \<Rightarrow> avatar_entry" where
  "entry_of key c = (case ac_entries c key of Some e \<Rightarrow> e | None \<Rightarrow> \<lparr>ae_img = None, ae_state = StateUnknown, ae_stamp = 0\<rparr>)"

definition put_entry :: "string \<Rightarrow> avatar_entry \<Rightarrow> avatar_cache \<Rightarrow> avatar_cache" where
  "put_entry key e c = c\<lparr>ac_entries := (ac_entries c)(key \<mapsto> e)\<rparr>"

definition avatar_image :: "int \<Rightarrow> string \<Rightarrow> avatar_cache \<Rightarrow> rect option \<times> avatar_cache" where
  "avatar_image t email c =
     (case avatar_domain email of
        None \<Rightarrow> (None, c)
      | Some (key, domain) \<Rightarrow>
          (let e = entry_of key c; c = put_entry key e c
           in if ae_state e = StateLoaded then (ae_img e, c)
              else if ae_state e = StateLoading then (None, c)
              else if ae_state e = StateMissing \<and> t - ae_stamp e < miss_retry then (None, c)
              else if domain \<notin> set (ac_allowed c) then (None, put_entry key (e\<lparr>ae_state := StateMissing, ae_stamp := t\<rparr>) c)
              else (None, (put_entry key (e\<lparr>ae_state := StateLoading\<rparr>) c)\<lparr>ac_pending := ac_pending c @ [(key, domain)]\<rparr>)))"

definition store_avatar :: "int \<Rightarrow> string \<Rightarrow> rect option \<Rightarrow> avatar_cache \<Rightarrow> avatar_cache" where
  "store_avatar t key img c =
     put_entry key \<lparr>ae_img = img, ae_state = (if img \<noteq> None then StateLoaded else StateMissing), ae_stamp = t\<rparr> c"

definition avatar_url :: "image_ext \<Rightarrow> string \<Rightarrow> string \<Rightarrow> string" where
  "avatar_url x key domain = ''https://'' @ domain @ ''/avatar/'' @ hex_bytes (im_md5 x key)"

definition fetch_avatar :: "ext \<Rightarrow> image_ext \<Rightarrow> int \<Rightarrow> string \<Rightarrow> string \<Rightarrow> avatar_cache \<Rightarrow> avatar_cache" where
  "fetch_avatar net x t key domain c =
     (case send_request net (get_request (avatar_url x key domain) ''image/*'') of
        (log, None) \<Rightarrow> store_avatar t key None (c\<lparr>ac_log := ac_log c @ log\<rparr>)
      | (log, Some No_reply) \<Rightarrow> store_avatar t key None (c\<lparr>ac_log := ac_log c @ log\<rparr>)
      | (log, Some (Reply status body ok)) \<Rightarrow>
          store_avatar t key
            (if status \<noteq> 200 then None
             else case read_limited (Suc max_avatar_bytes) body ok of
                    None \<Rightarrow> None
                  | Some raw \<Rightarrow> if raw = [] \<or> length raw > max_avatar_bytes then None else decode_avatar x raw)
            (c\<lparr>ac_log := ac_log c @ log\<rparr>))"

text \<open>\<open>accountDomains\<close>: the domains of the accounts, without repetition and in order.\<close>

definition add_domain :: "account \<Rightarrow> string list \<Rightarrow> string list" where
  "add_domain a doms =
     (case avatar_domain (a_EmailAddress a) of
        None \<Rightarrow> doms
      | Some (_, d) \<Rightarrow> if d \<in> set doms then doms else doms @ [d])"

definition account_domains :: "account list \<Rightarrow> string list" where
  "account_domains accounts = sort (fold add_domain accounts [])"

text \<open>The start of a frame: the list is applied when it has changed.\<close>

definition avatar_frame :: "account list \<Rightarrow> avatar_cache \<Rightarrow> avatar_cache" where
  "avatar_frame accounts c =
     (let doms = account_domains accounts; sig = join_with '','' doms
      in if sig \<noteq> ac_sig c then set_allowed_domains doms (c\<lparr>ac_sig := sig\<rparr>) else c)"

section \<open>Runs\<close>

datatype avatar_op =
    AvatarFrame "account list"
  | AvatarImage int string
  | AvatarFetch ext int nat

fun avatar_step :: "image_ext \<Rightarrow> avatar_op \<Rightarrow> avatar_cache \<Rightarrow> avatar_cache" where
  "avatar_step x (AvatarFrame accounts) c = avatar_frame accounts c"
| "avatar_step x (AvatarImage t email) c = snd (avatar_image t email c)"
| "avatar_step x (AvatarFetch net t i) c =
     (if i < length (ac_pending c)
      then (case ac_pending c ! i of
              (key, domain) \<Rightarrow> fetch_avatar net x t key domain (c\<lparr>ac_pending := take i (ac_pending c) @ drop (Suc i) (ac_pending c)\<rparr>))
      else c)"

definition avatar_run :: "image_ext \<Rightarrow> avatar_op list \<Rightarrow> avatar_cache" where
  "avatar_run x ops = fold (avatar_step x) ops new_cache"

section \<open>Which servers are asked\<close>

fun frames :: "avatar_op list \<Rightarrow> account list" where
  "frames [] = []"
| "frames (AvatarFrame accounts # ops) = accounts @ frames ops"
| "frames (_ # ops) = frames ops"

lemma frames_append: "frames (ops @ [op]) = frames ops @ (case op of AvatarFrame accounts \<Rightarrow> accounts | _ \<Rightarrow> [])"
  by (induction ops rule: frames.induct) (auto split: avatar_op.split)

definition account_hosts :: "account list \<Rightarrow> string set" where
  "account_hosts accounts = {to_lower (trim_space d) | a k d. a \<in> set accounts \<and> avatar_domain (a_EmailAddress a) = Some (k, d)}"

lemma account_domains_hosts: "(\<lambda>d. to_lower (trim_space d)) ` set (account_domains accounts) \<subseteq> account_hosts accounts"
proof -
  have "d \<in> set (fold add_domain accounts ds) \<Longrightarrow> d \<in> set ds \<or> (\<exists>a k. a \<in> set accounts \<and> avatar_domain (a_EmailAddress a) = Some (k, d))" for d ds
  proof (induction accounts arbitrary: ds)
    case (Cons a accounts)
    from Cons.IH [of "add_domain a ds"] Cons.prems
    have "d \<in> set (add_domain a ds) \<or> (\<exists>a k. a \<in> set accounts \<and> avatar_domain (a_EmailAddress a) = Some (k, d))" by simp
    moreover have "d \<in> set (add_domain a ds) \<Longrightarrow> d \<in> set ds \<or> (\<exists>k. avatar_domain (a_EmailAddress a) = Some (k, d))"
      by (auto simp: add_domain_def split: option.splits if_splits)
    ultimately show ?case by auto
  qed simp
  from this [of _ "[]"] show ?thesis unfolding account_domains_def account_hosts_def by fastforce
qed

text \<open>Domains come from accounts; what is being fetched is marked so and listed once.\<close>

definition hosts_inv :: "image_ext \<Rightarrow> string set \<Rightarrow> avatar_cache \<Rightarrow> bool" where
  "hosts_inv x H c \<longleftrightarrow> set (ac_allowed c) \<subseteq> H \<and> snd ` set (ac_pending c) \<subseteq> H
     \<and> rq_url ` set (ac_log c) \<subseteq> {avatar_url x key d | key d. d \<in> H}"

definition flight_inv :: "avatar_cache \<Rightarrow> bool" where
  "flight_inv c \<longleftrightarrow> distinct (map fst (ac_pending c))
     \<and> fst ` set (ac_pending c) \<subseteq> {key. ae_state (entry_of key c) = StateLoading}"

lemma hosts_inv_mono: "hosts_inv x H c \<Longrightarrow> H \<subseteq> H' \<Longrightarrow> hosts_inv x H' c"
  unfolding hosts_inv_def by blast

lemma put_entry_entry: "entry_of k (put_entry key e c) = (if k = key then e else entry_of k c)"
  by (simp add: entry_of_def put_entry_def)

lemma entry_frame [simp]:
  "entry_of k (c\<lparr>ac_sig := sig\<rparr>) = entry_of k c" "entry_of k (c\<lparr>ac_pending := ps\<rparr>) = entry_of k c" "entry_of k (c\<lparr>ac_log := lg\<rparr>) = entry_of k c"
  by (simp_all add: entry_of_def)

lemma put_entry_fields [simp]:
  "ac_allowed (put_entry key e c) = ac_allowed c" "ac_pending (put_entry key e c) = ac_pending c" "ac_log (put_entry key e c) = ac_log c"
  by (simp_all add: put_entry_def)

lemma hosts_inv_put [simp]: "hosts_inv x H (put_entry key e c) = hosts_inv x H c"
  by (simp add: hosts_inv_def)

lemma flight_inv_put: "flight_inv c \<Longrightarrow> key \<notin> fst ` set (ac_pending c) \<or> ae_state e = StateLoading \<Longrightarrow> flight_inv (put_entry key e c)"
  by (auto simp: flight_inv_def put_entry_entry)

lemma frame_inv:
  "hosts_inv x H c \<Longrightarrow> account_hosts accounts \<subseteq> H \<Longrightarrow> hosts_inv x H (avatar_frame accounts c)"
  "flight_inv c \<Longrightarrow> flight_inv (avatar_frame accounts c)"
proof -
  show "hosts_inv x H c \<Longrightarrow> account_hosts accounts \<subseteq> H \<Longrightarrow> hosts_inv x H (avatar_frame accounts c)"
    using account_domains_hosts [of accounts] by (auto simp: avatar_frame_def set_allowed_domains_def hosts_inv_def Let_def)
  have "ae_state (entry_of k c') = StateLoading \<Longrightarrow> ae_state (entry_of k (set_allowed_domains ds c')) = StateLoading" for k ds c'
    by (auto simp: entry_of_def set_allowed_domains_def split: option.splits)
  moreover have "ac_pending (set_allowed_domains ds c') = ac_pending c'" for ds c' by (simp add: set_allowed_domains_def)
  ultimately show "flight_inv c \<Longrightarrow> flight_inv (avatar_frame accounts c)"
    by (auto simp: avatar_frame_def flight_inv_def Let_def)
qed

lemma image_inv:
  "hosts_inv x H c \<Longrightarrow> hosts_inv x H (snd (avatar_image t email c))"
  "flight_inv c \<Longrightarrow> flight_inv (snd (avatar_image t email c))"
proof -
  have "hosts_inv x H c \<Longrightarrow> d \<in> set (ac_allowed c) \<Longrightarrow> hosts_inv x H (c\<lparr>ac_pending := ac_pending c @ [(key, d)]\<rparr>)" for key d
    by (auto simp: hosts_inv_def)
  moreover have "(put_entry key e c)\<lparr>ac_pending := ps\<rparr> = put_entry key e (c\<lparr>ac_pending := ps\<rparr>)" for key e ps c
    by (simp add: put_entry_def)
  ultimately show "hosts_inv x H c \<Longrightarrow> hosts_inv x H (snd (avatar_image t email c))"
    by (simp add: avatar_image_def Let_def split: option.split prod.split)
  have "flight_inv ((put_entry key (e\<lparr>ae_state := StateLoading\<rparr>) (put_entry key e' c))\<lparr>ac_pending := ac_pending c @ [(key, d)]\<rparr>)"
    if "flight_inv c" "ae_state (entry_of key c) \<noteq> StateLoading" for key d e e'
    using that by (auto simp: flight_inv_def put_entry_entry)
  moreover have "flight_inv (put_entry key e (put_entry key e' c))" if "flight_inv c" "ae_state (entry_of key c) \<noteq> StateLoading" for key e e'
    using that by (auto simp: flight_inv_def put_entry_entry)
  moreover have "flight_inv (put_entry key (entry_of key c) c)" if "flight_inv c" for key
    using that by (auto simp: flight_inv_def put_entry_entry)
  ultimately show "flight_inv c \<Longrightarrow> flight_inv (snd (avatar_image t email c))"
    by (auto simp: avatar_image_def Let_def split: option.split)
qed

lemma fetch_inv:
  assumes i: "i < length (ac_pending c)" and kd: "ac_pending c ! i = (key, d)"
    and c': "c' = c\<lparr>ac_pending := take i (ac_pending c) @ drop (Suc i) (ac_pending c)\<rparr>"
  shows "hosts_inv x H c \<Longrightarrow> hosts_inv x H (fetch_avatar net x t key d c')" "flight_inv c \<Longrightarrow> flight_inv (fetch_avatar net x t key d c')"
proof -
  let ?ps = "take i (ac_pending c) @ drop (Suc i) (ac_pending c)"
  have sub: "set ?ps \<subseteq> set (ac_pending c)" by (auto dest: in_set_takeD in_set_dropD)
  show "hosts_inv x H (fetch_avatar net x t key d c')" if inv: "hosts_inv x H c"
  proof -
    have "(key, d) \<in> set (ac_pending c)" using nth_mem [OF i] kd by simp
    then have "snd (key, d) \<in> H" using inv unfolding hosts_inv_def by blast
    then have "d \<in> H" by simp
    moreover have "snd ` set ?ps \<subseteq> H" using sub inv unfolding hosts_inv_def by blast
    moreover have "avatar_url x key d \<in> {avatar_url x key d | key d. d \<in> H}" using \<open>d \<in> H\<close> by blast
    ultimately have "hosts_inv x H (c'\<lparr>ac_log := ac_log c' @ lg\<rparr>)" if "rq_url ` set lg \<subseteq> {avatar_url x key d}" for lg
      using inv that unfolding hosts_inv_def c' by (simp add: image_Un del: mem_Collect_eq) (rule subset_trans, assumption, simp del: mem_Collect_eq)
    from this this [of "[]"] show ?thesis
      by (simp add: fetch_avatar_def store_avatar_def send_request_def get_request_def split: reply.split)
  qed
  show "flight_inv (fetch_avatar net x t key d c')" if inv: "flight_inv c"
  proof -
    have "map fst (ac_pending c) = map fst (take i (ac_pending c)) @ key # map fst (drop (Suc i) (ac_pending c))"
      using id_take_nth_drop [OF i] kd by (metis (no_types, lifting) fst_conv list.simps(9) map_append)
    with inv have "distinct (map fst ?ps)" "key \<notin> fst ` set ?ps" unfolding flight_inv_def by auto
    moreover have "fst ` set ?ps \<subseteq> {key. ae_state (entry_of key c) = StateLoading}" using inv sub unfolding flight_inv_def by blast
    ultimately have "key \<notin> fst ` set ?ps" "flight_inv (c'\<lparr>ac_log := lg\<rparr>)" for lg by (simp_all add: flight_inv_def c')
    then have "flight_inv (put_entry key e (c'\<lparr>ac_log := lg\<rparr>))" for e lg by (intro flight_inv_put) (simp_all add: c')
    from this this [of _ "ac_log c'"] show ?thesis
      by (simp add: fetch_avatar_def store_avatar_def send_request_def split: reply.split)
  qed
qed

lemma account_hosts_append [simp]: "account_hosts (as @ bs) = account_hosts as \<union> account_hosts bs"
  unfolding account_hosts_def set_append by blast

lemma avatar_run_inv: "hosts_inv x (account_hosts (frames ops)) (avatar_run x ops)" "flight_inv (avatar_run x ops)"
proof (induction ops rule: rev_induct)
  case Nil
  show "hosts_inv x (account_hosts (frames [])) (avatar_run x [])" "flight_inv (avatar_run x [])"
    by (simp_all add: hosts_inv_def flight_inv_def avatar_run_def new_cache_def)
next
  case (snoc op ops)
  let ?c = "avatar_run x ops"
  have run: "avatar_run x (ops @ [op]) = avatar_step x op ?c" by (simp add: avatar_run_def)
  show "flight_inv (avatar_run x (ops @ [op]))"
    using snoc(2) unfolding run by (cases op) (simp_all add: frame_inv image_inv fetch_inv [OF _ _ refl] split: prod.split)
  have "hosts_inv x (account_hosts (frames (ops @ [op]))) ?c" by (rule hosts_inv_mono [OF snoc(1)]) (auto simp: frames_append)
  then show "hosts_inv x (account_hosts (frames (ops @ [op]))) (avatar_run x (ops @ [op]))"
    unfolding run by (cases op) (simp_all add: frames_append frame_inv image_inv fetch_inv [OF _ _ refl] split: prod.split)
qed


text \<open>Pictures are square and taken from within the image.\<close>

theorem square_crop_inside:
  assumes "square_crop b = Some c" and "0 \<le> dx b" and "0 \<le> dy b"
  shows "dx c = dy c \<and> dx c = min (dx b) (dy b) \<and> x_min b \<le> x_min c \<and> x_max c \<le> x_max b \<and> y_min b \<le> y_min c \<and> y_max c \<le> y_max b"
  using assms by (auto simp: square_crop_def dx_def dy_def Let_def min_def split: if_splits)

theorem decoded_square:
  assumes "decode_avatar x raw = Some r"
  shows "dx r = dy r"
proof -
  have "square_crop b = Some c \<Longrightarrow> dx c = dy c" "square_crop b = None \<Longrightarrow> dx b = dy b" for b c
    by (auto simp: square_crop_def dx_def dy_def Let_def split: if_splits)
  then show ?thesis using assms
    by (auto simp: decode_avatar_def raster_px_def split: if_splits option.splits) (simp_all add: dx_def dy_def)
qed

end
