(* ===== verification/Shell.thy ===== *)
theory Shell
  imports AppView Avatar
begin

text \<open>
  The shell around the screens: the navigation stack (src/ui/state/nav.go), the snackbar (src/ui/widgets/snackbar.go),
  the frame loop with its lock gate, onboarding, back key and deep links (src/ui/app.go and mailnav.go), and system
  notifications (src/ui/notifications.go).

  A frame is what it draws and what it changes; the drawing of the screens, the easing of animations in floating point
  and the wake-ups of the window are not modelled. Instants are nanoseconds.
\<close>

section \<open>Navigation\<close>

datatype screen = ScreenInbox | ScreenThread | ScreenCompose | ScreenSetup | ScreenSettings | ScreenSearch | ScreenLock
  | ScreenTalk | ScreenTalkRoom | ScreenTalkVerify

record nav =
  nv_stack :: "screen list"
  nv_animStart :: int
  nv_pushing :: bool
  nv_animating :: bool
  nv_leaving :: screen
  nv_hero :: "rect option"

definition new_nav :: "screen \<Rightarrow> nav" where
  "new_nav root = \<lparr>nv_stack = [root], nv_animStart = 0, nv_pushing = False, nv_animating = False, nv_leaving = ScreenInbox, nv_hero = None\<rparr>"

definition arm_hero :: "rect \<Rightarrow> nav \<Rightarrow> nav" where "arm_hero r n = n\<lparr>nv_hero := Some r\<rparr>"

definition take_hero :: "nav \<Rightarrow> rect option \<times> nav" where "take_hero n = (nv_hero n, n\<lparr>nv_hero := None\<rparr>)"

definition nav_current :: "nav \<Rightarrow> screen" where "nav_current n = last (nv_stack n)"

definition nav_depth :: "nav \<Rightarrow> nat" where "nav_depth n = length (nv_stack n)"

definition nav_under :: "nav \<Rightarrow> screen" where
  "nav_under n = (if length (nv_stack n) < 2 then hd (nv_stack n) else nv_stack n ! (length (nv_stack n) - 2))"

definition nav_push :: "screen \<Rightarrow> int \<Rightarrow> nav \<Rightarrow> nav" where
  "nav_push s t n =
     (if nav_current n = s then n
      else n\<lparr>nv_stack := nv_stack n @ [s], nv_animStart := t, nv_pushing := True, nv_animating := True\<rparr>)"

definition nav_pop :: "int \<Rightarrow> nav \<Rightarrow> bool \<times> nav" where
  "nav_pop t n =
     (let n = n\<lparr>nv_hero := None\<rparr>
      in if length (nv_stack n) \<le> 1 then (False, n)
         else (True, n\<lparr>nv_leaving := nav_current n, nv_stack := butlast (nv_stack n), nv_animStart := t, nv_pushing := False,
                       nv_animating := True\<rparr>))"

definition nav_replace :: "screen \<Rightarrow> nav \<Rightarrow> nav" where
  "nav_replace root n = n\<lparr>nv_stack := [root], nv_animating := False, nv_hero := None\<rparr>"

definition push_duration :: int where "push_duration = 200 * 1000000"
definition pop_duration :: int where "pop_duration = 150 * 1000000"

text \<open>\<open>Transition\<close> without its progress: entering, leaving, done.\<close>

definition nav_transition :: "int \<Rightarrow> nav \<Rightarrow> (bool \<times> screen \<times> bool) \<times> nav" where
  "nav_transition t n =
     (if \<not> nv_animating n then ((False, ScreenInbox, True), n)
      else if t - nv_animStart n \<ge> (if nv_pushing n then push_duration else pop_duration)
      then ((nv_pushing n, nv_leaving n, True), n\<lparr>nv_animating := False\<rparr>)
      else ((nv_pushing n, nv_leaving n, False), n))"

section \<open>The snackbar\<close>

text \<open>An action is a value; \<open>sb_fired\<close> are the callbacks that were started.\<close>

datatype 'a fired = Commit 'a | Undo 'a

record 'a snackbar =
  sb_msg :: string
  sb_shownAt :: int
  sb_visible :: bool
  sb_hiding :: bool
  sb_hideAt :: int
  sb_onUndo :: "'a option"
  sb_onCommit :: "'a option"
  sb_fired :: "'a fired list"

definition new_snackbar :: "'a snackbar" where
  "new_snackbar = \<lparr>sb_msg = [], sb_shownAt = 0, sb_visible = False, sb_hiding = False, sb_hideAt = 0, sb_onUndo = None,
     sb_onCommit = None, sb_fired = []\<rparr>"

definition snackbar_lifetime :: int where "snackbar_lifetime = 4 * second"
definition snackbar_slide_out :: int where "snackbar_slide_out = 120 * 1000000"

definition fire :: "('a \<Rightarrow> 'a fired) \<Rightarrow> 'a option \<Rightarrow> 'a snackbar \<Rightarrow> 'a snackbar" where
  "fire f a s = (case a of None \<Rightarrow> s | Some a \<Rightarrow> s\<lparr>sb_fired := sb_fired s @ [f a]\<rparr>)"

definition snack_show :: "int \<Rightarrow> string \<Rightarrow> 'a option \<Rightarrow> 'a option \<Rightarrow> 'a snackbar \<Rightarrow> 'a snackbar" where
  "snack_show t msg onUndo onCommit s =
     (let s = (if sb_visible s then fire Commit (sb_onCommit s) s else s)
      in s\<lparr>sb_msg := msg, sb_onUndo := onUndo, sb_onCommit := onCommit, sb_shownAt := t, sb_visible := True, sb_hiding := False\<rparr>)"

definition show_info :: "int \<Rightarrow> string \<Rightarrow> 'a snackbar \<Rightarrow> 'a snackbar" where
  "show_info t msg = snack_show t msg None None"

definition snack_layout :: "int \<Rightarrow> bool \<Rightarrow> 'a snackbar \<Rightarrow> 'a snackbar" where
  "snack_layout t clicked s =
     (if \<not> sb_visible s then s
      else (let s = (if \<not> sb_hiding s \<and> t - sb_shownAt s \<ge> snackbar_lifetime
                     then (fire Commit (sb_onCommit s) s)\<lparr>sb_hiding := True, sb_hideAt := t, sb_onCommit := None\<rparr> else s)
            in if sb_hiding s \<and> t - sb_hideAt s \<ge> snackbar_slide_out then s\<lparr>sb_visible := False\<rparr>
               else if clicked
               then (fire Undo (sb_onUndo s) s)\<lparr>sb_onUndo := None, sb_onCommit := None, sb_hiding := True, sb_hideAt := t\<rparr>
               else s))"

section \<open>Notifications\<close>

record notifier =
  nt_backend :: bool
  nt_startedAt :: int
  nt_queue :: "(int \<times> int \<times> nat) list"
  nt_batch :: "(int \<times> int \<times> nat) list"
  nt_posted :: "(string \<times> string) list"

definition new_notifier :: "bool \<Rightarrow> int \<Rightarrow> notifier" where
  "new_notifier backend t = \<lparr>nt_backend = backend, nt_startedAt = t, nt_queue = [], nt_batch = [], nt_posted = []\<rparr>"

definition notify_startup_grace :: int where "notify_startup_grace = 45 * second"
definition notify_cap :: nat where "notify_cap = 64"

text \<open>A queued event is its account, folder and UID.\<close>

definition observe :: "int \<Rightarrow> prefs \<Rightarrow> event \<Rightarrow> notifier \<Rightarrow> notifier" where
  "observe t p ev n =
     (if \<not> nt_backend n then n
      else case ev of
             NewMessageEvent aid fid uid \<Rightarrow>
               if t - nt_startedAt n < notify_startup_grace then n
               else if \<not> p_NotificationsOn p then n
               else n\<lparr>nt_queue := snd (try_send notify_cap (aid, fid, uid) (nt_queue n))\<rparr>
           | _ \<Rightarrow> n)"

definition notify_chat :: "int \<Rightarrow> prefs \<Rightarrow> string \<Rightarrow> notifier \<Rightarrow> notifier" where
  "notify_chat t p peer n =
     (if \<not> nt_backend n then n
      else if t - nt_startedAt n < notify_startup_grace then n
      else if \<not> p_NotificationsOn p then n
      else n\<lparr>nt_posted := nt_posted n @ [(''VayuTalk'',
             if peer \<noteq> [] \<and> p_NotifyPreviewOn p then ''New message from '' @ peer else ''New VayuTalk message'')]\<rparr>)"

definition mailbox_label :: "int \<Rightarrow> int \<Rightarrow> db \<Rightarrow> string \<times> db" where
  "mailbox_label aid fid d =
     (if aid = 0 then ([], d)
      else case get_account aid d of
             (Inl _, d) \<Rightarrow> ([], d)
           | (Inr acct, d) \<Rightarrow>
               (let label = (if a_EmailAddress acct = [] then a_DisplayName acct else a_EmailAddress acct)
                in if fid \<noteq> 0
                   then (case get_folder fid d of
                           (Inl _, d) \<Rightarrow> (label, d)
                         | (Inr f, d) \<Rightarrow> (if \<not> f_IsInbox f \<and> f_Name f \<noteq> [] then label @ ''/'' @ f_Name f else label, d))
                   else (label, d)))"

definition middle_dot :: string where "middle_dot = ''  '' @ [CHR 0xC2, CHR 0xB7] @ ''  ''"

definition render_one :: "int \<times> int \<times> nat \<Rightarrow> db \<Rightarrow> (string \<times> string) \<times> db" where
  "render_one ev d =
     (let (aid, fid, uid) = ev;
          (r, d) = get_message_by_uid fid uid d;
          (title, body) =
            (case r of
               Inl _ \<Rightarrow> (''New mail'', [])
             | Inr m \<Rightarrow>
                 (let sender = (if m_FromName m = [] then m_FromAddr m else m_FromName m)
                  in (if sender \<noteq> [] then sender else ''New mail'', if m_Subject m = [] then ''(no subject)'' else m_Subject m)));
          (label, d) = mailbox_label aid fid d
      in ((title, if label = [] then body else if body \<noteq> [] then body @ middle_dot @ label else label), d))"

definition render_batch :: "prefs \<Rightarrow> (int \<times> int \<times> nat) list \<Rightarrow> db \<Rightarrow> (string \<times> string) \<times> db" where
  "render_batch p batch d =
     (let count = itoa (int (length batch)) @ '' new messages''
      in if batch = [] then ((''New mail'', []), d)
         else if \<not> p_NotifyPreviewOn p then ((''New mail'', if length batch > 1 then count else []), d)
         else if length batch = 1 then render_one (hd batch) d
         else (let same = (if list_all (\<lambda>ev. fst ev = fst (hd batch)) (tl batch) then fst (hd batch) else 0);
                   (label, d) = (if same \<noteq> 0 then mailbox_label same 0 d else ([], d))
               in ((''New mail'', if label \<noteq> [] then count @ '' in '' @ label else count), d)))"

text \<open>The loop goroutine: it receives into its batch, and posts the batch when the timer fires. The text reaches the
  platform through the tappable bridge or the plain notifier.\<close>

definition notifier_receive :: "notifier \<Rightarrow> notifier" where
  "notifier_receive n = (case nt_queue n of [] \<Rightarrow> n | ev # evs \<Rightarrow> n\<lparr>nt_queue := evs, nt_batch := nt_batch n @ [ev]\<rparr>)"

definition notifier_timer :: "prefs \<Rightarrow> db \<Rightarrow> notifier \<Rightarrow> notifier \<times> db" where
  "notifier_timer p d n =
     (if nt_batch n = [] then (n, d)
      else (let (texts, d) = render_batch p (nt_batch n) d in (n\<lparr>nt_batch := [], nt_posted := nt_posted n @ [texts]\<rparr>, d)))"

section \<open>Frames\<close>

record 'k ui =
  ui_app :: "'k app"
  ui_nav :: nav
  ui_avatars :: avatar_cache
  ui_lastFrame :: "int option"
  ui_target :: "(int \<times> int) option"
  ui_dialog :: bool
  ui_drawer :: bool
  ui_hero :: "rect option"
  ui_closed :: bool

datatype drawn = Drawn_lock | Drawn "screen list"

definition set_mail_nav_target :: "int \<Rightarrow> int \<Rightarrow> 'k ui \<Rightarrow> 'k ui" where
  "set_mail_nav_target acct folder u = u\<lparr>ui_target := Some (acct, folder)\<rparr>"

definition consume_mail_nav_target :: "'k ui \<Rightarrow> (int \<times> int) option \<times> 'k ui" where
  "consume_mail_nav_target u = (ui_target u, u\<lparr>ui_target := None\<rparr>)"

text \<open>One press of the back key.\<close>

definition back_key :: "int \<Rightarrow> 'k ui \<Rightarrow> 'k ui" where
  "back_key t u =
     (if ui_dialog u then u\<lparr>ui_dialog := False\<rparr>
      else if ui_drawer u then u\<lparr>ui_drawer := False\<rparr>
      else case nav_pop t (ui_nav u) of
             (True, n) \<Rightarrow> u\<lparr>ui_nav := n\<rparr>
           | (False, n) \<Rightarrow> u\<lparr>ui_nav := n, ui_closed := True\<rparr>)"

definition onboarding :: "account list \<Rightarrow> nav \<Rightarrow> nav" where
  "onboarding accounts n =
     (let n = (if accounts = [] \<and> nav_current n \<noteq> ScreenSetup then nav_replace ScreenSetup n else n)
      in if accounts \<noteq> [] \<and> nav_current n = ScreenSetup \<and> nav_depth n = 1 then nav_replace ScreenInbox n else n)"

definition open_target :: "account list \<Rightarrow> 'k ui \<Rightarrow> 'k ui" where
  "open_target accounts u =
     (case consume_mail_nav_target u of
        (Some (acct, folder), u) \<Rightarrow>
          if accounts \<noteq> []
          then (let a = select_account acct (ui_app u);
                    a = (if folder > 0 then select_folder folder a else a)
                in u\<lparr>ui_app := a,
                     ui_nav := (if nav_current (ui_nav u) \<noteq> ScreenInbox then nav_replace ScreenInbox (ui_nav u) else ui_nav u)\<rparr>)
          else u
      | (None, u) \<Rightarrow> u)"

text \<open>The screens a frame draws, from the bottom up, and the container the hero transition grows from.\<close>

definition draw_screens :: "int \<Rightarrow> 'k ui \<Rightarrow> screen list \<times> 'k ui" where
  "draw_screens t u =
     (case nav_transition t (ui_nav u) of
        ((entering, leaving, fin), n) \<Rightarrow>
          (let current = nav_current (ui_nav u);
               u = u\<lparr>ui_nav := n, ui_hero := (if fin \<or> \<not> entering then None else ui_hero u)\<rparr>;
               u = (if entering \<and> \<not> fin
                    then (case take_hero (ui_nav u) of
                            (Some r, n) \<Rightarrow> u\<lparr>ui_nav := n, ui_hero := Some r\<rparr> | (None, n) \<Rightarrow> u\<lparr>ui_nav := n\<rparr>)
                    else u)
           in (if fin then [current] else if entering then [nav_under (ui_nav u), current] else [current, leaving], u)))"

definition ui_layout :: "int \<Rightarrow> nat \<Rightarrow> 'k ui \<Rightarrow> drawn \<times> 'k ui" where
  "ui_layout t presses u =
     (let accounts = sp_Accounts (ap_snap (ui_app u));
          u = u\<lparr>ui_avatars := avatar_frame accounts (ui_avatars u)\<rparr>
      in if g_locked (ap_gate (ui_app u)) then (Drawn_lock, u)
         else (let u = (back_key t ^^ presses) u;
                   u = u\<lparr>ui_nav := onboarding accounts (ui_nav u)\<rparr>;
                   (ss, u) = draw_screens t (open_target accounts u)
               in (Drawn ss, u)))"

definition ui_frame :: "int \<Rightarrow> nat \<Rightarrow> 'k ui \<Rightarrow> drawn \<times> 'k ui" where
  "ui_frame t presses u =
     (let u = (case ui_lastFrame u of
                 None \<Rightarrow> u | Some l \<Rightarrow> u\<lparr>ui_app := with_gate (maybe_auto_lock (t - l)) (ui_app u)\<rparr>)
      in ui_layout t presses (u\<lparr>ui_lastFrame := Some t\<rparr>))"

section \<open>Navigation and frames\<close>

lemma nav_pop_stack: "nv_stack (snd (nav_pop t n)) = (if length (nv_stack n) \<le> 1 then nv_stack n else butlast (nv_stack n))"
  by (simp add: nav_pop_def Let_def)

lemma pops_stack: "k < length (nv_stack n) \<Longrightarrow> nv_stack (((snd \<circ> nav_pop t) ^^ k) n) = take (length (nv_stack n) - k) (nv_stack n)"
proof (induction k)
  case (Suc k)
  then show ?case by (simp add: nav_pop_stack butlast_take)
qed simp

text \<open>The back key always leads out: from any stack it is consumed exactly as often as there are screens above the root,
  the screens come back in reverse order, and the next press leaves the application.\<close>

theorem back_leads_to_root:
  assumes "k < nav_depth n"
  shows "nav_current (((snd \<circ> nav_pop t) ^^ k) n) = nv_stack n ! (nav_depth n - Suc k)
    \<and> (fst (nav_pop t (((snd \<circ> nav_pop t) ^^ k) n)) \<longleftrightarrow> Suc k < nav_depth n)"
proof -
  let ?m = "nav_depth n - k"
  have "nv_stack (((snd \<circ> nav_pop t) ^^ k) n) = take ?m (nv_stack n)" "0 < ?m" "?m \<le> length (nv_stack n)"
    using pops_stack [of k n t] assms by (simp_all add: nav_depth_def)
  moreover from this have "last (take ?m (nv_stack n)) = nv_stack n ! (?m - 1)"
    by (subst last_conv_nth) auto
  ultimately show ?thesis by (auto simp: nav_current_def nav_pop_def Let_def min_def)
qed

lemma back_key_frame: "ui_app (back_key t u) = ui_app u" "ui_target (back_key t u) = ui_target u"
  by (simp_all add: back_key_def split: prod.split bool.split)

lemma back_keys_frame: "ui_app ((back_key t ^^ k) u) = ui_app u" "ui_target ((back_key t ^^ k) u) = ui_target u"
  by (induction k) (simp_all add: back_key_frame)

lemma app_send_fields:
  "ap_selAccount (app_send c s) = ap_selAccount s" "ap_selFolder (app_send c s) = ap_selFolder s" "ap_refresh (app_send c s) = ap_refresh s"
  by (simp_all add: app_send_def app_notify_def split: prod.split bool.split)

lemma draw_frame:
  "ui_app (snd (draw_screens t u)) = ui_app u" "ui_target (snd (draw_screens t u)) = ui_target u"
  "nv_stack (ui_nav (snd (draw_screens t u))) = nv_stack (ui_nav u)"
  by (simp_all add: draw_screens_def nav_transition_def take_hero_def Let_def split: option.split)

text \<open>After an idle gap nothing of the mail is drawn: the first frame after at least the lock timeout, and never less
  than thirty seconds, draws the lock gate alone. Neither the navigation nor the selection changes, and the mailbox of a
  tapped notification waits for the frame after unlocking.\<close>

theorem idle_frame_draws_lock_only:
  assumes "ui_lastFrame u = Some l" and "g_wired (ap_gate (ui_app u))" and "p_AppLockEnabled (g_snap (ap_gate (ui_app u)))"
    and "max (30 * second) (wrap64 (p_AppLockTimeout (g_snap (ap_gate (ui_app u))) * second)) \<le> t - l"
  shows "fst (ui_frame t k u) = Drawn_lock \<and> ui_nav (snd (ui_frame t k u)) = ui_nav u \<and> ui_target (snd (ui_frame t k u)) = ui_target u
    \<and> ap_selAccount (ui_app (snd (ui_frame t k u))) = ap_selAccount (ui_app u) \<and> ap_selFolder (ui_app (snd (ui_frame t k u))) = ap_selFolder (ui_app u)"
  using assms by (simp add: ui_frame_def ui_layout_def Let_def with_gate_def maybe_auto_lock_def max_def split: if_splits)

text \<open>A tapped notification opens its mailbox: the first frame that is not locked selects the account and the folder it
  names, asks for a reload, shows the inbox screen on an empty stack, and forgets the tap.\<close>

theorem tap_opens_mailbox:
  assumes "ui_target u = Some (acct, folder)" and "sp_Accounts (ap_snap (ui_app u)) \<noteq> []" and "0 < folder"
    and "fst (ui_frame t k u) \<noteq> Drawn_lock"
  shows "let u' = snd (ui_frame t k u)
    in ap_selAccount (ui_app u') = acct \<and> ap_selFolder (ui_app u') = folder \<and> ap_refresh (ui_app u')
     \<and> nav_current (ui_nav u') = ScreenInbox \<and> ui_target u' = None"
proof -
  obtain v where v: "ui_frame t k u = ui_layout t k v" "ap_snap (ui_app v) = ap_snap (ui_app u)" "ui_target v = ui_target u"
    by (simp add: ui_frame_def Let_def with_gate_def split: option.split)
  then have opn: "\<not> g_locked (ap_gate (ui_app v))" using assms(4) by (auto simp: ui_layout_def Let_def)
  let ?w = "(back_key t ^^ k) (v\<lparr>ui_avatars := avatar_frame (sp_Accounts (ap_snap (ui_app u))) (ui_avatars v)\<rparr>)"
  let ?w = "?w\<lparr>ui_nav := onboarding (sp_Accounts (ap_snap (ui_app u))) (ui_nav ?w)\<rparr>"
  have u': "snd (ui_frame t k u) = snd (draw_screens t (open_target (sp_Accounts (ap_snap (ui_app u))) ?w))"
    using v opn by (simp add: ui_layout_def Let_def split_beta)
  have "ui_target ?w = Some (acct, folder)" using v assms(1) by (simp add: back_keys_frame)
  then have "let w = open_target (sp_Accounts (ap_snap (ui_app u))) ?w in ap_selAccount (ui_app w) = acct \<and> ap_selFolder (ui_app w) = folder
      \<and> ap_refresh (ui_app w) \<and> nav_current (ui_nav w) = ScreenInbox \<and> ui_target w = None"
    using assms(2,3)
    by (simp add: open_target_def consume_mail_nav_target_def select_account_def select_folder_def app_refresh_def app_send_fields
        nav_replace_def nav_current_def Let_def)
  then show ?thesis unfolding u' Let_def by (simp add: draw_frame nav_current_def)
qed

text \<open>Without an account the setup screen is on top after every unlocked frame, whatever the stack was.\<close>

theorem no_account_shows_setup:
  assumes "sp_Accounts (ap_snap (ui_app u)) = []" and "fst (ui_frame t k u) = Drawn ss"
  shows "nav_current (ui_nav (snd (ui_frame t k u))) = ScreenSetup"
proof -
  obtain v where v: "ui_frame t k u = ui_layout t k v" "ap_snap (ui_app v) = ap_snap (ui_app u)"
    by (simp add: ui_frame_def Let_def with_gate_def split: option.split)
  have opn: "nav_current (ui_nav (open_target [] w)) = nav_current (ui_nav w)" for w :: "'a ui"
    by (simp add: open_target_def consume_mail_nav_target_def split: option.split)
  have "nav_current (onboarding [] n) = ScreenSetup" for n by (simp add: onboarding_def nav_replace_def nav_current_def)
  then show ?thesis
    using assms v opn [unfolded nav_current_def] by (auto simp: ui_layout_def Let_def split_beta draw_frame nav_current_def split: if_splits)
qed

section \<open>Actions of the snackbar\<close>

datatype 'a snack_op = SnackAction int string 'a | SnackInfo int string | SnackLayout int bool

fun snack_step :: "'a snack_op \<Rightarrow> 'a snackbar \<Rightarrow> 'a snackbar" where
  "snack_step (SnackAction t msg a) s = snack_show t msg (Some a) (Some a) s"
| "snack_step (SnackInfo t msg) s = show_info t msg s"
| "snack_step (SnackLayout t clicked) s = snack_layout t clicked s"

definition snack_run :: "'a snack_op list \<Rightarrow> 'a snackbar" where
  "snack_run ops = fold snack_step ops new_snackbar"

fun armed :: "'a snack_op \<Rightarrow> 'a set" where
  "armed (SnackAction t msg a) = {a}"
| "armed _ = {}"

definition settled :: "'a snackbar \<Rightarrow> 'a set" where
  "settled s = {a. Commit a \<in> set (sb_fired s) \<or> Undo a \<in> set (sb_fired s)}"

definition snack_inv :: "'a set \<Rightarrow> 'a snackbar \<Rightarrow> bool" where
  "snack_inv A s \<longleftrightarrow> A \<subseteq> settled s \<union> set_option (sb_onCommit s)
     \<and> (sb_onCommit s \<noteq> None \<longrightarrow> sb_visible s \<and> \<not> sb_hiding s \<and> sb_onUndo s = sb_onCommit s)"

lemma fire_settles: "settled (fire Commit a s) = settled s \<union> set_option a" "settled (fire Undo a s) = settled s \<union> set_option a"
  by (auto simp: settled_def fire_def split: option.split)

lemma fire_fields [simp]:
  "sb_onCommit (fire f a s) = sb_onCommit s" "sb_onUndo (fire f a s) = sb_onUndo s" "sb_visible (fire f a s) = sb_visible s"
  "sb_hiding (fire f a s) = sb_hiding s" "sb_shownAt (fire f a s) = sb_shownAt s" "sb_hideAt (fire f a s) = sb_hideAt s"
  by (simp_all add: fire_def split: option.split)

lemma settled_frame [simp]:
  "settled (s\<lparr>sb_msg := m, sb_onUndo := u, sb_onCommit := c, sb_shownAt := t, sb_visible := b, sb_hiding := h\<rparr>) = settled s"
  "settled (s\<lparr>sb_hiding := h, sb_hideAt := t, sb_onCommit := c\<rparr>) = settled s" "settled (s\<lparr>sb_visible := b\<rparr>) = settled s"
  "settled (s\<lparr>sb_onUndo := u, sb_onCommit := c, sb_hiding := h, sb_hideAt := t\<rparr>) = settled s"
  by (simp_all add: settled_def)

lemma show_inv: "snack_inv A s \<Longrightarrow> snack_inv (A \<union> set_option a) (snack_show t msg a a s)"
  by (auto simp: snack_inv_def snack_show_def Let_def fire_settles split: if_splits)

lemma layout_inv: "snack_inv A s \<Longrightarrow> snack_inv A (snack_layout t clicked s)"
  by (auto simp: snack_inv_def snack_layout_def Let_def fire_settles split: if_splits)

lemma snack_run_inv: "snack_inv (\<Union> (armed ` set ops)) (snack_run ops)"
proof (induction ops rule: rev_induct)
  case Nil
  show ?case by (simp add: snack_inv_def snack_run_def new_snackbar_def)
next
  case (snoc op ops)
  have run: "snack_run (ops @ [op]) = snack_step op (snack_run ops)" by (simp add: snack_run_def)
  show ?case unfolding run
    using show_inv [OF snoc.IH, of None] show_inv [OF snoc.IH, of "Some a" for a] layout_inv [OF snoc.IH]
    by (cases op) (simp_all add: show_info_def)
qed

text \<open>C32. No action of a snackbar is lost: an archived, deleted or queued message whose snackbar was shown has had its
  commit or its undo started, or is still the pending action of the visible bar, whatever was shown after it and
  whenever the frames come.\<close>

theorem no_action_lost:
  assumes "a \<in> armed op" and "op \<in> set ops"
  shows "Commit a \<in> set (sb_fired (snack_run ops)) \<or> Undo a \<in> set (sb_fired (snack_run ops))
    \<or> sb_onCommit (snack_run ops) = Some a \<and> sb_visible (snack_run ops)"
proof -
  have "a \<in> settled (snack_run ops) \<union> set_option (sb_onCommit (snack_run ops))"
    using snack_run_inv [of ops] assms unfolding snack_inv_def by blast
  then show ?thesis using snack_run_inv [of ops] by (auto simp: settled_def snack_inv_def)
qed

text \<open>An action can be both committed and undone: when the bar expires its commit runs, but Undo stays in place while
  the bar slides out. A tap then deletes the row of a message whose delivery has been ordered.\<close>

theorem commit_and_undo:
  assumes "4 * second \<le> t" and "t \<le> t'" and "t' < t + 120 * 1000000"
  shows "sb_fired (snack_run [SnackAction 0 msg a, SnackLayout t False, SnackLayout t' True]) = [Commit a, Undo a]"
  using assms by (simp add: snack_run_def new_snackbar_def snack_show_def snack_layout_def fire_def snackbar_lifetime_def snackbar_slide_out_def)

section \<open>Privacy of notifications\<close>

datatype notify_op = NotifyObserve int prefs event | NotifyChat int prefs string | NotifyReceive | NotifyTimer prefs

fun notify_step :: "notify_op \<Rightarrow> notifier \<times> db \<Rightarrow> notifier \<times> db" where
  "notify_step (NotifyObserve t p ev) (n, d) = (observe t p ev n, d)"
| "notify_step (NotifyChat t p peer) (n, d) = (notify_chat t p peer n, d)"
| "notify_step NotifyReceive (n, d) = (notifier_receive n, d)"
| "notify_step (NotifyTimer p) (n, d) = notifier_timer p d n"

definition notify_run :: "notify_op list \<Rightarrow> notifier \<Rightarrow> db \<Rightarrow> notifier \<times> db" where
  "notify_run ops n d = fold notify_step ops (n, d)"

fun private_op :: "notify_op \<Rightarrow> bool" where
  "private_op (NotifyChat t p peer) \<longleftrightarrow> \<not> p_NotifyPreviewOn p"
| "private_op (NotifyTimer p) \<longleftrightarrow> \<not> p_NotifyPreviewOn p"
| "private_op _ \<longleftrightarrow> True"

definition plain_text :: "string \<times> string \<Rightarrow> bool" where
  "plain_text tb \<longleftrightarrow> tb = (''VayuTalk'', ''New VayuTalk message'') \<or> tb = (''New mail'', [])
     \<or> (\<exists>n. tb = (''New mail'', itoa n @ '' new messages''))"

lemma step_plain:
  "private_op op \<Longrightarrow> list_all plain_text (nt_posted (fst nd)) \<Longrightarrow> list_all plain_text (nt_posted (fst (notify_step op nd)))"
proof (cases op)
  case (NotifyObserve t p ev)
  assume "list_all plain_text (nt_posted (fst nd))"
  then show ?thesis by (cases nd; cases ev) (simp_all add: NotifyObserve observe_def)
qed (cases nd; auto simp: notify_chat_def notifier_receive_def notifier_timer_def render_batch_def plain_text_def Let_def split: list.split)+

text \<open>C33. With previews turned off nothing of a message reaches the lock screen: every notification of such a run is one of
  the fixed texts, possibly with a count, and carries no sender, subject, mailbox or peer.\<close>

theorem notifications_private:
  assumes "list_all private_op ops"
  shows "list_all plain_text (nt_posted (fst (notify_run ops (new_notifier b t) d)))"
proof -
  have "list_all private_op ops \<Longrightarrow> list_all plain_text (nt_posted (fst nd)) \<Longrightarrow> list_all plain_text (nt_posted (fst (fold notify_step ops nd)))" for nd
    by (induction ops arbitrary: nd) (auto simp: step_plain)
  then show ?thesis using assms by (simp add: notify_run_def new_notifier_def)
qed

text \<open>Nothing is posted for what happens in the first 45 seconds or while notifications are off.\<close>

fun silent_op :: "int \<Rightarrow> notify_op \<Rightarrow> bool" where
  "silent_op t0 (NotifyObserve t p ev) \<longleftrightarrow> t < t0 + 45 * second \<or> \<not> p_NotificationsOn p"
| "silent_op t0 (NotifyChat t p peer) \<longleftrightarrow> t < t0 + 45 * second \<or> \<not> p_NotificationsOn p"
| "silent_op t0 _ \<longleftrightarrow> True"

theorem notifications_silent:
  assumes "list_all (silent_op t0) ops"
  shows "nt_posted (fst (notify_run ops (new_notifier b t0) d)) = []"
proof -
  let ?I = "\<lambda>nd :: notifier \<times> db. nt_posted (fst nd) = [] \<and> nt_queue (fst nd) = [] \<and> nt_batch (fst nd) = [] \<and> nt_startedAt (fst nd) = t0"
  have step: "?I (notify_step op nd)" if "silent_op t0 op" "?I nd" for op nd
  proof (cases op)
    case (NotifyObserve t p ev)
    with that show ?thesis by (cases nd; cases ev) (auto simp: observe_def notify_startup_grace_def)
  qed (use that in \<open>cases nd; auto simp: notify_chat_def notifier_receive_def notifier_timer_def notify_startup_grace_def\<close>)+
  have "list_all (silent_op t0) ops \<Longrightarrow> ?I nd \<Longrightarrow> ?I (fold notify_step ops nd)" for nd
    by (induction ops arbitrary: nd) (use step in auto)
  then show ?thesis using assms by (simp add: notify_run_def new_notifier_def)
qed

section \<open>Witnesses\<close>

theorem back_leads_to_root_witness:
  "nav_current (((snd \<circ> nav_pop 7) ^^ 1) (nav_push ScreenThread 5 (new_nav ScreenInbox))) = ScreenInbox"
proof -
  have "1 < nav_depth (nav_push ScreenThread 5 (new_nav ScreenInbox))" by (simp add: nav_depth_def nav_push_def new_nav_def nav_current_def)
  from back_leads_to_root [OF this, of 7] show ?thesis by (simp add: nav_depth_def nav_push_def new_nav_def nav_current_def)
qed

definition tapped_ui :: "memory_keystore ui" where
  "tapped_ui = set_mail_nav_target 1 4 \<lparr>ui_app = (new_app (sample_mgr sample_keys) (toy_gate\<lparr>g_locked := False\<rparr>))\<lparr>ap_snap := empty_snapshot\<lparr>sp_Accounts := [sample_account]\<rparr>\<rparr>,
     ui_nav = nav_push ScreenSettings 5 (new_nav ScreenInbox), ui_avatars = new_cache, ui_lastFrame = Some 0, ui_target = None, ui_dialog = False,
     ui_drawer = False, ui_hero = None, ui_closed = False\<rparr>"

theorem idle_frame_draws_lock_only_witness:
  "fst (ui_frame (61 * second) 1 tapped_ui) = Drawn_lock \<and> ui_target (snd (ui_frame (61 * second) 1 tapped_ui)) = Some (1, 4)"
proof -
  have "wrap64 (60 * second) = 60 * second" by code_simp
  then show ?thesis
    using idle_frame_draws_lock_only [of tapped_ui 0 "61 * second" 1]
    by (simp add: tapped_ui_def set_mail_nav_target_def new_app_def toy_gate_def toy_prefs_def)
qed

theorem tap_opens_mailbox_witness:
  "ap_selFolder (ui_app (snd (ui_frame second 0 tapped_ui))) = 4"
proof -
  have "wrap64 (60 * second) = 60 * second" by code_simp
  then have "fst (ui_frame second 0 tapped_ui) \<noteq> Drawn_lock"
    by (simp add: ui_frame_def ui_layout_def Let_def split_beta with_gate_def maybe_auto_lock_def tapped_ui_def set_mail_nav_target_def
        new_app_def toy_gate_def toy_prefs_def)
  with tap_opens_mailbox [of tapped_ui 1 4 second 0] show ?thesis
    by (simp add: tapped_ui_def set_mail_nav_target_def new_app_def Let_def)
qed

theorem no_action_lost_witness:
  "Commit (7 :: int) \<in> set (sb_fired (snack_run [SnackAction 0 ''Sending'' 7, SnackInfo 5 ''Offline'']))
   \<or> Undo (7 :: int) \<in> set (sb_fired (snack_run [SnackAction 0 ''Sending'' 7, SnackInfo 5 ''Offline'']))
   \<or> sb_onCommit (snack_run [SnackAction 0 ''Sending'' 7, SnackInfo 5 ''Offline'']) = Some (7 :: int)
     \<and> sb_visible (snack_run [SnackAction 0 ''Sending'' (7 :: int), SnackInfo 5 ''Offline''])"
  by (rule no_action_lost [of _ "SnackAction 0 ''Sending'' 7"]) simp_all

theorem commit_and_undo_witness:
  "sb_fired (snack_run [SnackAction 0 ''Sending'' (7 :: int), SnackLayout (4 * second) False, SnackLayout (4 * second + 1000000) True]) = [Commit 7, Undo 7]"
  by (rule commit_and_undo) simp_all

theorem notifications_private_witness:
  "list_all plain_text (nt_posted (fst (notify_run [NotifyObserve (60 * second) toy_prefs (NewMessageEvent 1 1 4), NotifyReceive,
     NotifyTimer (toy_prefs\<lparr>p_NotifyPreviewOn := False\<rparr>)] (new_notifier True 0) sample_db)))"
  by (rule notifications_private) simp

end
