(* ===== verification/Spec2Isabelle.thy ===== *)
theory Spec2Isabelle
  imports Provision ChatStateLaws AppLaws Shell
begin

text \<open>
  VayuMail-Mobile: the mail client, its chat and its provisioning service.

  \<^bold>\<open>The program.\<close> The client keeps mail in an SQLite database (src/internal/store) and secrets in a keystore
  (src/internal/crypto). The sync manager (src/internal/syncmanager) owns the IMAP connections
  (src/internal/mail/imapsync), executes the commands of the user interface and sends the outbox
  (src/internal/mail/smtpsend); what it stores is parsed and rendered by src/internal/mail/mime, and accounts come from
  setup codes and autoconfiguration (src/internal/mail/account), which the service src/cmd/vayumail-provision issues.
  OpenPGP keys are found, used and kept by src/internal/mail/pgp. VayuTalk (src/internal/chat) is an encrypted chat over
  the same keys. The user interface talks to the engine through src/ui/state: a snapshot that a loader goroutine
  rebuilds, commands into a queue of 64 and events out of a queue of 256, an app lock (src/internal/applock) that
  gates every frame, and a shell (src/ui) that navigates, notifies and draws.

  \<^bold>\<open>The theories\<close>, from the bottom up. A definition has the name of the Go function it translates, in lower case.

  \<^item> \<open>GoPrelude\<close>: what the sources use of Go: byte strings with package \<open>strings\<close>, \<open>strconv\<close>, 64-bit wrap-around,
    channels, runes. \<open>Effects\<close>: functions that return an error beside their value, as actions on a world, with the
    calculus \<open>keeps\<close> of invariants of actions. \<open>Base64\<close>, \<open>Url\<close>: the codec and the URL parser the sources rely on.
  \<^item> \<open>Store\<close>, \<open>StoreMessages\<close>, \<open>StoreOutbox\<close>, \<open>StoreLaws\<close> (internal/store): tables as lists of records, one
    definition per statement, faults of SQL as a script; the integrity \<open>db_inv\<close> of the schema, migration, search
    queries. Every operation keeps \<open>db_inv\<close>; deletions and upserts change exactly what they say; an interrupted
    migration resumes.
  \<^item> \<open>MasterKey\<close>, \<open>Keystore\<close> (internal/crypto): the race of processes for the master key, the sealed file with its
    atomic publication, the in-memory and platform keystores behind one interface.
  \<^item> \<open>AppLock\<close>, \<open>LockGate\<close> (internal/applock, ui/state/lockstate.go): PIN and TOTP, the lockout ladder, the gate and
    its preferences. Guessing is throttled, and only an authenticated step opens the gate.
  \<^item> \<open>Account\<close>, \<open>AccountLaws\<close> (internal/mail/account), \<open>Provision\<close> (cmd/vayumail-provision): configuration, setup
    codes with signatures and pins, autoconfiguration, and the service with its tokens. Requests stay in the domain of
    the address; a code is redeemed once and only if authorized.
  \<^item> \<open>MimeText\<close>, \<open>HtmlRich\<close>, \<open>MimeParse\<close> (internal/mail/mime): text rendering, the HTML sanitizer with its equivalent
    reference, parsing, trackers, attachments.
  \<^item> \<open>ImapSync\<close>, \<open>SyncLaws\<close> (internal/mail/imapsync), \<open>Smtp\<close> (internal/mail/smtpsend): a session against a script of
    server replies, folder sync, flags, IDLE with its reconnects; the outbox with its retries, Bcc, the signed frame.
  \<^item> \<open>SyncManager\<close>, \<open>ManagerLaws\<close> (internal/syncmanager): the manager's commands, connection pool, attachments, key
    exchange and scheduler.
  \<^item> \<open>Wkd\<close>, \<open>Pgp\<close>, \<open>PgpVault\<close> (internal/mail/pgp, ui/state/pgpvault.go): SHA-1 and z-base-32, the keyring, signing,
    encryption, decryption bound to the sender, key discovery, custody of private keys.
  \<^item> \<open>Chat\<close>, \<open>ChatLaws\<close>, \<open>ChatState\<close>, \<open>ChatStateLaws\<close> (internal/chat, ui/state/chatstate*.go): relay protocol, event
    stream, manager, conversations, verification of peers, burning of messages.
  \<^item> \<open>Compose\<close> (ui/widgets/composer*.go, ui/screens/compose.go, smtpsend/compose.go, \<open>buildOutbound\<close>): from the fields
    of the composer to the message that leaves.
  \<^item> \<open>AppData\<close>, \<open>PgpState\<close>, \<open>AppState\<close> (ui/state/appstate*.go, actions.go, pgpstate*.go, decrypt.go): the snapshot and
    everything that changes it; \<open>app_step\<close> is one step of the whole application: a user action, a step of the loader,
    the event pump, a background job, the command loop, a sync session, a pass of the outbox scheduler or the lock
    gate; \<open>app_run\<close> is any sequence of them.
  \<^item> \<open>AppInvariant\<close>, \<open>AppView\<close>, \<open>AppLaws\<close>: what holds in every run: integrity, sealed private keys, consistent
    snapshots, one refetch per message; and properties of keys, conversations and sending.
  \<^item> \<open>Avatar\<close> (internal/avatarimg), \<open>Shell\<close> (ui/app.go, mailnav.go, notifications.go, state/nav.go, widgets/snackbar.go):
    pictures, navigation, frames, snackbar actions, notifications.

  \<^bold>\<open>Interfaces.\<close> Contracts between components are locales, each interpreted on the model's own definitions. In
  particular \<open>guarded\<close> and \<open>sync_invariant\<close> say what a property of the store must satisfy so that every sync action
  keeps it, \<open>mgr_invariant\<close> extends this to the manager's commands, \<open>app_invariant\<close> to the whole application (with
  the sublocale for the lock gate's \<open>settings_invariant\<close>), \<open>chat_invariant\<close> does the same for the chat and
  \<open>view_invariant\<close> for what the screens show. Most are interpreted several times, so that an invariant is proved by
  checking a handful of elementary changes.

  \<^bold>\<open>The outside world.\<close> Code that is not in the repository is an argument: the OpenPGP library, AES-GCM, key
  derivation, HMAC, the JSON decoders, the HTML tokenizer and parser, the MIME reader and writer, the full-text index,
  the network. Theorems that rely on such code name what they need of it as a hypothesis and have a witness with
  concrete functions in its place.

  \<^bold>\<open>Bounds.\<close> Servers and relays are finite scripts of replies; a script that is used up is a broken connection, so
  every session ends, and the theorems hold for every script. Cancellation is a countdown of steps, chosen freely.
  Loops that wait for events are runs over a list of events, of any length; sweeps with an overall timeout take the
  number of addresses they reach. Recursion over messages, lines and tokens is structural or has a measure, so no
  definition needs fuel that could be too small. Goroutines interleave at the level of the steps: database statements
  of one operation run together, except in the loader and in sending, which are split where another step can intervene.

  \<^bold>\<open>Not modelled.\<close> Drawing and gestures of the screens and widgets (ui/screens, ui/widgets apart from the parts named
  above), themes and animation curves in floating point, the boot screen and window loop, the JNI bridges to Android
  (their answers are inputs), the entry points and the icon generator: they keep no state that mail, keys or locks
  depend on. Texts shown to the user leave out quoted error strings. Timeouts of single requests are answers that do
  not come.
\<close>

end
